(* ===== verification/Prelude.thy ===== *)
theory Prelude
  imports Main "HOL-Library.Word"
begin

unbundle bit_operations_syntax

section \<open>Shared vocabulary of the firmware model\<close>

text \<open>
  Machine integers, byte buffers and the pieces of the C library that several components of the
  firmware use.  A C array of fixed size is a list whose length is the array's size; a C string is
  the list of the bytes before its terminating NUL, and an array that holds a C string is read
  through \<open>c_str\<close>.  Reading past the end of a list with \<open>byte_at\<close> gives 0; the components prove,
  where it matters, that they never do.
\<close>

type_synonym u8 = "8 word"
type_synonym u16 = "16 word"
type_synonym u32 = "32 word"
type_synonym u64 = "64 word"
type_synonym bytes = "u8 list"

text \<open>Collections: unfolding rules of the C library model, facts on the sizes of buffers, and the
  preservation lemmas of the components' invariants.\<close>

named_theorems clib_simps
named_theorems len_simps
named_theorems inv_intros

subsection \<open>Big-endian 16-bit fields\<close>

definition hi8 :: "u16 \<Rightarrow> u8" where
  "hi8 x = ucast (drop_bit 8 x)"

definition lo8 :: "u16 \<Rightarrow> u8" where
  "lo8 x = ucast x"

definition shl8_or :: "u16 \<Rightarrow> u8 \<Rightarrow> u16" where
  "shl8_or x d = push_bit 8 x OR ucast d"

lemma shl8_or_twice [simp]: "shl8_or (shl8_or y (hi8 x)) (lo8 x) = x"
  unfolding shl8_or_def hi8_def lo8_def
  by (rule bit_eqI) (auto simp: bit_simps)

lemma unat_shl8_or_twice:
  "unat (shl8_or (shl8_or y a) b) = 256 * unat a + unat b"
proof -
  have "shl8_or (shl8_or y a) b = push_bit 8 (ucast a) OR ucast b"
    unfolding shl8_or_def by (rule bit_eqI) (auto simp: bit_simps)
  also have "\<dots> = push_bit 8 (ucast a) + ucast b"
    by (rule disjunctive_add [symmetric]) (auto simp: bit_simps dest: bit_imp_le_length)
  also have "unat \<dots> = 256 * unat a + unat b"
  proof -
    have a: "unat a < 256" and b: "unat b < 256"
      using unsigned_less [of a] unsigned_less [of b] by simp_all
    have "unat (push_bit 8 (ucast a :: u16)) = 256 * unat a"
      using a by (simp add: push_bit_eq_mult unat_word_ariths unsigned_ucast_eq take_bit_eq_mod)
    then show ?thesis
      using a b by (simp add: unat_word_ariths unsigned_ucast_eq take_bit_eq_mod)
  qed
  finally show ?thesis .
qed

subsection \<open>Bits of a byte\<close>

lemma and_7f: "unat ((w :: u8) AND 0x7f) = unat w mod 128"
proof -
  have "w AND 0x7f = take_bit 7 w" by (simp add: take_bit_eq_mask mask_eq_exp_minus_1)
  then have "w AND 0x7f = w mod 128" by (simp add: take_bit_eq_mod)
  then show ?thesis by (simp add: unat_mod)
qed

lemma and_80: "(w :: u8) AND 0x80 = 0 \<longleftrightarrow> unat w < 128"
proof -
  have "w AND 2 ^ 7 = 0 \<longleftrightarrow> \<not> bit w 7" by (rule and_exp_eq_0_iff_not_bit)
  also have "\<dots> \<longleftrightarrow> \<not> bit (unat w) 7" by (simp add: bit_unsigned_iff)
  also have "\<dots> \<longleftrightarrow> unat w div 128 mod 2 = 0" by (simp add: bit_iff_odd even_iff_mod_2_eq_zero)
  also have "\<dots> \<longleftrightarrow> unat w < 128"
  proof -
    have "unat w < 256" using unsigned_less [of w] by simp
    then have "unat w div 128 < 2" by (intro less_mult_imp_div_less) simp
    then show ?thesis by (simp add: div_eq_0_iff)
  qed
  finally show ?thesis by simp
qed

lemma bit7_iff: "bit (w :: u8) 7 \<longleftrightarrow> 128 \<le> unat w"
  using and_80 [of w] and_exp_eq_0_iff_not_bit [of w 7] by auto

subsection \<open>Buffers\<close>

definition byte_at :: "bytes \<Rightarrow> nat \<Rightarrow> u8" where
  "byte_at b i = (if i < length b then b ! i else 0)"

text \<open>\<open>memcpy (buf + off, src, length src)\<close>, and the assignment \<open>xs [i] = x\<close>.  A write past the end of the array makes the list
  longer: that an array keeps its length says that no write has left it.\<close>

definition mem_write :: "nat \<Rightarrow> 'a list \<Rightarrow> 'a list \<Rightarrow> 'a list" where
  "mem_write off src buf = take off buf @ src @ drop (off + length src) buf"

lemma length_mem_write [simp, len_simps]:
  "off + length src \<le> length buf \<Longrightarrow> length (mem_write off src buf) = length buf"
  by (simp add: mem_write_def)

lemma mem_write_Nil [simp]: "mem_write off [] buf = buf"
  by (simp add: mem_write_def)

lemma take_mem_write_same:
  "off + length src \<le> length buf \<Longrightarrow>
   take (off + length src) (mem_write off src buf) = take off buf @ src"
  by (simp add: mem_write_def)

lemma mem_write_0: "mem_write 0 src buf = src @ drop (length src) buf"
  by (simp add: mem_write_def)

lemma take_mem_write_twice:
  "length h = k \<Longrightarrow> k + length d \<le> length buf \<Longrightarrow>
   take (k + length d) (mem_write k d (mem_write 0 h buf)) = h @ d"
  by (simp add: take_mem_write_same mem_write_0)

lemma mem_write_snoc:
  "off + length src < length buf \<Longrightarrow>
   (mem_write off src buf)[off + length src := x] = mem_write off (src @ [x]) buf"
  by (simp add: mem_write_def list_update_append Cons_nth_drop_Suc [symmetric])

lemma nth_mem_write:
  assumes "off + length src \<le> length buf" "i < length buf"
  shows "mem_write off src buf ! i =
    (if off \<le> i \<and> i < off + length src then src ! (i - off) else buf ! i)"
  using assms by (auto simp: mem_write_def nth_append)

definition poke :: "nat \<Rightarrow> 'a \<Rightarrow> 'a list \<Rightarrow> 'a list" where
  "poke i x xs = (if i < length xs then xs[i := x] else xs @ [x])"

lemma poke_inside [simp]: "i < length xs \<Longrightarrow> poke i x xs = xs[i := x]" by (simp add: poke_def)

lemma poke_mem_write:
  "off + length src < length buf \<Longrightarrow>
   poke (off + length src) x (mem_write off src buf) = mem_write off (src @ [x]) buf"
  by (simp add: mem_write_snoc)

lemma length_poke: "length (poke i x xs) = length xs \<longleftrightarrow> i < length xs" by (simp add: poke_def)

lemma nth_upd: "j < length xs \<Longrightarrow> xs[i := x] ! j = (if i = j then x else xs ! j)"
  by (simp add: nth_list_update)

subsection \<open>C strings\<close>

definition cstr :: "string \<Rightarrow> bytes" where
  "cstr s = map of_char s"

definition c_str :: "bytes \<Rightarrow> bytes" where
  "c_str arr = takeWhile (\<lambda>b. b \<noteq> 0) arr"

text \<open>A byte list that is the content of a C string.\<close>

definition is_cstr :: "bytes \<Rightarrow> bool" where
  "is_cstr s \<longleftrightarrow> 0 \<notin> set s"

lemma c_str_is_cstr [simp]: "is_cstr (c_str a)"
  by (auto simp: is_cstr_def c_str_def dest: set_takeWhileD)

lemma c_str_id [simp]: "is_cstr s \<Longrightarrow> c_str s = s"
  by (auto simp: is_cstr_def c_str_def takeWhile_eq_all_conv)

lemma c_str_append_NUL [simp]: "is_cstr s \<Longrightarrow> c_str (s @ 0 # r) = s"
  by (auto simp: is_cstr_def c_str_def takeWhile_append)

lemma is_cstr_Nil [simp]: "is_cstr []"
  by (simp add: is_cstr_def)

lemma is_cstr_Cons [simp]: "is_cstr (x # s) \<longleftrightarrow> x \<noteq> 0 \<and> is_cstr s"
  by (auto simp: is_cstr_def)

lemma is_cstr_append [simp]: "is_cstr (s @ t) \<longleftrightarrow> is_cstr s \<and> is_cstr t"
  by (auto simp: is_cstr_def)

lemma is_cstr_take: "is_cstr s \<Longrightarrow> is_cstr (take n s)"
  by (auto simp: is_cstr_def dest: in_set_takeD)

lemma c_str_Cons: "c_str (x # xs) = (if x = 0 then [] else x # c_str xs)"
  by (simp add: c_str_def)

lemma length_c_str_le [len_simps]: "length (c_str a) \<le> length a"
  by (simp add: c_str_def length_takeWhile_le)

lemma c_str_take [simp]: "c_str (take (length (c_str s)) s) = c_str s"
proof -
  have "take (length (c_str s)) s = c_str s" by (simp add: c_str_def takeWhile_eq_take [symmetric])
  then show ?thesis by simp
qed

text \<open>\<open>strncmp (a, b, n) == 0\<close>.  The bytes after the end of a list read as the terminator.\<close>

fun strncmp_eq :: "nat \<Rightarrow> bytes \<Rightarrow> bytes \<Rightarrow> bool" where
  "strncmp_eq 0 a b = True"
| "strncmp_eq (Suc n) a b =
     (let x = (case a of [] \<Rightarrow> 0 | c # _ \<Rightarrow> c); y = (case b of [] \<Rightarrow> 0 | c # _ \<Rightarrow> c)
      in if x \<noteq> y then False else if x = 0 then True else strncmp_eq n (tl a) (tl b))"

lemma strncmp_eq_c_str: "strncmp_eq n a b \<longleftrightarrow> take n (c_str a) = take n (c_str b)"
proof (induction n a b rule: strncmp_eq.induct)
  case (2 n a b)
  then show ?case
    by (cases a; cases b) (auto simp: c_str_Cons c_str_def Let_def split: if_splits)
qed simp

text \<open>\<open>strlcpy (dst, src, size)\<close> with \<open>size\<close> positive and at most the size of \<open>dst\<close>.\<close>

definition strlcpy :: "bytes \<Rightarrow> bytes \<Rightarrow> nat \<Rightarrow> bytes" where
  "strlcpy dst src sz = mem_write 0 (take (sz - 1) (c_str src) @ [0]) dst"

lemma length_strlcpy [simp, len_simps]:
  "0 < sz \<Longrightarrow> sz \<le> length dst \<Longrightarrow> length (strlcpy dst src sz) = length dst"
  by (simp add: strlcpy_def)

lemma c_str_strlcpy [simp]: "c_str (strlcpy dst src sz) = take (sz - 1) (c_str src)"
  by (simp add: strlcpy_def mem_write_0 is_cstr_take)

text \<open>\<open>snprintf (dst, size, "%s:%s", a, b)\<close> and its kin: the formatted text is written up to
  \<open>size - 1\<close> bytes and terminated.\<close>

definition snprintf_str :: "bytes \<Rightarrow> nat \<Rightarrow> bytes \<Rightarrow> bytes" where
  "snprintf_str dst sz txt = mem_write 0 (take (sz - 1) txt @ [0]) dst"

lemma length_snprintf_str [simp, len_simps]:
  "0 < sz \<Longrightarrow> sz \<le> length dst \<Longrightarrow> length (snprintf_str dst sz txt) = length dst"
  by (simp add: snprintf_str_def)

lemma c_str_snprintf_str [simp]:
  "is_cstr txt \<Longrightarrow> c_str (snprintf_str dst sz txt) = take (sz - 1) txt"
  by (simp add: snprintf_str_def mem_write_0 is_cstr_take)

text \<open>\<open>strstr\<close>: the offset of the first occurrence.\<close>

fun strstr :: "bytes \<Rightarrow> bytes \<Rightarrow> nat option" where
  "strstr [] pat = (if pat = [] then Some 0 else None)"
| "strstr (c # s) pat =
     (if take (length pat) (c # s) = pat then Some 0 else map_option Suc (strstr s pat))"

text \<open>\<open>printf\<close> of an integer with \<^verbatim>\<open>%d\<close>.\<close>

fun dec_nat :: "nat \<Rightarrow> bytes" where
  "dec_nat n = (if n < 10 then [of_nat (48 + n)] else dec_nat (n div 10) @ [of_nat (48 + n mod 10)])"

declare dec_nat.simps [simp del]

definition dec_int :: "int \<Rightarrow> bytes" where
  "dec_int i = (if i < 0 then 45 # dec_nat (nat (- i)) else dec_nat (nat i))"

subsection \<open>Folding a step over a range of slots\<close>

text \<open>\<open>for (i = 0; i < n; i++) body (i)\<close> over a state.\<close>

fun for_upto :: "nat \<Rightarrow> (nat \<Rightarrow> 's \<Rightarrow> 's) \<Rightarrow> 's \<Rightarrow> 's" where
  "for_upto 0 body s = s"
| "for_upto (Suc n) body s = body n (for_upto n body s)"

lemma for_upto_inv:
  assumes "P s" and "\<And>i s. i < n \<Longrightarrow> P s \<Longrightarrow> P (body i s)"
  shows "P (for_upto n body s)"
  using assms by (induction n) auto

lemma for_upto_id:
  "(\<And>i. i < n \<Longrightarrow> body i s = s) \<Longrightarrow> for_upto n body s = s"
  by (induction n) auto

text \<open>A loop that acts on one slot only.\<close>

lemma for_upto_single:
  assumes "i < n" "\<And>j. j < i \<Longrightarrow> body j s = s" "\<And>j. i < j \<Longrightarrow> j < n \<Longrightarrow> body j (body i s) = body i s"
  shows "for_upto n body s = body i s"
  using assms
proof (induction n)
  case (Suc n)
  show ?case
  proof (cases "i = n")
    case True
    then have "for_upto n body s = s" using Suc.prems(2) by (intro for_upto_id) simp
    with True show ?thesis by simp
  next
    case False
    then have "i < n" using Suc.prems(1) by simp
    then have "for_upto n body s = body i s" using Suc.prems(2,3) by (intro Suc.IH) simp_all
    with \<open>i < n\<close> Suc.prems(3) [of n] show ?thesis by simp
  qed
qed simp

text \<open>The first slot that satisfies a test, as the search loops of the code find it.\<close>

fun find_slot :: "('a \<Rightarrow> bool) \<Rightarrow> 'a list \<Rightarrow> nat option" where
  "find_slot P [] = None"
| "find_slot P (x # xs) = (if P x then Some 0 else map_option Suc (find_slot P xs))"

lemma find_slot_None_iff: "find_slot P xs = None \<longleftrightarrow> (\<forall>x \<in> set xs. \<not> P x)"
  by (induction xs) auto

lemma find_slot_SomeD:
  "find_slot P xs = Some i \<Longrightarrow> i < length xs \<and> P (xs ! i) \<and> (\<forall>j < i. \<not> P (xs ! j))"
proof (induction xs arbitrary: i)
  case (Cons x xs)
  then show ?case
    by (auto split: if_splits simp: nth_Cons less_Suc_eq_0_disj split: nat.splits)
qed simp

lemma find_slot_SomeI:
  "i < length xs \<Longrightarrow> P (xs ! i) \<Longrightarrow> (\<And>j. j < i \<Longrightarrow> \<not> P (xs ! j)) \<Longrightarrow> find_slot P xs = Some i"
proof (induction xs arbitrary: i)
  case (Cons x xs)
  show ?case
  proof (cases i)
    case 0
    with Cons.prems show ?thesis by simp
  next
    case (Suc k)
    have "find_slot P xs = Some k"
      using Cons.prems Suc by (intro Cons.IH) fastforce+
    with Suc Cons.prems(3) [of 0] show ?thesis by simp
  qed
qed simp

end
