(* ===== verification/Blynk_Types.thy ===== *)
theory Blynk_Types
  imports Prelude
begin

text \<open>
  Data of the Blynk client (\<^verbatim>\<open>common/blynk/blynk_iot.h\<close> and the declarations at the head of
  \<^verbatim>\<open>blynk_iot.c\<close>): constants, enumerations, the structs as records, and the record \<open>blynk_os\<close> of
  everything the client calls that is not part of the repository (FreeRTOS, lwIP sockets, the
  application's callbacks).  The client record carries a field \<open>world\<close> of an arbitrary type: the state
  of that outside code, which only the functions of \<open>blynk_os\<close> read or change.
\<close>

subsection \<open>Constants\<close>

abbreviation BLYNK_MAX_PAYLOAD_LEN :: nat where "BLYNK_MAX_PAYLOAD_LEN \<equiv> 512"
abbreviation BLYNK_MAX_ARGS :: nat where "BLYNK_MAX_ARGS \<equiv> 32"
abbreviation BLYNK_MAX_AWAITING :: nat where "BLYNK_MAX_AWAITING \<equiv> 32"
abbreviation BLYNK_MAX_HANDLERS :: nat where "BLYNK_MAX_HANDLERS \<equiv> 8"

abbreviation BLYNK_CMD_RESPONSE :: u8 where "BLYNK_CMD_RESPONSE \<equiv> 0"
abbreviation BLYNK_CMD_LOGIN :: u8 where "BLYNK_CMD_LOGIN \<equiv> 2"
abbreviation BLYNK_CMD_PING :: u8 where "BLYNK_CMD_PING \<equiv> 6"
abbreviation BLYNK_CMD_HARDWARE :: u8 where "BLYNK_CMD_HARDWARE \<equiv> 20"

abbreviation BLYNK_STATUS_SUCCESS :: u16 where "BLYNK_STATUS_SUCCESS \<equiv> 200"
abbreviation BLYNK_STATUS_ILLEGAL_COMMAND :: u16 where "BLYNK_STATUS_ILLEGAL_COMMAND \<equiv> 2"
abbreviation BLYNK_STATUS_RESPONSE_TIMEOUT :: u16 where "BLYNK_STATUS_RESPONSE_TIMEOUT \<equiv> 0xffff"

abbreviation BLYNK_MAGIC :: u32 where "BLYNK_MAGIC \<equiv> 0xf932d1fb"
abbreviation DEFAULT_PING_INTERVAL :: u32 where "DEFAULT_PING_INTERVAL \<equiv> 2000"
abbreviation DEFAULT_TIMEOUT :: u32 where "DEFAULT_TIMEOUT \<equiv> 5000"
abbreviation DEFAULT_RECONNECT_DELAY :: u32 where "DEFAULT_RECONNECT_DELAY \<equiv> 5000"

definition default_server :: bytes where "default_server = cstr ''sgp1.blynk.cloud''"
definition default_port :: bytes where "default_port = cstr ''80''"

subsection \<open>Enumerations\<close>

datatype blynk_err =
    BLYNK_OK
  | BLYNK_ERR_INVALID_OPTION
  | BLYNK_ERR_RUNNING
  | BLYNK_ERR_NOT_INITIALIZED
  | BLYNK_ERR_NOT_CONNECTED
  | BLYNK_ERR_NOT_AUTHENTICATED
  | BLYNK_ERR_TIMEOUT
  | BLYNK_ERR_ERRNO
  | BLYNK_ERR_GAI
  | BLYNK_ERR_STATUS
  | BLYNK_ERR_CLOSED
  | BLYNK_ERR_MEM

datatype blynk_state =
    BLYNK_STATE_STOPPED
  | BLYNK_STATE_DISCONNECTED
  | BLYNK_STATE_CONNECTED
  | BLYNK_STATE_AUTHENTICATED

text \<open>The function pointer \<open>p->parse\<close> of the input parser.\<close>

datatype parse_fn = Parse_cmd | Parse_id | Parse_len | Parse_payload

text \<open>A response handler pointer that is not null: one of the two the client installs itself, one
  of the application's, or the pointer \<open>0x09090909\<close> that \<open>memset (p->awaiting, 9, ..)\<close> leaves.\<close>

datatype blynk_response_handler = Auth_cb | Ping_cb | App_resp nat | Wild_resp

subsection \<open>Structs\<close>

record blynk_state_evt =
  ev_state :: blynk_state
  ev_reason :: blynk_err
  ev_code :: int

record blynk_options =
  opt_server :: bytes
  opt_token :: bytes
  opt_reconnect_delay :: u32
  opt_ping_interval :: u32
  opt_timeout :: u32

record blynk_message =
  msg_command :: u8
  msg_id :: u16
  msg_len :: u16
  msg_payload :: bytes

record blynk_awaiting =
  aw_id :: u16
  aw_deadline :: u32
  aw_handler :: "blynk_response_handler option"
  aw_data :: nat

record blynk_handler_data =
  hd_command :: bytes
  hd_handler :: "nat option"
  hd_data :: nat

record blynk_ctl =
  ctl_message :: blynk_message
  ctl_deadline :: u32
  ctl_handler :: "blynk_response_handler option"
  ctl_data :: nat

record 'w blynk_client =
  magic :: u32
  \<comment> \<open>\<open>blynk_state_data_t state\<close>\<close>
  st_mtx :: bool
  st_state :: blynk_state
  st_opt :: blynk_options
  st_evt_handler :: "nat option"
  st_evt_handler_data :: nat
  st_handlers :: "blynk_handler_data list"
  \<comment> \<open>\<open>blynk_private_t priv\<close>\<close>
  p_ctl0 :: int
  p_ctl1 :: int
  p_ctl_queue :: bool
  p_id :: u16
  p_parse :: parse_fn
  p_message :: blynk_message
  p_cnt :: nat
  p_awaiting :: "blynk_awaiting list"
  p_ping_deadline :: u32
  p_wr_buf :: bytes
  p_buf_total :: int
  p_buf_sent :: int
  \<comment> \<open>state of the code outside the repository\<close>
  world :: 'w

subsection \<open>Code outside the repository\<close>

text \<open>Calls the client makes into application code, with the arguments it passes.\<close>

datatype app_call =
    Call_state nat blynk_state_evt nat
  | Call_resp nat u16 nat
  | Call_handler nat u16 bytes "bytes list" nat
  | Call_wild u16 nat

datatype sock_kind = Sock_dgram | Sock_stream nat

record 'w blynk_os =
  portTICK_RATE_MS :: u32
  EAGAIN :: int
  os_errno :: "'w \<Rightarrow> int"
  xTaskGetTickCount :: "'w \<Rightarrow> u32 \<times> 'w"
  xSemaphoreCreateMutex :: "'w \<Rightarrow> bool \<times> 'w"
  xQueueCreate :: "'w \<Rightarrow> bool \<times> 'w"
  xQueueSend :: "blynk_ctl \<Rightarrow> u32 \<Rightarrow> 'w \<Rightarrow> bool \<times> 'w"
  xQueueReceive :: "'w \<Rightarrow> blynk_ctl option \<times> 'w"
  xQueueReset :: "'w \<Rightarrow> 'w"
  xTaskCreate :: "'w \<Rightarrow> bool \<times> 'w"
  vTaskDelay :: "u32 \<Rightarrow> 'w \<Rightarrow> 'w"
  os_getaddrinfo :: "bytes \<Rightarrow> bytes \<Rightarrow> 'w \<Rightarrow> int \<times> nat list \<times> 'w"
  os_socket :: "sock_kind \<Rightarrow> 'w \<Rightarrow> int \<times> 'w"
  os_bind :: "int \<Rightarrow> 'w \<Rightarrow> int \<times> 'w"
  os_getsockname :: "int \<Rightarrow> 'w \<Rightarrow> int \<times> nat \<times> 'w"
  os_connect :: "int \<Rightarrow> nat \<Rightarrow> 'w \<Rightarrow> int \<times> 'w"
  os_close :: "int \<Rightarrow> 'w \<Rightarrow> 'w"
  os_set_nonblock :: "int \<Rightarrow> 'w \<Rightarrow> 'w"
  os_select :: "int list \<Rightarrow> int list \<Rightarrow> (u32 \<times> u32) option \<Rightarrow> 'w \<Rightarrow> int \<times> int list \<times> int list \<times> 'w"
  os_read :: "int \<Rightarrow> nat \<Rightarrow> 'w \<Rightarrow> int \<times> bytes \<times> 'w"
  os_write :: "int \<Rightarrow> bytes \<Rightarrow> 'w \<Rightarrow> int \<times> 'w"
  app_code :: "app_call \<Rightarrow> 'w blynk_client \<Rightarrow> 'w blynk_client"

subsection \<open>Zeroed structs\<close>

definition zero_message :: blynk_message where
  "zero_message = \<lparr>msg_command = 0, msg_id = 0, msg_len = 0,
     msg_payload = replicate BLYNK_MAX_PAYLOAD_LEN 0\<rparr>"

definition zero_awaiting :: blynk_awaiting where
  "zero_awaiting = \<lparr>aw_id = 0, aw_deadline = 0, aw_handler = None, aw_data = 0\<rparr>"

text \<open>What \<open>memset (p->awaiting, 9, sizeof (p->awaiting))\<close> writes into a slot.\<close>

definition nine_awaiting :: blynk_awaiting where
  "nine_awaiting = \<lparr>aw_id = 0x0909, aw_deadline = 0x09090909, aw_handler = Some Wild_resp,
     aw_data = 0x09090909\<rparr>"

definition zero_handler_data :: blynk_handler_data where
  "zero_handler_data = \<lparr>hd_command = replicate 8 0, hd_handler = None, hd_data = 0\<rparr>"

definition zero_options :: blynk_options where
  "zero_options = \<lparr>opt_server = replicate 255 0, opt_token = replicate 64 0,
     opt_reconnect_delay = 0, opt_ping_interval = 0, opt_timeout = 0\<rparr>"

text \<open>\<open>memset (c, 0, sizeof (blynk_client_t))\<close>; a null \<open>parse\<close> pointer is never called before
  \<open>blynk_loop\<close> sets it, and is written as the state in which the loop sets it.\<close>

definition zero_client :: "'w \<Rightarrow> 'w blynk_client" where
  "zero_client w = \<lparr>magic = 0, st_mtx = False, st_state = BLYNK_STATE_STOPPED,
     st_opt = zero_options, st_evt_handler = None, st_evt_handler_data = 0,
     st_handlers = replicate BLYNK_MAX_HANDLERS zero_handler_data,
     p_ctl0 = 0, p_ctl1 = 0, p_ctl_queue = False, p_id = 0, p_parse = Parse_cmd,
     p_message = zero_message, p_cnt = 0,
     p_awaiting = replicate BLYNK_MAX_AWAITING zero_awaiting, p_ping_deadline = 0,
     p_wr_buf = replicate BLYNK_MAX_PAYLOAD_LEN 0, p_buf_total = 0, p_buf_sent = 0, world = w\<rparr>"

lemmas zero_defs = zero_message_def zero_awaiting_def zero_handler_data_def zero_options_def
  zero_client_def

subsection \<open>Well-formed clients\<close>

text \<open>The sizes of the arrays embedded in the structs.  The application may not resize them: it
  reaches the client through pointers to these very arrays.\<close>

definition options_wf :: "blynk_options \<Rightarrow> bool" where
  "options_wf o' \<longleftrightarrow> length (opt_server o') = 255 \<and> length (opt_token o') = 64"

definition message_wf :: "blynk_message \<Rightarrow> bool" where
  "message_wf m \<longleftrightarrow> length (msg_payload m) = BLYNK_MAX_PAYLOAD_LEN"

definition client_wf :: "'w blynk_client \<Rightarrow> bool" where
  "client_wf c \<longleftrightarrow>
     options_wf (st_opt c) \<and>
     length (st_handlers c) = BLYNK_MAX_HANDLERS \<and>
     (\<forall>h \<in> set (st_handlers c). length (hd_command h) = 8) \<and>
     message_wf (p_message c) \<and>
     length (p_awaiting c) = BLYNK_MAX_AWAITING \<and>
     length (p_wr_buf c) = BLYNK_MAX_PAYLOAD_LEN"

lemma zero_message_wf [simp]: "message_wf zero_message"
  by (simp add: message_wf_def zero_message_def)

lemma zero_client_wf [simp, inv_intros]: "client_wf (zero_client w)"
  by (simp add: client_wf_def options_wf_def zero_defs message_wf_def)

text \<open>Application callbacks keep a property of the client.\<close>

definition app_respects :: "'w blynk_os \<Rightarrow> ('w blynk_client \<Rightarrow> bool) \<Rightarrow> bool" where
  "app_respects os P \<longleftrightarrow> (\<forall>u c. P c \<longrightarrow> P (app_code os u c))"

text \<open>Application callbacks leave a part of the client as it is.\<close>

definition app_keeps :: "'w blynk_os \<Rightarrow> ('w blynk_client \<Rightarrow> 'b) \<Rightarrow> bool" where
  "app_keeps os f \<longleftrightarrow> (\<forall>u c. f (app_code os u c) = f c)"

lemma app_respectsD: "app_respects os P \<Longrightarrow> P c \<Longrightarrow> P (app_code os u c)"
  by (simp add: app_respects_def)

lemma app_code_wf [inv_intros]:
  "app_respects os client_wf \<Longrightarrow> client_wf c \<Longrightarrow> client_wf (app_code os u c)"
  by (rule app_respectsD)

lemma app_keepsD: "app_keeps os f \<Longrightarrow> f (app_code os u c) = f c"
  by (simp add: app_keeps_def)

end
