(* ===== verification/Blynk_Client.thy ===== *)
theory Blynk_Client
  imports Blynk_Types
begin

text \<open>
  The client proper (\<^verbatim>\<open>common/blynk/blynk_iot.c\<close>): initialisation, options and handler table, identifier
  allocation, the outgoing queue, state changes, timers and the handling of a received message.
  Each function takes the record \<open>os\<close> of outside code and the client, and returns the client as the C
  function leaves it behind the pointer \<open>c\<close>.  A critical section between \<open>xSemaphoreTake\<close> and
  \<open>xSemaphoreGive\<close> is one atomic update; callbacks are called outside of them, as in the source.
\<close>

subsection \<open>Control socket pair and initialisation\<close>

text \<open>\<open>blynk_socketpair\<close>: \<open>None\<close> for the return value -1, with the sockets closed on the way out as
  the labels \<open>fail_2\<close>, \<open>fail_1\<close> and \<open>fail_0\<close> do.\<close>

definition blynk_socketpair :: "'w blynk_os \<Rightarrow> 'w \<Rightarrow> (int \<times> int) option \<times> 'w" where
  "blynk_socketpair os w =
    (let (fd0, w) = os_socket os Sock_dgram w in
     if fd0 < 0 then (None, w)
     else let (r, w) = os_bind os fd0 w in
     if r < 0 then (None, os_close os fd0 w)
     else let (r, addr0, w) = os_getsockname os fd0 w in
     if r < 0 then (None, os_close os fd0 w)
     else let (fd1, w) = os_socket os Sock_dgram w in
     if fd1 < 0 then (None, os_close os fd0 w)
     else let (r, w) = os_connect os fd1 addr0 w in
     if r < 0 then (None, os_close os fd0 (os_close os fd1 w))
     else let (r, addr1, w) = os_getsockname os fd1 w in
     if r < 0 then (None, os_close os fd0 (os_close os fd1 w))
     else let (r, w) = os_connect os fd0 addr1 w in
     if r < 0 then (None, os_close os fd0 (os_close os fd1 w))
     else (Some (fd0, fd1), w))"

definition blynk_init :: "'w blynk_os \<Rightarrow> 'w blynk_client \<Rightarrow> blynk_err \<times> 'w blynk_client" where
  "blynk_init os c0 =
    (let c = zero_client (world c0);
         (ok, w) = xSemaphoreCreateMutex os (world c);
         c = c\<lparr>st_mtx := ok, world := w\<rparr> in
     if \<not> ok then (BLYNK_ERR_MEM, c)
     else let (ok, w) = xQueueCreate os (world c); c = c\<lparr>p_ctl_queue := ok, world := w\<rparr> in
     if \<not> ok then (BLYNK_ERR_MEM, c)
     else case blynk_socketpair os (world c) of
       (None, w) \<Rightarrow> (BLYNK_ERR_ERRNO, c\<lparr>world := w\<rparr>)
     | (Some (fd0, fd1), w) \<Rightarrow>
         (BLYNK_OK, c\<lparr>p_ctl0 := fd0, p_ctl1 := fd1,
            world := os_set_nonblock os fd1 (os_set_nonblock os fd0 w), magic := BLYNK_MAGIC\<rparr>))"

subsection \<open>Options and handlers\<close>

definition blynk_set_options :: "blynk_options \<Rightarrow> 'w blynk_client \<Rightarrow> blynk_err \<times> 'w blynk_client" where
  "blynk_set_options opt c =
    (if magic c \<noteq> BLYNK_MAGIC then (BLYNK_ERR_NOT_INITIALIZED, c)
     else if byte_at (opt_token opt) 0 = 0 then (BLYNK_ERR_INVALID_OPTION, c)
     else
       let server = (if byte_at (opt_server opt) 0 = 0
                     then snprintf_str (opt_server opt) 255 (default_server @ cstr '':'' @ default_port)
                     else if of_char (CHR '':'') \<notin> set (opt_server opt)
                     then snprintf_str (opt_server opt) 255
                            (c_str (opt_server opt) @ cstr '':'' @ default_port)
                     else opt_server opt);
           o' = opt\<lparr>opt_server := server,
             opt_ping_interval := (if opt_ping_interval opt = 0 then DEFAULT_PING_INTERVAL
                                   else opt_ping_interval opt),
             opt_timeout := (if opt_timeout opt = 0 then DEFAULT_TIMEOUT else opt_timeout opt),
             opt_reconnect_delay := (if opt_reconnect_delay opt = 0 then DEFAULT_RECONNECT_DELAY
                                     else opt_reconnect_delay opt)\<rparr>
       in (BLYNK_OK, c\<lparr>st_opt := o'\<rparr>))"

definition blynk_set_state_handler ::
  "nat option \<Rightarrow> nat \<Rightarrow> 'w blynk_client \<Rightarrow> blynk_err \<times> 'w blynk_client" where
  "blynk_set_state_handler handler data c =
    (if magic c \<noteq> BLYNK_MAGIC then (BLYNK_ERR_NOT_INITIALIZED, c)
     else (BLYNK_OK, c\<lparr>st_evt_handler := handler, st_evt_handler_data := data\<rparr>))"

text \<open>The two searches over the handler table: a slot whose command compares equal in the first
  \<open>sizeof (command)\<close> bytes, and the first free slot.\<close>

definition cmd_matches :: "bytes \<Rightarrow> blynk_handler_data \<Rightarrow> bool" where
  "cmd_matches command h \<longleftrightarrow> strncmp_eq 8 (hd_command h) command"

definition slot_free :: "blynk_handler_data \<Rightarrow> bool" where
  "slot_free h \<longleftrightarrow> byte_at (hd_command h) 0 = 0"

definition blynk_set_handler ::
  "bytes \<Rightarrow> nat option \<Rightarrow> nat \<Rightarrow> 'w blynk_client \<Rightarrow> blynk_err \<times> 'w blynk_client" where
  "blynk_set_handler command handler data c =
    (if magic c \<noteq> BLYNK_MAGIC then (BLYNK_ERR_NOT_INITIALIZED, c)
     else let hs = st_handlers c in
       case find_slot (cmd_matches command) hs of
         Some i \<Rightarrow> (BLYNK_OK, c\<lparr>st_handlers := hs[i := (hs ! i)\<lparr>hd_handler := handler, hd_data := data\<rparr>]\<rparr>)
       | None \<Rightarrow>
          (case find_slot slot_free hs of
             Some i \<Rightarrow> (BLYNK_OK, c\<lparr>st_handlers := hs[i := \<lparr>hd_command = strlcpy (hd_command (hs ! i)) command 8,
                                     hd_handler = handler, hd_data = data\<rparr>]\<rparr>)
           | None \<Rightarrow> (BLYNK_ERR_MEM, c)))"

definition blynk_remove_handler :: "bytes \<Rightarrow> 'w blynk_client \<Rightarrow> blynk_err \<times> 'w blynk_client" where
  "blynk_remove_handler command c =
    (if magic c \<noteq> BLYNK_MAGIC then (BLYNK_ERR_NOT_INITIALIZED, c)
     else let hs = st_handlers c in
       case find_slot (cmd_matches command) hs of
         Some i \<Rightarrow> (BLYNK_OK, c\<lparr>st_handlers := hs[i := \<lparr>hd_command = (hd_command (hs ! i))[0 := 0],
                                 hd_handler = None, hd_data = 0\<rparr>]\<rparr>)
       | None \<Rightarrow> (BLYNK_OK, c))"

subsection \<open>Message identifiers\<close>

definition get_id ::
  "u32 \<Rightarrow> blynk_response_handler option \<Rightarrow> nat \<Rightarrow> 'w blynk_client \<Rightarrow> u16 \<times> 'w blynk_client" where
  "get_id deadline handler data c =
    (let c = (if p_id c = 0xffff
              then c\<lparr>p_id := 0, p_awaiting := replicate BLYNK_MAX_AWAITING nine_awaiting\<rparr> else c);
         ident = p_id c;
         c = c\<lparr>p_id := p_id c + 1\<rparr> in
     case handler of
       None \<Rightarrow> (ident, c)
     | Some h \<Rightarrow>
         (case find_slot (\<lambda>a. aw_id a = 0) (p_awaiting c) of
            Some i \<Rightarrow> (ident, c\<lparr>p_awaiting := poke i
                          \<lparr>aw_id = ident, aw_deadline = deadline, aw_handler = Some h, aw_data = data\<rparr> (p_awaiting c)\<rparr>)
          | None \<Rightarrow> (0, c)))"

subsection \<open>Sending\<close>

definition get_timeout :: "'w blynk_os \<Rightarrow> 'w blynk_client \<Rightarrow> u32" where
  "get_timeout os c = opt_timeout (st_opt c) div portTICK_RATE_MS os"

text \<open>The pieces of the \<open>blynk_ctl_t\<close> that \<open>blynk_send_internal\<close> builds: the deadline
  \<open>handler ? get_timeout (c) + xTaskGetTickCount () : 0\<close>, and length and payload of the message.\<close>

definition response_deadline ::
  "'w blynk_os \<Rightarrow> blynk_response_handler option \<Rightarrow> 'w blynk_client \<Rightarrow> u32 \<times> 'w blynk_client" where
  "response_deadline os handler c = (case handler of
      None \<Rightarrow> (0, c)
    | Some _ \<Rightarrow> let (now, w) = xTaskGetTickCount os (world c) in (get_timeout os c + now, c\<lparr>world := w\<rparr>))"

definition fill_payload :: "u8 \<Rightarrow> u16 \<Rightarrow> bytes option \<Rightarrow> u16 \<times> bytes" where
  "fill_payload cmd len payload = (case payload of
      Some src \<Rightarrow>
        if cmd \<noteq> BLYNK_CMD_RESPONSE \<and> len \<noteq> 0
        then let n = (if unat len > BLYNK_MAX_PAYLOAD_LEN then 512 else len)
             in (n, mem_write 0 (take (unat n) src) (replicate BLYNK_MAX_PAYLOAD_LEN 0))
        else (len, replicate BLYNK_MAX_PAYLOAD_LEN 0)
    | None \<Rightarrow> (len, replicate BLYNK_MAX_PAYLOAD_LEN 0))"

text \<open>\<open>blynk_send_internal\<close>.  The trace output \<open>printf ("priv ctr %n \n", c->priv.ctl)\<close> stores the
  number of characters printed before the \<open>%n\<close>, the only conversion of the format, in \<open>c->priv.ctl [0]\<close>.\<close>

definition printf_n :: "string \<Rightarrow> int" where
  "printf_n fmt = int (length (takeWhile (\<lambda>ch. ch \<noteq> CHR ''%'') fmt))"

definition blynk_send_internal ::
  "'w blynk_os \<Rightarrow> u8 \<Rightarrow> u16 \<Rightarrow> u16 \<Rightarrow> bytes option \<Rightarrow> blynk_response_handler option \<Rightarrow> nat \<Rightarrow> u32 \<Rightarrow>
   'w blynk_client \<Rightarrow> blynk_err \<times> 'w blynk_client" where
  "blynk_send_internal os cmd ident len payload handler data wait c =
    (let (deadline, c) = response_deadline os handler c;
         (len', pl) = fill_payload cmd len payload;
         ctl = \<lparr>ctl_message = \<lparr>msg_command = cmd, msg_id = ident, msg_len = len', msg_payload = pl\<rparr>,
                ctl_deadline = deadline, ctl_handler = handler, ctl_data = data\<rparr>;
         (ok, w) = xQueueSend os ctl wait (world c);
         c = c\<lparr>world := w\<rparr> in
     if \<not> ok then (BLYNK_ERR_MEM, c)
     else
       let c = c\<lparr>p_ctl0 := printf_n ''priv ctr %n ''\<rparr>;
           (r, w) = os_write os (p_ctl1 c) [0] (world c);
           c = c\<lparr>world := w\<rparr> in
       if r < 0 then (BLYNK_ERR_ERRNO, c)
       else (BLYNK_OK, c\<lparr>p_ctl0 := printf_n ''priv ctr2  %n ''\<rparr>))"

subsection \<open>Connection state\<close>

text \<open>The tail that \<open>set_state\<close>, \<open>set_disconnected\<close> and \<open>blynk_start\<close> share: store the state and call
  the state handler, when there is one.\<close>

definition change_state :: "'w blynk_os \<Rightarrow> blynk_state_evt \<Rightarrow> 'w blynk_client \<Rightarrow> 'w blynk_client" where
  "change_state os ev c =
    (let c = c\<lparr>st_state := ev_state ev\<rparr> in
     case st_evt_handler c of None \<Rightarrow> c
     | Some h \<Rightarrow> app_code os (Call_state h ev (st_evt_handler_data c)) c)"

definition set_state :: "'w blynk_os \<Rightarrow> blynk_state \<Rightarrow> 'w blynk_client \<Rightarrow> 'w blynk_client" where
  "set_state os s c = change_state os \<lparr>ev_state = s, ev_reason = BLYNK_OK, ev_code = 0\<rparr> c"

definition blynk_get_state :: "'w blynk_client \<Rightarrow> blynk_state" where
  "blynk_get_state c = st_state c"

definition set_disconnected :: "'w blynk_os \<Rightarrow> blynk_err \<Rightarrow> int \<Rightarrow> 'w blynk_client \<Rightarrow> 'w blynk_client" where
  "set_disconnected os reason code c =
    change_state os \<lparr>ev_state = BLYNK_STATE_DISCONNECTED, ev_reason = reason, ev_code = code\<rparr> c"

text \<open>\<open>set_disconnected (c, ret, ret == BLYNK_ERR_ERRNO ? errno : 0)\<close>\<close>

definition fail_with :: "'w blynk_os \<Rightarrow> blynk_err \<Rightarrow> 'w blynk_client \<Rightarrow> 'w blynk_client" where
  "fail_with os ret c =
    set_disconnected os ret (if ret = BLYNK_ERR_ERRNO then os_errno os (world c) else 0) c"

definition auth_cb :: "'w blynk_os \<Rightarrow> u16 \<Rightarrow> 'w blynk_client \<Rightarrow> 'w blynk_client" where
  "auth_cb os status c =
    (if status \<noteq> BLYNK_STATUS_SUCCESS then
       if status = BLYNK_STATUS_RESPONSE_TIMEOUT then set_disconnected os BLYNK_ERR_TIMEOUT 0 c
       else set_disconnected os BLYNK_ERR_STATUS (uint status) c
     else set_state os BLYNK_STATE_AUTHENTICATED c)"

definition ping_cb :: "'w blynk_os \<Rightarrow> u16 \<Rightarrow> 'w blynk_client \<Rightarrow> 'w blynk_client" where
  "ping_cb os status c =
    (if status \<noteq> BLYNK_STATUS_SUCCESS then
       if status = BLYNK_STATUS_RESPONSE_TIMEOUT then set_disconnected os BLYNK_ERR_TIMEOUT 0 c
       else set_disconnected os BLYNK_ERR_STATUS (uint status) c
     else c)"

text \<open>Calling through a response handler pointer.\<close>

fun call_resp :: "'w blynk_os \<Rightarrow> blynk_response_handler \<Rightarrow> u16 \<Rightarrow> nat \<Rightarrow> 'w blynk_client \<Rightarrow> 'w blynk_client" where
  "call_resp os Auth_cb status data c = auth_cb os status c"
| "call_resp os Ping_cb status data c = ping_cb os status c"
| "call_resp os (App_resp h) status data c = app_code os (Call_resp h status data) c"
| "call_resp os Wild_resp status data c = app_code os (Call_wild status data) c"

text \<open>Calling the handler of slot \<open>i\<close> of the table of awaited responses and freeing the slot.\<close>

definition finish_awaiting :: "'w blynk_os \<Rightarrow> u16 \<Rightarrow> nat \<Rightarrow> 'w blynk_client \<Rightarrow> 'w blynk_client" where
  "finish_awaiting os status i c =
    (let a = p_awaiting c ! i;
         c = (case aw_handler a of None \<Rightarrow> c | Some h \<Rightarrow> call_resp os h status (aw_data a) c)
     in c\<lparr>p_awaiting := poke i ((p_awaiting c ! i)\<lparr>aw_id := 0\<rparr>) (p_awaiting c)\<rparr>)"

subsection \<open>Received messages\<close>

text \<open>\<open>parse_args\<close>: \<open>skip_arg\<close> is the inner loop over a string of the payload at offset \<open>p\<close>; the argument
  pointers are offsets into the payload, and the payload may get a terminator behind its last
  byte.\<close>

fun skip_arg :: "bytes \<Rightarrow> nat \<Rightarrow> nat \<Rightarrow> nat \<times> nat" where
  "skip_arg pl p 0 = (p, 0)"
| "skip_arg pl p (Suc len) = (if byte_at pl p \<noteq> 0 then skip_arg pl (Suc p) len else (p, Suc len))"

fun parse_args_from :: "nat \<Rightarrow> bytes \<Rightarrow> nat \<Rightarrow> nat \<Rightarrow> nat list \<times> bytes" where
  "parse_args_from 0 pl p len = ([], pl)"
| "parse_args_from (Suc k) pl p len =
    (if len = 0 then ([], pl)
     else let (p', len') = skip_arg pl p len in
       if len' \<noteq> 0 then let (args, pl') = parse_args_from k pl (p' + 1) (len' - 1) in (p # args, pl')
       else let (args, pl') = parse_args_from k (poke p' 0 pl) p' 0 in (p # args, pl'))"

definition parse_args :: "bytes \<Rightarrow> nat \<Rightarrow> nat list \<times> bytes" where
  "parse_args payload len = parse_args_from BLYNK_MAX_ARGS payload 0 len"

definition arg_str :: "bytes \<Rightarrow> nat \<Rightarrow> bytes" where
  "arg_str pl off = c_str (drop off pl)"

definition handle_response :: "'w blynk_os \<Rightarrow> 'w blynk_client \<Rightarrow> 'w blynk_client" where
  "handle_response os c = for_upto BLYNK_MAX_AWAITING (\<lambda>i c.
     if aw_id (p_awaiting c ! i) \<noteq> 0 \<and> aw_id (p_awaiting c ! i) = msg_id (p_message c)
     then finish_awaiting os (msg_len (p_message c)) i c else c) c"

definition handle_hardware :: "'w blynk_os \<Rightarrow> 'w blynk_client \<Rightarrow> 'w blynk_client" where
  "handle_hardware os c =
    (let m = p_message c;
         (args, pl) = (if msg_len m \<noteq> 0
            then parse_args (msg_payload m)
                   (if unat (msg_len m) < BLYNK_MAX_PAYLOAD_LEN then unat (msg_len m)
                    else BLYNK_MAX_PAYLOAD_LEN - 1)
            else ([], msg_payload m));
         c = c\<lparr>p_message := m\<lparr>msg_payload := pl\<rparr>\<rparr>
     in case args of
          [] \<Rightarrow> c
        | a # as \<Rightarrow>
           (case find_slot (\<lambda>h. cmd_matches (arg_str pl a) h \<and> hd_handler h \<noteq> None) (st_handlers c) of
              Some i \<Rightarrow> app_code os (Call_handler (the (hd_handler (st_handlers c ! i))) (msg_id m)
                          (arg_str pl a) (map (arg_str pl) as) (hd_data (st_handlers c ! i))) c
            | None \<Rightarrow>
               (case blynk_send_internal os BLYNK_CMD_RESPONSE (msg_id m) BLYNK_STATUS_ILLEGAL_COMMAND
                       None None 0 0 c of
                  (ret, c) \<Rightarrow> if ret \<noteq> BLYNK_OK then fail_with os ret c else c)))"

definition handle_message :: "'w blynk_os \<Rightarrow> 'w blynk_client \<Rightarrow> 'w blynk_client" where
  "handle_message os c =
    (if msg_command (p_message c) = BLYNK_CMD_RESPONSE then handle_response os c
     else if msg_command (p_message c) = BLYNK_CMD_HARDWARE then handle_hardware os c
     else c)"

subsection \<open>Timers\<close>

definition timerExpired :: "u32 \<Rightarrow> u32 \<Rightarrow> bool" where
  "timerExpired deadline now \<longleftrightarrow> sint (deadline - now) \<le> 0"

text \<open>The loop of \<open>get_select_timeout\<close>: \<open>None\<close> when it returns early with a zero timeout, otherwise the
  variables \<open>ret\<close> and \<open>min\<close> as an option.\<close>

fun scan_deadlines :: "u32 \<Rightarrow> u32 list \<Rightarrow> u32 option \<Rightarrow> u32 option option" where
  "scan_deadlines now [] acc = Some acc"
| "scan_deadlines now (d # ds) acc =
    (if timerExpired d now then None
     else scan_deadlines now ds
       (case acc of None \<Rightarrow> Some (d - now) | Some m \<Rightarrow> if d - now < m then Some (d - now) else Some m))"

definition pending_deadlines :: "'w blynk_client \<Rightarrow> u32 list" where
  "pending_deadlines c =
     map aw_deadline (filter (\<lambda>a. aw_id a \<noteq> 0 \<and> aw_deadline a \<noteq> 0) (p_awaiting c)) @
     (if p_ping_deadline c \<noteq> 0 then [p_ping_deadline c] else [])"

definition get_select_timeout :: "'w blynk_os \<Rightarrow> 'w blynk_client \<Rightarrow> u32 option \<times> 'w blynk_client" where
  "get_select_timeout os c =
    (let (now, w) = xTaskGetTickCount os (world c);
         c = c\<lparr>world := w\<rparr>
     in case scan_deadlines now (pending_deadlines c) None of
          None \<Rightarrow> (Some 0, c)
        | Some acc \<Rightarrow> (acc, c))"

definition advance_ping :: "'w blynk_os \<Rightarrow> 'w blynk_client \<Rightarrow> 'w blynk_client" where
  "advance_ping os c =
    (let (now, w) = xTaskGetTickCount os (world c)
     in c\<lparr>p_ping_deadline := now + opt_ping_interval (st_opt c) div portTICK_RATE_MS os, world := w\<rparr>)"

definition handle_timers :: "'w blynk_os \<Rightarrow> 'w blynk_client \<Rightarrow> blynk_err \<times> 'w blynk_client" where
  "handle_timers os c =
    (let (now, w) = xTaskGetTickCount os (world c);
         c = for_upto BLYNK_MAX_AWAITING (\<lambda>i c.
               if aw_id (p_awaiting c ! i) \<noteq> 0 \<and> aw_deadline (p_awaiting c ! i) \<noteq> 0 \<and>
                  timerExpired (aw_deadline (p_awaiting c ! i)) now
               then finish_awaiting os BLYNK_STATUS_RESPONSE_TIMEOUT i c else c) (c\<lparr>world := w\<rparr>)
     in if p_ping_deadline c \<noteq> 0 \<and> timerExpired (p_ping_deadline c) now
        then blynk_send_internal os BLYNK_CMD_PING 0 0 None (Some Ping_cb) 0 0 (advance_ping os c)
        else (BLYNK_OK, c))"

subsection \<open>Starting the client\<close>

definition blynk_start :: "'w blynk_os \<Rightarrow> 'w blynk_client \<Rightarrow> blynk_err \<times> 'w blynk_client" where
  "blynk_start os c =
    (if st_state c \<noteq> BLYNK_STATE_STOPPED then (BLYNK_ERR_RUNNING, c)
     else let (ok, w) = xTaskCreate os (world c); c = c\<lparr>world := w\<rparr> in
       if \<not> ok then (BLYNK_ERR_MEM, c)
       else (BLYNK_OK, change_state os \<lparr>ev_state = BLYNK_STATE_DISCONNECTED, ev_reason = BLYNK_OK,
               ev_code = 0\<rparr> c))"

end
