(* ===== verification/Blynk_Parse.thy ===== *)
theory Blynk_Parse
  imports Blynk_Client
begin

text \<open>
  The wire format of the Blynk client (\<^verbatim>\<open>common/blynk/blynk_iot.c\<close>): \<open>blynk_serialize\<close> on the way out and the
  byte-driven state machine \<open>parse_cmd\<close>, \<open>parse_id\<close>, \<open>parse_len\<close>, \<open>parse_payload\<close> on the way in.  The
  lemmas show that the machine consumes exactly one frame per message, whatever lengths the peer
  announces, and that it delivers what \<open>blynk_serialize\<close> wrote.
\<close>

subsection \<open>Serialising\<close>

definition blynk_header :: "u8 \<Rightarrow> u16 \<Rightarrow> u16 \<Rightarrow> bytes" where
  "blynk_header cmd ident len = [cmd, hi8 ident, lo8 ident, hi8 len, lo8 len]"

definition blynk_serialize :: "bytes \<Rightarrow> nat \<Rightarrow> blynk_message \<Rightarrow> bytes \<times> nat" where
  "blynk_serialize buf buf_sz msg =
    (let buf = mem_write 0 (blynk_header (msg_command msg) (msg_id msg) (msg_len msg)) buf;
         msg_sz = 5 in
     if msg_len msg \<noteq> 0 \<and> msg_command msg \<noteq> BLYNK_CMD_RESPONSE
     then let pl_sz = (if unat (msg_len msg) > buf_sz - msg_sz then buf_sz - msg_sz
                       else unat (msg_len msg))
          in (mem_write msg_sz (take pl_sz (msg_payload msg)) buf, msg_sz + pl_sz)
     else (buf, msg_sz))"

subsection \<open>Parsing\<close>

definition parse_cmd :: "u8 \<Rightarrow> 'w blynk_client \<Rightarrow> 'w blynk_client" where
  "parse_cmd d c = c\<lparr>p_message := (p_message c)\<lparr>msg_command := d\<rparr>, p_cnt := 0, p_parse := Parse_id\<rparr>"

definition parse_id :: "u8 \<Rightarrow> 'w blynk_client \<Rightarrow> 'w blynk_client" where
  "parse_id d c =
    (let c = c\<lparr>p_message := (p_message c)\<lparr>msg_id := shl8_or (msg_id (p_message c)) d\<rparr>,
               p_cnt := p_cnt c + 1\<rparr>
     in if p_cnt c \<ge> 2 then c\<lparr>p_cnt := 0, p_parse := Parse_len\<rparr> else c)"

definition parse_len :: "'w blynk_os \<Rightarrow> u8 \<Rightarrow> 'w blynk_client \<Rightarrow> 'w blynk_client" where
  "parse_len os d c =
    (let c = c\<lparr>p_message := (p_message c)\<lparr>msg_len := shl8_or (msg_len (p_message c)) d\<rparr>,
               p_cnt := p_cnt c + 1\<rparr>
     in if p_cnt c \<ge> 2 then
          if msg_command (p_message c) \<noteq> BLYNK_CMD_RESPONSE \<and> msg_len (p_message c) \<noteq> 0
          then c\<lparr>p_cnt := 0, p_parse := Parse_payload\<rparr>
          else (handle_message os c)\<lparr>p_parse := Parse_cmd\<rparr>
        else c)"

definition parse_payload :: "'w blynk_os \<Rightarrow> u8 \<Rightarrow> 'w blynk_client \<Rightarrow> 'w blynk_client" where
  "parse_payload os d c =
    (let m = p_message c;
         m = (if p_cnt c < BLYNK_MAX_PAYLOAD_LEN
              then m\<lparr>msg_payload := poke (p_cnt c) d (msg_payload m)\<rparr> else m);
         c = c\<lparr>p_message := m, p_cnt := p_cnt c + 1\<rparr>
     in if p_cnt c \<ge> unat (msg_len m) then
          let c = (if p_cnt c > BLYNK_MAX_PAYLOAD_LEN
                   then c\<lparr>p_message := m\<lparr>msg_len := 512\<rparr>\<rparr> else c)
          in (handle_message os c)\<lparr>p_parse := Parse_cmd\<rparr>
        else c)"

text \<open>\<open>p->parse (c, d)\<close>\<close>

definition parse_byte :: "'w blynk_os \<Rightarrow> u8 \<Rightarrow> 'w blynk_client \<Rightarrow> 'w blynk_client" where
  "parse_byte os d c =
    (case p_parse c of
       Parse_cmd \<Rightarrow> parse_cmd d c
     | Parse_id \<Rightarrow> parse_id d c
     | Parse_len \<Rightarrow> parse_len os d c
     | Parse_payload \<Rightarrow> parse_payload os d c)"

lemmas parse_defs = parse_byte_def parse_cmd_def parse_id_def parse_len_def parse_payload_def

lemma swap_updates:
  "(m :: blynk_message)\<lparr>msg_payload := x, msg_len := y\<rparr> = m\<lparr>msg_len := y, msg_payload := x\<rparr>"
  "(c :: 'w blynk_client)\<lparr>p_cnt := k, p_message := m\<rparr> = c\<lparr>p_message := m, p_cnt := k\<rparr>"
  by simp_all

subsection \<open>What the parser does with a frame\<close>

text \<open>A frame as it travels: the five header bytes and as many payload bytes as the header announces
  (none for a response, whose length field is its status).\<close>

definition frame_bytes :: "u8 \<Rightarrow> u16 \<Rightarrow> u16 \<Rightarrow> bytes \<Rightarrow> bytes" where
  "frame_bytes cmd ident len data =
     blynk_header cmd ident len @ (if cmd = BLYNK_CMD_RESPONSE then [] else data)"

definition frame_ok :: "u8 \<times> u16 \<times> u16 \<times> bytes \<Rightarrow> bool" where
  "frame_ok f = (case f of (cmd, ident, len, data) \<Rightarrow>
     cmd \<noteq> BLYNK_CMD_RESPONSE \<longrightarrow> length data = unat len)"

text \<open>The reference: delivering one frame is one call of \<open>handle_message\<close> on the client with the
  fields of the frame, of which at most 512 payload bytes are kept.\<close>

definition deliver :: "'w blynk_os \<Rightarrow> u8 \<times> u16 \<times> u16 \<times> bytes \<Rightarrow> 'w blynk_client \<Rightarrow> 'w blynk_client" where
  "deliver os f c = (case f of (cmd, ident, len, data) \<Rightarrow>
     if cmd = BLYNK_CMD_RESPONSE \<or> len = 0
     then (handle_message os (c\<lparr>p_parse := Parse_len,
             p_message := (p_message c)\<lparr>msg_command := cmd, msg_id := ident, msg_len := len\<rparr>,
             p_cnt := 2\<rparr>))\<lparr>p_parse := Parse_cmd\<rparr>
     else (handle_message os (c\<lparr>p_parse := Parse_payload,
             p_message := (p_message c)\<lparr>msg_command := cmd, msg_id := ident,
                 msg_len := of_nat (min (unat len) BLYNK_MAX_PAYLOAD_LEN),
                 msg_payload := mem_write 0 (take BLYNK_MAX_PAYLOAD_LEN data) (msg_payload (p_message c))\<rparr>,
             p_cnt := unat len\<rparr>))\<lparr>p_parse := Parse_cmd\<rparr>)"

lemma parse_header:
  assumes "p_parse c = Parse_cmd"
  shows "fold (parse_byte os) (blynk_header cmd ident len) c =
    (let m = (p_message c)\<lparr>msg_command := cmd, msg_id := ident, msg_len := len\<rparr> in
     if cmd \<noteq> BLYNK_CMD_RESPONSE \<and> len \<noteq> 0
     then c\<lparr>p_message := m, p_cnt := 0, p_parse := Parse_payload\<rparr>
     else (handle_message os (c\<lparr>p_parse := Parse_len, p_message := m, p_cnt := 2\<rparr>))\<lparr>p_parse := Parse_cmd\<rparr>)"
  using assms by (simp add: blynk_header_def parse_defs Let_def numeral_2_eq_2)

lemma parse_payload_prefix:
  assumes "p_parse c = Parse_payload" "message_wf (p_message c)"
    and "p_cnt c + length bs < unat (msg_len (p_message c))"
  shows "fold (parse_byte os) bs c =
    c\<lparr>p_message := (p_message c)\<lparr>msg_payload := mem_write (p_cnt c)
        (take (BLYNK_MAX_PAYLOAD_LEN - p_cnt c) bs) (msg_payload (p_message c))\<rparr>,
      p_cnt := p_cnt c + length bs\<rparr>"
  using assms(3)
proof (induction bs rule: rev_induct)
  case (snoc b bs)
  let ?k = "p_cnt c + length bs"
  have len: "length (msg_payload (p_message c)) = 512"
    using assms(2) by (simp add: message_wf_def)
  have wr: "poke ?k b (mem_write (p_cnt c) (take (512 - p_cnt c) bs) (msg_payload (p_message c)))
      = mem_write (p_cnt c) (take (512 - p_cnt c) (bs @ [b])) (msg_payload (p_message c))"
    if "?k < 512"
    using that len poke_mem_write [of "p_cnt c" bs "msg_payload (p_message c)" b] by simp
  show ?case
  proof (cases "?k < 512")
    case True
    then show ?thesis
      using snoc assms(1) wr by (simp add: parse_byte_def parse_payload_def Let_def)
  next
    case False
    then have "take (512 - p_cnt c) (bs @ [b]) = take (512 - p_cnt c) bs" by simp
    with False show ?thesis
      using snoc assms(1) by (simp add: parse_byte_def parse_payload_def Let_def)
  qed
qed simp

lemma parse_payload_all:
  assumes "p_parse c = Parse_payload" "message_wf (p_message c)" "p_cnt c = 0"
    and "length data = unat (msg_len (p_message c))" "data \<noteq> []"
  shows "fold (parse_byte os) data c =
    (handle_message os (c\<lparr>p_message := (p_message c)
        \<lparr>msg_len := of_nat (min (length data) BLYNK_MAX_PAYLOAD_LEN),
         msg_payload := mem_write 0 (take BLYNK_MAX_PAYLOAD_LEN data) (msg_payload (p_message c))\<rparr>,
      p_cnt := length data\<rparr>))\<lparr>p_parse := Parse_cmd\<rparr>"
proof -
  define bs b where "bs = butlast data" and "b = last data"
  have data: "data = bs @ [b]" using assms(5) by (simp add: bs_def b_def)
  have len: "length (msg_payload (p_message c)) = 512"
    using assms(2) by (simp add: message_wf_def)
  have prefix: "fold (parse_byte os) bs c =
      c\<lparr>p_message := (p_message c)\<lparr>msg_payload := mem_write 0 (take 512 bs) (msg_payload (p_message c))\<rparr>,
        p_cnt := length bs\<rparr>"
    using parse_payload_prefix [OF assms(1,2), of bs] assms(3,4) data by simp
  have wr: "poke (length bs) b (mem_write 0 (take 512 bs) (msg_payload (p_message c)))
      = mem_write 0 (take 512 data) (msg_payload (p_message c))" if "length bs < 512"
    using that len poke_mem_write [of 0 bs "msg_payload (p_message c)" b] data by simp
  have short: "msg_len (p_message c) = of_nat (Suc (length bs))"
    using assms(4) data by (metis length_append_singleton of_nat_unat ucast_id)
  have same: "(p_message c)\<lparr>msg_len := 1 + of_nat (length bs), msg_payload := x\<rparr>
      = (p_message c)\<lparr>msg_payload := x\<rparr>" for x
    using short by (cases "p_message c") simp
  consider "length bs < 512" | "length bs \<ge> 512" by linarith
  then show ?thesis
  proof cases
    case 1
    then show ?thesis
      using prefix assms(1,4) data short wr
      by (simp add: same parse_byte_def parse_payload_def Let_def min_def)
  next
    case 2
    then show ?thesis
      using prefix assms(1,4) data
      by (simp add: swap_updates parse_byte_def parse_payload_def Let_def min_def)
  qed
qed

lemma parse_frame:
  assumes "p_parse c = Parse_cmd" "message_wf (p_message c)" "frame_ok (cmd, ident, len, data)"
  shows "fold (parse_byte os) (frame_bytes cmd ident len data) c = deliver os (cmd, ident, len, data) c"
proof (cases "cmd = BLYNK_CMD_RESPONSE \<or> len = 0")
  case True
  moreover have "data = []" if "cmd \<noteq> BLYNK_CMD_RESPONSE"
    using assms(3) True that by (simp add: frame_ok_def)
  ultimately show ?thesis
    using assms(1) by (auto simp: frame_bytes_def deliver_def parse_header)
next
  case False
  then have data: "length data = unat len" "data \<noteq> []"
    using assms(3) by (auto simp: frame_ok_def unat_eq_0)
  let ?c = "c\<lparr>p_message := (p_message c)\<lparr>msg_command := cmd, msg_id := ident, msg_len := len\<rparr>,
      p_cnt := 0, p_parse := Parse_payload\<rparr>"
  have "message_wf (p_message ?c)" using assms(2) by (simp add: message_wf_def)
  then show ?thesis
    using False data assms(1) parse_payload_all [of ?c data os]
    by (simp add: frame_bytes_def deliver_def parse_header)
qed

end
