(* ===== verification/Blynk_Inv.thy ===== *)
theory Blynk_Inv
  imports Blynk_Parse
begin

text \<open>
  The type invariant \<open>client_wf\<close> (the arrays of the structs keep their sizes, so every index the code
  computes stays inside them) is kept by every operation of the Blynk client, for every behaviour of
  the outside code whose callbacks keep it.  The lemmas are collected in \<open>inv_intros\<close>.
\<close>

lemma client_wf_updates [simp]:
  "client_wf (c\<lparr>world := w\<rparr>) = client_wf c"
  "client_wf (c\<lparr>magic := mg\<rparr>) = client_wf c"
  "client_wf (c\<lparr>st_mtx := mx\<rparr>) = client_wf c"
  "client_wf (c\<lparr>st_state := s\<rparr>) = client_wf c"
  "client_wf (c\<lparr>st_evt_handler := eh\<rparr>) = client_wf c"
  "client_wf (c\<lparr>st_evt_handler_data := ed\<rparr>) = client_wf c"
  "client_wf (c\<lparr>p_ctl0 := i\<rparr>) = client_wf c"
  "client_wf (c\<lparr>p_ctl1 := i\<rparr>) = client_wf c"
  "client_wf (c\<lparr>p_ctl_queue := q\<rparr>) = client_wf c"
  "client_wf (c\<lparr>p_id := k\<rparr>) = client_wf c"
  "client_wf (c\<lparr>p_parse := f\<rparr>) = client_wf c"
  "client_wf (c\<lparr>p_cnt := n\<rparr>) = client_wf c"
  "client_wf (c\<lparr>p_ping_deadline := d\<rparr>) = client_wf c"
  "client_wf (c\<lparr>p_buf_total := t\<rparr>) = client_wf c"
  "client_wf (c\<lparr>p_buf_sent := t\<rparr>) = client_wf c"
  by (simp_all add: client_wf_def)

lemma client_wf_awaiting [simp]:
  "client_wf c \<Longrightarrow> client_wf (c\<lparr>p_awaiting := as\<rparr>) \<longleftrightarrow> length as = BLYNK_MAX_AWAITING"
  by (simp add: client_wf_def)

lemma client_wf_message [simp]:
  "client_wf c \<Longrightarrow> client_wf (c\<lparr>p_message := m\<rparr>) \<longleftrightarrow> message_wf m"
  by (simp add: client_wf_def)

lemma client_wf_opt [simp]:
  "client_wf c \<Longrightarrow> client_wf (c\<lparr>st_opt := o'\<rparr>) \<longleftrightarrow> options_wf o'"
  by (simp add: client_wf_def)

lemma client_wf_lengthD:
  "client_wf c \<Longrightarrow> length (p_awaiting c) = BLYNK_MAX_AWAITING"
  "client_wf c \<Longrightarrow> message_wf (p_message c)"
  "client_wf c \<Longrightarrow> length (msg_payload (p_message c)) = BLYNK_MAX_PAYLOAD_LEN"
  "client_wf c \<Longrightarrow> length (st_handlers c) = BLYNK_MAX_HANDLERS"
  "client_wf c \<Longrightarrow> length (p_wr_buf c) = BLYNK_MAX_PAYLOAD_LEN"
  by (simp_all add: client_wf_def message_wf_def)

lemma client_wf_set_slot:
  assumes "client_wf c" "length (hd_command h) = 8"
  shows "client_wf (c\<lparr>st_handlers := (st_handlers c)[i := h]\<rparr>)"
  using assms set_update_subset_insert [of "st_handlers c" i h]
  by (auto simp: client_wf_def)

lemma hd_command_length:
  "client_wf c \<Longrightarrow> i < length (st_handlers c) \<Longrightarrow> length (hd_command (st_handlers c ! i)) = 8"
  by (auto simp: client_wf_def)

subsection \<open>Operations of the client\<close>

lemma change_state_wf [inv_intros]:
  "app_respects os client_wf \<Longrightarrow> client_wf c \<Longrightarrow> client_wf (change_state os ev c)"
  by (auto simp: change_state_def Let_def intro!: app_code_wf split: option.split)

lemma set_state_wf [inv_intros]:
  "app_respects os client_wf \<Longrightarrow> client_wf c \<Longrightarrow> client_wf (set_state os s c)"
  by (simp add: set_state_def change_state_wf)

lemma set_disconnected_wf [inv_intros]:
  "app_respects os client_wf \<Longrightarrow> client_wf c \<Longrightarrow> client_wf (set_disconnected os e k c)"
  by (simp add: set_disconnected_def change_state_wf)

lemma fail_with_wf [inv_intros]:
  "app_respects os client_wf \<Longrightarrow> client_wf c \<Longrightarrow> client_wf (fail_with os e c)"
  by (simp add: fail_with_def set_disconnected_wf)

lemma call_resp_wf [inv_intros]:
  "app_respects os client_wf \<Longrightarrow> client_wf c \<Longrightarrow> client_wf (call_resp os h st d c)"
  by (cases h) (auto simp: auth_cb_def ping_cb_def intro: inv_intros)

lemma finish_awaiting_wf [inv_intros]:
  assumes "app_respects os client_wf" "i < BLYNK_MAX_AWAITING" "client_wf c"
  shows "client_wf (finish_awaiting os st i c)"
proof -
  have "client_wf (case aw_handler (p_awaiting c ! i) of None \<Rightarrow> c
      | Some h \<Rightarrow> call_resp os h st (aw_data (p_awaiting c ! i)) c)" (is "client_wf ?c'")
    using assms by (auto intro: inv_intros split: option.split)
  then show ?thesis
    using client_wf_lengthD(1) [of ?c'] assms(2) by (simp add: finish_awaiting_def Let_def)
qed

lemma blynk_send_internal_wf [inv_intros]:
  "client_wf c \<Longrightarrow> client_wf (snd (blynk_send_internal os cmd k len pl h d wt c))"
  by (simp add: blynk_send_internal_def response_deadline_def Let_def case_prod_beta split: option.split)

lemma handle_response_wf [inv_intros]:
  "app_respects os client_wf \<Longrightarrow> client_wf c \<Longrightarrow> client_wf (handle_response os c)"
  unfolding handle_response_def by (rule for_upto_inv) (auto intro: inv_intros)

lemma skip_arg_bounds:
  "skip_arg pl p len = (p', len') \<Longrightarrow> p' + len' = p + len \<and> len' \<le> len \<and> p \<le> p'"
  by (induction pl p len rule: skip_arg.induct) (auto split: if_splits)

lemma parse_args_from_length:
  "p + len < length pl \<Longrightarrow> length (snd (parse_args_from k pl p len)) = length pl"
proof (induction k pl p len rule: parse_args_from.induct)
  case (2 k pl p len)
  obtain p' len' where s: "skip_arg pl p len = (p', len')" by fastforce
  from skip_arg_bounds [OF s] 2 s show ?case
    by (cases "len' = 0") (auto simp: Let_def split: prod.splits)
qed simp

lemma parse_args_length: "len < length pl \<Longrightarrow> length (snd (parse_args pl len)) = length pl"
  by (simp add: parse_args_def parse_args_from_length)

lemma handle_hardware_wf [inv_intros]:
  assumes "app_respects os client_wf" "client_wf c"
  shows "client_wf (handle_hardware os c)"
proof -
  define L where "L = (if unat (msg_len (p_message c)) < BLYNK_MAX_PAYLOAD_LEN
    then unat (msg_len (p_message c)) else BLYNK_MAX_PAYLOAD_LEN - 1)"
  define r where "r = (if msg_len (p_message c) \<noteq> 0 then parse_args (msg_payload (p_message c)) L
    else ([], msg_payload (p_message c)))"
  have len: "length (snd r) = length (msg_payload (p_message c))"
    using client_wf_lengthD(3) [OF assms(2)] by (simp add: r_def L_def parse_args_length)
  have wf: "client_wf (c\<lparr>p_message := (p_message c)\<lparr>msg_payload := snd r\<rparr>\<rparr>)"
    using assms(2) len by (simp add: message_wf_def client_wf_lengthD)
  have ret: "client_wf (if ret \<noteq> BLYNK_OK then fail_with os ret c' else c')"
    if "client_wf c'" for ret c'
    using that assms(1) by (auto intro: inv_intros)
  have send: "client_wf (case blynk_send_internal os cmd k n pl h d wt c' of
      (ret, c) \<Rightarrow> if ret \<noteq> BLYNK_OK then fail_with os ret c else c)" if "client_wf c'" for cmd k n pl h d wt c'
    using ret [OF blynk_send_internal_wf [OF that, of os cmd k n pl h d wt]]
    by (simp add: case_prod_beta)
  show ?thesis
    unfolding handle_hardware_def Let_def L_def [symmetric] r_def [symmetric]
    using wf assms(1) send
    by (simp add: case_prod_beta app_code_wf split: list.split option.split)
qed

lemma handle_message_wf [inv_intros]:
  "app_respects os client_wf \<Longrightarrow> client_wf c \<Longrightarrow> client_wf (handle_message os c)"
  by (simp add: handle_message_def handle_response_wf handle_hardware_wf)

lemma parse_byte_wf [inv_intros]:
  assumes "app_respects os client_wf" "client_wf c"
  shows "client_wf (parse_byte os d c)"
proof -
  have m: "message_wf (p_message c)" using assms(2) by (rule client_wf_lengthD)
  then have [simp]:
    "k < 512 \<Longrightarrow> message_wf ((p_message c)\<lparr>msg_payload := poke k x (msg_payload (p_message c)), msg_len := l\<rparr>)"
    "k < 512 \<Longrightarrow> message_wf ((p_message c)\<lparr>msg_payload := poke k x (msg_payload (p_message c))\<rparr>)"
    "message_wf ((p_message c)\<lparr>msg_len := l\<rparr>)" "message_wf ((p_message c)\<lparr>msg_id := i\<rparr>)"
    "message_wf ((p_message c)\<lparr>msg_command := cm\<rparr>)" for k x l i cm
    by (simp_all add: message_wf_def)
  show ?thesis
    using assms m
    by (cases "p_parse c") (auto simp: parse_defs Let_def intro!: handle_message_wf)
qed

lemma parse_bytes_wf:
  "app_respects os client_wf \<Longrightarrow> client_wf c \<Longrightarrow> client_wf (fold (parse_byte os) bs c)"
  by (induction bs arbitrary: c) (auto intro: inv_intros)

lemma get_id_wf [inv_intros]: "client_wf c \<Longrightarrow> client_wf (snd (get_id dl h d c))"
  by (auto simp: get_id_def Let_def client_wf_lengthD split: option.split dest!: find_slot_SomeD)

lemma get_select_timeout_wf [inv_intros]: "client_wf c \<Longrightarrow> client_wf (snd (get_select_timeout os c))"
  by (auto simp: get_select_timeout_def Let_def split: prod.split option.split)

lemma advance_ping_wf [inv_intros]: "client_wf c \<Longrightarrow> client_wf (advance_ping os c)"
  by (auto simp: advance_ping_def split: prod.split)

lemma handle_timers_wf [inv_intros]:
  assumes "app_respects os client_wf" "client_wf c"
  shows "client_wf (snd (handle_timers os c))"
proof -
  have "client_wf (for_upto BLYNK_MAX_AWAITING (\<lambda>i c.
      if aw_id (p_awaiting c ! i) \<noteq> 0 \<and> aw_deadline (p_awaiting c ! i) \<noteq> 0 \<and>
         timerExpired (aw_deadline (p_awaiting c ! i)) now
      then finish_awaiting os BLYNK_STATUS_RESPONSE_TIMEOUT i c else c) (c\<lparr>world := w\<rparr>))" for now w
    by (rule for_upto_inv) (use assms in \<open>auto intro: inv_intros\<close>)
  then show ?thesis
    by (simp add: handle_timers_def Let_def case_prod_beta blynk_send_internal_wf advance_ping_wf)
qed

lemma blynk_init_wf [inv_intros]: "client_wf (snd (blynk_init os c))"
  by (auto simp: blynk_init_def Let_def split: prod.split option.split)

lemma blynk_set_options_wf [inv_intros]:
  "options_wf opt \<Longrightarrow> client_wf c \<Longrightarrow> client_wf (snd (blynk_set_options opt c))"
  by (auto simp: blynk_set_options_def Let_def options_wf_def)

lemma blynk_set_state_handler_wf [inv_intros]:
  "client_wf c \<Longrightarrow> client_wf (snd (blynk_set_state_handler h d c))"
  by (simp add: blynk_set_state_handler_def)

lemma blynk_set_handler_wf [inv_intros]:
  "client_wf c \<Longrightarrow> client_wf (snd (blynk_set_handler cmd h d c))"
  by (auto simp: blynk_set_handler_def Let_def hd_command_length split: option.split
      dest!: find_slot_SomeD intro!: client_wf_set_slot)

lemma blynk_remove_handler_wf [inv_intros]:
  "client_wf c \<Longrightarrow> client_wf (snd (blynk_remove_handler cmd c))"
  by (auto simp: blynk_remove_handler_def Let_def hd_command_length split: option.split
      dest!: find_slot_SomeD intro!: client_wf_set_slot)

lemma blynk_start_wf [inv_intros]:
  "app_respects os client_wf \<Longrightarrow> client_wf c \<Longrightarrow> client_wf (snd (blynk_start os c))"
  by (auto simp: blynk_start_def Let_def intro!: change_state_wf split: prod.split)

end
