(* ===== verification/Blynk_Loop.thy ===== *)
theory Blynk_Loop
  imports Blynk_Inv
begin

text \<open>
  The public send functions and the connection task of the Blynk client (second half of
  \<^verbatim>\<open>common/blynk/blynk_iot.c\<close>): \<open>blynk_send_with_callback_v\<close> with its format language, one pass of the
  endless loop of \<open>blynk_loop\<close> as \<open>loop_step\<close>, the connection phase before it, and the reconnecting
  task \<open>blynk_task\<close>.
\<close>

subsection \<open>Formatted sending\<close>

text \<open>The variable arguments, each with the type it was passed with; fetching one with a different
  type is undefined behaviour in C, and gives \<open>None\<close> here.\<close>

datatype 'd va_arg =
    VA_int int | VA_uint int | VA_long int | VA_ulong int | VA_llong int | VA_ullong int
  | VA_double 'd | VA_str bytes

fun dec_nat :: "nat \<Rightarrow> bytes" where
  "dec_nat n = (if n < 10 then [of_nat (48 + n)] else dec_nat (n div 10) @ [of_nat (48 + n mod 10)])"

definition dec_int :: "int \<Rightarrow> bytes" where
  "dec_int i = (if i < 0 then cstr ''-'' @ dec_nat (nat (- i)) else dec_nat (nat i))"

datatype 'd fmt_result = Fmt_skip | Fmt_bad | Fmt_text bytes "'d va_arg list"

text \<open>The text one format character contributes.  \<open>ff\<close> is the C library's conversion \<open>%.7f\<close>; the
  buffer it goes to has 32 bytes, which no other conversion fills.\<close>

fun fmt_one :: "('d \<Rightarrow> bytes) \<Rightarrow> char \<Rightarrow> 'd va_arg list \<Rightarrow> 'd fmt_result" where
  "fmt_one ff f args =
    (if f \<in> set ''sp'' then
       (case args of VA_str s # r \<Rightarrow> Fmt_text (c_str s) r | _ \<Rightarrow> Fmt_bad)
     else if f \<in> set ''cbB'' then
       (case args of VA_int i # r \<Rightarrow> Fmt_text (c_str [word_of_int i]) r | _ \<Rightarrow> Fmt_bad)
     else if f = CHR ''?'' then
       (case args of VA_int i # r \<Rightarrow> Fmt_text (cstr (if i \<noteq> 0 then ''true'' else ''false'')) r | _ \<Rightarrow> Fmt_bad)
     else if f \<in> set ''hHi'' then
       (case args of VA_int i # r \<Rightarrow> Fmt_text (dec_int i) r | _ \<Rightarrow> Fmt_bad)
     else if f = CHR ''I'' then
       (case args of VA_uint i # r \<Rightarrow> Fmt_text (dec_int i) r | _ \<Rightarrow> Fmt_bad)
     else if f = CHR ''l'' then
       (case args of VA_long i # r \<Rightarrow> Fmt_text (dec_int i) r | _ \<Rightarrow> Fmt_bad)
     else if f = CHR ''L'' then
       (case args of VA_ulong i # r \<Rightarrow> Fmt_text (dec_int i) r | _ \<Rightarrow> Fmt_bad)
     else if f = CHR ''q'' then
       (case args of VA_llong i # r \<Rightarrow> Fmt_text (dec_int i) r | _ \<Rightarrow> Fmt_bad)
     else if f = CHR ''Q'' then
       (case args of VA_ullong i # r \<Rightarrow> Fmt_text (dec_int i) r | _ \<Rightarrow> Fmt_bad)
     else if f \<in> set ''fd'' then
       (case args of VA_double d # r \<Rightarrow> Fmt_text (take 31 (c_str (ff d))) r | _ \<Rightarrow> Fmt_bad)
     else Fmt_skip)"

fun format_args :: "('d \<Rightarrow> bytes) \<Rightarrow> string \<Rightarrow> 'd va_arg list \<Rightarrow> bytes \<Rightarrow> bytes option" where
  "format_args ff [] args acc = Some acc"
| "format_args ff (f # fs) args acc =
    (if length acc \<ge> BLYNK_MAX_PAYLOAD_LEN then Some acc
     else case fmt_one ff f args of
       Fmt_skip \<Rightarrow> format_args ff fs args acc
     | Fmt_bad \<Rightarrow> None
     | Fmt_text t args' \<Rightarrow>
         let acc = take BLYNK_MAX_PAYLOAD_LEN (acc @ t);
             acc = (if length acc < BLYNK_MAX_PAYLOAD_LEN \<and> fs \<noteq> [] then acc @ [0] else acc)
         in format_args ff fs args' acc)"

definition blynk_send_with_callback_v ::
  "'w blynk_os \<Rightarrow> ('d \<Rightarrow> bytes) \<Rightarrow> u8 \<Rightarrow> blynk_response_handler option \<Rightarrow> nat \<Rightarrow> u32 \<Rightarrow> string \<Rightarrow>
   'd va_arg list \<Rightarrow> 'w blynk_client \<Rightarrow> (blynk_err \<times> 'w blynk_client) option" where
  "blynk_send_with_callback_v os ff cmd handler data wait fmt ap c =
    (if magic c \<noteq> BLYNK_MAGIC then Some (BLYNK_ERR_NOT_INITIALIZED, c)
     else if cmd = BLYNK_CMD_RESPONSE then Some (BLYNK_ERR_INVALID_OPTION, c)
     else case blynk_get_state c of
       BLYNK_STATE_STOPPED \<Rightarrow> Some (BLYNK_ERR_NOT_CONNECTED, c)
     | BLYNK_STATE_DISCONNECTED \<Rightarrow> Some (BLYNK_ERR_NOT_CONNECTED, c)
     | BLYNK_STATE_CONNECTED \<Rightarrow> Some (BLYNK_ERR_NOT_AUTHENTICATED, c)
     | BLYNK_STATE_AUTHENTICATED \<Rightarrow>
         (case format_args ff fmt ap [] of
            None \<Rightarrow> None
          | Some payload \<Rightarrow>
              Some (blynk_send_internal os cmd 0 (of_nat (length payload))
                      (if payload \<noteq> [] then Some payload else None) handler data wait c)))"

definition blynk_send_with_callback ::
  "'w blynk_os \<Rightarrow> ('d \<Rightarrow> bytes) \<Rightarrow> u8 \<Rightarrow> blynk_response_handler option \<Rightarrow> nat \<Rightarrow> u32 \<Rightarrow> string \<Rightarrow>
   'd va_arg list \<Rightarrow> 'w blynk_client \<Rightarrow> (blynk_err \<times> 'w blynk_client) option" where
  "blynk_send_with_callback os ff cmd handler data wait fmt ap c =
     blynk_send_with_callback_v os ff cmd handler data wait fmt ap c"

definition blynk_send ::
  "'w blynk_os \<Rightarrow> ('d \<Rightarrow> bytes) \<Rightarrow> u8 \<Rightarrow> u32 \<Rightarrow> string \<Rightarrow> 'd va_arg list \<Rightarrow> 'w blynk_client \<Rightarrow>
   (blynk_err \<times> 'w blynk_client) option" where
  "blynk_send os ff cmd wait fmt ap c = blynk_send_with_callback_v os ff cmd None 0 wait fmt ap c"

definition blynk_send_response ::
  "'w blynk_os \<Rightarrow> u16 \<Rightarrow> u16 \<Rightarrow> u32 \<Rightarrow> 'w blynk_client \<Rightarrow> blynk_err \<times> 'w blynk_client" where
  "blynk_send_response os ident status wait c =
    (if magic c \<noteq> BLYNK_MAGIC then (BLYNK_ERR_NOT_INITIALIZED, c)
     else blynk_send_internal os BLYNK_CMD_RESPONSE ident status None None 0 wait c)"

subsection \<open>One pass of the connection loop\<close>

text \<open>Every piece returns \<open>Inl\<close> of the client where the source jumps to \<open>fail_1\<close>.\<close>

text \<open>Choosing what to write: a partial write that is still pending, or the next queued message.\<close>

definition loop_fetch :: "'w blynk_os \<Rightarrow> 'w blynk_client \<Rightarrow> 'w blynk_client + ('w blynk_client \<times> bool)" where
  "loop_fetch os c =
    (if p_buf_total c \<noteq> 0 then Inr (c, True)
     else case xQueueReceive os (world c) of
       (None, w) \<Rightarrow> Inr (c\<lparr>world := w\<rparr>, False)
     | (Some ctl, w) \<Rightarrow>
         let c = c\<lparr>world := w\<rparr>;
             m = ctl_message ctl;
             (ident, c) = (if msg_id m = 0 then get_id (ctl_deadline ctl) (ctl_handler ctl) (ctl_data ctl) c
                           else (msg_id m, c))
         in if ident = 0 then Inl (set_disconnected os BLYNK_ERR_MEM 0 c)
            else let (buf, total) = blynk_serialize (p_wr_buf c) BLYNK_MAX_PAYLOAD_LEN (m\<lparr>msg_id := ident\<rparr>)
                 in Inr (c\<lparr>p_wr_buf := buf, p_buf_total := int total, p_buf_sent := 0\<rparr>, True))"

text \<open>\<open>tv_sec\<close> and \<open>tv_usec\<close> of the select timeout, in the 32-bit unsigned arithmetic of \<open>TickType_t\<close>.\<close>

definition select_tv :: "'w blynk_os \<Rightarrow> u32 \<Rightarrow> u32 \<times> u32" where
  "select_tv os t = (t * portTICK_RATE_MS os div 1000, (t * portTICK_RATE_MS os) mod 1000 * 1000)"

text \<open>Feeding the bytes of a read to the parser, until it disconnects.\<close>

fun loop_parse :: "'w blynk_os \<Rightarrow> bytes \<Rightarrow> 'w blynk_client \<Rightarrow> 'w blynk_client + 'w blynk_client" where
  "loop_parse os [] c = Inr c"
| "loop_parse os (d # ds) c =
    (let c = parse_byte os d c in
     if st_state c = BLYNK_STATE_DISCONNECTED then Inl c else loop_parse os ds c)"

definition loop_read_ctl :: "'w blynk_os \<Rightarrow> 'w blynk_client \<Rightarrow> 'w blynk_client + 'w blynk_client" where
  "loop_read_ctl os c =
    (let (rd, _, w) = os_read os (p_ctl0 c) 1 (world c); c = c\<lparr>world := w\<rparr> in
     if rd < 0 \<and> os_errno os w \<noteq> EAGAIN os
     then Inl (set_disconnected os BLYNK_ERR_ERRNO (os_errno os w) c) else Inr c)"

definition loop_read :: "'w blynk_os \<Rightarrow> int \<Rightarrow> 'w blynk_client \<Rightarrow> 'w blynk_client + 'w blynk_client" where
  "loop_read os fd c =
    (let (rd, buf, w) = os_read os fd BLYNK_MAX_PAYLOAD_LEN (world c); c = c\<lparr>world := w\<rparr> in
     if rd < 0 then
       if os_errno os w \<noteq> EAGAIN os
       then Inl (set_disconnected os BLYNK_ERR_ERRNO (os_errno os w) c) else Inr c
     else if rd = 0 then Inl (set_disconnected os BLYNK_ERR_CLOSED 0 c)
     else loop_parse os (take (nat rd) buf) c)"

text \<open>The bytes that \<open>write (fd, "https://...", 92)\<close> passes: the 90 characters of the literal, its
  terminator, and one byte \<open>past\<close> of whatever the linker placed behind it.\<close>

definition blynk_update_url :: bytes where
  "blynk_update_url = cstr (''https://sgp1.blynk.cloud/external/api/update?token='' @
     ''0mUb3DKviCER9iOKVBNGNMxaxkC6dKbu&v1=150'')"

definition loop_write :: "'w blynk_os \<Rightarrow> u8 \<Rightarrow> int \<Rightarrow> 'w blynk_client \<Rightarrow> 'w blynk_client + 'w blynk_client" where
  "loop_write os past fd c =
    (let (wr, w) = os_write os fd (blynk_update_url @ [0, past]) (world c); c = c\<lparr>world := w\<rparr> in
     if wr < 0 then
       if os_errno os w \<noteq> EAGAIN os
       then Inl (set_disconnected os BLYNK_ERR_ERRNO (os_errno os w) c) else Inr c
     else
       let c = c\<lparr>p_buf_sent := p_buf_sent c + wr\<rparr> in
       Inr (if p_buf_sent c \<ge> p_buf_total c then c\<lparr>p_buf_total := 0\<rparr> else c))"

text \<open>The sum type as the error monad of the \<open>goto fail_1\<close>.\<close>

definition sum_bind :: "'e + 'a \<Rightarrow> ('a \<Rightarrow> 'e + 'b) \<Rightarrow> 'e + 'b" where
  "sum_bind m f = (case m of Inl e \<Rightarrow> Inl e | Inr a \<Rightarrow> f a)"

definition loop_step :: "'w blynk_os \<Rightarrow> u8 \<Rightarrow> int \<Rightarrow> 'w blynk_client \<Rightarrow> 'w blynk_client + 'w blynk_client" where
  "loop_step os past fd c =
    sum_bind (loop_fetch os c) (\<lambda>(c, want_write).
    let (timeout, c) = get_select_timeout os c;
        (nfds, rdset, wrset, w) =
          os_select os [fd, p_ctl0 c] (if want_write then [fd] else [])
            (map_option (select_tv os) timeout) (world c);
        c = c\<lparr>world := w\<rparr> in
    if nfds < 0 then Inl (set_disconnected os BLYNK_ERR_ERRNO (os_errno os w) c)
    else let (ret, c) = handle_timers os c in
    if ret \<noteq> BLYNK_OK then Inl (fail_with os ret c)
    else if st_state c = BLYNK_STATE_DISCONNECTED then Inl c
    else if nfds = 0 then Inr c
    else sum_bind (if p_ctl0 c \<in> set rdset then loop_read_ctl os c else Inr c) (\<lambda>c.
         sum_bind (if fd \<in> set rdset then loop_read os fd c else Inr c) (\<lambda>c.
         if p_buf_total c \<noteq> 0 \<and> fd \<in> set wrset then loop_write os past fd c else Inr c)))"

subsection \<open>Connecting and the task\<close>

text \<open>The loop over the resolved addresses: the first socket that connects, or -1.\<close>

fun connect_first :: "'w blynk_os \<Rightarrow> nat list \<Rightarrow> 'w \<Rightarrow> int \<times> 'w" where
  "connect_first os [] w = (-1, w)"
| "connect_first os (r # rs) w =
    (let (fd, w) = os_socket os (Sock_stream r) w in
     if fd < 0 then connect_first os rs w
     else let (e, w) = os_connect os fd r w in
       if e < 0 then connect_first os rs (os_close os fd w) else (fd, w))"

definition reset_client :: "'w blynk_os \<Rightarrow> 'w blynk_client \<Rightarrow> 'w blynk_client" where
  "reset_client os c =
    c\<lparr>p_awaiting := replicate BLYNK_MAX_AWAITING zero_awaiting, world := xQueueReset os (world c),
      p_parse := Parse_cmd, p_id := 1, p_buf_total := 0\<rparr>"

text \<open>\<open>blynk_loop\<close> up to the read loop.  \<open>Setup_return\<close> is \<open>return BLYNK_ERR_INVALID_OPTION\<close>,
  \<open>Setup_fail\<close> the jumps to \<open>fail_0\<close> and \<open>fail_1\<close>, and \<open>Setup_run\<close> enters the read loop with the
  connected socket.\<close>

datatype 'w setup_result =
    Setup_return "'w blynk_client"
  | Setup_fail "'w blynk_client"
  | Setup_run int "'w blynk_client"

text \<open>\<open>hostname\<close> is \<open>char [128]\<close>; the part up to the first colon is the host, the rest the service.\<close>

definition split_server :: "bytes \<Rightarrow> (bytes \<times> bytes) option" where
  "split_server server =
    (let h = take 127 (c_str server); colon = of_char (CHR '':'') in
     if colon \<in> set h then Some (takeWhile (\<lambda>b. b \<noteq> colon) h, tl (dropWhile (\<lambda>b. b \<noteq> colon) h))
     else None)"

definition blynk_setup :: "'w blynk_os \<Rightarrow> 'w blynk_client \<Rightarrow> 'w setup_result" where
  "blynk_setup os c =
    (case split_server (opt_server (st_opt c)) of
       None \<Rightarrow> Setup_return c
     | Some (host, serv) \<Rightarrow>
        (case os_getaddrinfo os host serv (world c) of (res, addrs, w) \<Rightarrow>
           let token = c_str (opt_token (st_opt c)); c = c\<lparr>world := w\<rparr> in
           if res \<noteq> 0 then Setup_fail (set_disconnected os BLYNK_ERR_GAI res c)
           else case connect_first os addrs (world c) of (fd, w) \<Rightarrow>
             let c = c\<lparr>world := w\<rparr> in
             if fd < 0 then Setup_fail (set_disconnected os BLYNK_ERR_ERRNO (os_errno os w) c)
             else let c = set_state os BLYNK_STATE_CONNECTED (c\<lparr>world := os_set_nonblock os fd w\<rparr>);
                      c = advance_ping os (reset_client os c) in
               case blynk_send_internal os BLYNK_CMD_LOGIN 0 (of_nat (length token)) (Some token)
                      (Some Auth_cb) 0 0 c of
                 (ret, c) \<Rightarrow>
                   if ret \<noteq> BLYNK_OK then (let c = fail_with os ret c in Setup_fail (c\<lparr>world := os_close os fd (world c)\<rparr>))
                   else Setup_run fd c))"

text \<open>\<open>n\<close> passes of the read loop: \<open>Inl\<close> with the socket closed when it has left the loop.\<close>

fun loop_run :: "'w blynk_os \<Rightarrow> u8 \<Rightarrow> int \<Rightarrow> nat \<Rightarrow> 'w blynk_client \<Rightarrow> 'w blynk_client + 'w blynk_client" where
  "loop_run os past fd 0 c = Inr c"
| "loop_run os past fd (Suc n) c =
    (case loop_step os past fd c of
       Inl c \<Rightarrow> Inl (c\<lparr>world := os_close os fd (world c)\<rparr>)
     | Inr c \<Rightarrow> loop_run os past fd n c)"

text \<open>The pause of \<open>blynk_task\<close> between two connections.\<close>

definition reconnect_pause :: "'w blynk_os \<Rightarrow> 'w blynk_client \<Rightarrow> 'w blynk_client" where
  "reconnect_pause os c =
     c\<lparr>world := vTaskDelay os (opt_reconnect_delay (st_opt c) div portTICK_RATE_MS os) (world c)\<rparr>"

text \<open>The transitions of \<open>blynk_task\<close> between its rest points: the configuration before a call of
  \<open>blynk_loop\<close>, inside its read loop, and after \<open>vTaskDelete\<close>.\<close>

datatype 'w task_state =
    Task_connecting "'w blynk_client"
  | Task_running int "'w blynk_client"
  | Task_deleted "'w blynk_client"

inductive task_step :: "'w blynk_os \<Rightarrow> u8 \<Rightarrow> 'w task_state \<Rightarrow> 'w task_state \<Rightarrow> bool" for os past where
  give_up: "blynk_setup os c = Setup_return c' \<Longrightarrow> task_step os past (Task_connecting c) (Task_deleted c')"
| retry: "blynk_setup os c = Setup_fail c' \<Longrightarrow> task_step os past (Task_connecting c) (Task_connecting (reconnect_pause os c'))"
| enter: "blynk_setup os c = Setup_run fd c' \<Longrightarrow> task_step os past (Task_connecting c) (Task_running fd c')"
| stay: "loop_step os past fd c = Inr c' \<Longrightarrow> task_step os past (Task_running fd c) (Task_running fd c')"
| leave: "loop_step os past fd c = Inl c' \<Longrightarrow>
     task_step os past (Task_running fd c) 
       (Task_connecting (reconnect_pause os (c'\<lparr>world := os_close os fd (world c')\<rparr>)))"

inductive_cases task_connectingE: "task_step os past (Task_connecting c) s"
inductive_cases task_runningE: "task_step os past (Task_running fd c) s"
inductive_cases task_deletedE: "task_step os past (Task_deleted c) s"

end
