(* ===== verification/Blynk_Env.thy ===== *)
theory Blynk_Env
  imports Blynk_Loop
begin

text \<open>
  A concrete environment for the Blynk client: a queue of eight control messages, a clock, sockets
  numbered above those that are open, and an application that records the calls it gets.  It shows that the hypotheses on
  outside code are satisfiable, and the witnesses of the properties run in it.
\<close>

record env_world =
  w_queue :: "blynk_ctl list"
  w_now :: u32
  w_calls :: "app_call list"
  w_open :: "int list"
  w_rx :: bytes

definition env0 :: env_world where
  "env0 = \<lparr>w_queue = [], w_now = 1000, w_calls = [], w_open = [], w_rx = []\<rparr>"

definition env_queue_send :: "blynk_ctl \<Rightarrow> u32 \<Rightarrow> env_world \<Rightarrow> bool \<times> env_world" where
  "env_queue_send ctl wait w =
    (if length (w_queue w) < 8 then (True, w\<lparr>w_queue := w_queue w @ [ctl]\<rparr>) else (False, w))"

definition env_queue_receive :: "env_world \<Rightarrow> blynk_ctl option \<times> env_world" where
  "env_queue_receive w = (case w_queue w of [] \<Rightarrow> (None, w) | q # qs \<Rightarrow> (Some q, w\<lparr>w_queue := qs\<rparr>))"

definition env_socket :: "sock_kind \<Rightarrow> env_world \<Rightarrow> int \<times> env_world" where
  "env_socket k w = (let fd = foldr max (w_open w) 2 + 1 in (fd, w\<lparr>w_open := fd # w_open w\<rparr>))"

definition env_app :: "app_call \<Rightarrow> env_world blynk_client \<Rightarrow> env_world blynk_client" where
  "env_app u c = c\<lparr>world := (world c)\<lparr>w_calls := w_calls (world c) @ [u]\<rparr>\<rparr>"

definition env_os :: "env_world blynk_os" where
  "env_os = \<lparr>portTICK_RATE_MS = 10, EAGAIN = 11, os_errno = (\<lambda>w. 5),
     xTaskGetTickCount = (\<lambda>w. (w_now w, w)),
     xSemaphoreCreateMutex = (\<lambda>w. (True, w)), xQueueCreate = (\<lambda>w. (True, w)),
     xQueueSend = env_queue_send, xQueueReceive = env_queue_receive,
     xQueueReset = (\<lambda>w. w\<lparr>w_queue := []\<rparr>), xTaskCreate = (\<lambda>w. (True, w)),
     vTaskDelay = (\<lambda>t w. w\<lparr>w_now := w_now w + t\<rparr>),
     os_getaddrinfo = (\<lambda>h s w. (0, [7], w)), os_socket = env_socket,
     os_bind = (\<lambda>fd w. (0, w)), os_getsockname = (\<lambda>fd w. (0, nat fd, w)),
     os_connect = (\<lambda>fd a w. (0, w)),
     os_close = (\<lambda>fd w. w\<lparr>w_open := removeAll fd (w_open w)\<rparr>),
     os_set_nonblock = (\<lambda>fd w. w),
     os_select = (\<lambda>rd wr t w. (1, rd, wr, w)),
     os_read = (\<lambda>fd n w. (int (length (take n (w_rx w))), take n (w_rx w), w\<lparr>w_rx := drop n (w_rx w)\<rparr>)),
     os_write = (\<lambda>fd bs w. (int (length bs), w)),
     app_code = env_app\<rparr>"

lemmas env_simps = env_os_def env_app_def env_queue_send_def env_queue_receive_def env_socket_def

lemma env_app_wf [simp]: "app_respects env_os client_wf"
proof -
  have "client_wf (c\<lparr>world := w\<rparr>) = client_wf c" for c :: "env_world blynk_client" and w
    by (simp add: client_wf_def)
  then show ?thesis by (simp add: app_respects_def env_os_def env_app_def)
qed

lemma env_app_keeps [simp]:
  "app_keeps env_os p_awaiting" "app_keeps env_os p_message" "app_keeps env_os st_state"
  "app_keeps env_os p_ping_deadline" "app_keeps env_os p_id"
  by (simp_all add: app_keeps_def env_os_def env_app_def)

end
