(* ===== verification/Interfaces.thy ===== *)
theory Interfaces
  imports Prelude
begin

text \<open>
  The contracts between the parts of the firmware, as locales: a table from keys to values of limited
  size (the Blynk command handlers, the HTTP header list), a framing of messages in a byte stream
  that a byte-driven machine takes apart again (Blynk frames), and a queue that hands out its elements in
  the order they came (the MQTT outbox).  Each locale is interpreted on the
  definitions of the component that provides it.
\<close>

subsection \<open>Tables from keys to values\<close>

text \<open>\<open>store\<close> may fail (no free slot, no memory); \<open>valid\<close> are the keys the table can hold.  Two keys with the
  same canonical form \<open>kcanon\<close> name the same entry, and a table may keep a value in a canonical form \<open>vcanon\<close>.\<close>

locale key_table =
  fixes lookup :: "'k \<Rightarrow> 't \<Rightarrow> 'v option"
    and store :: "'k \<Rightarrow> 'v \<Rightarrow> 't \<Rightarrow> 't option"
    and erase :: "'k \<Rightarrow> 't \<Rightarrow> 't"
    and inv :: "'t \<Rightarrow> bool"
    and valid :: "'k \<Rightarrow> bool"
    and kcanon :: "'k \<Rightarrow> 'c"
    and vcanon :: "'v \<Rightarrow> 'v"
  assumes lookup_store: "inv t \<Longrightarrow> valid k \<Longrightarrow> valid k' \<Longrightarrow> store k v t = Some t' \<Longrightarrow>
      lookup k' t' = (if kcanon k' = kcanon k then Some (vcanon v) else lookup k' t)"
    and lookup_erase: "inv t \<Longrightarrow> valid k \<Longrightarrow> valid k' \<Longrightarrow>
      lookup k' (erase k t) = (if kcanon k' = kcanon k then None else lookup k' t)"
    and inv_store: "inv t \<Longrightarrow> valid k \<Longrightarrow> store k v t = Some t' \<Longrightarrow> inv t'"
    and inv_erase: "inv t \<Longrightarrow> valid k \<Longrightarrow> inv (erase k t)"
begin

text \<open>Registering a list of entries; \<open>None\<close> as soon as one of them does not fit.\<close>

fun store_all :: "('k \<times> 'v) list \<Rightarrow> 't \<Rightarrow> 't option" where
  "store_all [] t = Some t"
| "store_all ((k, v) # kvs) t = (case store k v t of None \<Rightarrow> None | Some t' \<Rightarrow> store_all kvs t')"

lemma store_all_total: "(\<And>k v t. store k v t \<noteq> None) \<Longrightarrow> store_all kvs t \<noteq> None"
proof (induction kvs arbitrary: t)
  case (Cons kv kvs)
  then show ?case by (cases kv) (auto split: option.split)
qed simp

lemma inv_store_all:
  "inv t \<Longrightarrow> (\<And>k v. (k, v) \<in> set kvs \<Longrightarrow> valid k) \<Longrightarrow> store_all kvs t = Some t' \<Longrightarrow> inv t'"
proof (induction kvs arbitrary: t)
  case (Cons kv kvs)
  obtain k v where kv: "kv = (k, v)" by (cases kv)
  with Cons.prems obtain u where u: "store k v t = Some u" "store_all kvs u = Some t'"
    by (auto split: option.splits)
  have "inv u" using Cons.prems kv u(1) by (auto intro: inv_store)
  then show ?case using Cons.IH [of u] Cons.prems u(2) by auto
qed simp

lemma lookup_store_all:
  assumes "inv t" "\<And>k v. (k, v) \<in> set kvs \<Longrightarrow> valid k" "valid k'" "store_all kvs t = Some t'"
  shows "lookup k' t' = (case map_of (rev (map (map_prod kcanon vcanon) kvs)) (kcanon k') of
      Some v \<Rightarrow> Some v | None \<Rightarrow> lookup k' t)"
  using assms
proof (induction kvs arbitrary: t)
  case (Cons kv kvs)
  obtain k v where kv: "kv = (k, v)" by (cases kv)
  with Cons.prems obtain u where u: "store k v t = Some u" "store_all kvs u = Some t'"
    by (auto split: option.splits)
  have "inv u" using Cons.prems kv u(1) by (auto intro: inv_store)
  then have "lookup k' t' = (case map_of (rev (map (map_prod kcanon vcanon) kvs)) (kcanon k') of
      Some v \<Rightarrow> Some v | None \<Rightarrow> lookup k' u)"
    using Cons.IH [of u] Cons.prems u(2) by auto
  moreover have "lookup k' u = (if kcanon k' = kcanon k then Some (vcanon v) else lookup k' t)"
    using lookup_store [OF Cons.prems(1) _ Cons.prems(3) u(1)] Cons.prems(2) [of k v] kv by simp
  ultimately show ?case
    by (auto simp: kv map_add_def split: option.split)
qed simp

lemma erase_store:
  "inv t \<Longrightarrow> valid k \<Longrightarrow> valid k' \<Longrightarrow> store k v t = Some t' \<Longrightarrow>
   lookup k' (erase k t') = (if kcanon k' = kcanon k then None else lookup k' t)"
  by (simp add: lookup_erase lookup_store inv_store)

end

subsection \<open>Framed byte streams\<close>

text \<open>A machine that is fed bytes one at a time; \<open>ready\<close> are its rest points between two messages, and
  feeding the encoding of a message at a rest point has the effect \<open>deliver\<close> and comes back to one.\<close>

locale framed_stream =
  fixes feed :: "'b \<Rightarrow> 's \<Rightarrow> 's"
    and encode :: "'m \<Rightarrow> 'b list"
    and deliver :: "'m \<Rightarrow> 's \<Rightarrow> 's"
    and ready :: "'s \<Rightarrow> bool"
    and wf_msg :: "'m \<Rightarrow> bool"
  assumes feed_encode: "ready s \<Longrightarrow> wf_msg m \<Longrightarrow> fold feed (encode m) s = deliver m s"
    and ready_deliver: "ready s \<Longrightarrow> wf_msg m \<Longrightarrow> ready (deliver m s)"
begin

lemma feed_stream:
  assumes "ready s" "\<And>m. m \<in> set ms \<Longrightarrow> wf_msg m"
  shows "fold feed (concat (map encode ms)) s = fold deliver ms s \<and> ready (fold deliver ms s)"
  using assms
proof (induction ms arbitrary: s)
  case (Cons m ms)
  then have "fold feed (encode m) s = deliver m s" "ready (deliver m s)"
    by (auto intro: feed_encode ready_deliver)
  with Cons.IH [of "deliver m s"] Cons.prems show ?case by simp
qed simp

end

subsection \<open>First-in first-out queues\<close>

text \<open>\<open>items\<close> is the abstraction of a queue to the list of what waits in it; \<open>ok\<close> says what can be added.\<close>

locale fifo_queue =
  fixes items :: "'q \<Rightarrow> 'a list"
    and push :: "'a \<Rightarrow> 'q \<Rightarrow> 'q"
    and front :: "'q \<Rightarrow> 'a option"
    and pop :: "'q \<Rightarrow> 'q"
    and inv :: "'q \<Rightarrow> bool"
    and ok :: "'a \<Rightarrow> 'q \<Rightarrow> bool"
  assumes items_push: "inv q \<Longrightarrow> ok a q \<Longrightarrow> items (push a q) = items q @ [a]"
    and inv_push: "inv q \<Longrightarrow> ok a q \<Longrightarrow> inv (push a q)"
    and front_items: "inv q \<Longrightarrow> front q = (case items q of [] \<Rightarrow> None | a # _ \<Rightarrow> Some a)"
    and items_pop: "inv q \<Longrightarrow> items q \<noteq> [] \<Longrightarrow> items (pop q) = tl (items q)"
    and inv_pop: "inv q \<Longrightarrow> inv (pop q)"
begin

text \<open>Taking out up to \<open>n\<close> elements, and adding a list of them.\<close>

fun drain :: "nat \<Rightarrow> 'q \<Rightarrow> 'a list" where
  "drain 0 q = []"
| "drain (Suc n) q = (case front q of None \<Rightarrow> [] | Some a \<Rightarrow> a # drain n (pop q))"

fun can_push :: "'a list \<Rightarrow> 'q \<Rightarrow> bool" where
  "can_push [] q \<longleftrightarrow> True"
| "can_push (a # as) q \<longleftrightarrow> ok a q \<and> can_push as (push a q)"

lemma drain_items: "inv q \<Longrightarrow> drain n q = take n (items q)"
proof (induction n arbitrary: q)
  case (Suc n)
  show ?case
  proof (cases "items q")
    case Nil
    with Suc.prems show ?thesis by (simp add: front_items)
  next
    case (Cons a as)
    then have "items (pop q) = as" using items_pop [OF Suc.prems] by simp
    with Suc.IH [OF inv_pop [OF Suc.prems]] Cons show ?thesis by (simp add: front_items [OF Suc.prems])
  qed
qed simp

lemma push_all:
  "inv q \<Longrightarrow> can_push as q \<Longrightarrow> inv (fold push as q) \<and> items (fold push as q) = items q @ as"
proof (induction as arbitrary: q)
  case (Cons a as)
  then show ?case using Cons.IH [OF inv_push] by (simp add: items_push)
qed simp

lemma fifo_order:
  "inv q \<Longrightarrow> can_push as q \<Longrightarrow> length (items q @ as) \<le> n \<Longrightarrow> drain n (fold push as q) = items q @ as"
  using push_all [of q as] by (simp add: drain_items)

end

end
