(* ===== verification/Blynk_Stream.thy ===== *)
theory Blynk_Stream
  imports Blynk_Env Interfaces
begin

text \<open>
  Properties of the Blynk wire format: the parser is a framed stream, it delivers what
  \<open>blynk_serialize\<close> wrote, and where a message does not fit the write buffer the frame is cut short.
\<close>

definition stream_ready :: "'w blynk_client \<Rightarrow> bool" where
  "stream_ready c \<longleftrightarrow> client_wf c \<and> p_parse c = Parse_cmd"

definition frame_of :: "u8 \<times> u16 \<times> u16 \<times> bytes \<Rightarrow> bytes" where
  "frame_of f = (case f of (cmd, ident, len, data) \<Rightarrow> frame_bytes cmd ident len data)"

lemma deliver_ready:
  assumes "app_respects os client_wf" "stream_ready c" "frame_ok f"
  shows "stream_ready (deliver os f c)"
proof -
  obtain cmd ident len data where f: "f = (cmd, ident, len, data)" by (cases f)
  have wf: "client_wf c" using assms(2) by (simp add: stream_ready_def)
  have "message_wf ((p_message c)\<lparr>msg_command := a, msg_id := b, msg_len := l\<rparr>)" for a b l
    using client_wf_lengthD(2) [OF wf] by (simp add: message_wf_def)
  moreover have "message_wf ((p_message c)\<lparr>msg_command := a, msg_id := b, msg_len := l,
      msg_payload := mem_write 0 (take 512 data) (msg_payload (p_message c))\<rparr>)" for a b l
    using client_wf_lengthD(3) [OF wf] by (simp add: message_wf_def)
  ultimately show ?thesis
    using wf assms(1) by (simp add: stream_ready_def deliver_def f handle_message_wf)
qed

lemma zero_client_ready [simp]: "stream_ready (zero_client w)"
  by (simp add: stream_ready_def) (simp add: zero_client_def)

interpretation blynk_stream: framed_stream "parse_byte os" frame_of "deliver os"
    "\<lambda>c. app_respects os client_wf \<and> stream_ready c" frame_ok
  for os :: "'w blynk_os"
proof (unfold_locales, goal_cases)
  case (1 c f)
  then show ?case
    by (cases f) (auto simp: frame_of_def stream_ready_def intro!: parse_frame client_wf_lengthD(2))
next
  case (2 c f)
  then show ?case by (simp add: deliver_ready)
qed

text \<open>C1: A stream of Blynk frames, each announcing any length from 0 to 65535, is taken apart by the
  byte-driven parser into exactly those frames: feeding the bytes one at a time has the same effect as
  delivering the frames to \<open>handle_message\<close> in order (with payloads cut to 512 bytes), and the parser
  ends at a frame boundary.\<close>

theorem blynk_stream_delivery:
  assumes "app_respects os client_wf" "stream_ready c" "\<And>f. f \<in> set fs \<Longrightarrow> frame_ok f"
  shows "fold (parse_byte os) (concat (map frame_of fs)) c = fold (deliver os) fs c
    \<and> stream_ready (fold (deliver os) fs c)"
  using blynk_stream.feed_stream [of os c fs] assms by simp

theorem blynk_stream_delivery_witness:
  "fold (parse_byte env_os) (concat (map frame_of [(20, 1, 2, [65, 66]), (0, 1, 200, [])])) (zero_client env0) =
     fold (deliver env_os) [(20, 1, 2, [65, 66]), (0, 1, 200, [])] (zero_client env0)
   \<and> stream_ready (fold (deliver env_os) [(20, 1, 2, [65, 66]), (0, 1, 200, [])] (zero_client env0))"
  by (rule blynk_stream_delivery) (auto simp: frame_ok_def)

lemma take_serialize:
  assumes "message_wf m" "length buf = BLYNK_MAX_PAYLOAD_LEN"
    "blynk_serialize buf BLYNK_MAX_PAYLOAD_LEN m = (buf', n)"
  shows "length buf' = BLYNK_MAX_PAYLOAD_LEN \<and> n \<le> BLYNK_MAX_PAYLOAD_LEN \<and>
    take n buf' = frame_bytes (msg_command m) (msg_id m) (msg_len m)
           (take (min (unat (msg_len m)) 507) (msg_payload m))"
proof -
  let ?h = "blynk_header (msg_command m) (msg_id m) (msg_len m)"
  let ?d = "take (min (unat (msg_len m)) 507) (msg_payload m)"
  have h: "length ?h = 5" by (simp add: blynk_header_def)
  have d: "length ?d = min (unat (msg_len m)) 507" using assms(1) by (simp add: message_wf_def)
  show ?thesis
  proof (cases "msg_len m \<noteq> 0 \<and> msg_command m \<noteq> BLYNK_CMD_RESPONSE")
    case True
    then have "buf' = mem_write 5 ?d (mem_write 0 ?h buf)" "n = 5 + length ?d"
      using assms(3) d by (auto simp: blynk_serialize_def Let_def min_def split: if_splits)
    then show ?thesis
      using True assms(2) h d take_mem_write_twice [OF h, of ?d buf] by (simp add: frame_bytes_def)
  next
    case False
    then have "buf' = mem_write 0 ?h buf" "n = 5"
      using assms(3) by (auto simp: blynk_serialize_def Let_def)
    moreover have "take 5 (mem_write 0 ?h buf) = ?h" using h by (simp add: mem_write_0)
    ultimately show ?thesis
      using False assms(2) h by (auto simp: frame_bytes_def)
  qed
qed

text \<open>C15: Round trip: for a message whose payload length is at most 507 bytes (or a response), the bytes
  \<open>blynk_serialize\<close> leaves in the 512-byte write buffer, fed to the parser, deliver a message with the
  same command, identifier, length and payload.\<close>

theorem blynk_serialize_roundtrip:
  assumes "stream_ready c" "message_wf m" "length buf = BLYNK_MAX_PAYLOAD_LEN"
    and "msg_command m = BLYNK_CMD_RESPONSE \<or> unat (msg_len m) \<le> 507"
    and "blynk_serialize buf BLYNK_MAX_PAYLOAD_LEN m = (buf', n)"
  shows "fold (parse_byte os) (take n buf') c =
    deliver os (msg_command m, msg_id m, msg_len m, take (unat (msg_len m)) (msg_payload m)) c"
proof -
  let ?d = "take (unat (msg_len m)) (msg_payload m)"
  have "take n buf' = frame_bytes (msg_command m) (msg_id m) (msg_len m) ?d"
    using take_serialize [OF assms(2,3,5)] assms(4) by (auto simp: frame_bytes_def min_def)
  moreover have "frame_ok (msg_command m, msg_id m, msg_len m, ?d)"
    using assms(2,4) by (auto simp: frame_ok_def message_wf_def)
  ultimately show ?thesis
    using parse_frame [of c] assms(1) by (simp add: stream_ready_def client_wf_lengthD(2))
qed

theorem blynk_serialize_roundtrip_witness:
  "fold (parse_byte env_os)
      (take (snd (blynk_serialize (replicate 512 0) 512 (zero_message\<lparr>msg_command := 20, msg_id := 3, msg_len := 2\<rparr>)))
         (fst (blynk_serialize (replicate 512 0) 512 (zero_message\<lparr>msg_command := 20, msg_id := 3, msg_len := 2\<rparr>))))
      (zero_client env0) =
   deliver env_os (20, 3, 2, replicate 2 0) (zero_client env0)"
  using blynk_serialize_roundtrip [OF zero_client_ready [of env0],
      of "zero_message\<lparr>msg_command := 20, msg_id := 3, msg_len := 2\<rparr>" "replicate 512 0" _ _ env_os,
      OF _ _ _ prod.collapse [symmetric]]
  by (simp add: message_wf_def zero_message_def)

text \<open>C19: A command whose payload has 508 to 512 bytes, all of which the client accepts for sending, is
  serialised into a frame that announces more payload bytes than it carries: after the whole frame the
  receiving parser still waits for payload.\<close>

theorem blynk_serialize_cuts_long_payload:
  assumes "stream_ready c" "message_wf m" "length buf = BLYNK_MAX_PAYLOAD_LEN"
    and "msg_command m \<noteq> BLYNK_CMD_RESPONSE" "507 < unat (msg_len m)" "unat (msg_len m) \<le> BLYNK_MAX_PAYLOAD_LEN"
    and "blynk_serialize buf BLYNK_MAX_PAYLOAD_LEN m = (buf', n)"
  shows "p_parse (fold (parse_byte os) (take n buf') c) = Parse_payload
    \<and> p_cnt (fold (parse_byte os) (take n buf') c) = 507"
proof -
  let ?d = "take 507 (msg_payload m)"
  have bytes: "take n buf' = blynk_header (msg_command m) (msg_id m) (msg_len m) @ ?d"
    using take_serialize [OF assms(2,3,7)] assms(4,5) by (auto simp: frame_bytes_def min_def)
  let ?c = "c\<lparr>p_message := (p_message c)\<lparr>msg_command := msg_command m, msg_id := msg_id m,
      msg_len := msg_len m\<rparr>, p_cnt := 0, p_parse := Parse_payload\<rparr>"
  have len: "length ?d = 507" using assms(2) by (simp add: message_wf_def)
  have "message_wf (p_message ?c)"
    using assms(1) by (simp add: stream_ready_def client_wf_def message_wf_def)
  moreover have "msg_len m \<noteq> 0" using assms(5) by auto
  ultimately show ?thesis
    using bytes assms(1,4,5) len parse_payload_prefix [of ?c ?d os]
    by (simp add: parse_header stream_ready_def)
qed

theorem blynk_serialize_cuts_long_payload_witness:
  "p_parse (fold (parse_byte env_os)
      (take (snd (blynk_serialize (replicate 512 0) 512 (zero_message\<lparr>msg_command := 20, msg_len := 510\<rparr>)))
         (fst (blynk_serialize (replicate 512 0) 512 (zero_message\<lparr>msg_command := 20, msg_len := 510\<rparr>))))
      (zero_client env0)) = Parse_payload"
  using blynk_serialize_cuts_long_payload [OF zero_client_ready [of env0],
      of "zero_message\<lparr>msg_command := 20, msg_len := 510\<rparr>" "replicate 512 0" _ _ env_os,
      OF _ _ _ _ _ prod.collapse [symmetric]]
  by (simp add: message_wf_def zero_message_def)

text \<open>C17: Whatever bytes arrive, in whatever state of the parser, every array of the client keeps its
  declared size, as long as application callbacks do not break that themselves.  A write past the end of an array would make
  it longer (\<^theory_text>\<open>poke\<close>, \<^theory_text>\<open>mem_write\<close>), so no payload byte, no terminator of an argument and no freed
  slot is ever written outside its array, also when the peer announces more payload than the buffer holds.\<close>

theorem blynk_parser_memory_safe:
  assumes "app_respects os client_wf" "client_wf c"
  shows "client_wf (fold (parse_byte os) bs c)"
  using assms by (rule parse_bytes_wf)

theorem blynk_parser_memory_safe_witness:
  "client_wf (fold (parse_byte env_os) ([20, 0, 1, 2, 3] @ replicate 515 7) (zero_client env0))"
  by (rule blynk_parser_memory_safe) simp_all

end
