(* ===== verification/Blynk_Table.thy ===== *)
theory Blynk_Table
  imports Blynk_Stream
begin

text \<open>
  The command table of the Blynk client as a key table: what \<open>blynk_set_handler\<close> registered is what
  \<open>handle_message\<close> calls, for command names of at most seven bytes.
\<close>

subsection \<open>Lookup as the dispatcher does it\<close>

definition handler_of :: "bytes \<Rightarrow> 'w blynk_client \<Rightarrow> (nat \<times> nat) option" where
  "handler_of command c =
    (case find_slot (\<lambda>h. cmd_matches command h \<and> hd_handler h \<noteq> None) (st_handlers c) of
       None \<Rightarrow> None
     | Some i \<Rightarrow> Some (the (hd_handler (st_handlers c ! i)), hd_data (st_handlers c ! i)))"

definition set_handler_ok :: "bytes \<Rightarrow> nat \<times> nat \<Rightarrow> 'w blynk_client \<Rightarrow> 'w blynk_client option" where
  "set_handler_ok command v c = (case blynk_set_handler command (Some (fst v)) (snd v) c of
     (e, c') \<Rightarrow> if e = BLYNK_OK then Some c' else None)"

definition valid_cmd :: "bytes \<Rightarrow> bool" where
  "valid_cmd command \<longleftrightarrow> is_cstr command \<and> command \<noteq> [] \<and> length command \<le> 7"

definition slot_cmd :: "blynk_handler_data \<Rightarrow> bytes" where
  "slot_cmd h = c_str (hd_command h)"

text \<open>Table invariant: commands are terminated inside their slot, a free slot has no handler, and no
  command stands in two slots.\<close>

definition table_inv :: "'w blynk_client \<Rightarrow> bool" where
  "table_inv c \<longleftrightarrow> magic c = BLYNK_MAGIC \<and> length (st_handlers c) = BLYNK_MAX_HANDLERS \<and>
     (\<forall>h \<in> set (st_handlers c). length (hd_command h) = 8 \<and> length (slot_cmd h) \<le> 7 \<and>
        (slot_free h \<longrightarrow> hd_handler h = None)) \<and>
     (\<forall>i < length (st_handlers c). \<forall>j < length (st_handlers c).
        slot_cmd (st_handlers c ! i) = slot_cmd (st_handlers c ! j) \<longrightarrow> slot_cmd (st_handlers c ! i) \<noteq> [] \<longrightarrow> i = j)"

lemma cmd_matches_iff:
  assumes "is_cstr command" "length command \<le> 7" "length (slot_cmd h) \<le> 7"
  shows "cmd_matches command h \<longleftrightarrow> slot_cmd h = command"
  using assms by (simp add: cmd_matches_def strncmp_eq_c_str slot_cmd_def)

lemma slot_free_iff: "length (hd_command h) = 8 \<Longrightarrow> slot_free h \<longleftrightarrow> slot_cmd h = []"
  by (cases "hd_command h") (auto simp: slot_free_def slot_cmd_def byte_at_def c_str_Cons)

lemma table_invD:
  assumes "table_inv c" "i < length (st_handlers c)"
  shows "length (hd_command (st_handlers c ! i)) = 8" "length (slot_cmd (st_handlers c ! i)) \<le> 7"
    "slot_cmd (st_handlers c ! i) = [] \<Longrightarrow> hd_handler (st_handlers c ! i) = None"
  using assms nth_mem [OF assms(2)] slot_free_iff [of "st_handlers c ! i"]
  by (auto simp: table_inv_def)

lemma handler_of_eq:
  assumes "table_inv c" "valid_cmd k"
  shows "handler_of k c = Some v \<longleftrightarrow>
    (\<exists>i < length (st_handlers c). slot_cmd (st_handlers c ! i) = k \<and>
       hd_handler (st_handlers c ! i) = Some (fst v) \<and> hd_data (st_handlers c ! i) = snd v)"
proof -
  let ?hs = "st_handlers c"
  let ?P = "\<lambda>h. cmd_matches k h \<and> hd_handler h \<noteq> None"
  have P: "?P (?hs ! i) \<longleftrightarrow> slot_cmd (?hs ! i) = k \<and> hd_handler (?hs ! i) \<noteq> None"
    if "i < length ?hs" for i
    using cmd_matches_iff table_invD [OF assms(1) that] assms(2) by (auto simp: valid_cmd_def)
  have uniq: "i = j" if "i < length ?hs" "j < length ?hs" "slot_cmd (?hs ! i) = k" "slot_cmd (?hs ! j) = k" for i j
    using that assms by (auto simp: table_inv_def valid_cmd_def)
  show ?thesis
  proof (cases "find_slot ?P ?hs")
    case None
    then have noP: "\<not> ?P h" if "h \<in> set ?hs" for h
      using that by (simp only: find_slot_None_iff) blast
    have "hd_handler (?hs ! i) = None" if "i < length ?hs" "slot_cmd (?hs ! i) = k" for i
      using noP [OF nth_mem [OF that(1)]] P [OF that(1)] that(2) by blast
    moreover have "handler_of k c = None" unfolding handler_of_def None by simp
    ultimately show ?thesis by auto
  next
    case (Some i)
    from find_slot_SomeD [OF this] have i: "i < length ?hs" "slot_cmd (?hs ! i) = k" "hd_handler (?hs ! i) \<noteq> None"
      using P by auto
    have "handler_of k c = Some (the (hd_handler (?hs ! i)), hd_data (?hs ! i))"
      unfolding handler_of_def Some by simp
    with i uniq show ?thesis by (cases v) force
  qed
qed

lemma handler_of_None:
  assumes "table_inv c" "valid_cmd k" "\<And>i. i < length (st_handlers c) \<Longrightarrow>
    slot_cmd (st_handlers c ! i) = k \<Longrightarrow> hd_handler (st_handlers c ! i) = None"
  shows "handler_of k c = None"
  using handler_of_eq [OF assms(1,2)] assms(3) by (cases "handler_of k c") fastforce+

subsection \<open>Stores and erasures\<close>

lemma table_inv_update:
  assumes "table_inv c" "i < length (st_handlers c)" "length (hd_command h) = 8" "length (slot_cmd h) \<le> 7"
    and "slot_cmd h = [] \<Longrightarrow> hd_handler h = None"
    and "\<And>j. j < length (st_handlers c) \<Longrightarrow> j \<noteq> i \<Longrightarrow> slot_cmd h = slot_cmd (st_handlers c ! j) \<Longrightarrow> slot_cmd h = []"
  shows "table_inv (c\<lparr>st_handlers := (st_handlers c)[i := h]\<rparr>)"
proof -
  have "slot_free h \<Longrightarrow> hd_handler h = None" using assms(3,5) by (simp add: slot_free_iff)
  then have "\<forall>g \<in> set ((st_handlers c)[i := h]). length (hd_command g) = 8 \<and> length (slot_cmd g) \<le> 7 \<and>
      (slot_free g \<longrightarrow> hd_handler g = None)"
    using assms(1,3,4) set_update_subset_insert [of "st_handlers c" i h] by (auto simp: table_inv_def)
  moreover have "a = b" if ab: "a < length (st_handlers c)" "b < length (st_handlers c)"
    "slot_cmd ((st_handlers c)[i := h] ! a) = slot_cmd ((st_handlers c)[i := h] ! b)"
    "slot_cmd ((st_handlers c)[i := h] ! a) \<noteq> []" for a b
  proof (cases "a = i \<or> b = i")
    case True
    then show ?thesis using ab assms(2) assms(6) [of a] assms(6) [of b] by (auto simp: nth_list_update split: if_splits)
  next
    case False
    then show ?thesis using ab assms(1) by (simp add: table_inv_def)
  qed
  ultimately show ?thesis
    using assms(1) by (simp add: table_inv_def)
qed

lemma slot_cmd_strlcpy:
  "valid_cmd k \<Longrightarrow> slot_cmd \<lparr>hd_command = strlcpy d k 8, hd_handler = h, hd_data = x\<rparr> = k"
  by (simp add: slot_cmd_def valid_cmd_def)

lemma find_cmd:
  assumes "table_inv c" "valid_cmd k"
  shows "find_slot (cmd_matches k) (st_handlers c) = Some i \<Longrightarrow>
      i < length (st_handlers c) \<and> slot_cmd (st_handlers c ! i) = k"
    and "find_slot (cmd_matches k) (st_handlers c) = None \<Longrightarrow> j < length (st_handlers c) \<Longrightarrow>
      slot_cmd (st_handlers c ! j) \<noteq> k"
proof -
  have eq: "cmd_matches k (st_handlers c ! m) \<longleftrightarrow> slot_cmd (st_handlers c ! m) = k"
    if "m < length (st_handlers c)" for m
    using cmd_matches_iff table_invD [OF assms(1) that] assms(2) by (auto simp: valid_cmd_def)
  show "i < length (st_handlers c) \<and> slot_cmd (st_handlers c ! i) = k"
    if "find_slot (cmd_matches k) (st_handlers c) = Some i"
    using find_slot_SomeD [OF that] eq by auto
  show "slot_cmd (st_handlers c ! j) \<noteq> k"
    if "find_slot (cmd_matches k) (st_handlers c) = None" "j < length (st_handlers c)"
    using that eq [OF that(2)] by (auto simp: find_slot_None_iff)
qed

text \<open>A successful registration writes the command and its handler into one slot that belonged to the
  same command or was free.\<close>

lemma set_handler_slot:
  assumes "table_inv c" "valid_cmd k" "set_handler_ok k v c = Some c'"
  obtains i h where "i < length (st_handlers c)" "c' = c\<lparr>st_handlers := (st_handlers c)[i := h]\<rparr>"
    "slot_cmd h = k" "length (hd_command h) = 8" "hd_handler h = Some (fst v)" "hd_data h = snd v"
    "slot_cmd (st_handlers c ! i) = k \<or> slot_cmd (st_handlers c ! i) = [] \<and>
       (\<forall>j < length (st_handlers c). slot_cmd (st_handlers c ! j) \<noteq> k)"
proof (cases "find_slot (cmd_matches k) (st_handlers c)")
  case (Some i)
  note i = find_cmd(1) [OF assms(1,2) Some]
  show thesis
  proof (rule that [of i "(st_handlers c ! i)\<lparr>hd_handler := Some (fst v), hd_data := snd v\<rparr>"])
    show "c' = c\<lparr>st_handlers := (st_handlers c)[i := (st_handlers c ! i)\<lparr>hd_handler := Some (fst v), hd_data := snd v\<rparr>]\<rparr>"
      using assms(1,3) Some by (simp add: set_handler_ok_def blynk_set_handler_def table_inv_def Let_def)
  qed (use i table_invD [OF assms(1)] in \<open>auto simp: slot_cmd_def\<close>)
next
  case None
  from assms(1,3) None obtain i where i: "find_slot slot_free (st_handlers c) = Some i"
    and c': "c' = c\<lparr>st_handlers := (st_handlers c)[i := \<lparr>hd_command = strlcpy (hd_command (st_handlers c ! i)) k 8,
       hd_handler = Some (fst v), hd_data = snd v\<rparr>]\<rparr>"
    by (simp add: set_handler_ok_def blynk_set_handler_def table_inv_def Let_def split: option.splits)
  have free: "i < length (st_handlers c)" "slot_free (st_handlers c ! i)"
    using find_slot_SomeD [OF i] by auto
  have len: "length (hd_command (st_handlers c ! i)) = 8"
    using table_invD(1) [OF assms(1) free(1)] .
  then have "slot_cmd (st_handlers c ! i) = []" using free(2) by (simp only: slot_free_iff)
  then show thesis
    using find_cmd(2) [OF assms(1,2) None] len
    by (intro that [OF free(1) c' slot_cmd_strlcpy [OF assms(2)]]) simp_all
qed

lemma set_handler_inv:
  assumes "table_inv c" "valid_cmd k" "set_handler_ok k v c = Some c'"
  shows "table_inv c'"
proof -
  obtain i h where ih: "i < length (st_handlers c)" "c' = c\<lparr>st_handlers := (st_handlers c)[i := h]\<rparr>"
    "slot_cmd h = k" "length (hd_command h) = 8"
    "slot_cmd (st_handlers c ! i) = k \<or> slot_cmd (st_handlers c ! i) = [] \<and>
       (\<forall>j < length (st_handlers c). slot_cmd (st_handlers c ! j) \<noteq> k)"
    using set_handler_slot [OF assms] by metis
  show ?thesis
    unfolding ih(2)
    by (rule table_inv_update [OF assms(1) ih(1,4)])
      (use ih assms(1,2) in \<open>auto simp: valid_cmd_def table_inv_def\<close>)
qed

lemma lookup_update:
  assumes "table_inv c" "table_inv (c\<lparr>st_handlers := (st_handlers c)[i := h]\<rparr>)"
    "i < length (st_handlers c)" "valid_cmd k"
    and "slot_cmd h \<noteq> k" "slot_cmd (st_handlers c ! i) \<noteq> k"
  shows "handler_of k (c\<lparr>st_handlers := (st_handlers c)[i := h]\<rparr>) = handler_of k c"
proof -
  have "handler_of k (c\<lparr>st_handlers := (st_handlers c)[i := h]\<rparr>) = Some v \<longleftrightarrow> handler_of k c = Some v" for v
    using assms(3,5,6) unfolding handler_of_eq [OF assms(1,4)] handler_of_eq [OF assms(2,4)]
    by (auto simp: nth_list_update split: if_splits)
  then show ?thesis by (metis option.exhaust)
qed

lemma lookup_set_handler:
  assumes "table_inv c" "valid_cmd k" "valid_cmd k'" "set_handler_ok k v c = Some c'"
  shows "handler_of k' c' = (if k' = k then Some v else handler_of k' c)"
proof -
  obtain i h where ih: "i < length (st_handlers c)" "c' = c\<lparr>st_handlers := (st_handlers c)[i := h]\<rparr>"
    "slot_cmd h = k" "hd_handler h = Some (fst v)" "hd_data h = snd v"
    "slot_cmd (st_handlers c ! i) = k \<or> slot_cmd (st_handlers c ! i) = [] \<and>
       (\<forall>j < length (st_handlers c). slot_cmd (st_handlers c ! j) \<noteq> k)"
    using set_handler_slot [OF assms(1,2,4)] by metis
  have inv: "table_inv c'" using set_handler_inv [OF assms(1,2,4)] .
  show ?thesis
  proof (cases "k' = k")
    case True
    with ih show ?thesis using handler_of_eq [OF inv assms(2), of v] by auto
  next
    case False
    moreover have "slot_cmd (st_handlers c ! i) \<noteq> k'"
      using ih(6) False assms(3) by (auto simp: valid_cmd_def)
    ultimately show ?thesis
      using lookup_update [OF assms(1) _ ih(1) assms(3), of h] inv ih(2,3) by simp
  qed
qed

lemma remove_handler_slot:
  assumes "table_inv c" "valid_cmd k"
  shows "snd (blynk_remove_handler k c) = c \<and> (\<forall>j < length (st_handlers c). slot_cmd (st_handlers c ! j) \<noteq> k)
    \<or> (\<exists>i h. i < length (st_handlers c) \<and> snd (blynk_remove_handler k c) = c\<lparr>st_handlers := (st_handlers c)[i := h]\<rparr> \<and>
         slot_cmd (st_handlers c ! i) = k \<and> slot_cmd h = [] \<and> hd_handler h = None \<and> length (hd_command h) = 8)"
proof (cases "find_slot (cmd_matches k) (st_handlers c)")
  case None
  then show ?thesis
    using find_cmd(2) [OF assms None] assms(1) by (simp add: blynk_remove_handler_def table_inv_def Let_def)
next
  case (Some i)
  note i = find_cmd(1) [OF assms Some]
  let ?h = "\<lparr>hd_command = (hd_command (st_handlers c ! i))[0 := 0], hd_handler = None, hd_data = 0\<rparr>"
  have len: "length (hd_command (st_handlers c ! i)) = 8" using table_invD(1) [OF assms(1)] i by blast
  then have "slot_cmd ?h = []" by (cases "hd_command (st_handlers c ! i)") (auto simp: slot_cmd_def c_str_Cons)
  moreover have "snd (blynk_remove_handler k c) = c\<lparr>st_handlers := (st_handlers c)[i := ?h]\<rparr>"
    using Some assms(1) by (simp add: blynk_remove_handler_def table_inv_def Let_def)
  ultimately show ?thesis using i len by (intro disjI2 exI [of _ i] exI [of _ ?h]) simp
qed

lemma remove_handler_laws:
  assumes "table_inv c" "valid_cmd k"
  shows "table_inv (snd (blynk_remove_handler k c))"
    and "valid_cmd k' \<Longrightarrow> handler_of k' (snd (blynk_remove_handler k c)) =
      (if k' = k then None else handler_of k' c)"
proof -
  consider (none) "snd (blynk_remove_handler k c) = c"
      "\<forall>j < length (st_handlers c). slot_cmd (st_handlers c ! j) \<noteq> k"
    | (slot) i h where "i < length (st_handlers c)"
      "snd (blynk_remove_handler k c) = c\<lparr>st_handlers := (st_handlers c)[i := h]\<rparr>"
      "slot_cmd (st_handlers c ! i) = k" "slot_cmd h = []" "hd_handler h = None" "length (hd_command h) = 8"
    using remove_handler_slot [OF assms] by blast
  then have "table_inv (snd (blynk_remove_handler k c)) \<and>
    (valid_cmd k' \<longrightarrow> handler_of k' (snd (blynk_remove_handler k c)) = (if k' = k then None else handler_of k' c))"
  proof cases
    case none
    then show ?thesis using assms handler_of_None [OF assms] by auto
  next
    case slot
    have inv: "table_inv (snd (blynk_remove_handler k c))"
      unfolding slot(2) by (rule table_inv_update [OF assms(1) slot(1,6)]) (use slot in auto)
    have uniq: "j = i" if "j < length (st_handlers c)" "slot_cmd (st_handlers c ! j) = k" for j
      using that slot(1,3) assms by (simp add: table_inv_def valid_cmd_def)
    have "handler_of k (snd (blynk_remove_handler k c)) = None"
    proof (rule handler_of_None [OF inv assms(2)])
      fix j assume j: "j < length (st_handlers (snd (blynk_remove_handler k c)))"
        "slot_cmd (st_handlers (snd (blynk_remove_handler k c)) ! j) = k"
      have "j = i"
      proof (rule ccontr)
        assume "j \<noteq> i"
        with j slot(2) have "j < length (st_handlers c)" "slot_cmd (st_handlers c ! j) = k" by simp_all
        with uniq \<open>j \<noteq> i\<close> show False by blast
      qed
      then show "hd_handler (st_handlers (snd (blynk_remove_handler k c)) ! j) = None"
        using slot(1,2,5) by simp
    qed
    moreover have "handler_of k' (snd (blynk_remove_handler k c)) = handler_of k' c"
      if "valid_cmd k'" "k' \<noteq> k"
    proof -
      have "[] \<noteq> k'" "k \<noteq> k'" using that by (auto simp: valid_cmd_def)
      then show ?thesis
        using lookup_update [OF assms(1) inv [unfolded slot(2)] slot(1) that(1)] slot(2,3,4) by simp
    qed
    ultimately show ?thesis using inv by auto
  qed
  then show "table_inv (snd (blynk_remove_handler k c))"
    and "valid_cmd k' \<Longrightarrow> handler_of k' (snd (blynk_remove_handler k c)) =
      (if k' = k then None else handler_of k' c)" by auto
qed

interpretation blynk_table: key_table handler_of set_handler_ok
    "\<lambda>k c. snd (blynk_remove_handler k c)" table_inv valid_cmd id id
proof (unfold_locales, goal_cases)
  case 1 then show ?case unfolding id_apply by (rule lookup_set_handler)
next
  case 2 then show ?case unfolding id_apply by (rule remove_handler_laws)
next
  case 3 then show ?case by (rule set_handler_inv)
next
  case 4 then show ?case by (rule remove_handler_laws)
qed

subsection \<open>What the application can rely on\<close>

text \<open>Registering a list of handlers, one \<open>blynk_set_handler\<close> after the other, keeps the command table
  consistent, and afterwards the dispatcher finds for each command of at most seven bytes the handler and
  data of its last registration, and what it found before for commands that were not registered.\<close>

lemma handlers_registered:
  assumes "table_inv c" "\<And>k v. (k, v) \<in> set kvs \<Longrightarrow> valid_cmd k" "blynk_table.store_all kvs c = Some c'"
    and "valid_cmd k"
  shows "table_inv c' \<and>
    handler_of k c' = (case map_of (rev kvs) k of Some v \<Rightarrow> Some v | None \<Rightarrow> handler_of k c)"
  using blynk_table.inv_store_all [OF assms(1,2,3)] blynk_table.lookup_store_all [OF assms(1,2,4,3)] by (simp add: map_prod.id)

lemma zero_table:
  assumes "magic c = BLYNK_MAGIC" "st_handlers c = replicate BLYNK_MAX_HANDLERS zero_handler_data"
  shows "table_inv c"
proof -
  have "slot_cmd zero_handler_data = []"
    by (simp add: slot_cmd_def zero_handler_data_def c_str_def takeWhile_replicate)
  then show ?thesis using assms by (simp add: table_inv_def) (simp add: zero_handler_data_def)
qed

lemma init_table: "table_inv (snd (blynk_init env_os (zero_client env0)))"
  by (rule zero_table; code_simp)

text \<open>Removing a handler undoes its registration and touches no other command.\<close>

lemma set_remove_handler:
  assumes "table_inv c" "valid_cmd k" "valid_cmd k'" "blynk_set_handler k (Some h) d c = (BLYNK_OK, c')"
  shows "table_inv (snd (blynk_remove_handler k c')) \<and>
    handler_of k' c' = (if k' = k then Some (h, d) else handler_of k' c) \<and>
    handler_of k' (snd (blynk_remove_handler k c')) = (if k' = k then None else handler_of k' c)"
proof -
  have s: "set_handler_ok k (h, d) c = Some c'" using assms(4) by (simp add: set_handler_ok_def)
  show ?thesis
    using blynk_table.erase_store [OF assms(1,2,3) s] blynk_table.lookup_store [OF assms(1,2,3) s]
      blynk_table.inv_erase [OF blynk_table.inv_store [OF assms(1,2) s] assms(2)] by simp
qed

lemma long_cmd_no_match:
  assumes "is_cstr k" "8 \<le> length k" "length (slot_cmd h) \<le> 7"
  shows "\<not> cmd_matches k h"
proof
  assume "cmd_matches k h"
  then have "take 8 (slot_cmd h) = take 8 k"
    using assms(1) by (simp add: cmd_matches_def strncmp_eq_c_str slot_cmd_def)
  then have "length (take 8 (slot_cmd h)) = length (take 8 k)" by simp
  with assms(2,3) show False by simp
qed

text \<open>C20: A command name of eight bytes or more can be registered but is never found: the slot keeps its
  first seven bytes, while both searches compare eight.  Each registration takes a further slot.\<close>

theorem long_command_never_found:
  assumes "table_inv c" "is_cstr k" "8 \<le> length k" "blynk_set_handler k (Some h) d c = (BLYNK_OK, c')"
  shows "handler_of k c' = None
    \<and> (\<exists>i < BLYNK_MAX_HANDLERS. slot_free (st_handlers c ! i) \<and> \<not> slot_free (st_handlers c' ! i) \<and>
         slot_cmd (st_handlers c' ! i) = take 7 k)"
proof -
  let ?hs = "st_handlers c"
  have short: "length (slot_cmd x) \<le> 7" if "x \<in> set ?hs" for x
    using assms(1) that by (simp add: table_inv_def)
  then have "\<not> cmd_matches k x" if "x \<in> set ?hs" for x
    using long_cmd_no_match [OF assms(2,3)] that by blast
  then have none: "find_slot (cmd_matches k) ?hs = None" by (simp only: find_slot_None_iff) blast
  have m: "magic c = BLYNK_MAGIC" "length ?hs = 8" using assms(1) by (simp_all add: table_inv_def)
  then obtain i where i: "find_slot slot_free ?hs = Some i"
    using assms(4) none by (cases "find_slot slot_free ?hs") (auto simp: blynk_set_handler_def)
  let ?h = "\<lparr>hd_command = strlcpy (hd_command (?hs ! i)) k 8, hd_handler = Some h, hd_data = d\<rparr>"
  have c': "st_handlers c' = ?hs[i := ?h]"
    using assms(4) none i m by (auto simp: blynk_set_handler_def Let_def)
  have free: "i < 8" "slot_free (?hs ! i)" using find_slot_SomeD [OF i] m by simp_all
  have cmd: "slot_cmd ?h = take 7 k" using assms(2) by (simp add: slot_cmd_def)
  have len: "length (hd_command ?h) = 8" using table_invD(1) [OF assms(1), of i] free(1) m by simp
  then have used: "\<not> slot_free ?h" using slot_free_iff [of ?h] cmd assms(3) by auto
  have "\<not> cmd_matches k x" if "x \<in> set (st_handlers c')" for x
  proof -
    have "x = ?h \<or> x \<in> set ?hs" using that set_update_subset_insert [of ?hs i ?h] by (auto simp: c')
    then show ?thesis using long_cmd_no_match [OF assms(2,3)] short cmd by fastforce
  qed
  then have "find_slot (\<lambda>x. cmd_matches k x \<and> hd_handler x \<noteq> None) (st_handlers c') = None"
    by (simp only: find_slot_None_iff) blast
  then have "handler_of k c' = None" unfolding handler_of_def by simp
  with free used cmd c' m(2) show ?thesis by auto
qed

theorem long_command_never_found_witness:
  "handler_of (cstr ''setpoint'') (snd (blynk_set_handler (cstr ''setpoint'') (Some 1) 2
     (snd (blynk_init env_os (zero_client env0))))) = None"
proof -
  let ?c = "snd (blynk_init env_os (zero_client env0))"
  have "fst (blynk_set_handler (cstr ''setpoint'') (Some 1) 2 ?c) = BLYNK_OK" by code_simp
  then have "blynk_set_handler (cstr ''setpoint'') (Some 1) 2 ?c =
      (BLYNK_OK, snd (blynk_set_handler (cstr ''setpoint'') (Some 1) 2 ?c))" by (metis prod.collapse)
  from long_command_never_found [OF init_table _ _ this] show ?thesis by (simp add: cstr_def)
qed

end
