(* ===== verification/Blynk_Dispatch.thy ===== *)
theory Blynk_Dispatch
  imports Blynk_Table
begin

text \<open>
  What the Blynk client does with a received message: the argument vector of a hardware command, the
  handler it reaches, the answer to an unknown command, and the matching of a response with the request
  that awaits it.
\<close>

subsection \<open>Argument vectors\<close>

text \<open>The payload of a hardware command: its arguments separated by NUL bytes.\<close>

fun join_args :: "bytes list \<Rightarrow> bytes" where
  "join_args [] = []"
| "join_args [a] = a"
| "join_args (a # b # as) = a @ 0 # join_args (b # as)"

lemma skip_arg_eq:
  "p + len \<le> length pl \<Longrightarrow> skip_arg pl p len =
    (let n = length (c_str (take len (drop p pl))) in (p + n, len - n))"
proof (induction len arbitrary: p)
  case (Suc len)
  from Suc.prems have "drop p pl = pl ! p # drop (Suc p) pl" by (simp add: Cons_nth_drop_Suc)
  moreover have "byte_at pl p = pl ! p" using Suc.prems by (simp add: byte_at_def)
  ultimately show ?case using Suc.IH [of "Suc p"] Suc.prems by (simp add: c_str_Cons Let_def)
qed (simp add: c_str_def)

lemma join_args_Nil: "as \<noteq> [] \<Longrightarrow> last as \<noteq> [] \<Longrightarrow> join_args as \<noteq> []"
  by (cases as rule: join_args.cases) auto

lemma arg_str_terminated:
  assumes "p + len < length pl" "take len (drop p pl) = a @ r" "is_cstr a" "r = [] \<or> hd r = 0"
  shows "arg_str (pl[p + len := 0]) p = a"
proof -
  have "drop p (pl[p + len := 0]) = (drop p pl)[len := 0]"
    by (simp add: drop_update_swap)
  also have "\<dots> = take len (drop p pl) @ 0 # drop (Suc len) (drop p pl)"
    using assms(1) by (simp add: upd_conv_take_nth_drop)
  finally have "drop p (pl[p + len := 0]) = a @ r @ 0 # drop (Suc len) (drop p pl)"
    using assms(2) by simp
  with assms(3,4) show ?thesis
    by (cases r) (auto simp: arg_str_def)
qed

lemma parse_args_from_join:
  assumes "take len (drop p pl) = join_args as" "p + len < length pl" "as \<noteq> []" "last as \<noteq> []"
    "length as \<le> k" "\<forall>a \<in> set as. is_cstr a"
  shows "\<exists>offs. parse_args_from k pl p len = (offs, pl[p + len := 0]) \<and>
    map (arg_str (pl[p + len := 0])) offs = as"
  using assms
proof (induction as arbitrary: k p len rule: join_args.induct)
  case (2 a)
  then obtain k' where k: "k = Suc k'" by (cases k) auto
  from 2 have a: "take len (drop p pl) = a" "is_cstr a" "a \<noteq> []" by simp_all
  have len: "len = length a" using arg_cong [OF a(1), of length] 2(2) by simp
  have "skip_arg pl p len = (p + len, 0)"
    using skip_arg_eq [of p len pl] 2(2) a len by (simp add: Let_def)
  moreover have "parse_args_from k' (pl[p + len := 0]) (p + len) 0 = ([], pl[p + len := 0])"
    by (cases k') simp_all
  moreover have "arg_str (pl[p + len := 0]) p = a"
    using arg_str_terminated [of p len pl a "[]"] 2(2) a by simp
  ultimately show ?case using k a(3) len 2(2) by simp
next
  case (3 a b as)
  then obtain k' where k: "k = Suc k'" by (cases k) auto
  let ?n = "length a"
  from 3 have tk: "take len (drop p pl) = a @ 0 # join_args (b # as)" and a: "is_cstr a" by simp_all
  have len: "len = ?n + 1 + length (join_args (b # as))"
    using arg_cong [OF tk, of length] 3(3) by simp
  have skip: "skip_arg pl p len = (p + ?n, len - ?n)"
    using skip_arg_eq [of p len pl] 3(3) tk a by (simp add: Let_def)
  have "take (len - ?n - 1) (drop (p + ?n + 1) pl) = drop (?n + 1) (take len (drop p pl))"
    using len by (simp add: drop_take add.commute add.left_commute)
  also have "\<dots> = join_args (b # as)" by (simp add: tk)
  finally have rest: "take (len - ?n - 1) (drop (p + ?n + 1) pl) = join_args (b # as)" .
  have q: "(p + ?n + 1) + (len - ?n - 1) = p + len" using len by simp
  obtain offs where "parse_args_from k' pl (p + ?n + 1) (len - ?n - 1) = (offs, pl[p + len := 0])"
    "map (arg_str (pl[p + len := 0])) offs = b # as"
    using "3.IH" [OF rest, of k'] 3(3-7) k q by auto
  moreover have "arg_str (pl[p + len := 0]) p = a"
    using arg_str_terminated [of p len pl a "0 # join_args (b # as)"] 3(3) tk a by simp
  ultimately show ?case using k skip len by simp
qed simp

lemma parse_args_join:
  assumes "take len pl = join_args as" "len < length pl" "as \<noteq> []" "last as \<noteq> []"
    "length as \<le> BLYNK_MAX_ARGS" "\<forall>a \<in> set as. is_cstr a"
  obtains offs where "parse_args pl len = (offs, pl[len := 0])" "map (arg_str (pl[len := 0])) offs = as"
  using parse_args_from_join [of len 0 pl as BLYNK_MAX_ARGS] assms unfolding parse_args_def by auto

subsection \<open>Hardware commands\<close>

text \<open>A message buffer that holds the hardware command \<open>cmd\<close> with arguments \<open>args\<close>.\<close>

definition holds_command :: "blynk_message \<Rightarrow> bytes \<Rightarrow> bytes list \<Rightarrow> bool" where
  "holds_command m cmd args \<longleftrightarrow>
     message_wf m \<and> unat (msg_len m) < BLYNK_MAX_PAYLOAD_LEN \<and>
     take (unat (msg_len m)) (msg_payload m) = join_args (cmd # args) \<and>
     last (cmd # args) \<noteq> [] \<and> length args < BLYNK_MAX_ARGS \<and> (\<forall>a \<in> set (cmd # args). is_cstr a)"

definition terminate_payload :: "blynk_message \<Rightarrow> blynk_message" where
  "terminate_payload m = m\<lparr>msg_payload := (msg_payload m)[unat (msg_len m) := 0]\<rparr>"

lemma handler_of_cong: "st_handlers c' = st_handlers c \<Longrightarrow> handler_of k c' = handler_of k c"
  by (simp add: handler_of_def cong: option.case_cong)

lemma handle_hardware_eq:
  assumes "holds_command (p_message c) cmd args"
  shows "handle_hardware os c =
    (let c' = c\<lparr>p_message := terminate_payload (p_message c)\<rparr> in
     case handler_of cmd c of
       Some (h, d) \<Rightarrow> app_code os (Call_handler h (msg_id (p_message c)) cmd args d) c'
     | None \<Rightarrow>
        (case blynk_send_internal os BLYNK_CMD_RESPONSE (msg_id (p_message c))
            BLYNK_STATUS_ILLEGAL_COMMAND None None 0 0 c' of
           (ret, c) \<Rightarrow> if ret \<noteq> BLYNK_OK then fail_with os ret c else c))"
proof -
  let ?m = "p_message c"
  let ?len = "unat (msg_len ?m)"
  have m: "message_wf ?m" "?len < 512" "take ?len (msg_payload ?m) = join_args (cmd # args)"
    "last (cmd # args) \<noteq> []" "length args < 32" "\<forall>a \<in> set (cmd # args). is_cstr a"
    using assms by (simp_all add: holds_command_def)
  obtain offs where p: "parse_args (msg_payload ?m) ?len = (offs, (msg_payload ?m)[?len := 0])"
    "map (arg_str ((msg_payload ?m)[?len := 0])) offs = cmd # args"
    using parse_args_join [OF m(3) _ _ m(4) _ m(6)] m(1,2,5) by (auto simp: message_wf_def)
  then obtain off rest where offs: "offs = off # rest" by (cases offs) auto
  have "join_args (cmd # args) \<noteq> []" using join_args_Nil [OF _ m(4)] by simp
  then have "msg_len ?m \<noteq> 0" using m(3) by auto
  then show ?thesis
    using p m(2) offs
    by (cases "find_slot (\<lambda>h. cmd_matches cmd h \<and> (\<exists>y. hd_handler h = Some y)) (st_handlers c)")
      (simp_all add: handle_hardware_def handler_of_def terminate_payload_def Let_def)
qed

text \<open>C7: From the wire to the application: the frame of a hardware command with up to 31 arguments,
  fed byte by byte to a parser at a frame boundary, calls exactly the handler that is registered for the
  command, with the message identifier, the command, the arguments in order and the handler's own data.\<close>

theorem hardware_command_reaches_handler:
  assumes "stream_ready c" "handler_of cmd c = Some (h, d)"
    and "\<forall>a \<in> set (cmd # args). is_cstr a" "last (cmd # args) \<noteq> []" "length args < BLYNK_MAX_ARGS"
    and "unat len = length (join_args (cmd # args))" "unat len < BLYNK_MAX_PAYLOAD_LEN"
  shows "\<exists>m. fold (parse_byte os) (frame_bytes BLYNK_CMD_HARDWARE ident len (join_args (cmd # args))) c =
    (app_code os (Call_handler h ident cmd args d)
       (c\<lparr>p_parse := Parse_payload, p_cnt := unat len, p_message := m\<rparr>))\<lparr>p_parse := Parse_cmd\<rparr>"
proof -
  let ?data = "join_args (cmd # args)"
  let ?m = "(p_message c)\<lparr>msg_command := BLYNK_CMD_HARDWARE, msg_id := ident, msg_len := len,
    msg_payload := mem_write 0 ?data (msg_payload (p_message c))\<rparr>"
  let ?c = "c\<lparr>p_parse := Parse_payload, p_message := ?m, p_cnt := unat len\<rparr>"
  have wf: "message_wf (p_message c)" "p_parse c = Parse_cmd"
    using assms(1) by (simp_all add: stream_ready_def client_wf_lengthD(2))
  have nz: "len \<noteq> 0" using join_args_Nil [OF _ assms(4)] assms(6) by auto
  have dat: "take 512 ?data = ?data" using assms(6,7) by simp
  have "fold (parse_byte os) (frame_bytes BLYNK_CMD_HARDWARE ident len ?data) c =
      deliver os (BLYNK_CMD_HARDWARE, ident, len, ?data) c"
    by (rule parse_frame) (use wf assms(6) in \<open>simp_all add: frame_ok_def\<close>)
  also have "\<dots> = (handle_message os ?c)\<lparr>p_parse := Parse_cmd\<rparr>"
    using nz dat assms(7) by (simp add: deliver_def min_def)
  finally have eq: "fold (parse_byte os) (frame_bytes BLYNK_CMD_HARDWARE ident len ?data) c =
      (handle_message os ?c)\<lparr>p_parse := Parse_cmd\<rparr>" .
  have "holds_command ?m cmd args"
    using wf assms(3-7) by (simp add: holds_command_def message_wf_def mem_write_0)
  moreover have "handler_of cmd ?c = Some (h, d)"
    using assms(2) handler_of_cong [of ?c c cmd] by simp
  ultimately have "handle_message os ?c =
      app_code os (Call_handler h ident cmd args d) (?c\<lparr>p_message := terminate_payload ?m\<rparr>)"
    using handle_hardware_eq [of ?c cmd args os] by (simp add: handle_message_def)
  with eq show ?thesis
    by (intro exI [of _ "terminate_payload ?m"]) simp
qed

theorem hardware_command_reaches_handler_witness:
  "\<exists>m. fold (parse_byte env_os) (frame_bytes BLYNK_CMD_HARDWARE 5 6 (join_args [cstr ''vw'', cstr ''1'', cstr ''9''])) 
      (snd (blynk_set_handler (cstr ''vw'') (Some 4) 7 (snd (blynk_init env_os (zero_client env0))))) =
    (app_code env_os (Call_handler 4 5 (cstr ''vw'') [cstr ''1'', cstr ''9''] 7)
       ((snd (blynk_set_handler (cstr ''vw'') (Some 4) 7 (snd (blynk_init env_os (zero_client env0)))))
         \<lparr>p_parse := Parse_payload, p_cnt := 6, p_message := m\<rparr>))\<lparr>p_parse := Parse_cmd\<rparr>"
proof -
  let ?c = "snd (blynk_set_handler (cstr ''vw'') (Some 4) 7 (snd (blynk_init env_os (zero_client env0))))"
  have "stream_ready ?c" by code_simp
  moreover have "handler_of (cstr ''vw'') ?c = Some (4, 7)" by code_simp
  ultimately show ?thesis
    using hardware_command_reaches_handler [of ?c "cstr ''vw''" 4 7 "[cstr ''1'', cstr ''9'']" 6 env_os 5]
    by (simp add: cstr_def)
qed

end
