(* ===== verification/Blynk_Ids.thy ===== *)
theory Blynk_Ids
  imports Blynk_Dispatch
begin

text \<open>
  Message identifiers and the table of awaited responses of the Blynk client: \<open>get_id\<close> hands out fresh
  identifiers until the 16-bit counter wraps, and a response reaches the handler of the request it
  answers, once.
\<close>

subsection \<open>Callbacks and the table\<close>

text \<open>Application callbacks reach the table of awaited responses and the message buffer only through the
  client's interface, none of whose functions changes them.\<close>

definition app_keeps_priv :: "'w blynk_os \<Rightarrow> bool" where
  "app_keeps_priv os \<longleftrightarrow> app_keeps os p_awaiting \<and> app_keeps os p_message \<and> app_keeps os p_ping_deadline"

lemma change_state_keeps:
  assumes "app_keeps_priv os"
  shows "p_awaiting (change_state os ev c) = p_awaiting c" "p_message (change_state os ev c) = p_message c"
    "p_ping_deadline (change_state os ev c) = p_ping_deadline c"
  using assms
  by (simp_all add: change_state_def Let_def app_keeps_priv_def app_keeps_def split: option.split)

lemma call_resp_keeps:
  assumes "app_keeps_priv os"
  shows "p_awaiting (call_resp os h st d c) = p_awaiting c" "p_message (call_resp os h st d c) = p_message c"
    "p_ping_deadline (call_resp os h st d c) = p_ping_deadline c"
  using assms change_state_keeps [OF assms]
  by (cases h; simp add: auth_cb_def ping_cb_def set_state_def set_disconnected_def app_keeps_priv_def
        app_keeps_def)+

lemma finish_awaiting_keeps:
  assumes "app_keeps_priv os"
  shows "i < length (p_awaiting c) \<Longrightarrow>
      p_awaiting (finish_awaiting os st i c) = (p_awaiting c)[i := (p_awaiting c ! i)\<lparr>aw_id := 0\<rparr>]"
    "p_message (finish_awaiting os st i c) = p_message c"
    "p_ping_deadline (finish_awaiting os st i c) = p_ping_deadline c"
  using call_resp_keeps [OF assms]
  by (simp_all add: finish_awaiting_def Let_def split: option.split)

subsection \<open>Identifiers in use\<close>

definition awaited :: "'w blynk_client \<Rightarrow> u16 \<Rightarrow> bool" where
  "awaited c ident \<longleftrightarrow> ident \<noteq> 0 \<and> ident \<in> aw_id ` set (p_awaiting c)"

text \<open>Every identifier in use is below the counter, and no two slots share one.\<close>

definition ids_inv :: "'w blynk_client \<Rightarrow> bool" where
  "ids_inv c \<longleftrightarrow> length (p_awaiting c) = BLYNK_MAX_AWAITING \<and> p_id c \<noteq> 0 \<and>
     (\<forall>i < BLYNK_MAX_AWAITING. aw_id (p_awaiting c ! i) < p_id c) \<and>
     (\<forall>i < BLYNK_MAX_AWAITING. \<forall>j < BLYNK_MAX_AWAITING.
        aw_id (p_awaiting c ! i) \<noteq> 0 \<longrightarrow> aw_id (p_awaiting c ! i) = aw_id (p_awaiting c ! j) \<longrightarrow> i = j)"

lemma reset_client_ids: "ids_inv (reset_client os c)"
  by (simp add: ids_inv_def reset_client_def zero_awaiting_def)

lemma ids_inv_clear:
  assumes "ids_inv c" "p_awaiting c' = (p_awaiting c)[i := a\<lparr>aw_id := 0\<rparr>]" "p_id c' = p_id c"
  shows "ids_inv c'"
proof -
  have "0 < p_id c" using assms(1) by (simp add: ids_inv_def word_neq_0_conv)
  then show ?thesis
    using assms by (auto simp: ids_inv_def nth_upd split: if_splits)
qed

lemma next_id:
  assumes "(p :: u16) \<noteq> 0xffff"
  shows "p + 1 \<noteq> 0" "a < p \<Longrightarrow> a < p + 1" "p < p + 1"
proof -
  have "p + 1 \<noteq> 0" 
  proof
    assume "p + 1 = 0"
    then have "p = - 1" by (simp add: eq_neg_iff_add_eq_0)
    with assms show False by simp
  qed
  then have "unat (p + 1) = Suc (unat p)" using unatSuc [of p] by (simp add: add.commute)
  then show "p + 1 \<noteq> 0" "a < p \<Longrightarrow> a < p + 1" "p < p + 1"
    by (auto simp: word_less_nat_alt)
qed

lemma get_id_alloc:
  assumes "ids_inv c" "p_id c \<noteq> 0xffff" "get_id dl (Some h) d c = (ident, c')"
  shows "ids_inv c' \<and> p_id c' = p_id c + 1 \<and>
    (if \<forall>i < BLYNK_MAX_AWAITING. aw_id (p_awaiting c ! i) \<noteq> 0
     then ident = 0 \<and> p_awaiting c' = p_awaiting c
     else ident = p_id c \<and> ident \<noteq> 0 \<and> \<not> awaited c ident \<and>
       (\<exists>i < BLYNK_MAX_AWAITING. aw_id (p_awaiting c ! i) = 0 \<and> p_awaiting c' = (p_awaiting c)[i :=
          \<lparr>aw_id = ident, aw_deadline = dl, aw_handler = Some h, aw_data = d\<rparr>]))"
proof (cases "find_slot (\<lambda>a. aw_id a = 0) (p_awaiting c)")
  case None
  then have "\<forall>i < BLYNK_MAX_AWAITING. aw_id (p_awaiting c ! i) \<noteq> 0"
    using assms(1) nth_mem by (fastforce simp: find_slot_None_iff ids_inv_def)
  moreover have "ident = 0" "c' = c\<lparr>p_id := p_id c + 1\<rparr>"
    using assms(2,3) None by (auto simp: get_id_def)
  moreover have "ids_inv c'"
    using assms(1) next_id [OF assms(2)] calculation(3) by (auto simp: ids_inv_def)
  ultimately show ?thesis by simp
next
  case (Some i)
  let ?a = "\<lparr>aw_id = p_id c, aw_deadline = dl, aw_handler = Some h, aw_data = d\<rparr>"
  from find_slot_SomeD [OF Some] assms(1)
  have i: "i < BLYNK_MAX_AWAITING" "aw_id (p_awaiting c ! i) = 0" by (simp_all add: ids_inv_def)
  have r: "ident = p_id c" "c' = c\<lparr>p_id := p_id c + 1, p_awaiting := (p_awaiting c)[i := ?a]\<rparr>"
    using assms(2,3) Some find_slot_SomeD [OF Some] by (auto simp: get_id_def Let_def)
  have fresh: "aw_id (p_awaiting c ! j) \<noteq> p_id c" if "j < BLYNK_MAX_AWAITING" for j
    using assms(1) that by (auto simp: ids_inv_def)
  then have "\<not> awaited c ident"
    using assms(1) r(1) by (auto simp: awaited_def ids_inv_def in_set_conv_nth)
  moreover have "ids_inv c'"
    using assms(1) next_id [OF assms(2)] r(2) fresh
    by (auto simp: ids_inv_def nth_upd)
  ultimately show ?thesis
    using assms(1) i r by (auto simp: ids_inv_def)
qed

text \<open>C13: While the counter has not reached 65535, \<open>get_id\<close> for a request with a response handler keeps the
  table of awaited responses consistent, and either all 32 slots are in use and it refuses with 0 and
  changes no slot, or it returns a nonzero identifier that no pending request uses and records handler,
  data and deadline in a free slot.\<close>

theorem get_id_fresh:
  assumes "ids_inv c" "p_id c \<noteq> 0xffff" "get_id dl (Some h) d c = (ident, c')"
  shows "ids_inv c' \<and> p_id c' = p_id c + 1 \<and>
    (if \<forall>i < BLYNK_MAX_AWAITING. aw_id (p_awaiting c ! i) \<noteq> 0
     then ident = 0 \<and> p_awaiting c' = p_awaiting c
     else ident = p_id c \<and> ident \<noteq> 0 \<and> \<not> awaited c ident \<and>
       (\<exists>i < BLYNK_MAX_AWAITING. aw_id (p_awaiting c ! i) = 0 \<and> p_awaiting c' = (p_awaiting c)[i :=
          \<lparr>aw_id = ident, aw_deadline = dl, aw_handler = Some h, aw_data = d\<rparr>]))"
  using assms by (rule get_id_alloc)

theorem get_id_fresh_witness:
  "\<not> awaited (reset_client env_os (zero_client env0)) 1 \<and>
   (\<exists>i < BLYNK_MAX_AWAITING. p_awaiting (snd (get_id 50 (Some (App_resp 3)) 8 (reset_client env_os (zero_client env0)))) =
     (p_awaiting (reset_client env_os (zero_client env0)))[i :=
        \<lparr>aw_id = 1, aw_deadline = 50, aw_handler = Some (App_resp 3), aw_data = 8\<rparr>])"
proof -
  let ?c = "reset_client env_os (zero_client env0)"
  have p: "p_id ?c = 1" "aw_id (p_awaiting ?c ! 0) = 0" "(0::nat) < 32"
    by (simp_all add: reset_client_def zero_awaiting_def)
  then have free: "\<not> (\<forall>i < BLYNK_MAX_AWAITING. aw_id (p_awaiting ?c ! i) \<noteq> 0)" by blast
  obtain ident c' where g: "get_id 50 (Some (App_resp 3)) 8 ?c = (ident, c')" by fastforce
  have "p_id ?c \<noteq> 0xffff" using p(1) by simp
  from get_id_fresh [OF reset_client_ids this g, unfolded if_not_P [OF free] p(1)]
  show ?thesis unfolding g snd_conv by blast
qed

subsection \<open>Responses\<close>

text \<open>C12: A response frame on the wire whose identifier a pending request carries calls that request's
  handler, exactly once and with the status of the response and the request's data, and frees the slot;
  all other pending requests stay as they are.\<close>

theorem response_reaches_its_request:
  assumes "stream_ready c" "ids_inv c" "app_keeps_priv os"
    and "i < BLYNK_MAX_AWAITING" "p_awaiting c ! i = a" "aw_id a \<noteq> 0" "aw_handler a = Some h"
  shows "\<exists>m. fold (parse_byte os) (frame_bytes BLYNK_CMD_RESPONSE (aw_id a) status []) c =
      (call_resp os h status (aw_data a) (c\<lparr>p_parse := Parse_len, p_message := m, p_cnt := 2\<rparr>))
        \<lparr>p_awaiting := (p_awaiting c)[i := a\<lparr>aw_id := 0\<rparr>], p_parse := Parse_cmd\<rparr>
    \<and> \<not> awaited (fold (parse_byte os) (frame_bytes BLYNK_CMD_RESPONSE (aw_id a) status []) c) (aw_id a)"
proof -
  let ?m = "(p_message c)\<lparr>msg_command := 0, msg_id := aw_id a, msg_len := status\<rparr>"
  let ?c = "c\<lparr>p_parse := Parse_len, p_message := ?m, p_cnt := 2\<rparr>"
  let ?body = "\<lambda>i c. if aw_id (p_awaiting c ! i) \<noteq> 0 \<and> aw_id (p_awaiting c ! i) = msg_id (p_message c)
    then finish_awaiting os (msg_len (p_message c)) i c else c"
  have wf: "message_wf (p_message c)" "p_parse c = Parse_cmd"
    using assms(1) by (simp_all add: stream_ready_def client_wf_lengthD(2))
  have uniq: "j = i" if "j < BLYNK_MAX_AWAITING" "aw_id (p_awaiting c ! j) = aw_id a" for j
    using assms(2,4,5,6) that unfolding ids_inv_def by metis
  have len: "length (p_awaiting c) = BLYNK_MAX_AWAITING" using assms(2) by (simp add: ids_inv_def)
  have fin: "?body i ?c = (call_resp os h status (aw_data a) ?c)\<lparr>p_awaiting := (p_awaiting c)[i := a\<lparr>aw_id := 0\<rparr>]\<rparr>"
    using assms(4-7) len call_resp_keeps(1) [OF assms(3)] by (simp add: finish_awaiting_def)
  have fin_aw: "p_awaiting (?body i ?c) = (p_awaiting c)[i := a\<lparr>aw_id := 0\<rparr>]"
    unfolding fin by simp
  have fin_msg: "p_message (?body i ?c) = ?m"
    unfolding fin using call_resp_keeps(2) [OF assms(3)] by simp
  have "handle_response os ?c = ?body i ?c"
    unfolding handle_response_def
  proof (rule for_upto_single [OF assms(4)])
    fix j assume "j < i"
    then show "?body j ?c = ?c" using uniq [of j] assms(4) by auto
  next
    fix j assume "i < j" "j < 32"
    then show "?body j (?body i ?c) = ?body i ?c"
      unfolding fin_aw fin_msg using uniq [of j] by auto
  qed
  moreover have "fold (parse_byte os) (frame_bytes BLYNK_CMD_RESPONSE (aw_id a) status []) c =
      (handle_response os ?c)\<lparr>p_parse := Parse_cmd\<rparr>"
    using wf parse_frame [of c 0 "aw_id a" status "[]" os]
    by (simp add: frame_ok_def deliver_def handle_message_def)
  ultimately have eq: "fold (parse_byte os) (frame_bytes BLYNK_CMD_RESPONSE (aw_id a) status []) c =
      (call_resp os h status (aw_data a) ?c)\<lparr>p_awaiting := (p_awaiting c)[i := a\<lparr>aw_id := 0\<rparr>], p_parse := Parse_cmd\<rparr>"
    by (simp only: fin)
  have "\<not> awaited (fold (parse_byte os) (frame_bytes BLYNK_CMD_RESPONSE (aw_id a) status []) c) (aw_id a)"
    unfolding eq using uniq assms(6) len by (auto simp: awaited_def in_set_conv_nth nth_upd split: if_splits)
  with eq show ?thesis by blast
qed

theorem response_reaches_its_request_witness:
  "\<not> awaited (fold (parse_byte env_os) (frame_bytes BLYNK_CMD_RESPONSE 1 200 [])
      (snd (get_id 50 (Some (App_resp 3)) 8 (reset_client env_os (zero_client env0))))) 1"
proof -
  let ?c = "snd (get_id 50 (Some (App_resp 3)) 8 (reset_client env_os (zero_client env0)))"
  let ?a = "\<lparr>aw_id = 1, aw_deadline = 50, aw_handler = Some (App_resp 3), aw_data = 8\<rparr>"
  have c: "p_awaiting ?c = ?a # replicate 31 zero_awaiting" "p_id ?c = 2" "p_parse ?c = Parse_cmd"
    by code_simp+
  then have "ids_inv ?c"
    by (auto simp: ids_inv_def nth_Cons zero_awaiting_def split: nat.splits)
  moreover have "stream_ready ?c"
    using c(3) by (simp add: stream_ready_def get_id_wf reset_client_def)
  moreover have "app_keeps_priv env_os" by (simp add: app_keeps_priv_def)
  moreover have "p_awaiting ?c ! 0 = ?a" by (simp add: c(1))
  ultimately show ?thesis
    using response_reaches_its_request [of ?c env_os 0 ?a "App_resp 3" 200] by auto
qed

text \<open>C18: The 65535th identifier is never handed out: once the counter stands at 65535, \<open>get_id\<close> returns 0
  and overwrites all 32 slots with the byte 9, so that every one of them seems in use by a request with
  the identifier \<open>0x0909\<close> and a handler at the address \<open>0x09090909\<close>, every later request with a handler
  is refused, and the loop drops the connection with \<open>BLYNK_ERR_MEM\<close>.\<close>

theorem get_id_wrap_drops_connection:
  assumes "p_id c = 0xffff" "p_buf_total c = 0" "xQueueReceive os (world c) = (Some ctl, w)"
    and "msg_id (ctl_message ctl) = 0"
  shows "get_id dl h d c = (0, c\<lparr>p_id := 1, p_awaiting := replicate BLYNK_MAX_AWAITING nine_awaiting\<rparr>)
    \<and> fst (get_id dl' (Some h') d' (snd (get_id dl h d c))) = 0
    \<and> loop_fetch os c = Inl (set_disconnected os BLYNK_ERR_MEM 0
        (c\<lparr>world := w, p_id := 1, p_awaiting := replicate BLYNK_MAX_AWAITING nine_awaiting\<rparr>))"
proof -
  have full: "find_slot (\<lambda>a. aw_id a = 0) (replicate BLYNK_MAX_AWAITING nine_awaiting) = None"
    by (simp add: find_slot_None_iff nine_awaiting_def)
  have get: "get_id dl h d c = (0, c\<lparr>p_id := 1, p_awaiting := replicate BLYNK_MAX_AWAITING nine_awaiting\<rparr>)"
    if "p_id c = 0xffff" for dl h d and c :: "'a blynk_client"
    using that full by (simp add: get_id_def Let_def split: option.split)
  have "fst (get_id dl' (Some h') d' (snd (get_id dl h d c))) = 0"
    using full by (simp add: get [OF assms(1)]) (simp add: get_id_def Let_def)
  moreover have "loop_fetch os c = Inl (set_disconnected os BLYNK_ERR_MEM 0
        (c\<lparr>world := w, p_id := 1, p_awaiting := replicate BLYNK_MAX_AWAITING nine_awaiting\<rparr>))"
    using assms get [of "c\<lparr>world := w\<rparr>"] by (simp add: loop_fetch_def Let_def)
  ultimately show ?thesis using get [OF assms(1)] by blast
qed

theorem get_id_wrap_drops_connection_witness:
  "\<exists>c. loop_fetch env_os ((zero_client (env0\<lparr>w_queue := [\<lparr>ctl_message = zero_message, ctl_deadline = 0,
      ctl_handler = None, ctl_data = 0\<rparr>]\<rparr>))\<lparr>p_id := 0xffff\<rparr>) = Inl (set_disconnected env_os BLYNK_ERR_MEM 0 c)"
proof -
  let ?ctl = "\<lparr>ctl_message = zero_message, ctl_deadline = 0, ctl_handler = None, ctl_data = 0\<rparr>"
  let ?c = "(zero_client (env0\<lparr>w_queue := [?ctl]\<rparr>))\<lparr>p_id := 0xffff\<rparr>"
  have c: "p_id ?c = 0xffff" "p_buf_total ?c = 0" by (simp_all add: zero_client_def)
  have q: "xQueueReceive env_os (world ?c) = (Some ?ctl, env0)"
    by (simp add: env_simps zero_client_def env0_def)
  have "msg_id (ctl_message ?ctl) = 0" by (simp add: zero_message_def)
  from get_id_wrap_drops_connection [OF c q this, THEN conjunct2, THEN conjunct2]
  show ?thesis by (rule exI)
qed

end
