(* ===== verification/Blynk_Timers.thy ===== *)
theory Blynk_Timers
  imports Blynk_Ids
begin

text \<open>
  The timers of the Blynk client: deadlines are compared modulo the wrap-around of the 32-bit tick
  counter, \<open>select\<close> sleeps exactly until the first of them, and requests that are overdue are answered
  with a timeout.
\<close>

subsection \<open>Deadlines on a wrapping clock\<close>

lemma sint_of_int:
  assumes "- (2 ^ 31) \<le> k" "k < 2 ^ 31"
  shows "signed_take_bit 31 k = (k :: int)"
  using assms by (rule signed_take_bit_int_eq_self)

lemma sint_small:
  assumes "uint (z :: u32) < 2 ^ 31"
  shows "sint z = uint z"
proof -
  have "- (2 ^ 31) \<le> uint z" by (rule order.trans [OF _ uint_ge_0]) simp
  from sint_of_int [OF this assms] show ?thesis by (simp add: sint_uint)
qed

lemma sint_pos: "0 < sint (z :: u32) \<Longrightarrow> uint z < 2 ^ 31"
  using sint_lt [of z] uint_lt2p [of z]
  by (cases "bit (uint z) 31")
    (simp_all add: sint_uint signed_take_bit_eq_take_bit_minus take_bit_int_eq_self)

lemma sint_diff_small:
  assumes "uint (x :: u32) < 2 ^ 31" "uint y < 2 ^ 31"
  shows "sint (x - y) = uint x - uint y"
proof -
  have "- (2 ^ 31) \<le> uint x - uint y" "uint x - uint y < 2 ^ 31"
    using assms uint_ge_0 [of x] uint_ge_0 [of y] by linarith+
  from sint_of_int [OF this] show ?thesis
    using assms by (simp add: sint_word_ariths sint_small)
qed

text \<open>\<open>timerExpired\<close> is right across the wrap-around of the tick counter: a deadline \<open>delay\<close> ticks after
  some moment has expired \<open>elapsed\<close> ticks after that moment exactly when \<open>delay\<close> is at most \<open>elapsed\<close>, for
  all delays and elapsed times below \<open>2 ^ 31\<close> and whatever the counter showed.\<close>

lemma timerExpired_wraps:
  assumes "uint delay < 2 ^ 31" "uint elapsed < 2 ^ 31"
  shows "timerExpired (start + delay) (start + elapsed) \<longleftrightarrow> delay \<le> elapsed"
proof -
  have "(start + delay) - (start + elapsed) = delay - elapsed" by simp
  then show ?thesis
    using sint_diff_small [OF assms] by (simp add: timerExpired_def word_le_def)
qed

lemma not_expired_diff:
  assumes "\<not> timerExpired d now" "e < d - now"
  shows "\<not> timerExpired d (now + e)"
proof -
  have "0 < sint (d - now)" using assms(1) by (simp add: timerExpired_def)
  from sint_pos [OF this] have d: "uint (d - now) < 2 ^ 31" .
  have e: "uint e < uint (d - now)" using assms(2) by (simp add: word_less_def)
  have eq: "d - (now + e) = (d - now) - e" by (simp add: algebra_simps)
  have "sint ((d - now) - e) = uint (d - now) - uint e"
    using d e by (intro sint_diff_small) simp_all
  then have "0 < sint (d - (now + e))" unfolding eq using e by simp
  then show ?thesis by (simp add: timerExpired_def)
qed

subsection \<open>Sleeping until the first deadline\<close>

lemma scan_deadlines_None: "scan_deadlines now ds acc = None \<longleftrightarrow> (\<exists>d \<in> set ds. timerExpired d now)"
  by (induction ds arbitrary: acc) auto

lemma scan_deadlines_Some:
  "scan_deadlines now ds acc = Some r \<Longrightarrow>
    (r = None \<longleftrightarrow> acc = None \<and> ds = []) \<and>
    (\<forall>t. r = Some t \<longrightarrow> t \<in> set_option acc \<union> (\<lambda>d. d - now) ` set ds \<and>
       (\<forall>x \<in> set_option acc \<union> (\<lambda>d. d - now) ` set ds. t \<le> x))"
proof (induction ds arbitrary: acc)
  case Nil
  then show ?case by auto
next
  case (Cons d ds)
  let ?acc = "case acc of None \<Rightarrow> Some (d - now) | Some m \<Rightarrow> if d - now < m then Some (d - now) else Some m"
  from Cons.prems have "scan_deadlines now ds ?acc = Some r" by (simp split: if_splits)
  from Cons.IH [OF this] show ?case
    by (cases acc) (auto split: if_splits)
qed

text \<open>C14: The timeout that \<open>get_select_timeout\<close> computes ends the sleep exactly at the first deadline of a
  pending request or of the ping timer: no deadline passes while the task sleeps, one has passed when it
  wakes up, and it sleeps without limit only when there is no deadline at all.\<close>

theorem get_select_timeout_first_deadline:
  assumes "xTaskGetTickCount os (world c) = (now, w)" "get_select_timeout os c = (r, c')"
  shows "c' = c\<lparr>world := w\<rparr> \<and>
    (case r of
       None \<Rightarrow> pending_deadlines c = []
     | Some t \<Rightarrow> (\<exists>d \<in> set (pending_deadlines c). timerExpired d (now + t)) \<and>
         (\<forall>d \<in> set (pending_deadlines c). \<forall>e < t. \<not> timerExpired d (now + e)))"
proof -
  let ?ds = "pending_deadlines c"
  have pd: "pending_deadlines (c\<lparr>world := w\<rparr>) = ?ds" by (simp add: pending_deadlines_def)
  show ?thesis
  proof (cases "scan_deadlines now ?ds None")
    case None
    then have "r = Some 0" "c' = c\<lparr>world := w\<rparr>"
      using assms by (simp_all add: get_select_timeout_def pd)
    then show ?thesis using None scan_deadlines_None [of now ?ds None] by simp
  next
    case (Some acc)
    then have r: "r = acc" "c' = c\<lparr>world := w\<rparr>"
      using assms by (simp_all add: get_select_timeout_def pd)
    have ne: "\<not> timerExpired d now" if "d \<in> set ?ds" for d
      using Some scan_deadlines_None [of now ?ds None] that by auto
    show ?thesis
    proof (cases acc)
      case None
      then show ?thesis using scan_deadlines_Some [OF Some] r by simp
    next
      case (Some t)
      with scan_deadlines_Some [OF \<open>scan_deadlines now ?ds None = Some acc\<close>]
      obtain d0 where d0: "d0 \<in> set ?ds" "t = d0 - now" and min: "\<forall>d \<in> set ?ds. t \<le> d - now" by auto
      have "timerExpired d0 (now + t)" using d0(2) by (simp add: timerExpired_def)
      moreover have "\<not> timerExpired d (now + e)" if "d \<in> set ?ds" "e < t" for d e
        using not_expired_diff [OF ne [OF that(1)]] less_le_trans [OF that(2)] min that(1) by blast
      ultimately show ?thesis using d0(1) r Some by auto
    qed
  qed
qed

theorem get_select_timeout_first_deadline_witness:
  "\<exists>d \<in> set (pending_deadlines ((zero_client env0)\<lparr>p_ping_deadline := 1200\<rparr>)). timerExpired d (1000 + 200)"
proof -
  let ?c = "(zero_client env0)\<lparr>p_ping_deadline := 1200\<rparr>"
  have now: "xTaskGetTickCount env_os (world ?c) = (1000, env0)"
    by (simp add: env_simps zero_client_def env0_def)
  have "fst (get_select_timeout env_os ?c) = Some 200" by code_simp
  then have r: "get_select_timeout env_os ?c = (Some 200, snd (get_select_timeout env_os ?c))"
    by (metis prod.collapse)
  show ?thesis
    using get_select_timeout_first_deadline [OF now r, THEN conjunct2, unfolded option.case(2)]
    by (rule conjunct1)
qed

subsection \<open>Overdue requests\<close>

lemma send_internal_keeps:
  "p_awaiting (snd (blynk_send_internal os cmd i l pl h d w c)) = p_awaiting c"
  by (simp add: blynk_send_internal_def response_deadline_def Let_def case_prod_beta split: option.split)

definition overdue :: "u32 \<Rightarrow> blynk_awaiting \<Rightarrow> bool" where
  "overdue now a \<longleftrightarrow> aw_id a \<noteq> 0 \<and> aw_deadline a \<noteq> 0 \<and> timerExpired (aw_deadline a) now"

lemma expire_loop:
  assumes "app_keeps_priv os" "n \<le> length (p_awaiting c)"
  shows "p_awaiting (for_upto n (\<lambda>i c.
      if aw_id (p_awaiting c ! i) \<noteq> 0 \<and> aw_deadline (p_awaiting c ! i) \<noteq> 0 \<and>
         timerExpired (aw_deadline (p_awaiting c ! i)) now
      then finish_awaiting os st i c else c) c) =
    map (\<lambda>a. if overdue now a then a\<lparr>aw_id := 0\<rparr> else a) (take n (p_awaiting c)) @ drop n (p_awaiting c)"
  (is "p_awaiting (for_upto n ?body c) = map ?f _ @ _")
  using assms(2)
proof (induction n)
  case (Suc n)
  let ?c = "for_upto n ?body c"
  have aw: "p_awaiting ?c = map ?f (take n (p_awaiting c)) @ drop n (p_awaiting c)"
    using Suc by simp
  have slot: "p_awaiting ?c ! n = p_awaiting c ! n" using Suc.prems by (simp add: aw nth_append)
  have "p_awaiting (?body n ?c) = (p_awaiting ?c)[n := ?f (p_awaiting c ! n)]"
    using finish_awaiting_keeps(1) [OF assms(1), of n ?c] slot list_update_id [of "p_awaiting ?c" n] Suc.prems
    by (auto simp: overdue_def aw)
  also have "\<dots> = map ?f (take (Suc n) (p_awaiting c)) @ drop (Suc n) (p_awaiting c)"
    using Suc.prems
    by (simp add: aw list_update_append take_Suc_conv_app_nth Cons_nth_drop_Suc [symmetric])
  finally show ?case by simp
qed simp

text \<open>\<open>handle_timers\<close> ends exactly the overdue requests: afterwards the slot of every request whose
  deadline has passed is free, and every other slot is as it was, whatever callbacks were called.\<close>

lemma handle_timers_frees_overdue:
  assumes "app_keeps_priv os" "length (p_awaiting c) = BLYNK_MAX_AWAITING"
    and "xTaskGetTickCount os (world c) = (now, w)"
  shows "p_awaiting (snd (handle_timers os c)) =
    map (\<lambda>a. if overdue now a then a\<lparr>aw_id := 0\<rparr> else a) (p_awaiting c)"
proof -
  have ap: "p_awaiting (advance_ping os c) = p_awaiting c" for c
    by (simp add: advance_ping_def case_prod_beta)
  show ?thesis
    using expire_loop [OF assms(1), of BLYNK_MAX_AWAITING "c\<lparr>world := w\<rparr>" now BLYNK_STATUS_RESPONSE_TIMEOUT] assms(2,3)
    by (simp add: handle_timers_def Let_def send_internal_keeps ap)
qed

end
