(* ===== verification/Blynk_Task.thy ===== *)
theory Blynk_Task
  imports Blynk_Timers
begin

text \<open>
  The connection task of the Blynk client.  The locale \<open>client_inv\<close> states what an invariant of the client
  must survive (callbacks and the single assignments of the code) and derives, once, that every operation
  of the connection loop keeps it; it is interpreted for the invariant of the task as a whole and for the
  one of a running connection, and the properties of reachable task states follow by rule induction.
\<close>

subsection \<open>Invariants of the client\<close>

definition both :: "('c \<Rightarrow> bool) \<Rightarrow> 'c + 'c \<Rightarrow> bool" where
  "both P r = (case r of Inl c \<Rightarrow> P c | Inr c \<Rightarrow> P c)"

lemma both_simps [simp]: "both P (Inl c) = P c" "both P (Inr c) = P c"
  by (simp_all add: both_def)

lemma both_bind: "both P r \<Longrightarrow> (\<And>c. P c \<Longrightarrow> both P (f c)) \<Longrightarrow> both P (sum_bind r f)"
  by (cases r) (simp_all add: sum_bind_def)

lemma length_serialize:
  "length buf = BLYNK_MAX_PAYLOAD_LEN \<Longrightarrow>
   length (fst (blynk_serialize buf BLYNK_MAX_PAYLOAD_LEN m)) = BLYNK_MAX_PAYLOAD_LEN"
  by (simp add: blynk_serialize_def blynk_header_def Let_def)

locale client_inv =
  fixes os :: "'w blynk_os" and I :: "'w blynk_client \<Rightarrow> bool"
  assumes app: "I c \<Longrightarrow> I (app_code os u c)"
    and upd_world: "I c \<Longrightarrow> I (c\<lparr>world := w\<rparr>)"
    and upd_ctl0: "I c \<Longrightarrow> I (c\<lparr>p_ctl0 := k\<rparr>)"
    and upd_cnt: "I c \<Longrightarrow> I (c\<lparr>p_cnt := n\<rparr>)"
    and upd_parse: "I c \<Longrightarrow> I (c\<lparr>p_parse := f\<rparr>)"
    and upd_ping: "I c \<Longrightarrow> I (c\<lparr>p_ping_deadline := t\<rparr>)"
    and upd_total: "I c \<Longrightarrow> I (c\<lparr>p_buf_total := k\<rparr>)"
    and upd_sent: "I c \<Longrightarrow> I (c\<lparr>p_buf_sent := k\<rparr>)"
    and upd_state: "I c \<Longrightarrow> s \<noteq> BLYNK_STATE_STOPPED \<Longrightarrow> I (c\<lparr>st_state := s\<rparr>)"
    and upd_message: "I c \<Longrightarrow> message_wf m \<Longrightarrow> I (c\<lparr>p_message := m\<rparr>)"
    and upd_wr_buf: "I c \<Longrightarrow> length b = BLYNK_MAX_PAYLOAD_LEN \<Longrightarrow> I (c\<lparr>p_wr_buf := b\<rparr>)"
    and clear_slot: "I c \<Longrightarrow> i < BLYNK_MAX_AWAITING \<Longrightarrow>
      I (c\<lparr>p_awaiting := poke i ((p_awaiting c ! i)\<lparr>aw_id := 0\<rparr>) (p_awaiting c)\<rparr>)"
    and sizes: "I c \<Longrightarrow> message_wf (p_message c)" "I c \<Longrightarrow> length (p_wr_buf c) = BLYNK_MAX_PAYLOAD_LEN"
    and new_id: "I c \<Longrightarrow> get_id dl h d c = (ident, c') \<Longrightarrow> ident \<noteq> 0 \<Longrightarrow> I c'"
begin

lemmas upds = upd_world upd_ctl0 upd_cnt upd_parse upd_ping upd_total upd_sent

lemma change_state_keeps_inv: "I c \<Longrightarrow> ev_state ev \<noteq> BLYNK_STATE_STOPPED \<Longrightarrow> I (change_state os ev c)"
  by (simp add: change_state_def Let_def app upd_state split: option.split)

lemma set_disconnected_keeps: "I c \<Longrightarrow> I (set_disconnected os r k c)"
  by (simp add: set_disconnected_def change_state_keeps_inv)

lemma fail_with_keeps: "I c \<Longrightarrow> I (fail_with os r c)"
  by (simp add: fail_with_def set_disconnected_keeps)

lemma call_resp_keeps_inv: "I c \<Longrightarrow> I (call_resp os h st d c)"
  by (cases h) (simp_all add: auth_cb_def ping_cb_def set_state_def set_disconnected_keeps
      change_state_keeps_inv app)

lemma finish_keeps: "I c \<Longrightarrow> i < BLYNK_MAX_AWAITING \<Longrightarrow> I (finish_awaiting os st i c)"
  by (simp add: finish_awaiting_def Let_def call_resp_keeps_inv clear_slot split: option.split)

lemma send_keeps: "I c \<Longrightarrow> I (snd (blynk_send_internal os cmd i l pl h d w c))"
  by (simp add: blynk_send_internal_def response_deadline_def Let_def case_prod_beta upds split: option.split)

lemma handle_response_keeps: "I c \<Longrightarrow> I (handle_response os c)"
  unfolding handle_response_def by (rule for_upto_inv) (auto intro: finish_keeps)

lemma handle_hardware_keeps:
  assumes "I c"
  shows "I (handle_hardware os c)"
proof -
  have send: "I (case blynk_send_internal os cmd k n pl h d wt c' of
      (ret, c) \<Rightarrow> if ret \<noteq> BLYNK_OK then fail_with os ret c else c)" if "I c'" for cmd k n pl h d wt c'
    using send_keeps [OF that, of cmd k n pl h d wt] by (simp add: case_prod_beta fail_with_keeps)
  define L where "L = (if unat (msg_len (p_message c)) < BLYNK_MAX_PAYLOAD_LEN
    then unat (msg_len (p_message c)) else BLYNK_MAX_PAYLOAD_LEN - 1)"
  define r where "r = (if msg_len (p_message c) \<noteq> 0 then parse_args (msg_payload (p_message c)) L
    else ([], msg_payload (p_message c)))"
  have "message_wf ((p_message c)\<lparr>msg_payload := snd r\<rparr>)"
    using sizes(1) [OF assms] by (simp add: message_wf_def r_def L_def parse_args_length)
  from upd_message [OF assms this] show ?thesis
    unfolding handle_hardware_def Let_def L_def [symmetric] r_def [symmetric]
    using send by (simp add: case_prod_beta app split: list.split option.split)
qed

lemma handle_message_keeps: "I c \<Longrightarrow> I (handle_message os c)"
  by (simp add: handle_message_def handle_response_keeps handle_hardware_keeps)

lemma parse_byte_keeps:
  assumes "I c"
  shows "I (parse_byte os d c)"
proof -
  have m: "message_wf (p_message c)" using assms by (rule sizes)
  then have [simp]:
    "k < 512 \<Longrightarrow> message_wf ((p_message c)\<lparr>msg_payload := poke k x (msg_payload (p_message c)), msg_len := l\<rparr>)"
    "k < 512 \<Longrightarrow> message_wf ((p_message c)\<lparr>msg_payload := poke k x (msg_payload (p_message c))\<rparr>)"
    "message_wf ((p_message c)\<lparr>msg_len := l\<rparr>)" "message_wf ((p_message c)\<lparr>msg_id := i\<rparr>)"
    "message_wf ((p_message c)\<lparr>msg_command := cm\<rparr>)" for k x l i cm
    by (simp_all add: message_wf_def)
  show ?thesis
    using assms m
    by (cases "p_parse c") (simp_all add: parse_defs Let_def handle_message_keeps upds upd_message)
qed

lemma loop_parse_keeps: "I c \<Longrightarrow> both I (loop_parse os bs c)"
  by (induction bs arbitrary: c) (simp_all add: Let_def parse_byte_keeps)

lemma handle_timers_keeps:
  assumes "I c"
  shows "I (snd (handle_timers os c))"
proof -
  have "I (for_upto BLYNK_MAX_AWAITING (\<lambda>i c.
      if aw_id (p_awaiting c ! i) \<noteq> 0 \<and> aw_deadline (p_awaiting c ! i) \<noteq> 0 \<and>
         timerExpired (aw_deadline (p_awaiting c ! i)) now
      then finish_awaiting os BLYNK_STATUS_RESPONSE_TIMEOUT i c else c) (c\<lparr>world := w\<rparr>))" for now w
    by (rule for_upto_inv) (auto intro: finish_keeps upd_world assms)
  then show ?thesis
    by (simp add: handle_timers_def advance_ping_def Let_def case_prod_beta send_keeps upds)
qed

lemma loop_read_ctl_keeps: "I c \<Longrightarrow> both I (loop_read_ctl os c)"
  by (simp add: loop_read_ctl_def Let_def case_prod_beta set_disconnected_keeps upds)

lemma loop_read_keeps: "I c \<Longrightarrow> both I (loop_read os fd c)"
  by (simp add: loop_read_def Let_def case_prod_beta set_disconnected_keeps upds loop_parse_keeps)

lemma loop_write_keeps: "I c \<Longrightarrow> both I (loop_write os past fd c)"
  by (simp add: loop_write_def Let_def case_prod_beta set_disconnected_keeps upds)

text \<open>One pass after a message was fetched.\<close>

lemma loop_rest_keeps:
  assumes "I c"
  shows "both I (let (timeout, c) = get_select_timeout os c;
        (nfds, rdset, wrset, w) =
          os_select os [fd, p_ctl0 c] (if want_write then [fd] else [])
            (map_option (select_tv os) timeout) (world c);
        c = c\<lparr>world := w\<rparr> in
    if nfds < 0 then Inl (set_disconnected os BLYNK_ERR_ERRNO (os_errno os w) c)
    else let (ret, c) = handle_timers os c in
    if ret \<noteq> BLYNK_OK then Inl (fail_with os ret c)
    else if st_state c = BLYNK_STATE_DISCONNECTED then Inl c
    else if nfds = 0 then Inr c
    else sum_bind (if p_ctl0 c \<in> set rdset then loop_read_ctl os c else Inr c) (\<lambda>c.
         sum_bind (if fd \<in> set rdset then loop_read os fd c else Inr c) (\<lambda>c.
         if p_buf_total c \<noteq> 0 \<and> fd \<in> set wrset then loop_write os past fd c else Inr c)))"
proof -
  have sel: "I (snd (get_select_timeout os c))"
    using assms by (simp add: get_select_timeout_def Let_def case_prod_beta upds split: option.split)
  have io: "both I (sum_bind (if a then loop_read_ctl os c else Inr c) (\<lambda>c.
      sum_bind (if b then loop_read os fd c else Inr c) (\<lambda>c.
      if p_buf_total c \<noteq> 0 \<and> d then loop_write os past fd c else Inr c)))" if "I c" for a b c d
    using that by (intro both_bind) (simp_all add: loop_read_ctl_keeps loop_read_keeps loop_write_keeps)
  show ?thesis
    using sel by (simp add: Let_def case_prod_beta set_disconnected_keeps fail_with_keeps upd_world
        handle_timers_keeps io)
qed

lemma loop_fetch_keeps:
  assumes "I c" "loop_fetch os c = Inr (c', want_write)"
  shows "I c'"
proof (cases "p_buf_total c \<noteq> 0")
  case True
  with assms show ?thesis by (simp add: loop_fetch_def)
next
  case False
  obtain q w where q: "xQueueReceive os (world c) = (q, w)" by fastforce
  show ?thesis
  proof (cases q)
    case None
    with False q assms show ?thesis by (auto simp: loop_fetch_def upds)
  next
    case (Some ctl)
    let ?m = "ctl_message ctl"
    define r where "r = (if msg_id ?m = 0
      then get_id (ctl_deadline ctl) (ctl_handler ctl) (ctl_data ctl) (c\<lparr>world := w\<rparr>) else (msg_id ?m, c\<lparr>world := w\<rparr>))"
    define b where "b = blynk_serialize (p_wr_buf (snd r)) BLYNK_MAX_PAYLOAD_LEN (?m\<lparr>msg_id := fst r\<rparr>)"
    have "loop_fetch os c = (if fst r = 0 then Inl (set_disconnected os BLYNK_ERR_MEM 0 (snd r))
      else Inr ((snd r)\<lparr>p_wr_buf := fst b, p_buf_total := int (snd b), p_buf_sent := 0\<rparr>, True))"
      using False q Some by (simp add: loop_fetch_def r_def b_def Let_def case_prod_beta)
    then have nz: "fst r \<noteq> 0"
      and c': "c' = (snd r)\<lparr>p_wr_buf := fst b, p_buf_total := int (snd b), p_buf_sent := 0\<rparr>"
      using assms(2) by (auto split: if_splits)
    have "I (snd r)"
    proof (cases "msg_id ?m = 0")
      case True
      then show ?thesis
        using new_id [OF upd_world [OF assms(1)], of "ctl_deadline ctl" "ctl_handler ctl" "ctl_data ctl" w
            "fst r" "snd r"] nz by (simp add: r_def)
    qed (simp add: r_def upd_world assms(1))
    with c' show ?thesis
      using length_serialize [OF sizes(2)] by (simp add: b_def upds upd_wr_buf)
  qed
qed

lemma loop_step_keeps:
  assumes "I c" "loop_step os past fd c = Inr c'"
  shows "I c'"
proof -
  obtain c1 want where f: "loop_fetch os c = Inr (c1, want)"
    using assms(2) by (cases "loop_fetch os c") (auto simp: loop_step_def sum_bind_def)
  from loop_rest_keeps [OF loop_fetch_keeps [OF assms(1) f], of fd want past] show ?thesis
    using assms(2) f by (simp add: loop_step_def sum_bind_def [of "Inr _"])
qed

end

text \<open>Invariants that also survive a failed allocation and the reset at the start of a connection.\<close>

locale client_inv_total = client_inv +
  assumes any_id: "I c \<Longrightarrow> I (snd (get_id dl h d c))"
    and reset: "I c \<Longrightarrow> I (reset_client os c)"
begin

lemma loop_fetch_Inl_keeps:
  assumes "I c" "loop_fetch os c = Inl c'"
  shows "I c'"
proof -
  obtain q w where q: "xQueueReceive os (world c) = (q, w)" by fastforce
  have "I (set_disconnected os BLYNK_ERR_MEM 0 (snd (get_id dl h d (c\<lparr>world := w\<rparr>))))" for dl h d
    using assms(1) by (intro set_disconnected_keeps any_id upd_world)
  moreover have "I (set_disconnected os BLYNK_ERR_MEM 0 (c\<lparr>world := w\<rparr>))"
    using assms(1) by (intro set_disconnected_keeps upd_world)
  ultimately show ?thesis
    using assms(2) q by (auto simp: loop_fetch_def Let_def case_prod_beta split: if_splits option.splits)
qed

lemma loop_step_both: "I c \<Longrightarrow> both I (loop_step os past fd c)"
proof (cases "loop_fetch os c")
  case (Inl c')
  assume "I c"
  with Inl show ?thesis using loop_fetch_Inl_keeps by (simp add: loop_step_def sum_bind_def)
next
  case (Inr r)
  assume "I c"
  obtain c1 want where r: "r = (c1, want)" by (cases r)
  from loop_rest_keeps [OF loop_fetch_keeps [OF \<open>I c\<close> Inr [unfolded r]], of fd want past]
  show ?thesis using Inr r by (simp add: loop_step_def sum_bind_def [of "Inr _"])
qed

lemma setup_keeps:
  assumes "I c"
  shows "blynk_setup os c = Setup_return c' \<Longrightarrow> I c'" "blynk_setup os c = Setup_fail c' \<Longrightarrow> I c'"
    "blynk_setup os c = Setup_run fd c' \<Longrightarrow> I c'"
proof -
  have conn: "I (set_state os BLYNK_STATE_CONNECTED (c\<lparr>world := w\<rparr>))" for w
    using assms by (simp add: set_state_def change_state_keeps_inv upd_world)
  have ping: "I c \<Longrightarrow> I (advance_ping os c)" for c
    by (simp add: advance_ping_def case_prod_beta upds)
  note k = send_keeps [OF ping [OF reset [OF conn]]]
  show "blynk_setup os c = Setup_return c' \<Longrightarrow> I c'" "blynk_setup os c = Setup_fail c' \<Longrightarrow> I c'"
    "blynk_setup os c = Setup_run fd c' \<Longrightarrow> I c'"
    using assms
    by (auto simp: blynk_setup_def Let_def case_prod_beta upd_world set_disconnected_keeps fail_with_keeps k
        split: option.splits if_splits)
qed

end

subsection \<open>The invariants of the task and of a running connection\<close>

text \<open>Callbacks reach the client through its interface, which changes neither the private part these
  properties are about nor the connection state.\<close>

definition app_ok :: "'w blynk_os \<Rightarrow> bool" where
  "app_ok os \<longleftrightarrow> app_respects os client_wf \<and> app_keeps_priv os \<and> app_keeps os p_id \<and> app_keeps os st_state"

definition task_good :: "'w blynk_os \<Rightarrow> 'w blynk_client \<Rightarrow> bool" where
  "task_good os c \<longleftrightarrow> app_ok os \<and> client_wf c \<and> st_state c \<noteq> BLYNK_STATE_STOPPED"

definition run_good :: "'w blynk_os \<Rightarrow> 'w blynk_client \<Rightarrow> bool" where
  "run_good os c \<longleftrightarrow> task_good os c \<and> ids_inv c"

lemma ids_inv_cong: "p_awaiting c' = p_awaiting c \<Longrightarrow> p_id c' = p_id c \<Longrightarrow> ids_inv c' = ids_inv c"
  by (simp add: ids_inv_def)

lemma ids_inv_updates [simp]:
  "ids_inv (c\<lparr>world := w\<rparr>) = ids_inv c"
  "ids_inv (c\<lparr>p_ctl0 := k\<rparr>) = ids_inv c"
  "ids_inv (c\<lparr>p_cnt := n\<rparr>) = ids_inv c"
  "ids_inv (c\<lparr>p_parse := f\<rparr>) = ids_inv c"
  "ids_inv (c\<lparr>p_ping_deadline := t\<rparr>) = ids_inv c"
  "ids_inv (c\<lparr>p_buf_total := k\<rparr>) = ids_inv c"
  "ids_inv (c\<lparr>p_buf_sent := k\<rparr>) = ids_inv c"
  "ids_inv (c\<lparr>st_state := st\<rparr>) = ids_inv c"
  "ids_inv (c\<lparr>p_message := m\<rparr>) = ids_inv c"
  "ids_inv (c\<lparr>p_wr_buf := b\<rparr>) = ids_inv c"
  by (simp_all add: ids_inv_def)

lemma client_wf_wr_buf:
  "client_wf c \<Longrightarrow> length b = BLYNK_MAX_PAYLOAD_LEN \<Longrightarrow> client_wf (c\<lparr>p_wr_buf := b\<rparr>)"
  by (simp add: client_wf_def)

lemma get_id_state: "st_state (snd (get_id dl h d c)) = st_state c"
  by (simp add: get_id_def Let_def split: option.split)

lemma get_id_nonzero:
  assumes "ids_inv c" "get_id dl h d c = (ident, c')" "ident \<noteq> 0"
  shows "ids_inv c'"
proof -
  have p: "p_id c \<noteq> 0xffff"
  proof
    assume p: "p_id c = 0xffff"
    have "find_slot (\<lambda>a. aw_id a = 0) (replicate BLYNK_MAX_AWAITING nine_awaiting) = None"
      by (simp add: find_slot_None_iff nine_awaiting_def)
    then have "ident = 0" using assms(2) p by (auto simp: get_id_def Let_def split: option.splits)
    with assms(3) show False by simp
  qed
  show ?thesis
  proof (cases h)
    case None
    then have "c' = c\<lparr>p_id := p_id c + 1\<rparr>" using assms(2) p by (auto simp: get_id_def Let_def)
    then show ?thesis using assms(1) next_id [OF p] by (simp add: ids_inv_def)
  next
    case (Some h')
    then show ?thesis using get_id_alloc [OF assms(1) p assms(2) [unfolded Some]] by simp
  qed
qed

lemma app_okD:
  assumes "app_ok os"
  shows "client_wf c \<Longrightarrow> client_wf (app_code os u c)" "st_state (app_code os u c) = st_state c"
    "p_awaiting (app_code os u c) = p_awaiting c" "p_id (app_code os u c) = p_id c"
  using assms by (auto simp: app_ok_def app_keeps_priv_def app_keeps_def app_respects_def)

interpretation task_inv: client_inv_total os "task_good os" for os :: "'w blynk_os"
proof (unfold_locales, goal_cases)
  case (1 c u)
  then show ?case using app_okD [of os] by (auto simp: task_good_def)
next
  case (15 c dl h d ident c')
  then show ?case using get_id_wf [of c dl h d] get_id_state [of dl h d c] by (simp add: task_good_def)
next
  case (16 c dl h d)
  then show ?case using get_id_wf [of c dl h d] get_id_state [of dl h d c] by (simp add: task_good_def)
next
  case (17 c)
  then show ?case by (simp add: task_good_def reset_client_def)
qed (simp_all add: task_good_def client_wf_wr_buf client_wf_lengthD)

interpretation run_inv: client_inv os "run_good os" for os :: "'w blynk_os"
proof (unfold_locales, goal_cases)
  case (1 c u)
  then show ?case
    using task_inv.app [of os c u] app_okD(3,4) [of os u c] ids_inv_cong [of "app_code os u c" c]
    by (simp add: run_good_def task_good_def)
next
  case (12 c i)
  then have "poke i a (p_awaiting c) = (p_awaiting c)[i := a]" for a
    by (simp add: run_good_def ids_inv_def)
  with 12 show ?case
    using task_inv.clear_slot [of os c i]
      ids_inv_clear [of c "c\<lparr>p_awaiting := (p_awaiting c)[i := (p_awaiting c ! i)\<lparr>aw_id := 0\<rparr>]\<rparr>"]
    by (simp add: run_good_def)
next
  case (13 c)
  then show ?case by (auto simp: run_good_def intro: task_inv.sizes(1))
next
  case (14 c)
  then show ?case by (auto simp: run_good_def intro: task_inv.sizes(2))
next
  case (15 c dl h d ident c')
  then show ?case
    using task_inv.new_id get_id_nonzero by (auto simp: run_good_def)
qed (simp_all add: run_good_def task_inv.upds task_inv.upd_state task_inv.upd_message task_inv.upd_wr_buf)

subsection \<open>Leaving the loop\<close>

definition outcome :: "'w blynk_client + 'w blynk_client \<Rightarrow> bool" where
  "outcome r = (case r of Inl c \<Rightarrow> st_state c = BLYNK_STATE_DISCONNECTED
                        | Inr c \<Rightarrow> st_state c \<noteq> BLYNK_STATE_DISCONNECTED)"

lemma outcome_simps [simp]:
  "outcome (Inl c) \<longleftrightarrow> st_state c = BLYNK_STATE_DISCONNECTED"
  "outcome (Inr c) \<longleftrightarrow> st_state c \<noteq> BLYNK_STATE_DISCONNECTED"
  by (simp_all add: outcome_def)

lemma outcome_bind:
  "outcome r \<Longrightarrow> (\<And>c. st_state c \<noteq> BLYNK_STATE_DISCONNECTED \<Longrightarrow> outcome (f c)) \<Longrightarrow> outcome (sum_bind r f)"
  by (cases r) (simp_all add: sum_bind_def)

lemma set_disconnected_state:
  "app_ok os \<Longrightarrow> st_state (set_disconnected os r k c) = BLYNK_STATE_DISCONNECTED"
  by (simp add: set_disconnected_def change_state_def Let_def app_okD(2) split: option.split)

lemma fail_with_state: "app_ok os \<Longrightarrow> st_state (fail_with os r c) = BLYNK_STATE_DISCONNECTED"
  by (simp add: fail_with_def set_disconnected_state)

lemma loop_parse_outcome:
  "st_state c \<noteq> BLYNK_STATE_DISCONNECTED \<Longrightarrow> outcome (loop_parse os bs c)"
  by (induction bs arbitrary: c) (simp_all add: Let_def)

lemma loop_io_outcome:
  assumes "app_ok os" "st_state c \<noteq> BLYNK_STATE_DISCONNECTED"
  shows "outcome (loop_read_ctl os c)" "outcome (loop_read os fd c)" "outcome (loop_write os past fd c)"
  using assms
  by (simp_all add: loop_read_ctl_def loop_read_def loop_write_def Let_def case_prod_beta
      set_disconnected_state loop_parse_outcome)

lemma loop_step_outcome:
  assumes "app_ok os"
  shows "outcome (loop_step os past fd c)"
proof (cases "loop_fetch os c")
  case (Inl c')
  then have "st_state c' = BLYNK_STATE_DISCONNECTED"
    using set_disconnected_state [OF assms]
    by (auto simp: loop_fetch_def Let_def case_prod_beta split: if_splits option.splits)
  with Inl show ?thesis by (simp add: loop_step_def sum_bind_def)
next
  case (Inr r)
  have io: "outcome (sum_bind (if a then loop_read_ctl os c else Inr c) (\<lambda>c.
      sum_bind (if b then loop_read os fd c else Inr c) (\<lambda>c.
      if p_buf_total c \<noteq> 0 \<and> d then loop_write os past fd c else Inr c)))"
    if "st_state c \<noteq> BLYNK_STATE_DISCONNECTED" for a b c d
    using that by (intro outcome_bind) (simp_all add: loop_io_outcome [OF assms])
  show ?thesis
    using Inr io by (simp add: loop_step_def sum_bind_def [of "Inr _"] Let_def case_prod_beta
        set_disconnected_state [OF assms] fail_with_state [OF assms])
qed

lemma setup_result:
  assumes "task_good os c" "st_state c = BLYNK_STATE_DISCONNECTED"
  shows "blynk_setup os c = Setup_return c' \<Longrightarrow> c' = c"
    "blynk_setup os c = Setup_fail c' \<Longrightarrow> st_state c' = BLYNK_STATE_DISCONNECTED"
    "blynk_setup os c = Setup_run fd c' \<Longrightarrow> run_good os c' \<and> st_state c' = BLYNK_STATE_CONNECTED \<and> 0 \<le> fd"
proof -
  have ok: "app_ok os" using assms(1) by (simp add: task_good_def)
  have send: "st_state (snd (blynk_send_internal os cmd i l pl h d w c)) = st_state c" for cmd i l pl h d w c
    by (simp add: blynk_send_internal_def response_deadline_def Let_def case_prod_beta split: option.split)
  let ?conn = "\<lambda>w. set_state os BLYNK_STATE_CONNECTED (c\<lparr>world := w\<rparr>)"
  have st: "st_state (advance_ping os (reset_client os (?conn w))) = BLYNK_STATE_CONNECTED" for w
    by (simp add: advance_ping_def reset_client_def case_prod_beta set_state_def change_state_def Let_def
        app_okD(2) [OF ok] split: option.split)
  have "task_good os (?conn w)" for w
    unfolding set_state_def by (intro task_inv.change_state_keeps_inv task_inv.upd_world assms(1)) simp
  then have "run_good os (reset_client os (?conn w))" for w
    by (simp add: run_good_def task_inv.reset reset_client_ids)
  then have run: "run_good os (advance_ping os (reset_client os (?conn w)))" for w
    by (simp add: advance_ping_def case_prod_beta run_inv.upds)
  show "blynk_setup os c = Setup_return c' \<Longrightarrow> c' = c"
    "blynk_setup os c = Setup_fail c' \<Longrightarrow> st_state c' = BLYNK_STATE_DISCONNECTED"
    "blynk_setup os c = Setup_run fd c' \<Longrightarrow> run_good os c' \<and> st_state c' = BLYNK_STATE_CONNECTED \<and> 0 \<le> fd"
    by (auto simp: blynk_setup_def Let_def case_prod_beta set_disconnected_state [OF ok] fail_with_state [OF ok]
        send st intro!: run_inv.send_keeps run split: option.splits if_splits)
qed

subsection \<open>Reachable states of the task\<close>

text \<open>Outside the loop the client is disconnected; inside it is connected, its arrays have their
  declared sizes, and the identifiers of its pending requests are distinct and below the counter.\<close>

fun task_ok :: "'w task_state \<Rightarrow> bool" where
  "task_ok (Task_connecting c) \<longleftrightarrow> client_wf c \<and> st_state c = BLYNK_STATE_DISCONNECTED"
| "task_ok (Task_running fd c) \<longleftrightarrow> client_wf c \<and> ids_inv c \<and>
     st_state c \<in> {BLYNK_STATE_CONNECTED, BLYNK_STATE_AUTHENTICATED}"
| "task_ok (Task_deleted c) \<longleftrightarrow> client_wf c \<and> st_state c = BLYNK_STATE_DISCONNECTED"

lemma running_iff:
  "app_ok os \<Longrightarrow> task_ok (Task_running fd c) \<longleftrightarrow> run_good os c \<and> st_state c \<noteq> BLYNK_STATE_DISCONNECTED"
  by (cases "st_state c") (auto simp: run_good_def task_good_def)

lemma connecting_iff:
  "app_ok os \<Longrightarrow> task_ok (Task_connecting c) \<longleftrightarrow> task_good os c \<and> st_state c = BLYNK_STATE_DISCONNECTED"
  by (auto simp: task_good_def)

lemma pause_simps [simp]:
  "client_wf (reconnect_pause os c) = client_wf c" "st_state (reconnect_pause os c) = st_state c"
  by (simp_all add: reconnect_pause_def)

lemma task_step_ok:
  assumes "app_ok os" "task_step os past s s'" "task_ok s"
  shows "task_ok s'"
  using assms(2,3)
proof cases
  case (give_up c c')
  then show ?thesis using assms(1,3) setup_result(1) [of os c c'] by (simp add: connecting_iff task_good_def)
next
  case (retry c c')
  then show ?thesis
    using assms(1,3) setup_result(2) [of os c c'] task_inv.setup_keeps(2) [of os c c']
    by (simp add: task_good_def)
next
  case (enter c fd c')
  then show ?thesis
    using assms(1,3) setup_result(3) [of os c fd c'] by (simp add: task_good_def running_iff [OF assms(1)] del: task_ok.simps(2))
next
  case (stay fd c c')
  then show ?thesis
    using assms(1,3) run_inv.loop_step_keeps [of os c past fd c'] loop_step_outcome [OF assms(1), of past fd c]
    by (simp add: running_iff [OF assms(1)] del: task_ok.simps(2))
next
  case (leave fd c c')
  then have "both (task_good os) (loop_step os past fd c)"
    using assms(3) running_iff [OF assms(1)] by (intro task_inv.loop_step_both) (simp add: run_good_def del: task_ok.simps(2))
  then show ?thesis
    using leave loop_step_outcome [OF assms(1), of past fd c] by (simp add: task_good_def)
qed

text \<open>C2: In every state the connection task reaches after \<open>blynk_start\<close>: while it is (re)connecting, the
  client is in the state DISCONNECTED; while it is in its loop, the client is CONNECTED or AUTHENTICATED,
  every array keeps its size, and no two pending requests share an identifier, which are all below the
  counter.  This holds for any behaviour of network, queue, clock and callbacks.\<close>

theorem blynk_task_invariant:
  assumes "app_ok os" "client_wf c" "blynk_start os c = (BLYNK_OK, c0)"
    and "(task_step os past)\<^sup>*\<^sup>* (Task_connecting c0) s"
  shows "task_ok s"
  using assms(4)
proof (induction rule: rtranclp_induct)
  case base
  have "client_wf c0" using blynk_start_wf [of os c] assms(1-3) by (simp add: app_ok_def)
  moreover have "st_state c0 = BLYNK_STATE_DISCONNECTED"
    using assms(1,3) by (auto simp: blynk_start_def change_state_def Let_def app_okD(2) case_prod_beta
        split: if_splits option.splits)
  ultimately show ?case by simp
next
  case (step s s')
  then show ?case using task_step_ok [OF assms(1)] by blast
qed

lemma env_app_ok: "app_ok env_os"
  by (simp add: app_ok_def app_keeps_priv_def)

theorem blynk_task_invariant_witness:
  "task_ok (Task_connecting (snd (blynk_start env_os (zero_client env0))))"
proof -
  have "fst (blynk_start env_os (zero_client env0)) = BLYNK_OK" by code_simp
  then have "blynk_start env_os (zero_client env0) = (BLYNK_OK, snd (blynk_start env_os (zero_client env0)))"
    by (metis prod.collapse)
  then show ?thesis by (rule blynk_task_invariant [OF env_app_ok zero_client_wf _ rtranclp.rtrancl_refl])
qed

end
