(* ===== verification/Blynk_Api.thy ===== *)
theory Blynk_Api
  imports Blynk_Task
begin

text \<open>
  The public interface of the Blynk client: the options a connection can rely on, and the formatted
  sending of commands.
\<close>

subsection \<open>Options\<close>

lemma colon_not_in_host: "of_char (CHR '':'') \<notin> set h \<Longrightarrow>
  takeWhile (\<lambda>b. b \<noteq> of_char (CHR '':'')) (h @ of_char (CHR '':'') # p) = h \<and>
  dropWhile (\<lambda>b. b \<noteq> of_char (CHR '':'')) (h @ of_char (CHR '':'') # p) = of_char (CHR '':'') # (p :: bytes)"
  by (induction h) auto

lemma split_server_port:
  assumes "c_str srv = h @ cstr '':'' @ p" "of_char (CHR '':'') \<notin> set h" "length h + length p < 127"
  shows "split_server srv = Some (h, p)"
  using assms colon_not_in_host [of h p] by (simp add: split_server_def Let_def cstr_def)

text \<open>After \<open>blynk_set_options\<close> has accepted a set of options, timeout, ping interval and reconnect delay
  are nonzero, and the connection task finds a host and a service to connect to: the default server when
  none is given, the given host with the default port 80 when it names no port.  (The server string must
  leave room for the port in the 128-byte buffer of \<open>blynk_loop\<close> and have no colon behind its end.)\<close>

lemma set_options_give_address:
  assumes "blynk_set_options opt c = (BLYNK_OK, c')" "options_wf opt"
    and "c_str (opt_server opt) = host" "length host \<le> 120" "of_char (CHR '':'') \<notin> set (opt_server opt)"
  shows "split_server (opt_server (st_opt c')) =
      Some (if host = [] then default_server else host, default_port)
    \<and> opt_timeout (st_opt c') \<noteq> 0 \<and> opt_ping_interval (st_opt c') \<noteq> 0 \<and> opt_reconnect_delay (st_opt c') \<noteq> 0"
proof -
  let ?colon = "of_char (CHR '':'') :: u8"
  have len: "length (opt_server opt) = 255" using assms(2) by (simp add: options_wf_def)
  have empty: "byte_at (opt_server opt) 0 = 0 \<longleftrightarrow> host = []"
    using len assms(3) by (cases "opt_server opt") (auto simp: byte_at_def c_str_Cons split: if_splits)
  have dflt: "is_cstr default_server" "is_cstr default_port" "length default_server = 16" "length default_port = 2"
    "?colon \<notin> set default_server"
    by (simp_all add: default_server_def default_port_def cstr_def)
  have host: "is_cstr host" "?colon \<notin> set host"
    using assms(3,5) c_str_is_cstr [of "opt_server opt"] by (auto simp: c_str_def dest: set_takeWhileD)
  let ?h = "if host = [] then default_server else host"
  have "opt_server (st_opt c') = snprintf_str (opt_server opt) 255 (?h @ cstr '':'' @ default_port)"
    using assms(1,3,5) empty by (auto simp: blynk_set_options_def Let_def split: if_splits)
  moreover have "is_cstr (?h @ cstr '':'' @ default_port)" using host dflt by (simp add: cstr_def)
  ultimately have "c_str (opt_server (st_opt c')) = ?h @ cstr '':'' @ default_port"
    using assms(4) dflt by (auto simp: cstr_def)
  then have "split_server (opt_server (st_opt c')) = Some (?h, default_port)"
    by (rule split_server_port) (use host dflt assms(4) in auto)
  moreover have "opt_timeout (st_opt c') \<noteq> 0" "opt_ping_interval (st_opt c') \<noteq> 0" "opt_reconnect_delay (st_opt c') \<noteq> 0"
    using assms(1) by (auto simp: blynk_set_options_def Let_def split: if_splits)
  ultimately show ?thesis by simp
qed

subsection \<open>The control socket\<close>

text \<open>Sending overwrites the descriptor of the control socket: in every connection that reaches the read
  loop, the descriptor the loop waits on in place of the control socket is 11, the number of characters
  the second trace message of \<open>blynk_send_internal\<close> prints before its \<open>%n\<close>.\<close>

lemma control_socket_overwritten:
  assumes "blynk_setup os c = Setup_run fd c'"
  shows "p_ctl0 c' = 11"
proof -
  have "p_ctl0 (snd (blynk_send_internal os cmd i l pl h d w c)) = 11"
    if "fst (blynk_send_internal os cmd i l pl h d w c) = BLYNK_OK" for cmd i l pl h d w c
    using that by (simp add: blynk_send_internal_def printf_n_def Let_def case_prod_beta split: if_splits)
  then show ?thesis
    using assms by (auto simp: blynk_setup_def Let_def case_prod_beta split: option.splits if_splits)
qed

subsection \<open>Formatted commands\<close>

lemma format_string_step:
  "is_cstr a \<Longrightarrow> fs \<noteq> [] \<Longrightarrow> length acc + length a < 511 \<Longrightarrow>
   format_args ff (CHR ''s'' # fs) (VA_str a # r) acc = format_args ff fs r (acc @ a @ [0])"
  by simp

lemma format_strings:
  assumes "as \<noteq> []" "\<forall>a \<in> set as. is_cstr a" "length acc + length (join_args as) < BLYNK_MAX_PAYLOAD_LEN"
  shows "format_args ff (replicate (length as) (CHR ''s'')) (map VA_str as) acc = Some (acc @ join_args as)"
  using assms
proof (induction as arbitrary: acc rule: join_args.induct)
  case (3 a b as)
  let ?fs = "replicate (length (b # as)) (CHR ''s'')"
  have "format_args ff (CHR ''s'' # ?fs) (VA_str a # map VA_str (b # as)) acc =
      format_args ff ?fs (map VA_str (b # as)) (acc @ a @ [0])"
    using 3(3,4) by (intro format_string_step) simp_all
  also have "\<dots> = Some ((acc @ a @ [0]) @ join_args (b # as))"
    using 3(3,4) by (intro "3.IH") simp_all
  finally show ?case by simp
qed simp_all

text \<open>C16: Sending strings and receiving arguments are inverse: for an initialised and authenticated client,
  \<open>blynk_send\<close> with the format \<open>ss..s\<close> queues a payload from which \<open>parse_args\<close>, run over any message
  buffer that holds it, gets the very same strings back (at most 32 of them, the last not empty, below
  512 bytes in all).\<close>

theorem send_strings_parse_args:
  assumes "magic c = BLYNK_MAGIC" "st_state c = BLYNK_STATE_AUTHENTICATED" "cmd \<noteq> BLYNK_CMD_RESPONSE"
    and "as \<noteq> []" "last as \<noteq> []" "length as \<le> BLYNK_MAX_ARGS" "\<forall>a \<in> set as. is_cstr a"
    and "length (join_args as) < BLYNK_MAX_PAYLOAD_LEN"
  shows "\<exists>payload.
    blynk_send os ff cmd wait (replicate (length as) (CHR ''s'')) (map VA_str as) c =
      Some (blynk_send_internal os cmd 0 (of_nat (length payload)) (Some payload) None 0 wait c)
    \<and> (\<forall>pl. length pl = BLYNK_MAX_PAYLOAD_LEN \<and> take (length payload) pl = payload \<longrightarrow>
         (case parse_args pl (length payload) of (offs, pl') \<Rightarrow> map (arg_str pl') offs = as))"
proof (intro exI conjI allI impI)
  show "blynk_send os ff cmd wait (replicate (length as) (CHR ''s'')) (map VA_str as) c =
      Some (blynk_send_internal os cmd 0 (of_nat (length (join_args as))) (Some (join_args as)) None 0 wait c)"
    using assms format_strings [of as "[]" ff] join_args_Nil [OF assms(4,5)]
    by (simp add: blynk_send_def blynk_send_with_callback_v_def blynk_get_state_def)
next
  fix pl :: bytes
  assume pl: "length pl = BLYNK_MAX_PAYLOAD_LEN \<and> take (length (join_args as)) pl = join_args as"
  obtain offs where "parse_args pl (length (join_args as)) = (offs, pl[length (join_args as) := 0])"
    "map (arg_str (pl[length (join_args as) := 0])) offs = as"
    using parse_args_join [of "length (join_args as)" pl as] pl assms(4-8) by metis
  then show "case parse_args pl (length (join_args as)) of (offs, pl') \<Rightarrow> map (arg_str pl') offs = as"
    by simp
qed

theorem send_strings_parse_args_witness:
  "\<exists>payload.
    blynk_send env_os (\<lambda>d :: unit. []) 20 0 ''ss'' [VA_str (cstr ''vw''), VA_str (cstr ''1'')]
        ((zero_client env0)\<lparr>magic := BLYNK_MAGIC, st_state := BLYNK_STATE_AUTHENTICATED\<rparr>) =
      Some (blynk_send_internal env_os 20 0 (of_nat (length payload)) (Some payload) None 0 0
        ((zero_client env0)\<lparr>magic := BLYNK_MAGIC, st_state := BLYNK_STATE_AUTHENTICATED\<rparr>))"
  using send_strings_parse_args [of "(zero_client env0)\<lparr>magic := BLYNK_MAGIC, st_state := BLYNK_STATE_AUTHENTICATED\<rparr>"
      20 "[cstr ''vw'', cstr ''1'']" env_os "\<lambda>d :: unit. []" 0]
  by (simp add: cstr_def) blast

end
