(* ===== verification/Blynk_Sockets.thy ===== *)
theory Blynk_Sockets
  imports Blynk_Task
begin

text \<open>
  The sockets the Blynk client opens: \<open>blynk_socketpair\<close> closes what it opened on every error path, and a
  task that reconnects for ever holds at most one connection socket.  The set of open descriptors is a
  view of the outside state; the locale \<open>world_view\<close> carries a view that none of the calls in the
  connection loop changes through all functions of the loop.
\<close>

locale world_view =
  fixes os :: "'w blynk_os" and V :: "'w \<Rightarrow> 'v"
  assumes tick [simp]: "V (snd (xTaskGetTickCount os w)) = V w"
    and queue [simp]: "V (snd (xQueueSend os ctl t w)) = V w" "V (snd (xQueueReceive os w)) = V w"
      "V (xQueueReset os w) = V w"
    and delay [simp]: "V (vTaskDelay os t w) = V w"
    and resolve [simp]: "V (snd (snd (os_getaddrinfo os h s w))) = V w"
    and nonblock [simp]: "V (os_set_nonblock os fd w) = V w"
    and sel [simp]: "V (snd (snd (snd (os_select os rd wr tv w)))) = V w"
    and rw [simp]: "V (snd (snd (os_read os fd n w))) = V w" "V (snd (os_write os fd bs w)) = V w"
    and app [simp]: "V (world (app_code os u c)) = V (world c)"
begin

lemma change_state_view [simp]: "V (world (change_state os ev c)) = V (world c)"
  by (simp add: change_state_def Let_def split: option.split)

lemma disconnect_view [simp]:
  "V (world (set_disconnected os r k c)) = V (world c)" "V (world (fail_with os r c)) = V (world c)"
  "V (world (set_state os s c)) = V (world c)"
  by (simp_all add: set_disconnected_def fail_with_def set_state_def)

lemma call_resp_view [simp]: "V (world (call_resp os h st d c)) = V (world c)"
  by (cases h) (simp_all add: auth_cb_def ping_cb_def)

lemma finish_view [simp]: "V (world (finish_awaiting os st i c)) = V (world c)"
  by (simp add: finish_awaiting_def Let_def split: option.split)

lemma send_view [simp]: "V (world (snd (blynk_send_internal os cmd i l pl h d w c))) = V (world c)"
  by (simp add: blynk_send_internal_def response_deadline_def Let_def case_prod_beta split: option.split)

lemma handle_message_view [simp]: "V (world (handle_message os c)) = V (world c)"
proof -
  have "V (world (handle_response os c)) = V (world c)"
    unfolding handle_response_def by (rule for_upto_inv [where P = "\<lambda>c'. V (world c') = V (world c)"]) auto
  moreover have "V (world (case blynk_send_internal os cmd k n pl h d wt c' of
      (ret, c) \<Rightarrow> if ret \<noteq> BLYNK_OK then fail_with os ret c else c)) = V (world c')" for cmd k n pl h d wt c'
    by (simp add: case_prod_beta)
  then have "V (world (handle_hardware os c)) = V (world c)"
    by (simp add: handle_hardware_def Let_def case_prod_beta split: list.split option.split)
  ultimately show ?thesis by (simp add: handle_message_def)
qed

lemma parse_byte_view [simp]: "V (world (parse_byte os d c)) = V (world c)"
  by (cases "p_parse c") (simp_all add: parse_defs Let_def)

lemma loop_parse_view: "V (world c) = v \<Longrightarrow> both (\<lambda>c'. V (world c') = v) (loop_parse os bs c)"
  by (induction bs arbitrary: c) (simp_all add: Let_def)

lemma advance_ping_view [simp]: "V (world (advance_ping os c)) = V (world c)"
  by (simp add: advance_ping_def case_prod_beta)

lemma handle_timers_view [simp]: "V (world (snd (handle_timers os c))) = V (world c)"
proof -
  have "V (world (for_upto BLYNK_MAX_AWAITING (\<lambda>i c.
      if aw_id (p_awaiting c ! i) \<noteq> 0 \<and> aw_deadline (p_awaiting c ! i) \<noteq> 0 \<and>
         timerExpired (aw_deadline (p_awaiting c ! i)) now
      then finish_awaiting os BLYNK_STATUS_RESPONSE_TIMEOUT i c else c) (c\<lparr>world := w\<rparr>))) = V w" for now w
    by (rule for_upto_inv [where P = "\<lambda>c'. V (world c') = V w"]) auto
  then show ?thesis
    by (simp add: handle_timers_def Let_def case_prod_beta)
qed

lemma get_id_view [simp]: "world (snd (get_id dl h d c)) = world c"
  by (simp add: get_id_def Let_def split: option.split)

lemma loop_fetch_view:
  "case loop_fetch os c of Inl c' \<Rightarrow> V (world c') = V (world c) | Inr (c', b) \<Rightarrow> V (world c') = V (world c)"
proof -
  obtain q w where q: "xQueueReceive os (world c) = (q, w)" by fastforce
  then have "V w = V (world c)" using queue(2) [of "world c"] by simp
  then show ?thesis
    by (simp add: loop_fetch_def q Let_def case_prod_beta split: option.split)
qed

lemma loop_step_view: "both (\<lambda>c'. V (world c') = V (world c)) (loop_step os past fd c)"
proof (cases "loop_fetch os c")
  case (Inl c')
  then show ?thesis using loop_fetch_view [of c] by (simp add: loop_step_def sum_bind_def)
next
  case (Inr r)
  obtain c1 b where r: "r = (c1, b)" by (cases r)
  let ?P = "\<lambda>c'. V (world c') = V (world c)"
  have sel': "V (world (snd (get_select_timeout os c))) = V (world c)" for c
    by (simp add: get_select_timeout_def Let_def case_prod_beta split: option.split)
  have io1: "?P c2 \<Longrightarrow> both ?P (loop_read_ctl os c2)" "?P c2 \<Longrightarrow> both ?P (loop_write os past fd c2)" for c2
    by (simp_all add: loop_read_ctl_def loop_write_def Let_def case_prod_beta)
  have io2: "?P c2 \<Longrightarrow> both ?P (loop_read os fd c2)" for c2
    by (simp add: loop_read_def Let_def case_prod_beta loop_parse_view)
  have io: "both ?P (sum_bind (if a then loop_read_ctl os c2 else Inr c2) (\<lambda>c2.
      sum_bind (if b then loop_read os fd c2 else Inr c2) (\<lambda>c2.
      if p_buf_total c2 \<noteq> 0 \<and> d then loop_write os past fd c2 else Inr c2)))" if "?P c2" for a b c2 d
    using that by (intro both_bind) (simp_all add: io1 io2)
  have "?P c1" using loop_fetch_view [of c] Inr r by simp
  then show ?thesis
    using Inr r io by (simp add: loop_step_def sum_bind_def [of "Inr _"] Let_def case_prod_beta sel')
qed

end

subsection \<open>Open descriptors\<close>

text \<open>\<open>opens\<close> are the open descriptors of an outside state: \<open>socket\<close> adds a new one or fails, \<open>close\<close> takes
  one away, and nothing else the client calls changes them.\<close>

definition sockets_ok :: "'w blynk_os \<Rightarrow> ('w \<Rightarrow> int set) \<Rightarrow> bool" where
  "sockets_ok os opens \<longleftrightarrow>
    (\<forall>k w fd w'. os_socket os k w = (fd, w') \<longrightarrow>
       (if fd < 0 then opens w' = opens w else fd \<notin> opens w \<and> opens w' = insert fd (opens w))) \<and>
    (\<forall>fd w. opens (os_close os fd w) = opens w - {fd}) \<and>
    (\<forall>fd w. opens (snd (os_bind os fd w)) = opens w) \<and>
    (\<forall>fd w. opens (snd (snd (os_getsockname os fd w))) = opens w) \<and>
    (\<forall>fd a w. opens (snd (os_connect os fd a w)) = opens w) \<and>
    world_view os opens"

lemma sockets_okD:
  assumes "sockets_ok os opens"
  shows "fst (os_socket os k w) < 0 \<Longrightarrow> opens (snd (os_socket os k w)) = opens w"
    "\<not> fst (os_socket os k w) < 0 \<Longrightarrow> fst (os_socket os k w) \<notin> opens w"
    "\<not> fst (os_socket os k w) < 0 \<Longrightarrow> opens (snd (os_socket os k w)) = insert (fst (os_socket os k w)) (opens w)"
    "opens (os_close os fd w) = opens w - {fd}"
    "opens (snd (os_bind os fd w)) = opens w" "opens (snd (snd (os_getsockname os fd w))) = opens w"
    "opens (snd (os_connect os fd a w)) = opens w"
  using assms unfolding sockets_ok_def by (metis prod.collapse, metis prod.collapse, metis prod.collapse, blast+)

text \<open>The view of the descriptors, for every outside code that obeys these laws.\<close>

definition open_fds :: "'w blynk_os \<Rightarrow> ('w \<Rightarrow> int set) \<Rightarrow> 'w \<Rightarrow> int set" where
  "open_fds os opens w = (if sockets_ok os opens then opens w else {})"

interpretation fd_view: world_view os "open_fds os opens" for os :: "'w blynk_os" and opens
proof (cases "sockets_ok os opens")
  case True
  then have "open_fds os opens = opens" by (simp add: open_fds_def fun_eq_iff)
  moreover have "world_view os opens" using True by (simp add: sockets_ok_def)
  ultimately show "world_view os (open_fds os opens)" by simp
next
  case False
  then show "world_view os (open_fds os opens)" by unfold_locales (simp_all add: open_fds_def)
qed

text \<open>\<open>blynk_socketpair\<close> leaks no descriptor: when it fails, on whichever of its seven error paths, every
  socket it opened is closed again; when it succeeds, exactly the two new sockets it returns are open.\<close>

lemma socketpair_no_leak:
  assumes "sockets_ok os opens"
  shows "case blynk_socketpair os w of
      (None, w') \<Rightarrow> opens w' = opens w
    | (Some (fd0, fd1), w') \<Rightarrow> fd0 \<noteq> fd1 \<and> fd0 \<notin> opens w \<and> fd1 \<notin> opens w \<and>
        opens w' = {fd0, fd1} \<union> opens w"
proof -
  note D = sockets_okD [OF assms]
  define fd0 w1 where "fd0 = fst (os_socket os Sock_dgram w)" and "w1 = snd (os_socket os Sock_dgram w)"
  define w2 where "w2 = snd (os_bind os fd0 w1)"
  define addr0 w3 where "addr0 = fst (snd (os_getsockname os fd0 w2))" and "w3 = snd (snd (os_getsockname os fd0 w2))"
  define fd1 w4 where "fd1 = fst (os_socket os Sock_dgram w3)" and "w4 = snd (os_socket os Sock_dgram w3)"
  define w5 where "w5 = snd (os_connect os fd1 addr0 w4)"
  define addr1 w6 where "addr1 = fst (snd (os_getsockname os fd1 w5))" and "w6 = snd (snd (os_getsockname os fd1 w5))"
  define w7 where "w7 = snd (os_connect os fd0 addr1 w6)"
  note defs = fd0_def w1_def w2_def addr0_def w3_def fd1_def w4_def w5_def addr1_def w6_def w7_def
  have same: "opens w2 = opens w1" "opens w3 = opens w2" "opens w5 = opens w4" "opens w6 = opens w5" "opens w7 = opens w6"
    by (simp_all only: w2_def w3_def w5_def w6_def w7_def D)
  have first: "fd0 < 0 \<Longrightarrow> opens w1 = opens w" "\<not> fd0 < 0 \<Longrightarrow> fd0 \<notin> opens w \<and> opens w1 = insert fd0 (opens w)"
    unfolding fd0_def w1_def using D(1-3) by blast+
  have second: "fd1 < 0 \<Longrightarrow> opens w4 = opens w3" "\<not> fd1 < 0 \<Longrightarrow> fd1 \<notin> opens w3 \<and> opens w4 = insert fd1 (opens w3)"
    unfolding fd1_def w4_def using D(1-3) by blast+
  have run: "blynk_socketpair os w =
    (if fd0 < 0 then (None, w1)
     else if fst (os_bind os fd0 w1) < 0 then (None, os_close os fd0 w2)
     else if fst (os_getsockname os fd0 w2) < 0 then (None, os_close os fd0 w3)
     else if fd1 < 0 then (None, os_close os fd0 w4)
     else if fst (os_connect os fd1 addr0 w4) < 0 then (None, os_close os fd0 (os_close os fd1 w5))
     else if fst (os_getsockname os fd1 w5) < 0 then (None, os_close os fd0 (os_close os fd1 w6))
     else if fst (os_connect os fd0 addr1 w6) < 0 then (None, os_close os fd0 (os_close os fd1 w7))
     else (Some (fd0, fd1), w7))"
    by (simp add: blynk_socketpair_def Let_def case_prod_beta defs)
  show ?thesis
    unfolding run using first second same by (auto simp: D(4))
qed

lemma connect_first_opens:
  assumes "sockets_ok os opens"
  shows "if fst (connect_first os rs w) < 0 then opens (snd (connect_first os rs w)) = opens w
    else fst (connect_first os rs w) \<notin> opens w \<and>
      opens (snd (connect_first os rs w)) = insert (fst (connect_first os rs w)) (opens w)"
proof (induction rs arbitrary: w)
  case (Cons r rs)
  note D = sockets_okD [OF assms]
  show ?case
  proof (cases "fst (os_socket os (Sock_stream r) w) < 0")
    case True
    then show ?thesis
      using Cons.IH [of "snd (os_socket os (Sock_stream r) w)"] D(1) [OF True]
      by (simp add: case_prod_beta split: if_splits)
  next
    case False
    let ?fd = "fst (os_socket os (Sock_stream r) w)"
    let ?w = "snd (os_connect os ?fd r (snd (os_socket os (Sock_stream r) w)))"
    have "opens (os_close os ?fd ?w) = opens w" using D(2,3) [OF False] by (simp add: D(4,7))
    then show ?thesis
      using False Cons.IH [of "os_close os ?fd ?w"] D(2,3) [OF False]
      by (simp add: case_prod_beta D(7) split: if_splits)
  qed
qed simp

lemma setup_opens:
  assumes "sockets_ok os opens"
  shows "blynk_setup os c = Setup_return c' \<Longrightarrow> opens (world c') = opens (world c)"
    "blynk_setup os c = Setup_fail c' \<Longrightarrow> opens (world c') = opens (world c)"
    "blynk_setup os c = Setup_run fd c' \<Longrightarrow> fd \<notin> opens (world c) \<and> opens (world c') = insert fd (opens (world c))"
proof -
  have eq: "open_fds os opens = opens" using assms by (simp add: open_fds_def fun_eq_iff)
  note V = fd_view.disconnect_view [of os opens, unfolded eq] fd_view.send_view [of os opens, unfolded eq]
    fd_view.advance_ping_view [of os opens, unfolded eq] fd_view.queue(3) [of os opens, unfolded eq]
    fd_view.nonblock [of os opens, unfolded eq] fd_view.resolve [of os opens, unfolded eq]
  have reset: "opens (world (reset_client os c)) = opens (world c)" for c
    by (simp add: reset_client_def V)
  have conn: "fst (connect_first os rs w) < 0 \<Longrightarrow> opens (snd (connect_first os rs w)) = opens w"
    "\<not> fst (connect_first os rs w) < 0 \<Longrightarrow> fst (connect_first os rs w) \<notin> opens w"
    "\<not> fst (connect_first os rs w) < 0 \<Longrightarrow>
       opens (snd (connect_first os rs w)) = insert (fst (connect_first os rs w)) (opens w)" for rs w
    using connect_first_opens [OF assms, of rs w] by simp_all
  have notin: "opens w' = opens w \<Longrightarrow> \<not> fst (connect_first os rs w') < 0 \<Longrightarrow>
       fst (connect_first os rs w') \<notin> opens w" for rs w w'
    using conn(2) by metis
  show "blynk_setup os c = Setup_return c' \<Longrightarrow> opens (world c') = opens (world c)"
    by (auto simp: blynk_setup_def Let_def case_prod_beta split: option.splits if_splits)
  show "blynk_setup os c = Setup_fail c' \<Longrightarrow> opens (world c') = opens (world c)"
    using notin by (auto simp: blynk_setup_def Let_def case_prod_beta V reset conn(1,3) sockets_okD(4) [OF assms]
        split: option.splits if_splits)
  show "blynk_setup os c = Setup_run fd c' \<Longrightarrow> fd \<notin> opens (world c) \<and> opens (world c') = insert fd (opens (world c))"
    using notin by (auto simp: blynk_setup_def Let_def case_prod_beta V reset conn(3) split: option.splits if_splits)
qed

text \<open>C6: A client that loses its connection and reconnects any number of times leaks no socket: in every
  state the task reaches, the open descriptors are those it started with, plus exactly the connection
  socket while it is in the read loop.\<close>

theorem reconnecting_task_no_leak:
  assumes "sockets_ok os opens" "(task_step os past)\<^sup>*\<^sup>* (Task_connecting c0) s"
  shows "case s of
      Task_connecting c \<Rightarrow> opens (world c) = opens (world c0)
    | Task_running fd c \<Rightarrow> fd \<notin> opens (world c0) \<and> opens (world c) = insert fd (opens (world c0))
    | Task_deleted c \<Rightarrow> opens (world c) = opens (world c0)"
  using assms(2)
proof (induction rule: rtranclp_induct)
  case base
  then show ?case by simp
next
  case (step s s')
  have eq: "open_fds os opens = opens" using assms(1) by (simp add: open_fds_def fun_eq_iff)
  note view = fd_view.loop_step_view [of os opens, unfolded eq] fd_view.delay [of os opens, unfolded eq]
  from step.hyps(2) step.IH show ?case
  proof cases
    case (enter c fd c')
    then show ?thesis using setup_opens(3) [OF assms(1) enter(3)] step.IH by simp
  next
    case (stay fd c c')
    then show ?thesis using view(1) [of c past fd] step.IH by simp
  next
    case (leave fd c c')
    then show ?thesis
      using view(1) [of c past fd] step.IH sockets_okD(4) [OF assms(1)]
      by (auto simp: view(2) reconnect_pause_def)
  qed (use setup_opens [OF assms(1)] step.IH in \<open>auto simp: view(2) reconnect_pause_def\<close>)
qed

lemma env_sockets_ok: "sockets_ok env_os (\<lambda>w. set (w_open w))"
proof -
  have "x \<le> foldr max xs b" if "x \<in> set xs" for x b and xs :: "int list"
    using that by (induction xs) auto
  then have "foldr max xs b + 1 \<notin> set xs" for b and xs :: "int list" by (meson not_less zle_add1_eq_le less_irrefl)
  moreover have "b \<le> foldr max xs b" for b and xs :: "int list" by (induction xs) auto
  then have "\<not> foldr max xs 2 + 1 < 0" for xs :: "int list" by (smt (verit))
  moreover have "world_view env_os (\<lambda>w. set (w_open w))"
    by unfold_locales (simp_all add: env_simps split: list.split)
  ultimately show ?thesis
    by (simp add: sockets_ok_def) (auto simp: env_simps Let_def)
qed

theorem reconnecting_task_no_leak_witness:
  "case blynk_setup env_os ((zero_client env0)\<lparr>st_opt := zero_options\<lparr>opt_server := cstr ''a:80'' @ replicate 251 0\<rparr>\<rparr>) of
     Setup_run fd c' \<Rightarrow> set (w_open (world c')) = insert fd (set (w_open env0))
   | _ \<Rightarrow> False"
proof -
  let ?c = "(zero_client env0)\<lparr>st_opt := zero_options\<lparr>opt_server := cstr ''a:80'' @ replicate 251 0\<rparr>\<rparr>"
  have "case blynk_setup env_os ?c of Setup_run fd c' \<Rightarrow> True | _ \<Rightarrow> False" by code_simp
  then obtain fd c' where r: "blynk_setup env_os ?c = Setup_run fd c'" by (auto split: setup_result.splits)
  have "(task_step env_os 0)\<^sup>*\<^sup>* (Task_connecting ?c) (Task_running fd c')"
    using task_step.enter [OF r] by (rule r_into_rtranclp)
  from reconnecting_task_no_leak [OF env_sockets_ok this] r show ?thesis by (simp add: zero_client_def)
qed

end
