(* ===== verification/Mqtt_Msg.thy ===== *)
theory Mqtt_Msg
  imports Prelude
begin

text \<open>
  MQTT messages (\<^verbatim>\<open>common/mqtt/esp-mqtt/lib/mqtt_msg.c\<close>, \<^verbatim>\<open>mqtt_msg.h\<close>): building outgoing messages in a
  fixed buffer and taking incoming ones apart.  Pointers into a buffer are offsets; lengths of objects in
  memory are naturals, and the fields whose wrap-around matters are words.  A function that returns a
  message returns the connection, whose fields \<open>mm_off\<close> and \<open>mm_length\<close> say where in the buffer it is.
\<close>

subsection \<open>Data\<close>

abbreviation MQTT_MAX_FIXED_HEADER_SIZE :: nat where "MQTT_MAX_FIXED_HEADER_SIZE \<equiv> 5"
abbreviation MQTT_3_1_VARIABLE_HEADER_SIZE :: nat where "MQTT_3_1_VARIABLE_HEADER_SIZE \<equiv> 12"
abbreviation MQTT_3_1_1_VARIABLE_HEADER_SIZE :: nat where "MQTT_3_1_1_VARIABLE_HEADER_SIZE \<equiv> 10"

abbreviation MQTT_CONNECT_FLAG_USERNAME :: u8 where "MQTT_CONNECT_FLAG_USERNAME \<equiv> 128"
abbreviation MQTT_CONNECT_FLAG_PASSWORD :: u8 where "MQTT_CONNECT_FLAG_PASSWORD \<equiv> 64"
abbreviation MQTT_CONNECT_FLAG_WILL_RETAIN :: u8 where "MQTT_CONNECT_FLAG_WILL_RETAIN \<equiv> 32"
abbreviation MQTT_CONNECT_FLAG_WILL :: u8 where "MQTT_CONNECT_FLAG_WILL \<equiv> 4"
abbreviation MQTT_CONNECT_FLAG_CLEAN_SESSION :: u8 where "MQTT_CONNECT_FLAG_CLEAN_SESSION \<equiv> 2"

abbreviation MQTT_MSG_TYPE_CONNECT :: nat where "MQTT_MSG_TYPE_CONNECT \<equiv> 1"
abbreviation MQTT_MSG_TYPE_CONNACK :: nat where "MQTT_MSG_TYPE_CONNACK \<equiv> 2"
abbreviation MQTT_MSG_TYPE_PUBLISH :: nat where "MQTT_MSG_TYPE_PUBLISH \<equiv> 3"
abbreviation MQTT_MSG_TYPE_PUBACK :: nat where "MQTT_MSG_TYPE_PUBACK \<equiv> 4"
abbreviation MQTT_MSG_TYPE_PUBREC :: nat where "MQTT_MSG_TYPE_PUBREC \<equiv> 5"
abbreviation MQTT_MSG_TYPE_PUBREL :: nat where "MQTT_MSG_TYPE_PUBREL \<equiv> 6"
abbreviation MQTT_MSG_TYPE_PUBCOMP :: nat where "MQTT_MSG_TYPE_PUBCOMP \<equiv> 7"
abbreviation MQTT_MSG_TYPE_SUBSCRIBE :: nat where "MQTT_MSG_TYPE_SUBSCRIBE \<equiv> 8"
abbreviation MQTT_MSG_TYPE_SUBACK :: nat where "MQTT_MSG_TYPE_SUBACK \<equiv> 9"
abbreviation MQTT_MSG_TYPE_UNSUBSCRIBE :: nat where "MQTT_MSG_TYPE_UNSUBSCRIBE \<equiv> 10"
abbreviation MQTT_MSG_TYPE_UNSUBACK :: nat where "MQTT_MSG_TYPE_UNSUBACK \<equiv> 11"
abbreviation MQTT_MSG_TYPE_PINGREQ :: nat where "MQTT_MSG_TYPE_PINGREQ \<equiv> 12"
abbreviation MQTT_MSG_TYPE_PINGRESP :: nat where "MQTT_MSG_TYPE_PINGRESP \<equiv> 13"
abbreviation MQTT_MSG_TYPE_DISCONNECT :: nat where "MQTT_MSG_TYPE_DISCONNECT \<equiv> 14"

text \<open>\<open>mqtt_connection_t\<close> with its embedded \<open>mqtt_message_t\<close>; \<open>rand_pos\<close> counts the random numbers drawn so
  far.\<close>

record mqtt_connection =
  mm_off :: nat
  mm_length :: nat
  fragmented_msg_total_length :: nat
  fragmented_msg_data_offset :: u32
  last_message_id :: u16
  mc_buffer :: bytes
  mc_buffer_length :: nat
  rand_pos :: nat

record mqtt_connect_info =
  client_id :: "bytes option"
  username :: "bytes option"
  password :: "bytes option"
  will_topic :: "bytes option"
  will_message :: bytes
  keepalive :: int
  will_length :: nat
  will_qos :: int
  will_retain :: bool
  clean_session :: bool
  protocol_v31 :: bool

text \<open>The build configuration \<open>MQTT_MSG_ID_INCREMENTAL\<close> and the hardware random number generator: its
  \<open>k\<close>-th result.\<close>

record mqtt_env =
  MQTT_MSG_ID_INCREMENTAL :: bool
  esp_random :: "nat \<Rightarrow> u32"

definition platform_random :: "mqtt_env \<Rightarrow> nat \<Rightarrow> nat \<Rightarrow> nat" where
  "platform_random env k mx = unat (esp_random env k) mod mx"

subsection \<open>Building messages\<close>

definition append_string :: "bytes \<Rightarrow> mqtt_connection \<Rightarrow> mqtt_connection option" where
  "append_string str c =
    (let len = length str in
     if mm_length c + len + 2 > mc_buffer_length c then None
     else Some (c\<lparr>mm_length := mm_length c + len + 2,
       mc_buffer := mem_write (mm_length c) ([of_nat (len div 256), of_nat len] @ str) (mc_buffer c)\<rparr>))"

text \<open>The loop \<open>while (message_id == 0)\<close>.  Drawing random numbers need not end.\<close>

partial_function (option) draw_id :: "mqtt_env \<Rightarrow> nat \<Rightarrow> (u16 \<times> nat) option" where
  [code]: "draw_id env k =
    (let m = of_nat (platform_random env k 65535) in
     if m = 0 then draw_id env (k + 1) else Some (m, k + 1))"

definition next_message_id :: "mqtt_env \<Rightarrow> mqtt_connection \<Rightarrow> (u16 \<times> mqtt_connection) option" where
  "next_message_id env c =
    (if MQTT_MSG_ID_INCREMENTAL env
     then let m = (if last_message_id c + 1 = 0 then 1 else last_message_id c + 1)
          in Some (m, c\<lparr>last_message_id := m\<rparr>)
     else case draw_id env (rand_pos c) of
       None \<Rightarrow> None
     | Some (m, k) \<Rightarrow> Some (m, c\<lparr>rand_pos := k\<rparr>))"

text \<open>\<open>append_message_id\<close>: \<open>None\<close> when the loop does not end, the identifier 0 when it does not fit.\<close>

definition append_message_id :: "mqtt_env \<Rightarrow> u16 \<Rightarrow> mqtt_connection \<Rightarrow> (u16 \<times> mqtt_connection) option" where
  "append_message_id env message_id c =
    (case (if message_id = 0 then next_message_id env c else Some (message_id, c)) of
       None \<Rightarrow> None
     | Some (m, c) \<Rightarrow>
         Some (if mm_length c + 2 > mc_buffer_length c then (0, c)
               else (m, c\<lparr>mm_length := mm_length c + 2,
                          mc_buffer := mem_write (mm_length c) [hi8 m, lo8 m] (mc_buffer c)\<rparr>)))"

definition init_message :: "mqtt_connection \<Rightarrow> mqtt_connection" where
  "init_message c = c\<lparr>mm_length := MQTT_MAX_FIXED_HEADER_SIZE\<rparr>"

definition fail_message :: "mqtt_connection \<Rightarrow> mqtt_connection" where
  "fail_message c = c\<lparr>mm_off := 0, mm_length := 0\<rparr>"

text \<open>The bytes of the remaining length, as the loop of \<open>fini_message\<close> leaves them in \<open>encoded_lens\<close>.\<close>

fun encode_len :: "nat \<Rightarrow> bytes" where
  "encode_len n =
    (if n div 128 = 0 then [of_nat (n mod 128)] else of_nat (n mod 128 + 128) # encode_len (n div 128))"

declare encode_len.simps [simp del]

definition type_byte :: "nat \<Rightarrow> int \<Rightarrow> int \<Rightarrow> int \<Rightarrow> u8" where
  "type_byte typ dup qos retain =
     push_bit 4 (of_nat typ AND 0x0f) OR push_bit 3 (word_of_int dup AND 1) OR
     push_bit 1 (word_of_int qos AND 3) OR (word_of_int retain AND 1)"

definition fini_message :: "nat \<Rightarrow> int \<Rightarrow> int \<Rightarrow> int \<Rightarrow> mqtt_connection \<Rightarrow> mqtt_connection" where
  "fini_message typ dup qos retain c =
    (let message_length = mm_length c - MQTT_MAX_FIXED_HEADER_SIZE;
         total_length = (if fragmented_msg_total_length c \<noteq> 0
                         then fragmented_msg_total_length c - MQTT_MAX_FIXED_HEADER_SIZE else message_length);
         encoded_lens = encode_len total_length;
         len_bytes = length encoded_lens in
     if len_bytes + 1 > MQTT_MAX_FIXED_HEADER_SIZE then fail_message c
     else let offs = MQTT_MAX_FIXED_HEADER_SIZE - 1 - len_bytes in
       c\<lparr>mm_length := message_length + len_bytes + 1, mm_off := offs,
         fragmented_msg_data_offset := fragmented_msg_data_offset c - of_nat offs,
         mc_buffer := mem_write offs (type_byte typ dup qos retain # encoded_lens) (mc_buffer c)\<rparr>)"

text \<open>The message a builder returns, as bytes; a failed message is empty.\<close>

definition message_bytes :: "mqtt_connection \<Rightarrow> bytes" where
  "message_bytes c = take (mm_length c) (drop (mm_off c) (mc_buffer c))"

definition mqtt_msg_init :: "bytes \<Rightarrow> nat \<Rightarrow> mqtt_connection" where
  "mqtt_msg_init buffer buffer_length = \<lparr>mm_off = 0, mm_length = 0, fragmented_msg_total_length = 0,
     fragmented_msg_data_offset = 0, last_message_id = 0, mc_buffer = buffer,
     mc_buffer_length = buffer_length, rand_pos = 0\<rparr>"

text \<open>\<open>variable_header [flags_offset] |= bits\<close>\<close>

definition or_flag :: "nat \<Rightarrow> u8 \<Rightarrow> mqtt_connection \<Rightarrow> mqtt_connection" where
  "or_flag pos bits c = c\<lparr>mc_buffer := poke pos (byte_at (mc_buffer c) pos OR bits) (mc_buffer c)\<rparr>"

definition variable_header :: "mqtt_connect_info \<Rightarrow> bytes" where
  "variable_header info =
    (if protocol_v31 info then [0, 6] @ cstr ''MQIsdp'' @ [3] else [0, 4] @ cstr ''MQTT'' @ [4]) @
    [0, word_of_int (keepalive info div 256), word_of_int (keepalive info)]"

text \<open>An optional string that is null or empty is left out.\<close>

definition given :: "bytes option \<Rightarrow> bytes option" where
  "given s = (case s of None \<Rightarrow> None | Some b \<Rightarrow> if byte_at b 0 = 0 then None else Some (c_str b))"

definition append_will ::
  "nat \<Rightarrow> mqtt_connect_info \<Rightarrow> mqtt_connection \<Rightarrow> mqtt_connection + mqtt_connection" where
  "append_will flags_offset info c = (case given (will_topic info) of
      None \<Rightarrow> Inr c
    | Some topic \<Rightarrow>
       (case append_string topic c of None \<Rightarrow> Inl c | Some c \<Rightarrow>
       (case append_string (take (will_length info) (will_message info)) c of None \<Rightarrow> Inl c | Some c \<Rightarrow>
          let c = or_flag flags_offset MQTT_CONNECT_FLAG_WILL c;
              c = (if will_retain info then or_flag flags_offset MQTT_CONNECT_FLAG_WILL_RETAIN c else c)
          in Inr (or_flag flags_offset (push_bit 3 (word_of_int (will_qos info) AND 3)) c))))"

definition append_opt :: "nat \<Rightarrow> u8 \<Rightarrow> bytes option \<Rightarrow> mqtt_connection \<Rightarrow> mqtt_connection option" where
  "append_opt flags_offset bits s c = (case given s of
      None \<Rightarrow> Some c
    | Some str \<Rightarrow> (case append_string str c of None \<Rightarrow> None | Some c \<Rightarrow> Some (or_flag flags_offset bits c)))"

definition mqtt_msg_connect :: "mqtt_connect_info \<Rightarrow> mqtt_connection \<Rightarrow> mqtt_connection" where
  "mqtt_msg_connect info c0 =
    (let c = init_message c0;
         header_len = (if protocol_v31 info then MQTT_3_1_VARIABLE_HEADER_SIZE else MQTT_3_1_1_VARIABLE_HEADER_SIZE) in
     if mm_length c + header_len > mc_buffer_length c then fail_message c
     else
       let vh = mm_length c;
           flags_offset = vh + header_len - 3;
           c = c\<lparr>mm_length := mm_length c + header_len, mc_buffer := mem_write vh (variable_header info) (mc_buffer c)\<rparr>;
           c = (if clean_session info then or_flag flags_offset MQTT_CONNECT_FLAG_CLEAN_SESSION c else c) in
       case given (client_id info) of
         None \<Rightarrow> fail_message c
       | Some cid \<Rightarrow>
          (case append_string cid c of None \<Rightarrow> fail_message c | Some c \<Rightarrow>
          (case append_will flags_offset info c of Inl c \<Rightarrow> fail_message c | Inr c \<Rightarrow>
          (case append_opt flags_offset MQTT_CONNECT_FLAG_USERNAME (username info) c of None \<Rightarrow> fail_message c | Some c \<Rightarrow>
          (case append_opt flags_offset MQTT_CONNECT_FLAG_PASSWORD (password info) c of None \<Rightarrow> fail_message c | Some c \<Rightarrow>
             fini_message MQTT_MSG_TYPE_CONNECT 0 0 0 c)))))"

text \<open>\<open>mqtt_msg_publish\<close>: the message, or \<open>None\<close> when drawing an identifier does not end.  \<open>data\<close> is the block of
  \<open>data_length\<close> bytes, or the null pointer.  The first component is the value left in \<open>*message_id\<close>.\<close>

definition place_data :: "bytes option \<Rightarrow> nat \<Rightarrow> mqtt_connection \<Rightarrow> mqtt_connection" where
  "place_data data data_length c =
    (if mm_length c + data_length > mc_buffer_length c
     then c\<lparr>fragmented_msg_data_offset := of_nat (mm_length c),
            mc_buffer := mem_write (mm_length c)
              (take (mc_buffer_length c - mm_length c) (the data)) (mc_buffer c),
            fragmented_msg_total_length := data_length + mm_length c,
            mm_length := mc_buffer_length c\<rparr>
     else (case data of
         Some d \<Rightarrow> c\<lparr>mc_buffer := mem_write (mm_length c) (take data_length d) (mc_buffer c),
                     mm_length := mm_length c + data_length, fragmented_msg_total_length := 0\<rparr>
       | None \<Rightarrow> c\<lparr>fragmented_msg_total_length := 0\<rparr>))"

definition mqtt_msg_publish ::
  "mqtt_env \<Rightarrow> bytes option \<Rightarrow> bytes option \<Rightarrow> nat \<Rightarrow> int \<Rightarrow> int \<Rightarrow> u16 \<Rightarrow> mqtt_connection \<Rightarrow>
   (u16 \<times> mqtt_connection) option" where
  "mqtt_msg_publish env topic data data_length qos retain mid c0 =
    (let c = init_message c0 in
     case given topic of
       None \<Rightarrow> Some (mid, fail_message c)
     | Some t \<Rightarrow>
        (case append_string t c of
           None \<Rightarrow> Some (mid, fail_message c)
         | Some c \<Rightarrow>
             if data = None \<and> data_length > 0 then Some (mid, fail_message c)
             else
               (case (if qos > 0 then append_message_id env 0 c else Some (0, c)) of
                  None \<Rightarrow> None
                | Some (m, c) \<Rightarrow>
                    if qos > 0 \<and> m = 0 then Some (0, fail_message c)
                    else Some (m, fini_message MQTT_MSG_TYPE_PUBLISH 0 qos retain (place_data data data_length c)))))"

text \<open>\<open>mqtt_msg_puback\<close>, \<open>pubrec\<close>, \<open>pubrel\<close> and \<open>pubcomp\<close> differ in type and flags only.\<close>

definition ack_message :: "mqtt_env \<Rightarrow> nat \<Rightarrow> int \<Rightarrow> u16 \<Rightarrow> mqtt_connection \<Rightarrow> mqtt_connection option" where
  "ack_message env typ qos message_id c =
    (case append_message_id env message_id (init_message c) of
       None \<Rightarrow> None
     | Some (m, c) \<Rightarrow> Some (if m = 0 then fail_message c else fini_message typ 0 qos 0 c))"

definition mqtt_msg_puback :: "mqtt_env \<Rightarrow> u16 \<Rightarrow> mqtt_connection \<Rightarrow> mqtt_connection option" where
  "mqtt_msg_puback env message_id c = ack_message env MQTT_MSG_TYPE_PUBACK 0 message_id c"

definition mqtt_msg_pubrec :: "mqtt_env \<Rightarrow> u16 \<Rightarrow> mqtt_connection \<Rightarrow> mqtt_connection option" where
  "mqtt_msg_pubrec env message_id c = ack_message env MQTT_MSG_TYPE_PUBREC 0 message_id c"

definition mqtt_msg_pubrel :: "mqtt_env \<Rightarrow> u16 \<Rightarrow> mqtt_connection \<Rightarrow> mqtt_connection option" where
  "mqtt_msg_pubrel env message_id c = ack_message env MQTT_MSG_TYPE_PUBREL 1 message_id c"

definition mqtt_msg_pubcomp :: "mqtt_env \<Rightarrow> u16 \<Rightarrow> mqtt_connection \<Rightarrow> mqtt_connection option" where
  "mqtt_msg_pubcomp env message_id c = ack_message env MQTT_MSG_TYPE_PUBCOMP 0 message_id c"

definition mqtt_msg_subscribe ::
  "mqtt_env \<Rightarrow> bytes option \<Rightarrow> int \<Rightarrow> u16 \<Rightarrow> mqtt_connection \<Rightarrow> (u16 \<times> mqtt_connection) option" where
  "mqtt_msg_subscribe env topic qos mid c0 =
    (let c = init_message c0 in
     case given topic of
       None \<Rightarrow> Some (mid, fail_message c)
     | Some t \<Rightarrow>
        (case append_message_id env 0 c of
           None \<Rightarrow> None
         | Some (m, c) \<Rightarrow>
             if m = 0 then Some (0, fail_message c)
             else case append_string t c of
               None \<Rightarrow> Some (m, fail_message c)
             | Some c \<Rightarrow>
                 if mm_length c + 1 > mc_buffer_length c then Some (m, fail_message c)
                 else Some (m, fini_message MQTT_MSG_TYPE_SUBSCRIBE 0 1 0
                        (c\<lparr>mc_buffer := poke (mm_length c) (word_of_int qos) (mc_buffer c),
                           mm_length := mm_length c + 1\<rparr>))))"

definition mqtt_msg_unsubscribe ::
  "mqtt_env \<Rightarrow> bytes option \<Rightarrow> u16 \<Rightarrow> mqtt_connection \<Rightarrow> (u16 \<times> mqtt_connection) option" where
  "mqtt_msg_unsubscribe env topic mid c0 =
    (let c = init_message c0 in
     case given topic of
       None \<Rightarrow> Some (mid, fail_message c)
     | Some t \<Rightarrow>
        (case append_message_id env 0 c of
           None \<Rightarrow> None
         | Some (m, c) \<Rightarrow>
             if m = 0 then Some (0, fail_message c)
             else case append_string t c of
               None \<Rightarrow> Some (m, fail_message c)
             | Some c \<Rightarrow> Some (m, fini_message MQTT_MSG_TYPE_UNSUBSCRIBE 0 1 0 c)))"

definition mqtt_msg_pingreq :: "mqtt_connection \<Rightarrow> mqtt_connection" where
  "mqtt_msg_pingreq c = fini_message MQTT_MSG_TYPE_PINGREQ 0 0 0 (init_message c)"

definition mqtt_msg_pingresp :: "mqtt_connection \<Rightarrow> mqtt_connection" where
  "mqtt_msg_pingresp c = fini_message MQTT_MSG_TYPE_PINGRESP 0 0 0 (init_message c)"

definition mqtt_msg_disconnect :: "mqtt_connection \<Rightarrow> mqtt_connection" where
  "mqtt_msg_disconnect c = fini_message MQTT_MSG_TYPE_DISCONNECT 0 0 0 (init_message c)"

subsection \<open>Taking messages apart\<close>

definition mqtt_get_type :: "bytes \<Rightarrow> nat" where
  "mqtt_get_type b = unat (drop_bit 4 (byte_at b 0 AND 0xf0))"

definition mqtt_get_connect_session_present :: "bytes \<Rightarrow> nat" where
  "mqtt_get_connect_session_present b = unat (byte_at b 2 AND 1)"

definition mqtt_get_connect_return_code :: "bytes \<Rightarrow> nat" where
  "mqtt_get_connect_return_code b = unat (byte_at b 3)"

definition mqtt_get_dup :: "bytes \<Rightarrow> nat" where
  "mqtt_get_dup b = unat (drop_bit 3 (byte_at b 0 AND 0x08))"

definition mqtt_set_dup :: "bytes \<Rightarrow> bytes" where
  "mqtt_set_dup b = b[0 := byte_at b 0 OR 0x08]"

definition mqtt_get_qos :: "bytes \<Rightarrow> nat" where
  "mqtt_get_qos b = unat (drop_bit 1 (byte_at b 0 AND 0x06))"

definition mqtt_get_retain :: "bytes \<Rightarrow> nat" where
  "mqtt_get_retain b = unat (byte_at b 0 AND 1)"

text \<open>The loop over the remaining length: the 32-bit sum and the index behind the last length byte.  (A
  shift by 32 or more, from the sixth continuation byte on, is undefined in C and adds 0 here.)\<close>

function scan_len :: "bytes \<Rightarrow> nat \<Rightarrow> nat \<Rightarrow> u32 \<Rightarrow> u32 \<times> nat" where
  "scan_len b n i tot =
    (if i < n then
       let tot' = tot + push_bit (7 * (i - 1)) (ucast (byte_at b i AND 0x7f)) in
       if byte_at b i AND 0x80 = 0 then (tot', i + 1) else scan_len b n (i + 1) tot'
     else (tot, i))"
  by pat_completeness auto
termination by (relation "measure (\<lambda>(b, n, i, tot). n - i)") auto

declare scan_len.simps [simp del]

definition mqtt_get_total_length :: "bytes \<Rightarrow> nat \<Rightarrow> u32 \<times> nat" where
  "mqtt_get_total_length b n = (case scan_len b n 1 0 of (tot, i) \<Rightarrow> (tot + of_nat i, i))"

text \<open>The big-endian length at \<open>i\<close>.\<close>

definition be16 :: "bytes \<Rightarrow> nat \<Rightarrow> nat" where
  "be16 b i = 256 * unat (byte_at b i) + unat (byte_at b (i + 1))"

text \<open>\<open>mqtt_header_complete\<close> counts in a 16-bit variable.\<close>

fun fixed_header_end :: "nat \<Rightarrow> bytes \<Rightarrow> nat \<Rightarrow> nat \<Rightarrow> nat option" where
  "fixed_header_end 0 b n i = Some i"
| "fixed_header_end (Suc k) b n i =
    (if i \<ge> n then None
     else if byte_at b i AND 0x80 = 0 then Some (i + 1)
     else fixed_header_end k b n (i + 1))"

definition mqtt_header_complete :: "bytes \<Rightarrow> nat \<Rightarrow> bool" where
  "mqtt_header_complete b n =
    (case fixed_header_end (MQTT_MAX_FIXED_HEADER_SIZE - 1) b n 1 of
       None \<Rightarrow> False
     | Some i \<Rightarrow>
         if i + 2 \<ge> n then False
         else let j = of_nat (i + 2) + of_nat (be16 b i) :: u16;
                  j = (if mqtt_get_qos b > 0 then j + 2 else j)
              in n \<ge> unat j)"

text \<open>The pointer and length \<open>mqtt_get_publish_topic\<close> and \<open>mqtt_get_publish_data\<close> return.\<close>

definition mqtt_get_publish_topic :: "bytes \<Rightarrow> nat \<Rightarrow> (nat \<times> nat) option" where
  "mqtt_get_publish_topic b n =
    (case scan_len b n 1 0 of (tot, i) \<Rightarrow>
       if i + 2 \<ge> n then None
       else let topiclen = be16 b i in
         if i + 2 + topiclen > n then None else Some (i + 2, topiclen))"

definition mqtt_get_publish_data :: "bytes \<Rightarrow> nat \<Rightarrow> (nat \<times> nat) option" where
  "mqtt_get_publish_data b n =
    (case scan_len b n 1 0 of (tot, i) \<Rightarrow>
       let totlen = sint (tot + of_nat i) in
       if i + 2 \<ge> n then None
       else let topiclen = be16 b i; i = i + 2 in
       if i + topiclen \<ge> n then None
       else let i = i + topiclen in
       if mqtt_get_qos b > 0 \<and> i + 2 \<ge> n then None
       else let i = (if mqtt_get_qos b > 0 then i + 2 else i) in
       if totlen < int i then None
       else Some (i, if totlen \<le> int n then nat totlen - i else n - i))"

definition mqtt_get_id :: "bytes \<Rightarrow> nat \<Rightarrow> nat" where
  "mqtt_get_id b n =
    (if n < 1 then 0
     else if mqtt_get_type b = MQTT_MSG_TYPE_PUBLISH then
       (case scan_len b n 1 0 of (_, i) \<Rightarrow>
          if i + 2 \<ge> n then 0
          else let topiclen = be16 b i; i = i + 2 in
            if i + topiclen > n then 0
            else let i = i + topiclen in
              if mqtt_get_qos b > 0 then if i + 2 > n then 0 else be16 b i else 0)
     else if mqtt_get_type b \<in> {MQTT_MSG_TYPE_PUBACK, MQTT_MSG_TYPE_PUBREC, MQTT_MSG_TYPE_PUBREL,
         MQTT_MSG_TYPE_PUBCOMP, MQTT_MSG_TYPE_SUBACK, MQTT_MSG_TYPE_UNSUBACK, MQTT_MSG_TYPE_SUBSCRIBE,
         MQTT_MSG_TYPE_UNSUBSCRIBE} then
       if n \<ge> 4 \<and> byte_at b 1 AND 0x80 = 0 then be16 b 2 else 0
     else 0)"

definition mqtt_has_valid_msg_hdr :: "bytes \<Rightarrow> nat \<Rightarrow> bool" where
  "mqtt_has_valid_msg_hdr b n =
    (if n < 1 then False
     else if mqtt_get_type b \<in> {MQTT_MSG_TYPE_CONNECT, MQTT_MSG_TYPE_CONNACK, MQTT_MSG_TYPE_PUBACK,
         MQTT_MSG_TYPE_PUBREC, MQTT_MSG_TYPE_PUBCOMP, MQTT_MSG_TYPE_SUBACK, MQTT_MSG_TYPE_UNSUBACK,
         MQTT_MSG_TYPE_PINGREQ, MQTT_MSG_TYPE_PINGRESP, MQTT_MSG_TYPE_DISCONNECT}
     then byte_at b 0 AND 0x0f = 0
     else if mqtt_get_type b \<in> {MQTT_MSG_TYPE_PUBREL, MQTT_MSG_TYPE_SUBSCRIBE, MQTT_MSG_TYPE_UNSUBSCRIBE}
     then byte_at b 0 AND 0x0f = 0x02
     else if mqtt_get_type b = MQTT_MSG_TYPE_PUBLISH
     then mqtt_get_qos b < 3 \<and> (mqtt_get_qos b > 0 \<or> mqtt_get_dup b = 0)
     else False)"

end
