(* ===== verification/Mqtt_Outbox.thy ===== *)
theory Mqtt_Outbox
  imports Prelude
begin

text \<open>
  The outbox of the MQTT client (\<^verbatim>\<open>common/mqtt/esp-mqtt/lib/mqtt_outbox.c\<close>): a tail queue of copies of the
  messages that wait for transmission or acknowledgement.  The queue is the list of its items; an item
  handle is the address of the item.  \<open>ob_live\<close> is the set of heap blocks in use, so that leaks and double
  frees show; what \<open>calloc\<close> and \<open>malloc\<close> return is an argument.
\<close>

subsection \<open>Data\<close>

datatype pending_state = QUEUED | TRANSMITTED | ACKNOWLEDGED | CONFIRMED

record outbox_item =
  i_addr :: nat
  i_buf :: nat
  i_data :: bytes
  i_len :: int
  i_msg_id :: int
  i_msg_type :: int
  i_msg_qos :: int
  i_tick :: int
  i_pending :: pending_state

record outbox_message =
  om_data :: bytes
  om_len :: nat
  om_msg_id :: int
  om_msg_qos :: int
  om_msg_type :: int
  om_remaining_data :: "bytes option"
  om_remaining_len :: nat

record outbox =
  ob_addr :: nat
  ob_items :: "outbox_item list"
  ob_live :: "nat set"

datatype esp_err = ESP_OK | ESP_FAIL

subsection \<open>Operations\<close>

definition outbox_init :: "nat option \<Rightarrow> nat set \<Rightarrow> outbox option \<times> nat set" where
  "outbox_init blk live = (case blk of
      None \<Rightarrow> (None, live)
    | Some a \<Rightarrow> (Some \<lparr>ob_addr = a, ob_items = [], ob_live = insert a live\<rparr>, insert a live))"

text \<open>\<open>blk\<close> is the block for the item, \<open>buf\<close> the block for its buffer with the bytes that are in it.\<close>

definition outbox_enqueue ::
  "nat option \<Rightarrow> (nat \<times> bytes) option \<Rightarrow> outbox_message \<Rightarrow> int \<Rightarrow> outbox \<Rightarrow> nat option \<times> outbox" where
  "outbox_enqueue blk buf msg tick ob = (case blk of
      None \<Rightarrow> (None, ob)
    | Some a \<Rightarrow>
        let ob = ob\<lparr>ob_live := insert a (ob_live ob)\<rparr> in
        (case buf of
           None \<Rightarrow> (None, ob\<lparr>ob_live := ob_live ob - {a}\<rparr>)
         | Some (b, junk) \<Rightarrow>
             let content = mem_write 0 (take (om_len msg) (om_data msg)) junk;
                 content = (case om_remaining_data msg of None \<Rightarrow> content
                   | Some r \<Rightarrow> mem_write (om_len msg) (take (om_remaining_len msg) r) content)
             in (Some a, ob\<lparr>ob_items := ob_items ob @
                   [\<lparr>i_addr = a, i_buf = b, i_data = content, i_len = int (om_len msg + om_remaining_len msg),
                     i_msg_id = om_msg_id msg, i_msg_type = om_msg_type msg, i_msg_qos = om_msg_qos msg,
                     i_tick = tick, i_pending = QUEUED\<rparr>],
                 ob_live := insert b (ob_live ob)\<rparr>)))"

definition outbox_get :: "outbox \<Rightarrow> int \<Rightarrow> outbox_item option" where
  "outbox_get ob msg_id = find (\<lambda>it. i_msg_id it = msg_id) (ob_items ob)"

definition outbox_dequeue :: "outbox \<Rightarrow> pending_state \<Rightarrow> outbox_item option" where
  "outbox_dequeue ob pending = find (\<lambda>it. i_pending it = pending) (ob_items ob)"

text \<open>\<open>STAILQ_REMOVE (outbox, item, ..); free (item->buffer); free (item)\<close>\<close>

definition remove_item :: "outbox_item \<Rightarrow> outbox \<Rightarrow> outbox" where
  "remove_item it ob = ob\<lparr>ob_items := filter (\<lambda>x. i_addr x \<noteq> i_addr it) (ob_items ob),
     ob_live := ob_live ob - {i_buf it} - {i_addr it}\<rparr>"

text \<open>The loops \<open>STAILQ_FOREACH_SAFE\<close> that remove every item with a property, and those that remove the
  first one and return.\<close>

definition remove_first :: "(outbox_item \<Rightarrow> bool) \<Rightarrow> outbox \<Rightarrow> outbox_item option \<times> outbox" where
  "remove_first P ob = (case find P (ob_items ob) of None \<Rightarrow> (None, ob) | Some it \<Rightarrow> (Some it, remove_item it ob))"

definition remove_all :: "(outbox_item \<Rightarrow> bool) \<Rightarrow> outbox \<Rightarrow> outbox" where
  "remove_all P ob = fold (\<lambda>it ob. if P it then remove_item it ob else ob) (ob_items ob) ob"

definition outbox_delete_item :: "outbox \<Rightarrow> nat \<Rightarrow> esp_err \<times> outbox" where
  "outbox_delete_item ob item_to_delete = (case remove_first (\<lambda>it. i_addr it = item_to_delete) ob of
     (None, ob) \<Rightarrow> (ESP_FAIL, ob) | (Some _, ob) \<Rightarrow> (ESP_OK, ob))"

definition outbox_item_get_data :: "outbox_item option \<Rightarrow> (bytes \<times> int \<times> u16 \<times> int \<times> int) option" where
  "outbox_item_get_data item =
     map_option (\<lambda>it. (i_data it, i_len it, word_of_int (i_msg_id it), i_msg_type it, i_msg_qos it)) item"

definition outbox_delete :: "outbox \<Rightarrow> int \<Rightarrow> int \<Rightarrow> esp_err \<times> outbox" where
  "outbox_delete ob msg_id msg_type =
    (case remove_first (\<lambda>it. i_msg_id it = msg_id \<and> i_msg_type it mod 256 = msg_type) ob of
       (None, ob) \<Rightarrow> (ESP_FAIL, ob) | (Some _, ob) \<Rightarrow> (ESP_OK, ob))"

definition outbox_delete_msgid :: "outbox \<Rightarrow> int \<Rightarrow> esp_err \<times> outbox" where
  "outbox_delete_msgid ob msg_id = (ESP_OK, remove_all (\<lambda>it. i_msg_id it = msg_id) ob)"

text \<open>Updating the first item with an identifier, through the pointer \<open>outbox_get\<close> returns.\<close>

definition update_item :: "int \<Rightarrow> (outbox_item \<Rightarrow> outbox_item) \<Rightarrow> outbox \<Rightarrow> esp_err \<times> outbox" where
  "update_item msg_id f ob = (case outbox_get ob msg_id of
      None \<Rightarrow> (ESP_FAIL, ob)
    | Some it \<Rightarrow> (ESP_OK, ob\<lparr>ob_items := map (\<lambda>x. if i_addr x = i_addr it then f x else x) (ob_items ob)\<rparr>))"

definition outbox_set_pending :: "outbox \<Rightarrow> int \<Rightarrow> pending_state \<Rightarrow> esp_err \<times> outbox" where
  "outbox_set_pending ob msg_id pending = update_item msg_id (\<lambda>it. it\<lparr>i_pending := pending\<rparr>) ob"

definition outbox_set_tick :: "outbox \<Rightarrow> int \<Rightarrow> int \<Rightarrow> esp_err \<times> outbox" where
  "outbox_set_tick ob msg_id tick = update_item msg_id (\<lambda>it. it\<lparr>i_tick := tick\<rparr>) ob"

definition outbox_delete_msgtype :: "outbox \<Rightarrow> int \<Rightarrow> esp_err \<times> outbox" where
  "outbox_delete_msgtype ob msg_type = (ESP_OK, remove_all (\<lambda>it. i_msg_type it = msg_type) ob)"

definition expired :: "int \<Rightarrow> int \<Rightarrow> outbox_item \<Rightarrow> bool" where
  "expired current_tick timeout it \<longleftrightarrow> current_tick - i_tick it > timeout"

definition outbox_delete_single_expired :: "outbox \<Rightarrow> int \<Rightarrow> int \<Rightarrow> int \<times> outbox" where
  "outbox_delete_single_expired ob current_tick timeout =
    (case remove_first (expired current_tick timeout) ob of
       (None, ob) \<Rightarrow> (-1, ob) | (Some it, ob) \<Rightarrow> (i_msg_id it, ob))"

definition outbox_delete_expired :: "outbox \<Rightarrow> int \<Rightarrow> int \<Rightarrow> int \<times> outbox" where
  "outbox_delete_expired ob current_tick timeout =
    fold (\<lambda>it (n, ob). if expired current_tick timeout it then (n + 1, remove_item it ob) else (n, ob))
      (ob_items ob) (0, ob)"

definition outbox_get_size :: "outbox \<Rightarrow> int" where
  "outbox_get_size ob = sum_list (map i_len (ob_items ob))"

lemma remove_item_shrinks:
  "it \<in> set (ob_items ob) \<Longrightarrow> length (ob_items (remove_item it ob)) < length (ob_items ob)"
  by (auto simp: remove_item_def intro: length_filter_less)

lemma outbox_dequeue_mem: "outbox_dequeue ob p = Some it \<Longrightarrow> it \<in> set (ob_items ob) \<and> i_pending it = p"
  by (auto simp: outbox_dequeue_def find_Some_iff)

function outbox_cleanup :: "outbox \<Rightarrow> int \<Rightarrow> esp_err \<times> outbox" where
  "outbox_cleanup ob max_size =
    (if outbox_get_size ob > max_size then
       (case outbox_dequeue ob CONFIRMED of
          None \<Rightarrow> (ESP_FAIL, ob)
        | Some it \<Rightarrow> outbox_cleanup (remove_item it ob) max_size)
     else (ESP_OK, ob))"
  by pat_completeness auto
termination
  by (relation "measure (\<lambda>(ob, _). length (ob_items ob))")
    (auto dest!: outbox_dequeue_mem intro: remove_item_shrinks)

declare outbox_cleanup.simps [simp del]

definition outbox_destroy :: "outbox \<Rightarrow> nat set" where
  "outbox_destroy ob = ob_live (remove_all (\<lambda>_. True) ob) - {ob_addr ob}"

end
