(* ===== verification/Mqtt_Client.thy ===== *)
theory Mqtt_Client
  imports Mqtt_Msg Mqtt_Outbox "HOL-Library.Monad_Syntax"
begin

text \<open>
  The MQTT client (\<^verbatim>\<open>common/mqtt/esp-mqtt/mqtt_client.c\<close>) on top of the message layer and the outbox: receiving
  and delivering messages, answering and acknowledging them, publishing with retransmission, and the client's task.

  An operation takes the client and returns its result with the client, inside \<open>option\<close>: \<open>None\<close> means that a loop
  whose end depends on outside code does not return.  The transport, the clock, the heap and the application's
  event handler are the fields of the record \<open>mqtt_os\<close>; the first three act on the component \<open>m_world\<close> of the
  client, the handler on the client itself, because it may call the client's functions.  The configuration
  switches are those of \<^verbatim>\<open>sdkconfig\<close>: no core selection, no reports of deleted messages, publishing also without a
  connection.
\<close>

subsection \<open>Data\<close>

datatype esp_mqtt_event_id = MQTT_EVENT_ERROR | MQTT_EVENT_CONNECTED | MQTT_EVENT_DISCONNECTED | MQTT_EVENT_SUBSCRIBED
  | MQTT_EVENT_UNSUBSCRIBED | MQTT_EVENT_PUBLISHED | MQTT_EVENT_DATA | MQTT_EVENT_BEFORE_CONNECT | MQTT_EVENT_DELETED

datatype esp_mqtt_error_type = MQTT_ERROR_TYPE_NONE | MQTT_ERROR_TYPE_TCP_TRANSPORT | MQTT_ERROR_TYPE_CONNECTION_REFUSED

text \<open>The event as the handler sees it; the pointers to topic and data are the bytes they point to.\<close>

record esp_mqtt_event =
  e_event_id :: esp_mqtt_event_id
  e_data :: "bytes option"
  e_data_len :: int
  e_total_data_len :: int
  e_current_data_offset :: int
  e_topic :: "bytes option"
  e_topic_len :: int
  e_msg_id :: int
  e_session_present :: int
  e_error_type :: esp_mqtt_error_type
  e_connect_return_code :: int

datatype mqtt_client_state =
  MQTT_STATE_ERROR | MQTT_STATE_UNKNOWN | MQTT_STATE_INIT | MQTT_STATE_CONNECTED | MQTT_STATE_WAIT_TIMEOUT

record mqtt_config_storage =
  cfg_event_handle :: bool
  cfg_host :: "bytes option"
  cfg_scheme :: "bytes option"
  cfg_port :: int
  cfg_auto_reconnect :: bool
  cfg_network_timeout_ms :: int
  cfg_refresh_connection_after_ms :: int
  cfg_reconnect_timeout_ms :: int

text \<open>\<open>outbound_message\<close> is the message of the connection; its data pointer leads into the connection's buffer, or
  to the buffer of the outbox item \<open>out_item\<close> while that is sent again.\<close>

record mqtt_state =
  connect_info :: mqtt_connect_info
  in_buffer :: bytes
  in_buffer_length :: nat
  message_length :: u32
  in_buffer_read_len :: nat
  out_item :: "nat option"
  mqtt_conn :: mqtt_connection
  pending_msg_id :: u16
  pending_msg_type :: int
  pending_publish_qos :: int
  pending_msg_count :: int

record 'w esp_mqtt_client = mqtt_state +
  m_transport :: bool
  m_config :: mqtt_config_storage
  m_state :: mqtt_client_state
  refresh_connection_tick :: u64
  keepalive_tick :: u64
  reconnect_tick :: u64
  wait_timeout_ms :: int
  m_event :: esp_mqtt_event
  m_run :: bool
  wait_for_ping_resp :: bool
  m_outbox :: outbox
  stopped_bit :: bool
  reconnect_bit :: bool
  disconnect_bit :: bool
  api_lock :: nat
  m_world :: 'w

text \<open>\<open>os_read n timeout\<close> returns the result of \<open>esp_transport_read\<close> and the bytes it stored; the allocators are told
  the blocks in use.  \<open>os_event_handle\<close> is the callback of the configuration, \<open>os_event_loop\<close> what the handlers
  registered with the event loop do when it runs.\<close>

record 'w mqtt_os =
  os_write :: "bytes \<Rightarrow> int \<Rightarrow> 'w \<Rightarrow> int \<times> 'w"
  os_read :: "int \<Rightarrow> int \<Rightarrow> 'w \<Rightarrow> int \<times> bytes \<times> 'w"
  os_connect :: "bytes option \<Rightarrow> int \<Rightarrow> int \<Rightarrow> 'w \<Rightarrow> int \<times> 'w"
  os_close :: "'w \<Rightarrow> 'w"
  os_poll_read :: "int \<Rightarrow> 'w \<Rightarrow> int \<times> 'w"
  os_tick :: "'w \<Rightarrow> u64 \<times> 'w"
  os_calloc :: "nat set \<Rightarrow> 'w \<Rightarrow> nat option \<times> 'w"
  os_malloc :: "nat \<Rightarrow> nat set \<Rightarrow> 'w \<Rightarrow> (nat \<times> bytes) option \<times> 'w"
  os_task_create :: "'w \<Rightarrow> bool \<times> 'w"
  os_transport :: "bytes option \<Rightarrow> bool"
  os_default_port :: "bytes option \<Rightarrow> int"
  os_set_ssl :: "'w \<Rightarrow> 'w"
  os_register :: "int \<Rightarrow> 'w \<Rightarrow> esp_err \<times> 'w"
  os_env :: mqtt_env
  os_event_handle :: "esp_mqtt_event \<Rightarrow> 'w esp_mqtt_client \<Rightarrow> 'w esp_mqtt_client"
  os_event_loop :: "esp_mqtt_event \<Rightarrow> 'w esp_mqtt_client \<Rightarrow> 'w esp_mqtt_client"

abbreviation (input) OUTBOX_EXPIRED_TIMEOUT_MS :: int where "OUTBOX_EXPIRED_TIMEOUT_MS \<equiv> 30000"
abbreviation (input) OUTBOX_MAX_SIZE :: int where "OUTBOX_MAX_SIZE \<equiv> 4096"
abbreviation (input) MQTT_POLL_READ_TIMEOUT_MS :: int where "MQTT_POLL_READ_TIMEOUT_MS \<equiv> 1000"
abbreviation (input) MQTT_CONNECTION_ACCEPTED :: nat where "MQTT_CONNECTION_ACCEPTED \<equiv> 0"

subsection \<open>Locks, clock and events\<close>

definition MQTT_API_LOCK :: "'w esp_mqtt_client \<Rightarrow> 'w esp_mqtt_client" where
  "MQTT_API_LOCK c = c\<lparr>api_lock := api_lock c + 1\<rparr>"

definition MQTT_API_UNLOCK :: "'w esp_mqtt_client \<Rightarrow> 'w esp_mqtt_client" where
  "MQTT_API_UNLOCK c = c\<lparr>api_lock := api_lock c - 1\<rparr>"

definition platform_tick_get_ms :: "'w mqtt_os \<Rightarrow> 'w esp_mqtt_client \<Rightarrow> u64 \<times> 'w esp_mqtt_client" where
  "platform_tick_get_ms os c = (let (t, w) = os_tick os (m_world c) in (t, c\<lparr>m_world := w\<rparr>))"

definition esp_mqtt_dispatch_event :: "'w mqtt_os \<Rightarrow> 'w esp_mqtt_client \<Rightarrow> 'w esp_mqtt_client" where
  "esp_mqtt_dispatch_event os c =
    (if cfg_event_handle (m_config c) then os_event_handle os (m_event c) c else os_event_loop os (m_event c) c)"

definition esp_mqtt_dispatch_event_with_msgid :: "'w mqtt_os \<Rightarrow> 'w esp_mqtt_client \<Rightarrow> 'w esp_mqtt_client" where
  "esp_mqtt_dispatch_event_with_msgid os c =
    esp_mqtt_dispatch_event os
      (c\<lparr>m_event := (m_event c)\<lparr>e_msg_id := int (mqtt_get_id (in_buffer c) (in_buffer_length c))\<rparr>\<rparr>)"

text \<open>Dispatching an event with the identifier of the message in the input buffer.\<close>

definition dispatch_id :: "'w mqtt_os \<Rightarrow> esp_mqtt_event_id \<Rightarrow> 'w esp_mqtt_client \<Rightarrow> 'w esp_mqtt_client" where
  "dispatch_id os ev c = esp_mqtt_dispatch_event_with_msgid os (c\<lparr>m_event := (m_event c)\<lparr>e_event_id := ev\<rparr>\<rparr>)"

definition esp_mqtt_client_dispatch_transport_error :: "'w mqtt_os \<Rightarrow> 'w esp_mqtt_client \<Rightarrow> 'w esp_mqtt_client" where
  "esp_mqtt_client_dispatch_transport_error os c =
    esp_mqtt_dispatch_event_with_msgid os (c\<lparr>m_event := (m_event c)\<lparr>e_event_id := MQTT_EVENT_ERROR,
      e_error_type := MQTT_ERROR_TYPE_TCP_TRANSPORT, e_connect_return_code := 0\<rparr>\<rparr>)"

definition esp_mqtt_abort_connection :: "'w mqtt_os \<Rightarrow> 'w esp_mqtt_client \<Rightarrow> 'w esp_mqtt_client" where
  "esp_mqtt_abort_connection os c =
    (let c = MQTT_API_LOCK c;
         c = c\<lparr>m_world := os_close os (m_world c), wait_timeout_ms := cfg_reconnect_timeout_ms (m_config c)\<rparr>;
         (t, c) = platform_tick_get_ms os c;
         c = c\<lparr>reconnect_tick := t, m_state := MQTT_STATE_WAIT_TIMEOUT, wait_for_ping_resp := False\<rparr>
     in MQTT_API_UNLOCK (dispatch_id os MQTT_EVENT_DISCONNECTED c))"

subsection \<open>Writing\<close>

text \<open>The message a builder returned becomes the outbound message.\<close>

definition set_outbound :: "mqtt_connection \<Rightarrow> 'w esp_mqtt_client \<Rightarrow> 'w esp_mqtt_client" where
  "set_outbound conn c = c\<lparr>mqtt_conn := conn, out_item := None\<rparr>"

definition outbound_data :: "'w esp_mqtt_client \<Rightarrow> bytes" where
  "outbound_data c = (case out_item c of
      None \<Rightarrow> drop (mm_off (mqtt_conn c)) (mc_buffer (mqtt_conn c))
    | Some a \<Rightarrow> (case find (\<lambda>it. i_addr it = a) (ob_items (m_outbox c)) of None \<Rightarrow> [] | Some it \<Rightarrow> i_data it))"

definition mqtt_write_data :: "'w mqtt_os \<Rightarrow> 'w esp_mqtt_client \<Rightarrow> esp_err \<times> 'w esp_mqtt_client" where
  "mqtt_write_data os c =
    (let (write_len, w) = os_write os (take (mm_length (mqtt_conn c)) (outbound_data c))
                            (cfg_network_timeout_ms (m_config c)) (m_world c);
         c = c\<lparr>m_world := w\<rparr> in
     if write_len \<le> 0 then (ESP_FAIL, esp_mqtt_client_dispatch_transport_error os c)
     else let (t, c) = platform_tick_get_ms os c in (ESP_OK, c\<lparr>keepalive_tick := t\<rparr>))"

subsection \<open>The outbox\<close>

definition is_valid_mqtt_msg :: "nat \<Rightarrow> int \<Rightarrow> 'w esp_mqtt_client \<Rightarrow> bool \<times> 'w esp_mqtt_client" where
  "is_valid_mqtt_msg msg_type msg_id c =
    (if pending_msg_count c = 0 then (False, c)
     else case outbox_delete (m_outbox c) msg_id (int msg_type) of
       (ESP_OK, ob) \<Rightarrow> (True, c\<lparr>m_outbox := ob, pending_msg_count := pending_msg_count c - 1\<rparr>)
     | (ESP_FAIL, ob) \<Rightarrow> (False, c\<lparr>m_outbox := ob\<rparr>))"

text \<open>\<open>outbox_enqueue\<close> with the heap of the environment.\<close>

definition outbox_store :: "'w mqtt_os \<Rightarrow> outbox_message \<Rightarrow> 'w esp_mqtt_client \<Rightarrow> 'w esp_mqtt_client" where
  "outbox_store os msg c =
    (let (t, c) = platform_tick_get_ms os c;
         live = ob_live (m_outbox c);
         (blk, w) = os_calloc os live (m_world c);
         (buf, w) = (case blk of None \<Rightarrow> (None, w)
           | Some a \<Rightarrow> os_malloc os (om_len msg + om_remaining_len msg) (insert a live) w)
     in c\<lparr>m_world := w, m_outbox := snd (outbox_enqueue blk buf msg (sint t) (m_outbox c))\<rparr>)"

definition pending_message :: "'w esp_mqtt_client \<Rightarrow> outbox_message" where
  "pending_message c = \<lparr>om_data = outbound_data c, om_len = mm_length (mqtt_conn c),
     om_msg_id = uint (pending_msg_id c), om_msg_qos = pending_publish_qos c, om_msg_type = pending_msg_type c,
     om_remaining_data = None, om_remaining_len = 0\<rparr>"

definition mqtt_enqueue_oversized :: "'w mqtt_os \<Rightarrow> bytes \<Rightarrow> nat \<Rightarrow> 'w esp_mqtt_client \<Rightarrow> 'w esp_mqtt_client" where
  "mqtt_enqueue_oversized os remaining_data remaining_len c =
    outbox_store os ((pending_message c)\<lparr>om_remaining_data := Some remaining_data, om_remaining_len := remaining_len\<rparr>) c"

definition mqtt_enqueue :: "'w mqtt_os \<Rightarrow> 'w esp_mqtt_client \<Rightarrow> 'w esp_mqtt_client" where
  "mqtt_enqueue os c = (if pending_msg_count c > 0 then outbox_store os (pending_message c) c else c)"

definition set_pending :: "int \<Rightarrow> pending_state \<Rightarrow> 'w esp_mqtt_client \<Rightarrow> 'w esp_mqtt_client" where
  "set_pending msg_id p c = c\<lparr>m_outbox := snd (outbox_set_pending (m_outbox c) msg_id p)\<rparr>"

definition mqtt_delete_expired_messages :: "'w mqtt_os \<Rightarrow> 'w esp_mqtt_client \<Rightarrow> 'w esp_mqtt_client" where
  "mqtt_delete_expired_messages os c =
    (let (t, c) = platform_tick_get_ms os c;
         (deleted_items, ob) = outbox_delete_expired (m_outbox c) (sint t) OUTBOX_EXPIRED_TIMEOUT_MS;
         n = pending_msg_count c - deleted_items
     in c\<lparr>m_outbox := ob, pending_msg_count := (if n < 0 then 0 else n)\<rparr>)"

text \<open>Sending an item again: its buffer is marked as a duplicate in place.\<close>

definition mark_dup :: "nat \<Rightarrow> outbox \<Rightarrow> outbox" where
  "mark_dup a ob = ob\<lparr>ob_items :=
     map (\<lambda>x. if i_addr x = a then x\<lparr>i_data := mqtt_set_dup (i_data x)\<rparr> else x) (ob_items ob)\<rparr>"

definition mqtt_resend_queued :: "'w mqtt_os \<Rightarrow> outbox_item \<Rightarrow> 'w esp_mqtt_client \<Rightarrow> esp_err \<times> 'w esp_mqtt_client" where
  "mqtt_resend_queued os item c =
    (case outbox_item_get_data (Some item) of
       None \<Rightarrow> (ESP_FAIL, c)
     | Some (_, len, mid, typ, qos) \<Rightarrow>
        let c = c\<lparr>mqtt_conn := (mqtt_conn c)\<lparr>mm_length := nat len\<rparr>, out_item := Some (i_addr item),
                  pending_msg_id := mid, pending_msg_type := typ, pending_publish_qos := qos\<rparr>;
            c = (if typ = int MQTT_MSG_TYPE_PUBLISH \<and> qos > 0
                 then c\<lparr>m_outbox := mark_dup (i_addr item) (m_outbox c)\<rparr> else c)
        in case mqtt_write_data os c of
             (ESP_FAIL, c) \<Rightarrow> (ESP_FAIL, esp_mqtt_abort_connection os c)
           | (ESP_OK, c) \<Rightarrow>
               (ESP_OK,
                if pending_msg_type c = int MQTT_MSG_TYPE_PUBLISH \<and> pending_publish_qos c = 0
                then c\<lparr>m_outbox := snd (outbox_delete_item (m_outbox c) (i_addr item))\<rparr> else c))"

subsection \<open>Receiving a message\<close>

text \<open>\<open>esp_transport_read\<close> into the input buffer behind the bytes read so far.\<close>

definition read_at :: "'w mqtt_os \<Rightarrow> nat \<Rightarrow> int \<Rightarrow> int \<Rightarrow> 'w esp_mqtt_client \<Rightarrow> int \<times> 'w esp_mqtt_client" where
  "read_at os pos n timeout c =
    (case os_read os n timeout (m_world c) of (r, bs, w) \<Rightarrow>
       (r, c\<lparr>m_world := w, in_buffer := mem_write pos (take (nat r) bs) (in_buffer c)\<rparr>))"

text \<open>A stage of \<open>mqtt_message_receive\<close> ends the function with a result, or goes on.\<close>

type_synonym 'w stage = "int option \<times> 'w esp_mqtt_client"

definition receive_err :: "'w mqtt_os \<Rightarrow> 'w esp_mqtt_client \<Rightarrow> 'w stage" where
  "receive_err os c = (Some (-1), esp_mqtt_client_dispatch_transport_error os c)"

definition read_stage ::
  "'w mqtt_os \<Rightarrow> int \<Rightarrow> int \<Rightarrow> 'w esp_mqtt_client \<Rightarrow> (int \<Rightarrow> 'w esp_mqtt_client \<Rightarrow> 'w stage) \<Rightarrow> 'w stage" where
  "read_stage os n timeout c k =
    (let (r, c) = read_at os (in_buffer_read_len c) n timeout c in
     if r < 0 then receive_err os c else if r = 0 then (Some 0, c) else k r c)"

definition advance :: "nat \<Rightarrow> 'w esp_mqtt_client \<Rightarrow> 'w esp_mqtt_client" where
  "advance n c = c\<lparr>in_buffer_read_len := in_buffer_read_len c + n\<rparr>"

definition receive_first :: "'w mqtt_os \<Rightarrow> int \<Rightarrow> 'w esp_mqtt_client \<Rightarrow> 'w stage" where
  "receive_first os timeout c =
    (if in_buffer_read_len c = 0 then
       read_stage os 1 timeout c (\<lambda>r c.
         if \<not> mqtt_has_valid_msg_hdr (in_buffer c) (nat r) then receive_err os c else (None, advance 1 c))
     else (None, c))"

definition length_continues :: "'w esp_mqtt_client \<Rightarrow> bool" where
  "length_continues c \<longleftrightarrow> in_buffer_read_len c < 6 \<and> byte_at (in_buffer c) (in_buffer_read_len c - 1) AND 0x80 \<noteq> 0"

function receive_length_loop :: "'w mqtt_os \<Rightarrow> int \<Rightarrow> 'w esp_mqtt_client \<Rightarrow> 'w stage" where
  "receive_length_loop os timeout c =
    (let (r, c') = read_at os (in_buffer_read_len c) 1 timeout c in
     if r < 0 then receive_err os c' else if r = 0 then (Some 0, c')
     else let c' = advance 1 c' in
       if length_continues c' then receive_length_loop os timeout c' else (None, c'))"
  by pat_completeness auto
termination
  by (relation "measure (\<lambda>(os, timeout, c). 6 - in_buffer_read_len c)")
    (auto simp: read_at_def advance_def length_continues_def split: prod.splits)

declare receive_length_loop.simps [simp del]

definition receive_length :: "'w mqtt_os \<Rightarrow> int \<Rightarrow> 'w esp_mqtt_client \<Rightarrow> 'w stage" where
  "receive_length os timeout c =
    (if in_buffer_read_len c = 1 \<or> length_continues c then receive_length_loop os timeout c else (None, c))"

text \<open>A message that does not fit the input buffer: of a publish message the topic at least has to fit, and as much
  of it is read as the buffer holds.  The number is the length still wanted.\<close>

definition oversized_total :: "nat \<Rightarrow> 'w esp_mqtt_client \<Rightarrow> int" where
  "oversized_total fixed_header_len c =
    int (fixed_header_len + be16 (in_buffer c) fixed_header_len + (if mqtt_get_qos (in_buffer c) > 0 then 2 else 0))"

definition receive_topic ::
  "'w mqtt_os \<Rightarrow> int \<Rightarrow> nat \<Rightarrow> 'w esp_mqtt_client \<Rightarrow> 'w stage" where
  "receive_topic os timeout fixed_header_len c =
    (let check = (\<lambda>c. if int (in_buffer_length c) < oversized_total fixed_header_len c then receive_err os c else (None, c)) in
     if in_buffer_read_len c < fixed_header_len + 2 then
       read_stage os (int (in_buffer_read_len c) - int fixed_header_len + 2) timeout c (\<lambda>r c.
         let c = advance (nat r) c in
         if in_buffer_read_len c < fixed_header_len + 2 then (Some 0, c) else check c)
     else check c)"

definition receive_rest :: "'w mqtt_os \<Rightarrow> int \<Rightarrow> int \<Rightarrow> 'w esp_mqtt_client \<Rightarrow> 'w stage" where
  "receive_rest os timeout total_len c =
    (let wanted = (\<lambda>c. (word_of_int total_len :: u32)); have = (\<lambda>c. of_nat (in_buffer_read_len c) :: u32) in
     if have c < wanted c then
       read_stage os (sint (wanted c - have c)) timeout c (\<lambda>r c.
         let c = advance (nat r) c in
         if have c < wanted c then (Some 0, c) else (None, c))
     else (None, c))"

definition then_do :: "'w stage \<Rightarrow> ('w esp_mqtt_client \<Rightarrow> int \<times> 'w esp_mqtt_client) \<Rightarrow> int \<times> 'w esp_mqtt_client" where
  "then_do s k = (case s of (Some r, c) \<Rightarrow> (r, c) | (None, c) \<Rightarrow> k c)"

definition receive_finish :: "'w mqtt_os \<Rightarrow> int \<Rightarrow> int \<Rightarrow> 'w esp_mqtt_client \<Rightarrow> int \<times> 'w esp_mqtt_client" where
  "receive_finish os timeout total_len c = then_do (receive_rest os timeout total_len c) (\<lambda>c. (1, c))"

text \<open>Once the fixed header is there.\<close>

definition receive_sized :: "'w mqtt_os \<Rightarrow> int \<Rightarrow> 'w esp_mqtt_client \<Rightarrow> int \<times> 'w esp_mqtt_client" where
  "receive_sized os timeout c =
    (let (tot, fixed_header_len) = mqtt_get_total_length (in_buffer c) (in_buffer_read_len c);
         total_len = sint tot;
         c = c\<lparr>message_length := tot\<rparr> in
     if int (in_buffer_length c) < total_len then
       if mqtt_get_type (in_buffer c) = MQTT_MSG_TYPE_PUBLISH
       then then_do (receive_topic os timeout fixed_header_len c)
              (\<lambda>c. receive_finish os timeout (int (in_buffer_length c)) c)
       else (-1, esp_mqtt_client_dispatch_transport_error os c)
     else receive_finish os timeout total_len c)"

definition mqtt_message_receive :: "'w mqtt_os \<Rightarrow> int \<Rightarrow> 'w esp_mqtt_client \<Rightarrow> int \<times> 'w esp_mqtt_client" where
  "mqtt_message_receive os timeout c =
    then_do (receive_first os timeout (c\<lparr>message_length := 0\<rparr>)) (\<lambda>c.
    then_do (receive_length os timeout c) (receive_sized os timeout))"

subsection \<open>Delivering and answering\<close>

text \<open>The loop around \<open>post_data_event\<close>.  \<open>data\<close> is the position of the data in the input buffer (\<open>None\<close> for the
  null pointer), and lengths are 32-bit numbers as in the code: a negative result of the read becomes a large one.\<close>

definition post_data :: "'w mqtt_os \<Rightarrow> (nat \<times> nat) option \<Rightarrow> nat \<Rightarrow> u32 \<Rightarrow> u32 \<Rightarrow> 'w esp_mqtt_client \<Rightarrow> 'w esp_mqtt_client" where
  "post_data os topic data data_len data_offset c =
    esp_mqtt_dispatch_event os (c\<lparr>m_event := (m_event c)\<lparr>e_event_id := MQTT_EVENT_DATA,
      e_data := (if data_len > 0 then Some (take (unat data_len) (drop data (in_buffer c))) else None),
      e_data_len := sint data_len, e_current_data_offset := sint data_offset,
      e_topic := map_option (\<lambda>(p, n). take n (drop p (in_buffer c))) topic,
      e_topic_len := (case topic of None \<Rightarrow> 0 | Some (_, n) \<Rightarrow> int n)\<rparr>\<rparr>)"

text \<open>The read of the next piece of a long message.\<close>

definition next_piece :: "'w mqtt_os \<Rightarrow> u32 \<Rightarrow> u32 \<Rightarrow> 'w esp_mqtt_client \<Rightarrow> u32 \<times> 'w esp_mqtt_client" where
  "next_piece os tot read_len c =
    (let buf_len = of_nat (in_buffer_length c);
         n = (if tot - read_len > buf_len then buf_len else tot - read_len);
         (r, c) = read_at os 0 (sint n) (cfg_network_timeout_ms (m_config c)) c
     in (word_of_int r, c))"

partial_function (option) post_data_event ::
  "'w mqtt_os \<Rightarrow> u32 \<Rightarrow> (nat \<times> nat) option \<Rightarrow> nat \<Rightarrow> u32 \<Rightarrow> u32 \<Rightarrow> u32 \<Rightarrow> 'w esp_mqtt_client \<Rightarrow>
   (esp_err \<times> 'w esp_mqtt_client) option" where
  [code]: "post_data_event os tot topic data data_len data_offset read_len c =
    (let c = post_data os topic data data_len data_offset c in
     if read_len < tot then
       let (len, c) = next_piece os tot read_len c in
       if len = 0 then Some (ESP_FAIL, c)
       else post_data_event os tot None 0 len (data_offset + data_len) (read_len + len) c
     else Some (ESP_OK, c))"

definition deliver_publish :: "'w mqtt_os \<Rightarrow> 'w esp_mqtt_client \<Rightarrow> (esp_err \<times> 'w esp_mqtt_client) option" where
  "deliver_publish os c =
    (let b = in_buffer c; n = in_buffer_read_len c in
     case mqtt_get_publish_topic b n of
       None \<Rightarrow> Some (ESP_FAIL, c)
     | Some topic \<Rightarrow>
        let (data, data_len) = (case mqtt_get_publish_data b n of None \<Rightarrow> (0, 0) | Some d \<Rightarrow> d);
            c = c\<lparr>m_event := (m_event c)\<lparr>e_msg_id := int (mqtt_get_id b data_len),
                   e_total_data_len := sint (of_nat data_len + message_length c - of_nat n :: u32)\<rparr>\<rparr>
        in post_data_event os (message_length c) (Some topic) data (of_nat data_len) 0 (of_nat n) c)"

definition answer :: "'w mqtt_os \<Rightarrow> mqtt_connection option \<Rightarrow> 'w esp_mqtt_client \<Rightarrow> 'w esp_mqtt_client option" where
  "answer os msg c = map_option (\<lambda>conn. set_outbound conn c) msg"

definition message_failed :: "'w esp_mqtt_client \<Rightarrow> bool" where
  "message_failed c \<longleftrightarrow> mm_length (mqtt_conn c) = 0"

definition receive_publish ::
  "'w mqtt_os \<Rightarrow> nat \<Rightarrow> u16 \<Rightarrow> 'w esp_mqtt_client \<Rightarrow> (esp_err \<times> 'w esp_mqtt_client) option" where
  "receive_publish os msg_qos msg_id c =
    do { (r, c) \<leftarrow> deliver_publish os c;
         if r \<noteq> ESP_OK then Some (ESP_FAIL, c)
         else do {
           c \<leftarrow> (if msg_qos = 1 then answer os (mqtt_msg_puback (os_env os) msg_id (mqtt_conn c)) c
                 else if msg_qos = 2 then answer os (mqtt_msg_pubrec (os_env os) msg_id (mqtt_conn c)) c
                 else Some c);
           if message_failed c then Some (ESP_FAIL, c)
           else if msg_qos = 1 \<or> msg_qos = 2 then Some (mqtt_write_data os c)
           else Some (ESP_OK, c) } }"

text \<open>An acknowledgement: the message leaves the outbox, and the application is told.\<close>

definition acknowledged ::
  "'w mqtt_os \<Rightarrow> nat \<Rightarrow> esp_mqtt_event_id \<Rightarrow> bool \<Rightarrow> u16 \<Rightarrow> 'w esp_mqtt_client \<Rightarrow> 'w esp_mqtt_client" where
  "acknowledged os typ ev confirm msg_id c =
    (case is_valid_mqtt_msg typ (uint msg_id) c of
       (False, c) \<Rightarrow> c
     | (True, c) \<Rightarrow> dispatch_id os ev (if confirm then set_pending (uint msg_id) CONFIRMED c else c))"

definition process_message :: "'w mqtt_os \<Rightarrow> 'w esp_mqtt_client \<Rightarrow> (esp_err \<times> 'w esp_mqtt_client) option" where
  "process_message os c =
    (let b = in_buffer c; msg_type = mqtt_get_type b; msg_qos = mqtt_get_qos b;
         msg_id = of_nat (mqtt_get_id b (unat (message_length c))) :: u16 in
     if msg_type = MQTT_MSG_TYPE_SUBACK
     then Some (ESP_OK, acknowledged os MQTT_MSG_TYPE_SUBSCRIBE MQTT_EVENT_SUBSCRIBED False msg_id c)
     else if msg_type = MQTT_MSG_TYPE_UNSUBACK
     then Some (ESP_OK, acknowledged os MQTT_MSG_TYPE_UNSUBSCRIBE MQTT_EVENT_UNSUBSCRIBED False msg_id c)
     else if msg_type = MQTT_MSG_TYPE_PUBLISH then receive_publish os msg_qos msg_id c
     else if msg_type = MQTT_MSG_TYPE_PUBACK \<or> msg_type = MQTT_MSG_TYPE_PUBCOMP
     then Some (ESP_OK, acknowledged os MQTT_MSG_TYPE_PUBLISH MQTT_EVENT_PUBLISHED True msg_id c)
     else if msg_type = MQTT_MSG_TYPE_PUBREC then
       do { c \<leftarrow> answer os (mqtt_msg_pubrel (os_env os) msg_id (mqtt_conn c)) c;
            if message_failed c then Some (ESP_FAIL, c)
            else Some (ESP_OK, snd (mqtt_write_data os (set_pending (uint msg_id) ACKNOWLEDGED c))) }
     else if msg_type = MQTT_MSG_TYPE_PUBREL then
       do { c \<leftarrow> answer os (mqtt_msg_pubcomp (os_env os) msg_id (mqtt_conn c)) c;
            if message_failed c then Some (ESP_FAIL, c) else Some (ESP_OK, snd (mqtt_write_data os c)) }
     else if msg_type = MQTT_MSG_TYPE_PINGRESP then Some (ESP_OK, c\<lparr>wait_for_ping_resp := False\<rparr>)
     else Some (ESP_OK, c))"

definition mqtt_process_receive :: "'w mqtt_os \<Rightarrow> 'w esp_mqtt_client \<Rightarrow> (esp_err \<times> 'w esp_mqtt_client) option" where
  "mqtt_process_receive os c =
    (let (recv, c) = mqtt_message_receive os 0 c in
     if recv < 0 then Some (ESP_FAIL, c)
     else if recv = 0 then Some (ESP_OK, c)
     else do { (r, c) \<leftarrow> process_message os c;
               if r = ESP_FAIL then Some (ESP_FAIL, c) else Some (ESP_OK, c\<lparr>in_buffer_read_len := 0\<rparr>) })"

end
