(* ===== verification/Mqtt_Task.thy ===== *)
theory Mqtt_Task
  imports Mqtt_Client
begin

text \<open>
  The MQTT client, second half of \<^verbatim>\<open>common/mqtt/esp-mqtt/mqtt_client.c\<close>: the functions the application calls, the
  connection to the broker, and the task.  \<open>task_pass\<close> is one turn of the loop in \<^verbatim>\<open>esp_mqtt_task\<close>, made under the
  client's lock; \<open>mqtt_step\<close> interleaves such turns with the application's calls.
\<close>

subsection \<open>Publishing\<close>

text \<open>How much of the data the message in the buffer carries: \<open>length - fragmented_msg_data_offset\<close>, a difference of
  32-bit numbers that is read as a signed one.\<close>

definition fragment_len :: "mqtt_connection \<Rightarrow> int" where
  "fragment_len conn = sint (of_nat (mm_length conn) - fragmented_msg_data_offset conn)"

definition data_bytes :: "bytes option \<Rightarrow> bytes" where
  "data_bytes data = (case data of None \<Rightarrow> [] | Some d \<Rightarrow> d)"

definition mqtt_client_enqueue_priv ::
  "'w mqtt_os \<Rightarrow> bytes option \<Rightarrow> bytes option \<Rightarrow> int \<Rightarrow> int \<Rightarrow> int \<Rightarrow> bool \<Rightarrow> 'w esp_mqtt_client \<Rightarrow>
   (int \<times> 'w esp_mqtt_client) option" where
  "mqtt_client_enqueue_priv os topic data len0 qos retain store c =
    (let len = (if len0 \<le> 0 \<and> data \<noteq> None then int (length (c_str (data_bytes data))) else len0) in
     do { (mid, conn) \<leftarrow> mqtt_msg_publish (os_env os) topic data (nat len) qos retain 0 (mqtt_conn c);
          let c = set_outbound conn c in
          if message_failed c then Some (-1, c)
          else if qos > 0 \<or> store then
            let c = c\<lparr>pending_msg_type := int (mqtt_get_type (outbound_data c)), pending_msg_id := mid,
                      pending_publish_qos := qos, pending_msg_count := pending_msg_count c + 1\<rparr>;
                c = (if fragmented_msg_total_length conn = 0 then mqtt_enqueue os c
                     else let first_fragment = fragment_len conn;
                              c = mqtt_enqueue_oversized os (drop (nat first_fragment) (data_bytes data))
                                    (nat (len - first_fragment)) c
                          in c\<lparr>mqtt_conn := (mqtt_conn c)\<lparr>fragmented_msg_total_length := 0\<rparr>\<rparr>)
            in Some (uint mid, c)
          else Some (uint mid, c) })"

text \<open>The loop that sends the fragments; \<open>pos\<close> is \<open>current_data\<close> as a distance from \<open>data\<close>.\<close>

definition load_fragment :: "bytes \<Rightarrow> int \<Rightarrow> int \<Rightarrow> 'w esp_mqtt_client \<Rightarrow> 'w esp_mqtt_client" where
  "load_fragment data pos remaining_len c =
    (let conn = mqtt_conn c;
         n = (if remaining_len > int (mc_buffer_length conn) then mc_buffer_length conn else nat remaining_len)
     in set_outbound (conn\<lparr>mc_buffer := mem_write 0 (take n (drop (nat pos) data)) (mc_buffer conn),
                           mm_length := n, mm_off := 0\<rparr>) c)"

partial_function (option) publish_loop ::
  "'w mqtt_os \<Rightarrow> bytes \<Rightarrow> int \<Rightarrow> int \<Rightarrow> 'w esp_mqtt_client \<Rightarrow> (esp_err \<times> 'w esp_mqtt_client) option" where
  [code]: "publish_loop os data pos remaining_len c =
    (case mqtt_write_data os c of
       (ESP_FAIL, c) \<Rightarrow> Some (ESP_FAIL, esp_mqtt_abort_connection os c)
     | (ESP_OK, c) \<Rightarrow>
        let data_sent = fragment_len (mqtt_conn c);
            c = c\<lparr>mqtt_conn := (mqtt_conn c)\<lparr>fragmented_msg_data_offset := 0, fragmented_msg_total_length := 0\<rparr>\<rparr>;
            remaining_len = remaining_len - data_sent;
            pos = pos + data_sent
        in if remaining_len > 0 then publish_loop os data pos remaining_len (load_fragment data pos remaining_len c)
           else Some (ESP_OK, c))"

definition esp_mqtt_client_publish ::
  "'w mqtt_os \<Rightarrow> bytes option \<Rightarrow> bytes option \<Rightarrow> int \<Rightarrow> int \<Rightarrow> int \<Rightarrow> 'w esp_mqtt_client \<Rightarrow>
   (int \<times> 'w esp_mqtt_client) option" where
  "esp_mqtt_client_publish os topic data len qos retain c =
    (let cannot_publish = (\<lambda>ret c. Some (ret,
           MQTT_API_UNLOCK (c\<lparr>mqtt_conn := (mqtt_conn c)\<lparr>fragmented_msg_total_length := 0\<rparr>\<rparr>))) in
     do { (mid, c) \<leftarrow> mqtt_client_enqueue_priv os topic data len qos retain False (MQTT_API_LOCK c);
          if mid < 0 then Some (-1, MQTT_API_UNLOCK c)
          else if m_state c \<noteq> MQTT_STATE_CONNECTED
          then cannot_publish (if qos > 0 then mid else 0) (mqtt_delete_expired_messages os c)
          else do {
            (r, c) \<leftarrow> publish_loop os (data_bytes data) 0 len c;
            if r = ESP_FAIL then cannot_publish (-1) c
            else let c = (if qos > 0 then
                            let (t, c) = platform_tick_get_ms os c;
                                c = c\<lparr>m_outbox := snd (outbox_set_tick (m_outbox c) mid (sint t))\<rparr>
                            in set_pending mid TRANSMITTED c
                          else c)
                 in Some (mid, MQTT_API_UNLOCK c) } })"

definition esp_mqtt_client_enqueue ::
  "'w mqtt_os \<Rightarrow> bytes option \<Rightarrow> bytes option \<Rightarrow> int \<Rightarrow> int \<Rightarrow> int \<Rightarrow> bool \<Rightarrow> 'w esp_mqtt_client \<Rightarrow>
   (int \<times> 'w esp_mqtt_client) option" where
  "esp_mqtt_client_enqueue os topic data len qos retain store c =
    do { (ret, c) \<leftarrow> mqtt_client_enqueue_priv os topic data len qos retain store (MQTT_API_LOCK c);
         let c = MQTT_API_UNLOCK c in
         Some (if ret = 0 \<and> \<not> store then -1 else ret, c) }"

subsection \<open>Subscribing\<close>

text \<open>What \<open>esp_mqtt_client_subscribe\<close> and \<open>esp_mqtt_client_unsubscribe\<close> do with the message they built.\<close>

definition send_request ::
  "'w mqtt_os \<Rightarrow> u16 \<times> mqtt_connection \<Rightarrow> 'w esp_mqtt_client \<Rightarrow> int \<times> 'w esp_mqtt_client" where
  "send_request os msg c =
    (let (mid, conn) = msg;
         c = set_outbound conn (c\<lparr>pending_msg_id := mid\<rparr>) in
     if message_failed c then (-1, MQTT_API_UNLOCK c)
     else
       let c = c\<lparr>pending_msg_type := int (mqtt_get_type (outbound_data c)), pending_msg_count := pending_msg_count c + 1\<rparr>;
           c = set_pending (uint (pending_msg_id c)) TRANSMITTED (mqtt_enqueue os c)
       in case mqtt_write_data os c of
            (ESP_FAIL, c) \<Rightarrow> (-1, MQTT_API_UNLOCK c)
          | (ESP_OK, c) \<Rightarrow> (uint (pending_msg_id c), MQTT_API_UNLOCK c))"

definition esp_mqtt_client_subscribe ::
  "'w mqtt_os \<Rightarrow> bytes option \<Rightarrow> int \<Rightarrow> 'w esp_mqtt_client \<Rightarrow> (int \<times> 'w esp_mqtt_client) option" where
  "esp_mqtt_client_subscribe os topic qos c =
    (let c = MQTT_API_LOCK c in
     if m_state c \<noteq> MQTT_STATE_CONNECTED then Some (-1, MQTT_API_UNLOCK c)
     else do { msg \<leftarrow> mqtt_msg_subscribe (os_env os) topic qos (pending_msg_id c) (mqtt_conn c);
               Some (send_request os msg c) })"

definition esp_mqtt_client_unsubscribe ::
  "'w mqtt_os \<Rightarrow> bytes option \<Rightarrow> 'w esp_mqtt_client \<Rightarrow> (int \<times> 'w esp_mqtt_client) option" where
  "esp_mqtt_client_unsubscribe os topic c =
    (let c = MQTT_API_LOCK c in
     if m_state c \<noteq> MQTT_STATE_CONNECTED then Some (-1, MQTT_API_UNLOCK c)
     else do { msg \<leftarrow> mqtt_msg_unsubscribe (os_env os) topic (pending_msg_id c) (mqtt_conn c);
               Some (send_request os msg c) })"

subsection \<open>Starting, stopping, connecting\<close>

text \<open>The end of \<open>esp_mqtt_client_init\<close>: the configuration is there, the buffers and the outbox are allocated.  \<open>mem n\<close> is
  what \<open>malloc (n)\<close> gives, the block's content.\<close>

definition zero_event :: esp_mqtt_event where
  "zero_event = \<lparr>e_event_id = MQTT_EVENT_ERROR, e_data = None, e_data_len = 0, e_total_data_len = 0, e_current_data_offset = 0,
     e_topic = None, e_topic_len = 0, e_msg_id = 0, e_session_present = 0, e_error_type = MQTT_ERROR_TYPE_NONE,
     e_connect_return_code = 0\<rparr>"

definition init_client ::
  "'w mqtt_os \<Rightarrow> mqtt_connect_info \<Rightarrow> mqtt_config_storage \<Rightarrow> int \<Rightarrow> int \<Rightarrow> (int \<Rightarrow> bytes option) \<Rightarrow> outbox option \<Rightarrow> 'w \<Rightarrow>
   'w esp_mqtt_client option" where
  "init_client os info cfg cfg_buffer_size cfg_out_buffer_size mem ob w =
    (let (t1, w) = os_tick os w; (t2, w) = os_tick os w; (t3, w) = os_tick os w;
         buffer_size = (if cfg_buffer_size \<le> 0 then 1024 else cfg_buffer_size);
         out_buffer_size = (if cfg_out_buffer_size > 0 then cfg_out_buffer_size else buffer_size) in
     do { in_mem \<leftarrow> mem buffer_size;
          out_mem \<leftarrow> mem out_buffer_size;
          ob \<leftarrow> ob;
          Some \<lparr>connect_info = info, in_buffer = in_mem, in_buffer_length = nat buffer_size, message_length = 0,
            in_buffer_read_len = 0, out_item = None, mqtt_conn = mqtt_msg_init out_mem (nat out_buffer_size),
            pending_msg_id = 0, pending_msg_type = 0, pending_publish_qos = 0, pending_msg_count = 0,
            m_transport = False, m_config = cfg, m_state = MQTT_STATE_UNKNOWN, refresh_connection_tick = t3,
            keepalive_tick = t1, reconnect_tick = t2, wait_timeout_ms = 0, m_event = zero_event, m_run = False,
            wait_for_ping_resp = False, m_outbox = ob, stopped_bit = False, reconnect_bit = False,
            disconnect_bit = False, api_lock = 0, m_world = w\<rparr> })"

definition started :: "mqtt_client_state \<Rightarrow> bool" where
  "started s \<longleftrightarrow> s \<in> {MQTT_STATE_INIT, MQTT_STATE_CONNECTED, MQTT_STATE_WAIT_TIMEOUT}"

definition esp_mqtt_client_start :: "'w mqtt_os \<Rightarrow> 'w esp_mqtt_client \<Rightarrow> esp_err \<times> 'w esp_mqtt_client" where
  "esp_mqtt_client_start os c =
    (let c = MQTT_API_LOCK c in
     if started (m_state c) then (ESP_FAIL, MQTT_API_UNLOCK c)
     else let (ok, w) = os_task_create os (m_world c) in
       (if ok then ESP_OK else ESP_FAIL, MQTT_API_UNLOCK (c\<lparr>m_world := w\<rparr>)))"

definition esp_mqtt_client_disconnect :: "'w esp_mqtt_client \<Rightarrow> esp_err \<times> 'w esp_mqtt_client" where
  "esp_mqtt_client_disconnect c = (ESP_OK, c\<lparr>disconnect_bit := True\<rparr>)"

definition esp_mqtt_client_reconnect :: "'w esp_mqtt_client \<Rightarrow> esp_err \<times> 'w esp_mqtt_client" where
  "esp_mqtt_client_reconnect c =
    (if m_state c \<noteq> MQTT_STATE_WAIT_TIMEOUT then (ESP_FAIL, c)
     else (ESP_OK, c\<lparr>wait_timeout_ms := 0, reconnect_bit := True\<rparr>))"

text \<open>\<open>esp_mqtt_client_stop\<close>; with \<open>ESP_OK\<close> the caller then waits for the bit \<open>STOPPED_BIT\<close>.\<close>

definition esp_mqtt_client_stop ::
  "'w mqtt_os \<Rightarrow> bool \<Rightarrow> 'w esp_mqtt_client \<Rightarrow> esp_err \<times> 'w esp_mqtt_client" where
  "esp_mqtt_client_stop os from_task c =
    (let c = MQTT_API_LOCK c;
         halt = (\<lambda>c. (ESP_OK, MQTT_API_UNLOCK (c\<lparr>m_run := False, m_state := MQTT_STATE_UNKNOWN\<rparr>))) in
     if m_run c then
       if from_task then (ESP_FAIL, MQTT_API_UNLOCK c)
       else if m_state c = MQTT_STATE_CONNECTED then
         let c = set_outbound (mqtt_msg_disconnect (mqtt_conn c)) c in
         if message_failed c then (ESP_FAIL, MQTT_API_UNLOCK c) else halt (snd (mqtt_write_data os c))
       else halt c
     else (ESP_FAIL, MQTT_API_UNLOCK c))"

text \<open>\<open>esp_mqtt_client_destroy\<close>: the heap blocks in use afterwards, as far as the outbox owns them, and the world; \<open>None\<close> for a null
  handle, which is refused.  \<open>wait_stopped\<close> is the end of the wait for \<open>STOPPED_BIT\<close>: the client as the last turn of the task leaves it.\<close>

definition esp_mqtt_client_destroy ::
  "'w mqtt_os \<Rightarrow> bool \<Rightarrow> ('w esp_mqtt_client \<Rightarrow> 'w esp_mqtt_client) \<Rightarrow> 'w esp_mqtt_client option \<Rightarrow> (esp_err \<times> nat set \<times> 'w) option" where
  "esp_mqtt_client_destroy os from_task wait_stopped client =
    (case client of
       None \<Rightarrow> None
     | Some c \<Rightarrow>
         let (r, c) = esp_mqtt_client_stop os from_task c;
             c = (if r = ESP_OK then wait_stopped c else c)
         in Some (ESP_OK, outbox_destroy (m_outbox c), m_world c))"

definition esp_mqtt_client_ping :: "'w mqtt_os \<Rightarrow> 'w esp_mqtt_client \<Rightarrow> esp_err \<times> 'w esp_mqtt_client" where
  "esp_mqtt_client_ping os c =
    (let c = set_outbound (mqtt_msg_pingreq (mqtt_conn c)) c in
     if message_failed c then (ESP_FAIL, c) else mqtt_write_data os c)"

text \<open>Waiting for the broker's answer.\<close>

partial_function (option) connack_loop ::
  "'w mqtt_os \<Rightarrow> int \<Rightarrow> u64 \<Rightarrow> 'w esp_mqtt_client \<Rightarrow> (int \<times> 'w esp_mqtt_client) option" where
  [code]: "connack_loop os timeout t0 c =
    (let (read_len, c) = mqtt_message_receive os timeout c in
     if read_len = 0 then
       let (t, c) = platform_tick_get_ms os c in
       if t - t0 < word_of_int timeout then connack_loop os timeout t0 c else Some (read_len, c)
     else Some (read_len, c))"

text \<open>What the answer means.\<close>

definition connack_result :: "'w mqtt_os \<Rightarrow> int \<Rightarrow> 'w esp_mqtt_client \<Rightarrow> esp_err \<times> 'w esp_mqtt_client" where
  "connack_result os read_len c =
    (if read_len \<le> 0 then (ESP_FAIL, c)
     else if mqtt_get_type (in_buffer c) \<noteq> MQTT_MSG_TYPE_CONNACK then (ESP_FAIL, c)
     else let code = mqtt_get_connect_return_code (in_buffer c); c = c\<lparr>in_buffer_read_len := 0\<rparr> in
       if code = MQTT_CONNECTION_ACCEPTED then (ESP_OK, c)
       else (ESP_FAIL, dispatch_id os MQTT_EVENT_ERROR (c\<lparr>m_event := (m_event c)
               \<lparr>e_error_type := MQTT_ERROR_TYPE_CONNECTION_REFUSED, e_connect_return_code := int code\<rparr>\<rparr>)))"

definition esp_mqtt_connect ::
  "'w mqtt_os \<Rightarrow> int \<Rightarrow> 'w esp_mqtt_client \<Rightarrow> (esp_err \<times> 'w esp_mqtt_client) option" where
  "esp_mqtt_connect os timeout_ms c =
    (let c = set_outbound (mqtt_msg_connect (connect_info c) (mqtt_conn c)) (c\<lparr>wait_for_ping_resp := False\<rparr>) in
     if message_failed c then Some (ESP_FAIL, c)
     else
       let c = c\<lparr>pending_msg_type := int (mqtt_get_type (outbound_data c)),
                 pending_msg_id := of_nat (mqtt_get_id (outbound_data c) (mm_length (mqtt_conn c)))\<rparr>;
           (write_len, w) = os_write os (take (mm_length (mqtt_conn c)) (outbound_data c))
                              (cfg_network_timeout_ms (m_config c)) (m_world c);
           c = c\<lparr>m_world := w\<rparr> in
       if write_len < 0 then Some (ESP_FAIL, c)
       else
         let (t0, c) = platform_tick_get_ms os (c\<lparr>in_buffer_read_len := 0, message_length := 0\<rparr>) in
         do { (read_len, c) \<leftarrow> connack_loop os (cfg_network_timeout_ms (m_config c)) t0 c;
              Some (connack_result os read_len c) })"

subsection \<open>The task\<close>

definition task_prologue :: "'w mqtt_os \<Rightarrow> 'w esp_mqtt_client \<Rightarrow> 'w esp_mqtt_client" where
  "task_prologue os c =
    (let found = os_transport os (cfg_scheme (m_config c));
         c = c\<lparr>m_run := found, m_transport := found\<rparr>;
         c = (if cfg_port (m_config c) = 0
              then c\<lparr>m_config := (m_config c)\<lparr>cfg_port := os_default_port os (cfg_scheme (m_config c))\<rparr>\<rparr> else c)
     in c\<lparr>m_state := MQTT_STATE_INIT, stopped_bit := False\<rparr>)"

definition pass_up :: "'w mqtt_os \<Rightarrow> 'w esp_mqtt_client \<Rightarrow> 'w esp_mqtt_client" where
  "pass_up os c =
    (let c = dispatch_id os MQTT_EVENT_CONNECTED (c\<lparr>m_state := MQTT_STATE_CONNECTED,
               m_event := (m_event c)\<lparr>e_session_present := int (mqtt_get_connect_session_present (in_buffer c))\<rparr>\<rparr>);
         (t, c) = platform_tick_get_ms os c
     in c\<lparr>refresh_connection_tick := t\<rparr>)"

definition pass_init :: "'w mqtt_os \<Rightarrow> 'w esp_mqtt_client \<Rightarrow> 'w esp_mqtt_client option" where
  "pass_init os c =
    (let c = dispatch_id os MQTT_EVENT_BEFORE_CONNECT (c\<lparr>reconnect_bit := False, disconnect_bit := False\<rparr>);
         c = (if \<not> m_transport c then c\<lparr>m_run := False\<rparr> else c);
         (r, w) = os_connect os (cfg_host (m_config c)) (cfg_port (m_config c)) (cfg_network_timeout_ms (m_config c))
                    (os_set_ssl os (m_world c));
         c = c\<lparr>m_world := w\<rparr> in
     if r < 0 then Some (esp_mqtt_abort_connection os (esp_mqtt_client_dispatch_transport_error os c))
     else do { (r, c) \<leftarrow> esp_mqtt_connect os (cfg_network_timeout_ms (m_config c)) c;
               Some (if r \<noteq> ESP_OK then esp_mqtt_abort_connection os c else pass_up os c) })"

text \<open>Sending queued messages first, and messages that got no answer again, one in a turn.  The number is
  \<open>last_retransmit\<close>.\<close>

definition pass_resend :: "'w mqtt_os \<Rightarrow> u64 \<Rightarrow> 'w esp_mqtt_client \<Rightarrow> u64 \<times> 'w esp_mqtt_client" where
  "pass_resend os lr c =
    (case outbox_dequeue (m_outbox c) QUEUED of
       Some item \<Rightarrow>
         (case mqtt_resend_queued os item c of
            (ESP_OK, c) \<Rightarrow> (lr, set_pending (uint (pending_msg_id c)) TRANSMITTED c)
          | (ESP_FAIL, c) \<Rightarrow> (lr, c))
     | None \<Rightarrow>
         let (t, c) = platform_tick_get_ms os c in
         if t - lr > 1000 then
           let (lr, c) = platform_tick_get_ms os c in
           (case outbox_dequeue (m_outbox c) TRANSMITTED of
              Some item \<Rightarrow> if lr - word_of_int (i_tick item) > 1000 then (lr, snd (mqtt_resend_queued os item c)) else (lr, c)
            | None \<Rightarrow> (lr, c))
         else (lr, c))"

text \<open>The keep-alive check: \<open>True\<close> when the connection was given up.\<close>

definition pass_keepalive :: "'w mqtt_os \<Rightarrow> 'w esp_mqtt_client \<Rightarrow> bool \<times> 'w esp_mqtt_client" where
  "pass_keepalive os c =
    (if keepalive (connect_info c) = 0 then (False, c)
     else let (t, c) = platform_tick_get_ms os c in
       if t - keepalive_tick c > word_of_int (keepalive (connect_info c) * 1000 div 2) then
         if wait_for_ping_resp c then (True, (esp_mqtt_abort_connection os c)\<lparr>wait_for_ping_resp := False\<rparr>)
         else (case esp_mqtt_client_ping os c of
             (ESP_FAIL, c) \<Rightarrow> (True, esp_mqtt_abort_connection os c)
           | (ESP_OK, c) \<Rightarrow> (False, c\<lparr>wait_for_ping_resp := True\<rparr>))
       else (False, c))"

definition pass_refresh :: "'w mqtt_os \<Rightarrow> 'w esp_mqtt_client \<Rightarrow> 'w esp_mqtt_client" where
  "pass_refresh os c =
    (if cfg_refresh_connection_after_ms (m_config c) = 0 then c
     else let (t, c) = platform_tick_get_ms os c in
       if t - refresh_connection_tick c > word_of_int (cfg_refresh_connection_after_ms (m_config c))
       then (esp_mqtt_abort_connection os c)\<lparr>m_state := MQTT_STATE_INIT\<rparr> else c)"

definition pass_connected :: "'w mqtt_os \<Rightarrow> u64 \<Rightarrow> 'w esp_mqtt_client \<Rightarrow> (u64 \<times> 'w esp_mqtt_client) option" where
  "pass_connected os lr c =
    (if disconnect_bit c then Some (lr, esp_mqtt_abort_connection os (c\<lparr>disconnect_bit := False\<rparr>))
     else do {
       (r, c) \<leftarrow> mqtt_process_receive os c;
       if r = ESP_FAIL then Some (lr, esp_mqtt_abort_connection os c)
       else
         let (lr, c) = pass_resend os lr (mqtt_delete_expired_messages os c);
             (gave_up, c) = pass_keepalive os c in
         if gave_up then Some (lr, c)
         else let c = pass_refresh os c in
           Some (lr, c\<lparr>m_outbox := snd (outbox_cleanup (m_outbox c) OUTBOX_MAX_SIZE)\<rparr>) })"

text \<open>Waiting before the next attempt: \<open>True\<close> when the turn ends with \<open>continue\<close>, the lock being given back.\<close>

definition pass_wait :: "'w mqtt_os \<Rightarrow> 'w esp_mqtt_client \<Rightarrow> bool \<times> 'w esp_mqtt_client" where
  "pass_wait os c =
    (if \<not> cfg_auto_reconnect (m_config c) then (False, c\<lparr>m_run := False, m_state := MQTT_STATE_UNKNOWN\<rparr>)
     else let (t, c) = platform_tick_get_ms os c in
       if t - reconnect_tick c > word_of_int (wait_timeout_ms c) then
         let (t, c) = platform_tick_get_ms os (c\<lparr>m_state := MQTT_STATE_INIT\<rparr>) in (False, c\<lparr>reconnect_tick := t\<rparr>)
       else (True, MQTT_API_UNLOCK c))"

text \<open>One turn of the loop, up to the unlocking: whether it ended with \<open>continue\<close>, and \<open>last_retransmit\<close>.\<close>

definition task_pass :: "'w mqtt_os \<Rightarrow> u64 \<Rightarrow> 'w esp_mqtt_client \<Rightarrow> (bool \<times> u64 \<times> 'w esp_mqtt_client) option" where
  "task_pass os lr c =
    (let c = MQTT_API_LOCK c in
     case m_state c of
       MQTT_STATE_INIT \<Rightarrow> map_option (\<lambda>c. (False, lr, MQTT_API_UNLOCK c)) (pass_init os c)
     | MQTT_STATE_CONNECTED \<Rightarrow> map_option (\<lambda>(lr, c). (False, lr, MQTT_API_UNLOCK c)) (pass_connected os lr c)
     | MQTT_STATE_WAIT_TIMEOUT \<Rightarrow>
         (case pass_wait os c of (True, c) \<Rightarrow> Some (True, lr, c) | (False, c) \<Rightarrow> Some (False, lr, MQTT_API_UNLOCK c))
     | _ \<Rightarrow> Some (False, lr, MQTT_API_UNLOCK c))"

definition task_poll :: "'w mqtt_os \<Rightarrow> 'w esp_mqtt_client \<Rightarrow> 'w esp_mqtt_client" where
  "task_poll os c =
    (if m_state c = MQTT_STATE_CONNECTED then
       let (r, w) = os_poll_read os MQTT_POLL_READ_TIMEOUT_MS (m_world c); c = c\<lparr>m_world := w\<rparr> in
       if r < 0 then esp_mqtt_abort_connection os c else c
     else c)"

definition task_epilogue :: "'w mqtt_os \<Rightarrow> 'w esp_mqtt_client \<Rightarrow> 'w esp_mqtt_client" where
  "task_epilogue os c = c\<lparr>m_world := os_close os (m_world c), stopped_bit := True\<rparr>"

text \<open>Registering a handler with the event loop takes the callback of the configuration out of use.\<close>

definition esp_mqtt_client_register_event :: "'w mqtt_os \<Rightarrow> int \<Rightarrow> 'w esp_mqtt_client \<Rightarrow> esp_err \<times> 'w esp_mqtt_client" where
  "esp_mqtt_client_register_event os event c =
    (let c = (if cfg_event_handle (m_config c) then c\<lparr>m_config := (m_config c)\<lparr>cfg_event_handle := False\<rparr>\<rparr> else c);
         (r, w) = os_register os event (m_world c)
     in (r, c\<lparr>m_world := w\<rparr>))"

definition esp_mqtt_client_get_outbox_size :: "'w esp_mqtt_client \<Rightarrow> int \<times> 'w esp_mqtt_client" where
  "esp_mqtt_client_get_outbox_size c =
    (let c = MQTT_API_LOCK c in (outbox_get_size (m_outbox c), MQTT_API_UNLOCK c))"

text \<open>The client with its task: where the task stands, and \<open>last_retransmit\<close>.\<close>

datatype mqtt_phase = Task_none | Task_begin | Task_loop u64 | Task_poll u64 | Task_gone

inductive mqtt_step :: "'w mqtt_os \<Rightarrow> mqtt_phase \<times> 'w esp_mqtt_client \<Rightarrow> mqtt_phase \<times> 'w esp_mqtt_client \<Rightarrow> bool"
  for os where
  step_start: "ph = Task_none \<or> ph = Task_gone \<Longrightarrow> esp_mqtt_client_start os c = (r, c') \<Longrightarrow>
    mqtt_step os (ph, c) (if r = ESP_OK then Task_begin else ph, c')"
| step_begin: "mqtt_step os (Task_begin, c) (Task_loop 0, task_prologue os c)"
| step_pass: "m_run c \<Longrightarrow> task_pass os lr c = Some (cont, lr', c') \<Longrightarrow>
    mqtt_step os (Task_loop lr, c) (if cont then Task_loop lr' else Task_poll lr', c')"
| step_poll: "mqtt_step os (Task_poll lr, c) (Task_loop lr, task_poll os c)"
| step_exit: "\<not> m_run c \<Longrightarrow> mqtt_step os (Task_loop lr, c) (Task_gone, task_epilogue os c)"
| step_publish: "esp_mqtt_client_publish os topic data len qos retain c = Some (r, c') \<Longrightarrow> mqtt_step os (ph, c) (ph, c')"
| step_enqueue: "esp_mqtt_client_enqueue os topic data len qos retain store c = Some (r, c') \<Longrightarrow> mqtt_step os (ph, c) (ph, c')"
| step_subscribe: "esp_mqtt_client_subscribe os topic qos c = Some (r, c') \<Longrightarrow> mqtt_step os (ph, c) (ph, c')"
| step_unsubscribe: "esp_mqtt_client_unsubscribe os topic c = Some (r, c') \<Longrightarrow> mqtt_step os (ph, c) (ph, c')"
| step_register: "mqtt_step os (ph, c) (ph, snd (esp_mqtt_client_register_event os event c))"
| step_disconnect: "mqtt_step os (ph, c) (ph, snd (esp_mqtt_client_disconnect c))"
| step_reconnect: "mqtt_step os (ph, c) (ph, snd (esp_mqtt_client_reconnect c))"
| step_stop: "mqtt_step os (ph, c) (ph, snd (esp_mqtt_client_stop os from_task c))"

end
