(* ===== verification/Mqtt_Env.thy ===== *)
theory Mqtt_Env
  imports Mqtt_Task
begin

text \<open>
  A concrete environment for the MQTT client: a transport with the bytes still to be read and those written, a clock,
  a heap and an application that records the events it gets.  The hypotheses on outside code hold in it, and the
  witnesses of the client's properties run in it.
\<close>

record mqtt_net =
  n_in :: bytes
  n_sent :: bytes
  n_clock :: u64
  n_events :: "esp_mqtt_event list"

definition fresh_block :: "nat set \<Rightarrow> nat option" where
  "fresh_block live = find (\<lambda>a. a \<notin> live) [1..<64]"

definition note_event :: "esp_mqtt_event \<Rightarrow> mqtt_net esp_mqtt_client \<Rightarrow> mqtt_net esp_mqtt_client" where
  "note_event ev c = c\<lparr>m_world := (m_world c)\<lparr>n_events := n_events (m_world c) @ [ev]\<rparr>\<rparr>"

definition net_os :: "mqtt_net mqtt_os" where
  "net_os = \<lparr>os_write = (\<lambda>bs t w. (int (length bs), w\<lparr>n_sent := n_sent w @ bs\<rparr>)),
     os_read = (\<lambda>n t w. let bs = take (nat n) (n_in w) in (int (length bs), bs, w\<lparr>n_in := drop (nat n) (n_in w)\<rparr>)),
     os_connect = (\<lambda>h p t w. (0, w)), os_close = (\<lambda>w. w), os_poll_read = (\<lambda>t w. (1, w)),
     os_tick = (\<lambda>w. (n_clock w, w)),
     os_calloc = (\<lambda>live w. (fresh_block live, w)),
     os_malloc = (\<lambda>n live w. (map_option (\<lambda>b. (b, replicate n 0)) (fresh_block live), w)),
     os_task_create = (\<lambda>w. (True, w)), os_transport = (\<lambda>s. True), os_default_port = (\<lambda>s. 1883), os_set_ssl = (\<lambda>w. w),
     os_register = (\<lambda>ev w. (ESP_OK, w)),
     os_env = \<lparr>MQTT_MSG_ID_INCREMENTAL = True, esp_random = (\<lambda>k. of_nat k)\<rparr>,
     os_event_handle = note_event, os_event_loop = note_event\<rparr>"

definition net_info :: mqtt_connect_info where
  "net_info = \<lparr>client_id = Some (cstr ''fan''), username = None, password = None, will_topic = None, will_message = [],
     keepalive = 120, will_length = 0, will_qos = 0, will_retain = False, clean_session = True, protocol_v31 = False\<rparr>"

definition net_config :: mqtt_config_storage where
  "net_config = \<lparr>cfg_event_handle = False, cfg_host = Some (cstr ''broker''), cfg_scheme = Some (cstr ''mqtt''), cfg_port = 0,
     cfg_auto_reconnect = True, cfg_network_timeout_ms = 10000, cfg_refresh_connection_after_ms = 0,
     cfg_reconnect_timeout_ms = 10000\<rparr>"

definition net_outbox :: outbox where
  "net_outbox = \<lparr>ob_addr = 1, ob_items = [], ob_live = {1}\<rparr>"

definition net_world :: "bytes \<Rightarrow> mqtt_net" where
  "net_world bs = \<lparr>n_in = bs, n_sent = [], n_clock = 5000, n_events = []\<rparr>"

text \<open>A client with an input and an output buffer of 32 bytes.\<close>

definition net_init :: "bytes \<Rightarrow> mqtt_net esp_mqtt_client option" where
  "net_init bs = init_client net_os net_info net_config 32 32 (\<lambda>n. Some (replicate (nat n) 0)) (Some net_outbox) (net_world bs)"

definition net_client :: "bytes \<Rightarrow> mqtt_net esp_mqtt_client" where
  "net_client bs = the (net_init bs)"

lemma net_init_Some: "net_init bs = Some (net_client bs)"
  by (simp add: net_client_def net_init_def init_client_def net_os_def Let_def)

end
