(* ===== verification/Mqtt_Len.thy ===== *)
theory Mqtt_Len
  imports Mqtt_Msg
begin

text \<open>
  The variable-length encoding of the remaining length: what \<open>fini_message\<close> encodes, the loops of the
  parsers decode, for every length below \<open>2 ^ 28\<close> and in at most four bytes.
\<close>

subsection \<open>Length bytes\<close>

lemma length_byte:
  assumes "m < 128"
  shows "(of_nat m :: u8) AND 0x80 = 0" "(of_nat (m + 128) :: u8) AND 0x80 \<noteq> 0"
    "ucast ((of_nat m :: u8) AND 0x7f) = (of_nat m :: u32)"
    "ucast ((of_nat (m + 128) :: u8) AND 0x7f) = (of_nat m :: u32)"
proof -
  have u: "unat (of_nat m :: u8) = m" "unat (of_nat (m + 128) :: u8) = m + 128"
    using assms by (simp_all add: unat_of_nat del: of_nat_add)
  show "(of_nat m :: u8) AND 0x80 = 0" "(of_nat (m + 128) :: u8) AND 0x80 \<noteq> 0"
    using assms u by (simp_all add: and_80 del: of_nat_add)
  have "ucast (w AND 0x7f) = (of_nat (unat w mod 128) :: u32)" for w :: u8
    unfolding and_7f [symmetric] by simp
  from this [of "of_nat m"] this [of "of_nat (m + 128)"]
  show "ucast ((of_nat m :: u8) AND 0x7f) = (of_nat m :: u32)"
    "ucast ((of_nat (m + 128) :: u8) AND 0x7f) = (of_nat m :: u32)"
    using assms u by (simp_all del: of_nat_add)
qed

subsection \<open>Encoding and decoding\<close>

lemma encode_len_ne [simp]: "encode_len n \<noteq> []"
  by (subst encode_len.simps) simp

lemma length_encode_len: "n < 128 ^ Suc k \<Longrightarrow> length (encode_len n) \<le> Suc k"
proof (induction k arbitrary: n)
  case 0
  then show ?case by (subst encode_len.simps) simp
next
  case (Suc k)
  have "n div 128 < 128 ^ Suc k" using Suc.prems by (simp add: less_mult_imp_div_less mult.commute)
  from Suc.IH [OF this] show ?case by (subst encode_len.simps) simp
qed

lemma length_encode_len_4: "n < 2 ^ 28 \<Longrightarrow> length (encode_len n) \<le> 4"
proof -
  assume "n < 2 ^ 28"
  moreover have "(2 :: nat) ^ 28 = 128 ^ Suc 3" by simp
  ultimately show ?thesis using length_encode_len [of n 3] by simp
qed

lemma scan_encode_len:
  assumes "1 \<le> i" "drop i b = encode_len n @ rest" "i + length (encode_len n) \<le> N"
  shows "scan_len b N i tot = (tot + of_nat (n * 2 ^ (7 * (i - 1))), i + length (encode_len n))"
  using assms
proof (induction n arbitrary: i tot rule: encode_len.induct)
  case (1 n)
  let ?m = "n mod 128"
  have m: "?m < 128" by simp
  have len: "i < length b" using 1(3) by (metis append_is_Nil_conv drop_eq_Nil encode_len_ne not_le_imp_less)
  then have at: "byte_at b i = hd (drop i b)" by (simp add: byte_at_def hd_drop_conv_nth)
  have lt: "i < N" using 1(4) by (metis encode_len_ne length_greater_0_conv less_le_trans less_add_same_cancel1)
  have shift: "push_bit k (of_nat x :: u32) = of_nat (x * 2 ^ k)" for k x
    by (simp add: push_bit_eq_mult)
  show ?case
  proof (cases "n div 128 = 0")
    case True
    then have e: "encode_len n = [of_nat ?m]" by (subst encode_len.simps) simp
    have "byte_at b i = of_nat ?m" using at 1(3) e by simp
    then have "scan_len b N i tot = (tot + of_nat (?m * 2 ^ (7 * (i - 1))), i + 1)"
      using lt length_byte(1,3) [OF m] by (subst scan_len.simps) (simp add: Let_def shift)
    moreover have "?m = n" using True by (simp add: div_eq_0_iff)
    ultimately show ?thesis using e by simp
  next
    case False
    then have e: "encode_len n = of_nat (?m + 128) # encode_len (n div 128)" by (subst encode_len.simps) simp
    have b: "byte_at b i = of_nat (?m + 128)" using at 1(3) e by simp
    let ?t = "tot + of_nat (?m * 2 ^ (7 * (i - 1)))"
    have "scan_len b N i tot = scan_len b N (i + 1) ?t"
      using lt b length_byte(2,4) [OF m] by (subst scan_len.simps) (simp add: Let_def shift del: of_nat_add)
    also have "\<dots> = (?t + of_nat (n div 128 * 2 ^ (7 * (i + 1 - 1))), i + 1 + length (encode_len (n div 128)))"
    proof (rule 1(1) [OF False])
      show "drop (i + 1) b = encode_len (n div 128) @ rest"
        using 1(3) e by (simp add: drop_Suc tl_drop [symmetric])
    qed (use 1(4) e in simp_all)
    finally have step: "scan_len b N i tot =
        (?t + of_nat (n div 128 * 2 ^ (7 * (i + 1 - 1))), i + 1 + length (encode_len (n div 128)))" .
    have "?m * 2 ^ (7 * (i - 1)) + n div 128 * 2 ^ (7 * (i + 1 - 1)) = n * 2 ^ (7 * (i - 1))"
    proof -
      have "7 * (i + 1 - 1) = 7 + 7 * (i - 1)" using 1(2) by simp
      then have eq: "n div 128 * 2 ^ (7 * (i + 1 - 1)) = (n div 128 * 128) * 2 ^ (7 * (i - 1))"
        by (simp only: power_add) simp
      show ?thesis unfolding eq add_mult_distrib [symmetric] by simp
    qed
    then have "?t + of_nat (n div 128 * 2 ^ (7 * (i + 1 - 1))) = tot + of_nat (n * 2 ^ (7 * (i - 1)))"
      unfolding add.assoc of_nat_add [symmetric] by simp
    with step e show ?thesis by simp
  qed
qed

end
