(* ===== verification/Mqtt_Build.thy ===== *)
theory Mqtt_Build
  imports Mqtt_Len
begin

text \<open>
  What the message builders leave in the buffer: the fixed header, the remaining length and the body, in
  that order and inside the buffer; and what the parsers read from such a message.
\<close>

subsection \<open>The first byte\<close>

lemma mask_numerals:
  "(0x0f :: u8) = mask 4" "(0xf0 :: u8) = push_bit 4 (mask 4)" "(0x06 :: u8) = push_bit 1 (mask 2)"
  "(0x08 :: u8) = push_bit 3 (mask 1)" "(3 :: u8) = mask 2" "(1 :: u8) = mask 1"
  by (simp_all add: mask_eq_exp_minus_1)

lemma packed_fields:
  fixes a b c d :: u8
  assumes "0 < p" "p < 2"
  defines "w \<equiv> push_bit 4 (a AND mask 4) OR push_bit 3 (b AND mask p) OR push_bit p (c AND mask 2) OR (d AND mask p)"
  shows "drop_bit 4 (w AND push_bit 4 (mask 4)) = a AND mask 4"
    "drop_bit p (w AND push_bit p (mask 2)) = c AND mask 2"
    "drop_bit 3 (w AND push_bit 3 (mask p)) = b AND mask p"
    "w AND mask p = d AND mask p"
  using assms(1,2) unfolding w_def
  by - ((rule bit_eqI), (auto simp: bit_simps))+

lemma type_byte_fields:
  "drop_bit 4 (type_byte t d q r AND 0xf0) = of_nat t AND 0x0f"
  "drop_bit 1 (type_byte t d q r AND 0x06) = word_of_int q AND 3"
  "drop_bit 3 (type_byte t d q r AND 0x08) = word_of_int d AND 1"
  "type_byte t d q r AND 1 = word_of_int r AND 1"
  unfolding type_byte_def mask_numerals by (rule packed_fields; simp only: zero_less_one one_less_numeral_iff semiring_norm)+

lemma unat_and_mask:
  "unat ((w :: u8) AND 0x0f) = unat w mod 16" "unat (w AND 3) = unat w mod 4" "unat (w AND 1) = unat w mod 2"
proof -
  have "w AND mask k = take_bit k w" for k by (simp add: take_bit_eq_mask)
  then have "unat (w AND mask k) = unat w mod 2 ^ k" for k
    by (simp add: unsigned_take_bit_eq take_bit_eq_mod [of k "unat w"])
  from this [of 4] this [of 2] this [of 1]
  show "unat (w AND 0x0f) = unat w mod 16" "unat (w AND 3) = unat w mod 4" "unat (w AND 1) = unat w mod 2"
    unfolding mask_numerals by simp_all
qed

lemma unat_of_int_mod: "k dvd 256 \<Longrightarrow> unat (word_of_int q :: u8) mod k = nat (q mod int k)"
proof -
  assume "k dvd 256"
  then have "int k dvd 256" by (metis int_dvd_int_iff of_nat_numeral)
  then have "(q mod 256) mod int k = q mod int k" by (rule mod_mod_cancel)
  moreover have "unat (word_of_int q :: u8) = nat (q mod 256)"
    by (simp add: unsigned_of_int take_bit_eq_mod)
  ultimately show ?thesis
    by (metis nat_int nat_mod_distrib of_nat_0_le_iff pos_mod_sign zero_less_numeral)
qed

lemma first_byte:
  assumes "t < 16"
  shows "mqtt_get_type (type_byte t d q r # m) = t"
    "mqtt_get_qos (type_byte t d q r # m) = nat (q mod 4)"
    "mqtt_get_dup (type_byte t d q r # m) = nat (d mod 2)"
    "mqtt_get_retain (type_byte t d q r # m) = nat (r mod 2)"
proof -
  have b: "byte_at (type_byte t d q r # m) 0 = type_byte t d q r" by (simp add: byte_at_def)
  have "unat (of_nat t :: u8) mod 16 = t" using assms by (simp add: unat_of_nat)
  then show "mqtt_get_type (type_byte t d q r # m) = t"
    unfolding mqtt_get_type_def b type_byte_fields unat_and_mask .
  show "mqtt_get_qos (type_byte t d q r # m) = nat (q mod 4)"
    "mqtt_get_dup (type_byte t d q r # m) = nat (d mod 2)"
    "mqtt_get_retain (type_byte t d q r # m) = nat (r mod 2)"
    unfolding mqtt_get_qos_def mqtt_get_dup_def mqtt_get_retain_def b type_byte_fields unat_and_mask
    using unat_of_int_mod [of 4 q] unat_of_int_mod [of 2 d] unat_of_int_mod [of 2 r] by simp_all
qed

subsection \<open>The body\<close>

text \<open>The bytes behind the room for the fixed header, while a message is under construction.\<close>

definition body :: "mqtt_connection \<Rightarrow> bytes" where
  "body c = drop MQTT_MAX_FIXED_HEADER_SIZE (take (mm_length c) (mc_buffer c))"

definition build_inv :: "mqtt_connection \<Rightarrow> bool" where
  "build_inv c \<longleftrightarrow> length (mc_buffer c) = mc_buffer_length c \<and> MQTT_MAX_FIXED_HEADER_SIZE \<le> mm_length c \<and>
     mm_length c \<le> mc_buffer_length c"

text \<open>A connection whose buffer has the announced size and room for a fixed header.\<close>

definition conn_wf :: "mqtt_connection \<Rightarrow> bool" where
  "conn_wf c \<longleftrightarrow> length (mc_buffer c) = mc_buffer_length c \<and> MQTT_MAX_FIXED_HEADER_SIZE \<le> mc_buffer_length c"

lemma build_inv_conn_wf: "build_inv c \<Longrightarrow> conn_wf c"
  by (simp add: build_inv_def conn_wf_def)

lemma init_message_inv:
  "conn_wf c \<Longrightarrow> build_inv (init_message c) \<and> body (init_message c) = []"
  by (simp add: conn_wf_def build_inv_def init_message_def body_def)

lemma length_body: "build_inv c \<Longrightarrow> length (body c) = mm_length c - 5"
  by (simp add: build_inv_def body_def)

text \<open>Writing at the end of the body.\<close>

lemma extend_body:
  assumes "build_inv c" "mm_length c + length d \<le> mc_buffer_length c"
    "mc_buffer c' = mem_write (mm_length c) d (mc_buffer c)" "mm_length c' = mm_length c + length d"
    "mc_buffer_length c' = mc_buffer_length c"
  shows "build_inv c' \<and> body c' = body c @ d"
proof -
  have "take (mm_length c + length d) (mc_buffer c') = take (mm_length c) (mc_buffer c) @ d"
    using assms by (simp add: take_mem_write_same build_inv_def)
  then show ?thesis using assms by (simp add: build_inv_def body_def)
qed

definition str_bytes :: "bytes \<Rightarrow> bytes" where
  "str_bytes s = [of_nat (length s div 256), of_nat (length s)] @ s"

lemma append_string_body:
  assumes "append_string s c = Some c'" "build_inv c"
  shows "build_inv c' \<and> body c' = body c @ str_bytes s \<and> mc_buffer_length c' = mc_buffer_length c \<and>
    fragmented_msg_total_length c' = fragmented_msg_total_length c"
proof -
  have c': "c' = c\<lparr>mm_length := mm_length c + length s + 2,
      mc_buffer := mem_write (mm_length c) (str_bytes s) (mc_buffer c)\<rparr>"
    and fits: "mm_length c + length s + 2 \<le> mc_buffer_length c"
    using assms(1) by (auto simp: append_string_def Let_def str_bytes_def split: if_splits)
  show ?thesis
    using extend_body [OF assms(2), of "str_bytes s" c'] fits by (simp add: c' str_bytes_def)
qed

lemma append_string_None:
  "append_string s c = None \<longleftrightarrow> mc_buffer_length c < mm_length c + length s + 2"
  by (auto simp: append_string_def Let_def)

lemma next_message_id_keeps:
  assumes "next_message_id env c = Some (m, c')"
  shows "mm_length c' = mm_length c" "mc_buffer c' = mc_buffer c" "mc_buffer_length c' = mc_buffer_length c"
    "fragmented_msg_total_length c' = fragmented_msg_total_length c"
  using assms by (auto simp: next_message_id_def Let_def split: if_splits option.splits)

lemma append_id_cases:
  assumes "append_message_id env mid c = Some (m, c')" "build_inv c"
  shows "if mm_length c + 2 > mc_buffer_length c then m = 0 \<and> conn_wf c'
    else build_inv c' \<and> body c' = body c @ [hi8 m, lo8 m] \<and> (mid \<noteq> 0 \<longrightarrow> m = mid) \<and>
      mc_buffer_length c' = mc_buffer_length c \<and>
      fragmented_msg_total_length c' = fragmented_msg_total_length c"
proof -
  obtain m1 c1 where n: "(if mid = 0 then next_message_id env c else Some (mid, c)) = Some (m1, c1)"
    using assms(1) by (auto simp: append_message_id_def split: option.splits)
  have k: "mm_length c1 = mm_length c" "mc_buffer c1 = mc_buffer c" "mc_buffer_length c1 = mc_buffer_length c"
    "fragmented_msg_total_length c1 = fragmented_msg_total_length c"
    using n next_message_id_keeps [of env c m1 c1] by (auto split: if_splits)
  have r: "(m, c') = (if mm_length c + 2 > mc_buffer_length c then (0, c1)
      else (m1, c1\<lparr>mm_length := mm_length c + 2, mc_buffer := mem_write (mm_length c) [hi8 m1, lo8 m1] (mc_buffer c)\<rparr>))"
    using assms(1) n k by (simp add: append_message_id_def split: if_splits)
  show ?thesis
  proof (cases "mm_length c + 2 > mc_buffer_length c")
    case True
    then show ?thesis using r k build_inv_conn_wf [OF assms(2)] by (simp add: conn_wf_def)
  next
    case False
    then have m: "m = m1" "mm_length c' = mm_length c + 2"
      "mc_buffer c' = mem_write (mm_length c) [hi8 m1, lo8 m1] (mc_buffer c)"
      "mc_buffer_length c' = mc_buffer_length c" "fragmented_msg_total_length c' = fragmented_msg_total_length c"
      using r k by auto
    then show ?thesis
      using False extend_body [OF assms(2), of "[hi8 m1, lo8 m1]" c'] n by (auto split: if_splits)
  qed
qed

subsection \<open>Finished messages\<close>

lemma fini_message_bytes:
  assumes "build_inv c" "n = (if fragmented_msg_total_length c \<noteq> 0 then fragmented_msg_total_length c - 5
      else mm_length c - 5)" "n < 2 ^ 28"
  shows "message_bytes (fini_message typ dup qos retain c) = type_byte typ dup qos retain # encode_len n @ body c
    \<and> conn_wf (fini_message typ dup qos retain c)"
proof -
  let ?h = "type_byte typ dup qos retain # encode_len n"
  let ?o = "4 - length (encode_len n)"
  have l: "length (encode_len n) \<le> 4" using assms(3) by (rule length_encode_len_4)
  have o: "?o + length ?h = 5" using l by simp
  have b: "length (mc_buffer c) = mc_buffer_length c" "5 \<le> mm_length c" "mm_length c \<le> mc_buffer_length c"
    using assms(1) by (simp_all add: build_inv_def)
  have "drop ?o (mem_write ?o ?h (mc_buffer c)) = ?h @ drop 5 (mc_buffer c)"
    using o b unfolding mem_write_def by simp
  moreover have "fini_message typ dup qos retain c = c\<lparr>mm_length := mm_length c - 5 + length (encode_len n) + 1,
      mm_off := ?o, fragmented_msg_data_offset := fragmented_msg_data_offset c - of_nat ?o,
      mc_buffer := mem_write ?o ?h (mc_buffer c)\<rparr>"
    using l assms(2) by (simp add: fini_message_def Let_def)
  ultimately show ?thesis
    using b o by (simp add: message_bytes_def body_def drop_take conn_wf_def)
qed

lemma fini_message_fields:
  assumes "n = (if fragmented_msg_total_length c \<noteq> 0 then fragmented_msg_total_length c - 5
      else mm_length c - 5)" "n < 2 ^ 28"
  shows "fragmented_msg_data_offset (fini_message typ dup qos retain c) =
      fragmented_msg_data_offset c - of_nat (4 - length (encode_len n))"
    "fragmented_msg_total_length (fini_message typ dup qos retain c) = fragmented_msg_total_length c"
    "mc_buffer_length (fini_message typ dup qos retain c) = mc_buffer_length c"
    "mm_length (fini_message typ dup qos retain c) = mm_length c - 5 + length (encode_len n) + 1"
  using assms length_encode_len_4 [OF assms(2)] by (simp_all add: fini_message_def Let_def)

end
