(* ===== verification/Mqtt_Props.thy ===== *)
theory Mqtt_Props
  imports Mqtt_Build
begin

text \<open>
  Properties of the MQTT message layer: what the builders produce is what the parsers read, including the
  identifiers, fragmented messages announce the length of all their fragments, and no builder leaves its
  buffer.
\<close>

subsection \<open>Remaining length\<close>

lemma scan_header:
  assumes "b = tb # encode_len n @ rest" "1 + length (encode_len n) \<le> N"
  shows "scan_len b N 1 0 = (of_nat n, 1 + length (encode_len n))"
  using scan_encode_len [of 1 b n rest N 0] assms by simp

lemma remaining_length_roundtrip_lemma:
  assumes "n < 2 ^ 28" "1 + length (encode_len n) \<le> N"
  shows "length (encode_len n) \<le> 4
    \<and> mqtt_get_total_length (tb # encode_len n @ rest) N =
        (of_nat (1 + length (encode_len n) + n), 1 + length (encode_len n))
    \<and> unat (fst (mqtt_get_total_length (tb # encode_len n @ rest) N)) = 1 + length (encode_len n) + n"
proof -
  have l: "length (encode_len n) \<le> 4" using assms(1) by (rule length_encode_len_4)
  have t: "mqtt_get_total_length (tb # encode_len n @ rest) N =
      (of_nat (1 + length (encode_len n) + n), 1 + length (encode_len n))"
    using scan_header [OF refl assms(2), of tb rest] by (simp add: mqtt_get_total_length_def add.commute)
  moreover have "1 + length (encode_len n) + n < 2 ^ 32" using l assms(1) by simp
  then have "unat (of_nat (1 + length (encode_len n) + n) :: u32) = 1 + length (encode_len n) + n"
    by (simp only: unat_of_nat) simp
  ultimately show ?thesis using l by simp
qed

lemma announced:
  assumes "b = tb # encode_len n @ rest" "n < 2 ^ 28"
  shows "unat (fst (mqtt_get_total_length b (length b))) = 1 + length (encode_len n) + n"
proof -
  have "1 + length (encode_len n) \<le> length b" by (simp add: assms(1))
  from remaining_length_roundtrip_lemma [OF assms(2) this, of tb rest, folded assms(1)] show ?thesis by blast
qed

lemma encode_len_ge: "128 ^ k \<le> n \<Longrightarrow> k < length (encode_len n)"
proof (induction k arbitrary: n)
  case (Suc k)
  then have "128 ^ k \<le> n div 128" by (simp add: less_eq_div_iff_mult_less_eq mult.commute)
  from Suc.IH [OF this] have "k < length (encode_len (n div 128))" .
  moreover have "n div 128 \<noteq> 0"
  proof -
    have "(1 :: nat) \<le> 128 ^ k" by simp
    then show ?thesis using \<open>128 ^ k \<le> n div 128\<close> by linarith
  qed
  ultimately show ?case by (subst encode_len.simps) simp
qed simp

text \<open>The array \<open>encoded_lens\<close> of four bytes holds the encoded length exactly for lengths below \<open>2 ^ 28\<close>;
  from there on the loop of \<open>fini_message\<close> has written behind its end before the check of the header size
  fails the message.\<close>

lemma encoded_lens_bound: "length (encode_len n) \<le> 4 \<longleftrightarrow> n < 2 ^ 28"
  using length_encode_len_4 [of n] encode_len_ge [of 4 n] by (cases "n < 2 ^ 28") auto

subsection \<open>Identifiers\<close>

lemma draw_id_nonzero:
  assumes "draw_id env k = Some y"
  shows "fst y \<noteq> 0"
  using assms
proof (rule draw_id.raw_induct [where P = "\<lambda>_ _ y. fst y \<noteq> 0", rotated])
  fix draw :: "mqtt_env \<Rightarrow> nat \<Rightarrow> (u16 \<times> nat) option" and env k y
  assume "\<And>env k y. draw env k = Some y \<Longrightarrow> fst y \<noteq> 0"
    and "(let m = of_nat (platform_random env k 65535) in
      if m = 0 then draw env (k + 1) else Some (m, k + 1)) = Some y"
  then show "fst y \<noteq> 0" by (auto simp: Let_def split: if_splits)
qed

lemma next_message_id_nonzero:
  assumes "next_message_id env c = Some (m, c')"
  shows "m \<noteq> 0"
proof (cases "MQTT_MSG_ID_INCREMENTAL env")
  case True
  with assms show ?thesis by (auto simp: next_message_id_def Let_def split: if_splits)
next
  case False
  then obtain k where "draw_id env (rand_pos c) = Some (m, k)"
    using assms by (auto simp: next_message_id_def split: option.splits)
  from draw_id_nonzero [OF this] show ?thesis by simp
qed

lemma append_message_id_nonzero:
  "append_message_id env mid c = Some (m, c') \<Longrightarrow> m = 0 \<Longrightarrow> mc_buffer_length c < mm_length c + 2"
  using next_message_id_nonzero next_message_id_keeps
  by (fastforce simp: append_message_id_def split: if_splits option.splits)

text \<open>The random source does not stand still at multiples of 65535.\<close>

definition random_moves :: "mqtt_env \<Rightarrow> bool" where
  "random_moves env \<longleftrightarrow> (\<forall>k. \<exists>j \<ge> k. platform_random env j 65535 \<noteq> 0)"

lemma draw_id_returns:
  assumes "j \<ge> k" "platform_random env j 65535 \<noteq> 0"
  shows "draw_id env k \<noteq> None"
  using assms
proof (induction "j - k" arbitrary: k)
  case 0
  have "platform_random env j 65535 < 65535" by (simp add: platform_random_def)
  then have "(of_nat (platform_random env j 65535) :: u16) \<noteq> 0"
    using 0(3) by (simp add: word_unat_eq_iff unat_of_nat)
  moreover have "k = j" using 0 by simp
  ultimately show ?case by (subst draw_id.simps) (simp add: Let_def)
next
  case (Suc d)
  then have "draw_id env (k + 1) \<noteq> None" by simp
  then show ?case by (subst draw_id.simps) (auto simp: Let_def)
qed

lemma next_message_id_returns:
  assumes "random_moves env"
  shows "next_message_id env c \<noteq> None"
proof -
  obtain j where "j \<ge> rand_pos c" "platform_random env j 65535 \<noteq> 0"
    using assms unfolding random_moves_def by blast
  from draw_id_returns [OF this] show ?thesis
    by (auto simp: next_message_id_def Let_def split: option.splits)
qed

lemma append_message_id_returns: "random_moves env \<Longrightarrow> append_message_id env mid c \<noteq> None"
  using next_message_id_returns [of env c] by (auto simp: append_message_id_def split: option.splits)

lemma builders_return:
  assumes "random_moves env \<or> MQTT_MSG_ID_INCREMENTAL env"
  shows "mqtt_msg_publish env topic data data_length qos retain mid c \<noteq> None
    \<and> mqtt_msg_subscribe env topic qos mid c \<noteq> None \<and> mqtt_msg_unsubscribe env topic mid c \<noteq> None
    \<and> ack_message env typ qos mid c \<noteq> None"
proof -
  have a: "append_message_id env mid' c' \<noteq> None" for mid' c'
    using assms append_message_id_returns [of env mid' c']
    by (auto simp: append_message_id_def next_message_id_def Let_def)
  then have a': "append_message_id env mid' c' = None \<longleftrightarrow> False" for mid' c' by simp
  show ?thesis
    by (auto simp: a' mqtt_msg_publish_def mqtt_msg_subscribe_def mqtt_msg_unsubscribe_def ack_message_def
        Let_def split: option.splits prod.splits)
qed

text \<open>C24: Publishing returns: whatever topic, data, quality of service and buffer, \<open>mqtt_msg_publish\<close>, the
  subscriptions and the acknowledgements leave their loop for a message identifier as long as the random
  source does not produce multiples of 65535 for ever (with incremental identifiers, always).\<close>

theorem message_builders_return:
  assumes "random_moves env \<or> MQTT_MSG_ID_INCREMENTAL env"
  shows "mqtt_msg_publish env topic data data_length qos retain mid c \<noteq> None
    \<and> mqtt_msg_subscribe env topic qos mid c \<noteq> None \<and> mqtt_msg_unsubscribe env topic mid c \<noteq> None
    \<and> ack_message env typ qos mid c \<noteq> None"
  using assms by (rule builders_return)

theorem message_builders_return_witness:
  "mqtt_msg_publish \<lparr>MQTT_MSG_ID_INCREMENTAL = False, esp_random = (\<lambda>k. 7)\<rparr>
     (Some [65]) (Some [1, 2]) 2 1 0 0 (mqtt_msg_init (replicate 64 0) 64) \<noteq> None"
proof -
  have "random_moves \<lparr>MQTT_MSG_ID_INCREMENTAL = False, esp_random = (\<lambda>k. 7)\<rparr>"
    by (auto simp: random_moves_def platform_random_def)
  then show ?thesis using message_builders_return by blast
qed

subsection \<open>Publishing\<close>

definition id_bytes :: "int \<Rightarrow> u16 \<Rightarrow> bytes" where
  "id_bytes qos m = (if qos > 0 then [hi8 m, lo8 m] else [])"

lemma given_cstr: "is_cstr t \<Longrightarrow> t \<noteq> [] \<Longrightarrow> given (Some t) = Some t"
  by (cases t) (auto simp: given_def byte_at_def)

lemma append_keeps_offset:
  "append_string s c = Some c' \<Longrightarrow> fragmented_msg_data_offset c' = fragmented_msg_data_offset c"
  "append_message_id env i c = Some (m, c') \<Longrightarrow> fragmented_msg_data_offset c' = fragmented_msg_data_offset c"
  by (auto simp: append_string_def append_message_id_def next_message_id_def Let_def split: if_splits option.splits)

lemma publish_header:
  assumes "mqtt_msg_publish env (Some t) (Some d) dl qos retain mid c = Some (m, c')" "conn_wf c"
    "is_cstr t" "t \<noteq> []" "7 + length t + length (id_bytes qos m) \<le> mc_buffer_length c"
  shows "\<exists>c1. build_inv c1 \<and> body c1 = str_bytes t @ id_bytes qos m \<and> mc_buffer_length c1 = mc_buffer_length c \<and>
    c' = fini_message MQTT_MSG_TYPE_PUBLISH 0 qos retain (place_data (Some d) dl c1) \<and>
    m \<noteq> 0 = (qos > 0) \<and> fragmented_msg_data_offset c1 = fragmented_msg_data_offset c"
proof -
  have i: "build_inv (init_message c)" "body (init_message c) = []" "mc_buffer_length (init_message c) = mc_buffer_length c"
    "mm_length (init_message c) = 5"
    using init_message_inv [OF assms(2)] by (simp_all add: init_message_def)
  have o: "fragmented_msg_data_offset (init_message c) = fragmented_msg_data_offset c" by (simp add: init_message_def)
  obtain c2 where c2: "append_string t (init_message c) = Some c2"
    using append_string_None [of t "init_message c"] assms(5) i(3,4) by (cases "append_string t (init_message c)") auto
  note b2 = append_string_body [OF c2 i(1)]
  have len2: "mm_length c2 = 7 + length t"
    using c2 i(4) by (auto simp: append_string_def Let_def split: if_splits)
  show ?thesis
  proof (cases "qos > 0")
    case True
    obtain m1 c1 where a: "append_message_id env 0 c2 = Some (m1, c1)"
      and m: "m = (if m1 = 0 then 0 else m1)"
      and r: "c' = (if m1 = 0 then fail_message c1
        else fini_message MQTT_MSG_TYPE_PUBLISH 0 qos retain (place_data (Some d) dl c1))"
      using assms(1) True c2 given_cstr [OF assms(3,4)]
      by (auto simp: mqtt_msg_publish_def split: option.splits prod.splits if_splits)
    have room: "\<not> mm_length c2 + 2 > mc_buffer_length c2"
      using assms(5) b2 i(3) len2 True by (simp add: id_bytes_def)
    have "m1 \<noteq> 0" using append_message_id_nonzero [OF a] room by auto
    then show ?thesis
      using append_id_cases [OF a] b2 room r m i True append_keeps_offset(1) [OF c2] append_keeps_offset(2) [OF a] o
      by (auto simp: id_bytes_def)
  next
    case False
    then show ?thesis
      using assms(1) c2 given_cstr [OF assms(3,4)] b2 i append_keeps_offset(1) [OF c2] o
      by (auto simp: mqtt_msg_publish_def id_bytes_def)
  qed
qed

lemma be16_append: "be16 (pre @ [a, b] @ post) (length pre) = 256 * unat a + unat b"
  by (simp add: be16_def byte_at_def nth_append)

lemma be16_str: "length s < 65536 \<Longrightarrow> be16 (pre @ str_bytes s @ post) (length pre) = length s"
proof -
  assume s: "length s < 65536"
  have "unat (of_nat (length s div 256) :: u8) = length s div 256" "unat (of_nat (length s) :: u8) = length s mod 256"
    using s by (simp_all add: unat_of_nat)
  then show ?thesis using be16_append [of pre _ _ "s @ post"] by (simp add: str_bytes_def)
qed

lemma be16_id: "be16 (pre @ [hi8 m, lo8 m] @ post) (length pre) = unat m"
  using be16_append [of pre "hi8 m" "lo8 m" post] unat_shl8_or_twice [of 0 "hi8 m" "lo8 m"] by simp

text \<open>What the parsers find in a message with the layout of a PUBLISH message, the first \<open>n\<close> bytes of whose
  \<open>total\<close> body bytes are there.\<close>

lemma parse_publish:
  assumes "b = type_byte MQTT_MSG_TYPE_PUBLISH 0 qos retain # encode_len n @ str_bytes t @ id_bytes qos m @ d"
    and "length t < 65536" "d \<noteq> []" "0 \<le> qos" "qos \<le> 2" "n < 2 ^ 28"
    and "n = length (str_bytes t @ id_bytes qos m @ d)"
  defines "h \<equiv> 1 + length (encode_len n)"
  shows "mqtt_get_publish_topic b (length b) = Some (h + 2, length t)"
    "mqtt_get_publish_data b (length b) = Some (h + 2 + length t + length (id_bytes qos m), length d)"
    "qos > 0 \<Longrightarrow> mqtt_get_id b (length b) = unat m"
    "mqtt_has_valid_msg_hdr b (length b)"
proof -
  have b: "b = (type_byte MQTT_MSG_TYPE_PUBLISH 0 qos retain # encode_len n) @ str_bytes t @ id_bytes qos m @ d"
    using assms(1) by simp
  have h: "length (type_byte MQTT_MSG_TYPE_PUBLISH 0 qos retain # encode_len n) = h" unfolding h_def by simp
  have scan: "scan_len b (length b) 1 0 = (of_nat n, h)"
    unfolding h_def by (rule scan_header [OF assms(1)]) (simp add: b)
  have topic: "be16 b h = length t" using be16_str [OF assms(2)] unfolding b h [symmetric] by blast
  have len: "length b = h + 2 + length t + length (id_bytes qos m) + length d" by (simp add: b h_def str_bytes_def)
  have "length (encode_len n) \<le> 4" using assms(6) by (rule length_encode_len_4)
  then have "h \<le> 5" by (simp add: h_def)
  have n: "n + h = length b" using assms(7) len by (simp add: str_bytes_def)
  have "int (length b) < 2 ^ 31" using n assms(6) \<open>h \<le> 5\<close> by simp
  then have tot: "sint (of_nat n + of_nat h :: u32) = int (length b)"
    by (simp add: signed_of_nat signed_take_bit_int_eq_self n [symmetric] flip: of_nat_add)
  have q: "mqtt_get_qos b = nat qos" "mqtt_get_type b = 3" "mqtt_get_dup b = 0"
    using first_byte [of 3 0 qos retain] assms(4,5) unfolding assms(1) by simp_all
  have dl: "0 < length d" using assms(3) by simp
  show "mqtt_get_publish_topic b (length b) = Some (h + 2, length t)"
    using scan topic len dl by (simp add: mqtt_get_publish_topic_def)
  show "mqtt_get_publish_data b (length b) = Some (h + 2 + length t + length (id_bytes qos m), length d)"
    using scan topic len dl q tot by (simp add: mqtt_get_publish_data_def id_bytes_def Let_def nat_add_distrib)
  show "mqtt_has_valid_msg_hdr b (length b)"
    using q len assms(5) by (auto simp: mqtt_has_valid_msg_hdr_def h_def)
  assume "qos > 0"
  then have i: "b = (type_byte MQTT_MSG_TYPE_PUBLISH 0 qos retain # encode_len n @ str_bytes t) @ [hi8 m, lo8 m] @ d"
    by (simp add: b id_bytes_def)
  have "be16 b (h + 2 + length t) = unat m"
    using be16_id [of "type_byte MQTT_MSG_TYPE_PUBLISH 0 qos retain # encode_len n @ str_bytes t" m d]
    unfolding i [symmetric] by (simp add: h_def str_bytes_def)
  then show "mqtt_get_id b (length b) = unat m"
    using scan topic len dl q \<open>qos > 0\<close> by (simp add: mqtt_get_id_def id_bytes_def Let_def)
qed

text \<open>The message built for a publication: the header, and as much of the data as fits.\<close>

lemma publish_message:
  assumes "mqtt_msg_publish env (Some t) (Some d) (length d) qos retain mid c = Some (m, c')" "conn_wf c"
    and "is_cstr t" "t \<noteq> []" "9 + length t \<le> mc_buffer_length c" "9 + length t + length d < 2 ^ 28"
  defines "h \<equiv> str_bytes t @ id_bytes qos m"
  defines "k \<equiv> min (length d) (mc_buffer_length c - (5 + length h))" and "n \<equiv> length h + length d"
  shows "message_bytes c' = type_byte MQTT_MSG_TYPE_PUBLISH 0 qos retain # encode_len n @ h @ take k d
    \<and> conn_wf c' \<and> mc_buffer_length c' = mc_buffer_length c \<and> m \<noteq> 0 = (qos > 0) \<and> n < 2 ^ 28
    \<and> mm_length c' = 1 + length (encode_len n) + length h + k
    \<and> (fragmented_msg_total_length c' = 0) = (k = length d)
    \<and> fragmented_msg_data_offset c' = (if k = length d then fragmented_msg_data_offset c else of_nat (5 + length h))
        - of_nat (4 - length (encode_len n))"
proof -
  have idl: "length (id_bytes qos m) \<le> 2" by (simp add: id_bytes_def)
  then have hdr: "7 + length t + length (id_bytes qos m) \<le> mc_buffer_length c" using assms(5) by simp
  from publish_header [OF assms(1-4) this] obtain c1 where c1: "build_inv c1"
    "body c1 = h" "mc_buffer_length c1 = mc_buffer_length c"
    "c' = fini_message MQTT_MSG_TYPE_PUBLISH 0 qos retain (place_data (Some d) (length d) c1)" "m \<noteq> 0 = (qos > 0)"
    "fragmented_msg_data_offset c1 = fragmented_msg_data_offset c"
    unfolding h_def by blast
  let ?c2 = "place_data (Some d) (length d) c1"
  have len: "mm_length c1 = 5 + length h" using length_body [OF c1(1)] c1(1,2) by (simp add: build_inv_def)
  have room: "mm_length c1 \<le> mc_buffer_length c1" using c1(1) by (simp add: build_inv_def)
  have fits: "(k = length d) = (mm_length c1 + length d \<le> mc_buffer_length c1)" and k: "mm_length c1 + k \<le> mc_buffer_length c1"
    "k \<le> length d" "k \<noteq> length d \<Longrightarrow> mm_length c1 + k = mc_buffer_length c1"
    using room by (auto simp: k_def len c1(3))
  have c2: "mc_buffer ?c2 = mem_write (mm_length c1) (take k d) (mc_buffer c1)" "mm_length ?c2 = mm_length c1 + k"
    "mc_buffer_length ?c2 = mc_buffer_length c1"
    "fragmented_msg_total_length ?c2 = (if k = length d then 0 else length d + mm_length c1)"
    "fragmented_msg_data_offset ?c2 = (if k = length d then fragmented_msg_data_offset c else of_nat (5 + length h))"
    using fits k len c1(3,6) by (auto simp: place_data_def k_def)
  have "build_inv ?c2 \<and> body ?c2 = body c1 @ take k d"
    by (rule extend_body [OF c1(1)]) (use k in \<open>simp_all add: c2\<close>)
  then have i2: "build_inv ?c2" "body ?c2 = h @ take k d" using c1(2) by simp_all
  have n: "n = (if fragmented_msg_total_length ?c2 \<noteq> 0 then fragmented_msg_total_length ?c2 - 5 else mm_length ?c2 - 5)"
    using len by (simp add: c2 n_def)
  have small: "n < 2 ^ 28" using assms(6) idl by (simp add: n_def h_def str_bytes_def)
  note fb = fini_message_bytes [OF i2(1) n small, of MQTT_MSG_TYPE_PUBLISH 0 qos retain, folded c1(4), unfolded i2(2)]
  show ?thesis
    using fb small c1(3,5) fini_message_fields [OF n small, of MQTT_MSG_TYPE_PUBLISH 0 qos retain, folded c1(4)] len
    by (auto simp: c2)
qed

text \<open>C22: Publishing and receiving are inverse: for a topic below 65536 bytes, data that is not empty and fits
  the buffer, and a quality of service of 0 to 2, the message \<open>mqtt_msg_publish\<close> builds is accepted by
  \<open>mqtt_has_valid_msg_hdr\<close>, announces its own length, and the parsers get type, quality of service, retain
  flag, topic, data and (if there is one) the nonzero identifier back.\<close>

theorem publish_roundtrip:
  assumes "mqtt_msg_publish env (Some t) (Some d) (length d) qos retain mid c = Some (m, c')" "conn_wf c"
    and "is_cstr t" "t \<noteq> []" "length t < 65536" "d \<noteq> []" "0 \<le> qos" "qos \<le> 2"
    and "9 + length t + length d \<le> mc_buffer_length c" "mc_buffer_length c < 2 ^ 28"
    and "b = message_bytes c'"
  shows "mqtt_has_valid_msg_hdr b (length b)
    \<and> mqtt_get_type b = MQTT_MSG_TYPE_PUBLISH \<and> mqtt_get_qos b = nat qos \<and> mqtt_get_retain b = nat (retain mod 2)
    \<and> unat (fst (mqtt_get_total_length b (length b))) = length b
    \<and> (\<exists>o'. mqtt_get_publish_topic b (length b) = Some (o', length t) \<and> take (length t) (drop o' b) = t)
    \<and> (\<exists>o'. mqtt_get_publish_data b (length b) = Some (o', length d) \<and> take (length d) (drop o' b) = d)
    \<and> (qos > 0 \<longrightarrow> m \<noteq> 0 \<and> mqtt_get_id b (length b) = unat m)"
proof -
  let ?body = "str_bytes t @ id_bytes qos m @ d"
  have idl: "length (id_bytes qos m) \<le> 2" by (simp add: id_bytes_def)
  have small: "length ?body < 2 ^ 28" using assms(9,10) idl by (simp add: str_bytes_def)
  have "min (length d) (mc_buffer_length c - (5 + length (str_bytes t @ id_bytes qos m))) = length d"
    using assms(9) idl by (simp add: str_bytes_def)
  then have b: "b = type_byte MQTT_MSG_TYPE_PUBLISH 0 qos retain # encode_len (length ?body) @ ?body"
    and m: "m \<noteq> 0 = (qos > 0)"
    using publish_message [OF assms(1-4)] assms(9-11) by (simp_all add: add.assoc)
  note P = parse_publish [OF b assms(5-8) small refl]
  have "unat (fst (mqtt_get_total_length b (length b))) = length b"
    unfolding announced [OF b small] by (simp add: b)
  moreover have "mqtt_get_type b = MQTT_MSG_TYPE_PUBLISH" "mqtt_get_qos b = nat qos" "mqtt_get_retain b = nat (retain mod 2)"
    using first_byte [of 3 0 qos retain] assms(7,8) unfolding b by simp_all
  moreover have "take (length t) (drop (1 + length (encode_len (length ?body)) + 2) b) = t"
    unfolding b by (simp add: str_bytes_def)
  moreover have "take (length d) (drop (1 + length (encode_len (length ?body)) + 2 + length t + length (id_bytes qos m)) b) = d"
    unfolding b by (simp add: str_bytes_def)
  ultimately show ?thesis using P m by blast
qed

definition demo_env :: mqtt_env where
  "demo_env = \<lparr>MQTT_MSG_ID_INCREMENTAL = False, esp_random = (\<lambda>k. 7)\<rparr>"

lemma demo_conn_wf: "conn_wf (mqtt_msg_init (replicate k 0) k)" if "5 \<le> k"
  using that by (simp add: conn_wf_def mqtt_msg_init_def)

lemma demo_random: "random_moves demo_env"
  by (auto simp: demo_env_def random_moves_def platform_random_def)

theorem publish_roundtrip_witness:
  "\<exists>m c'. mqtt_msg_publish demo_env (Some [65]) (Some [1, 2]) (length [1, 2 :: u8]) 1 0 0
      (mqtt_msg_init (replicate 64 0) 64) = Some (m, c') \<and>
    mqtt_has_valid_msg_hdr (message_bytes c') (length (message_bytes c')) \<and>
    mqtt_get_id (message_bytes c') (length (message_bytes c')) = unat m"
proof -
  let ?c = "mqtt_msg_init (replicate 64 0) 64"
  obtain m c' where r: "mqtt_msg_publish demo_env (Some [65]) (Some [1, 2]) (length [1, 2 :: u8]) 1 0 0 ?c = Some (m, c')"
    using builders_return [of demo_env "Some [65]" "Some [1, 2]" "length [1, 2 :: u8]" 1 0 0 ?c 0] demo_random by auto
  have "conn_wf ?c" by (rule demo_conn_wf) simp
  moreover have "mc_buffer_length ?c = 64" by (simp add: mqtt_msg_init_def)
  ultimately show ?thesis
    using r publish_roundtrip [OF r _ _ _ _ _ _ _ _ _ refl] by simp
qed

text \<open>A message that does not fit the buffer is announced with its full length and sent in fragments: the
  first message ends with the first part of the data, starting at \<open>fragmented_msg_data_offset\<close>, and the
  announced length is that of the header and all of the data.\<close>

lemma publish_fragment:
  assumes "mqtt_msg_publish env (Some t) (Some d) (length d) qos retain mid c = Some (m, c')" "conn_wf c"
    and "is_cstr t" "t \<noteq> []" "9 + length t \<le> mc_buffer_length c"
    and "mc_buffer_length c < 7 + length t + length d" "9 + length t + length d < 2 ^ 28"
    and "b = message_bytes c'" "k = unat (fragmented_msg_data_offset c')"
  shows "k \<le> length b \<and> drop k b = take (length b - k) d
    \<and> unat (fst (mqtt_get_total_length b (length b))) = k + length d
    \<and> fragmented_msg_total_length c' \<noteq> 0"
proof -
  define h where "h = str_bytes t @ id_bytes qos m"
  define n where "n = length h + length d"
  define room where "room = mc_buffer_length c - (5 + length h)"
  let ?L = "length (encode_len n)"
  have idl: "length h \<le> 4 + length t" "2 + length t \<le> length h" by (simp_all add: h_def id_bytes_def str_bytes_def)
  have lt: "room < length d" using assms(5,6) idl by (simp add: room_def)
  have small: "n < 2 ^ 28" using assms(7) idl by (simp add: n_def)
  have L: "?L \<le> 4" using small by (rule length_encode_len_4)
  note P = publish_message [OF assms(1-5,7), folded h_def, folded n_def room_def]
  have b: "b = type_byte MQTT_MSG_TYPE_PUBLISH 0 qos retain # encode_len n @ h @ take room d"
    using P lt assms(8) by (simp add: min_def)
  have "fragmented_msg_data_offset c' = of_nat (5 + length h) - of_nat (4 - ?L)" using P lt by (simp add: min_def)
  also have "\<dots> = of_nat (1 + ?L + length h)" using L by (simp add: of_nat_diff)
  finally have k: "k = 1 + ?L + length h"
    unfolding assms(9) using L idl assms(7) by (simp only: unat_of_nat) simp
  have "unat (fst (mqtt_get_total_length b (length b))) = k + length d"
    unfolding announced [OF b small] using k by (simp add: n_def)
  then show ?thesis using P lt unfolding b k by (simp add: min_def)
qed

subsection \<open>Acknowledgements and subscriptions\<close>

lemma short_len: "n < 128 \<Longrightarrow> encode_len n = [of_nat n]"
  by (subst encode_len.simps) simp

lemma ack_flags:
  "type_byte 4 0 0 0 AND 0x0f = 0" "type_byte 5 0 0 0 AND 0x0f = 0" "type_byte 6 0 1 0 AND 0x0f = 2"
  "type_byte 7 0 0 0 AND 0x0f = 0"
  by code_simp+

lemma parse_ack:
  assumes "mqtt_get_type b = typ" "typ \<in> {4, 5, 6, 7}" "byte_at b 1 AND 0x80 = 0"
    "byte_at b 0 AND 0x0f = (if typ = 6 then 2 else 0)"
  shows "mqtt_get_id b 4 = be16 b 2 \<and> mqtt_has_valid_msg_hdr b 4"
  using assms by (auto simp: mqtt_get_id_def mqtt_has_valid_msg_hdr_def)

text \<open>An acknowledgement built for a message identifier carries that identifier: for PUBACK, PUBREC, PUBREL
  and PUBCOMP on a connection with no fragmented message pending, the message has four bytes, a valid
  header and the announced length, and \<open>mqtt_get_id\<close> reads the identifier back.\<close>

lemma ack_roundtrip:
  assumes "conn_wf c" "7 \<le> mc_buffer_length c" "fragmented_msg_total_length c = 0" "mid \<noteq> 0"
    and "(build, typ) \<in> {(mqtt_msg_puback, MQTT_MSG_TYPE_PUBACK), (mqtt_msg_pubrec, MQTT_MSG_TYPE_PUBREC),
      (mqtt_msg_pubrel, MQTT_MSG_TYPE_PUBREL), (mqtt_msg_pubcomp, MQTT_MSG_TYPE_PUBCOMP)}"
  shows "\<exists>c'. build env mid c = Some c' \<and> length (message_bytes c') = 4
    \<and> mqtt_get_type (message_bytes c') = typ \<and> mqtt_get_id (message_bytes c') 4 = unat mid
    \<and> mqtt_has_valid_msg_hdr (message_bytes c') 4 \<and> conn_wf c'"
proof -
  define q :: int where "q = (if typ = MQTT_MSG_TYPE_PUBREL then 1 else 0)"
  have build: "build env mid c = ack_message env typ q mid c"
    using assms(5) by (auto simp: q_def mqtt_msg_puback_def mqtt_msg_pubrec_def mqtt_msg_pubrel_def mqtt_msg_pubcomp_def)
  have i: "build_inv (init_message c)" "body (init_message c) = []" "mm_length (init_message c) = 5"
    "mc_buffer_length (init_message c) = mc_buffer_length c" "fragmented_msg_total_length (init_message c) = 0"
    using init_message_inv [OF assms(1)] assms(3) by (simp_all add: init_message_def)
  obtain c1 where a: "append_message_id env mid (init_message c) = Some (mid, c1)"
    using assms(2,4) i by (simp add: append_message_id_def)
  have c1: "build_inv c1" "body c1 = [hi8 mid, lo8 mid]" "fragmented_msg_total_length c1 = 0"
    using append_id_cases [OF a i(1)] assms(2) i by simp_all
  have n: "2 = (if fragmented_msg_total_length c1 \<noteq> 0 then fragmented_msg_total_length c1 - 5 else mm_length c1 - 5)"
    using length_body [OF c1(1)] c1(2,3) by simp
  let ?c' = "fini_message typ 0 q 0 c1"
  have r: "build env mid c = Some ?c'" using build a assms(4) by (simp add: ack_message_def)
  have m: "message_bytes ?c' = type_byte typ 0 q 0 # 2 # [hi8 mid, lo8 mid]" "conn_wf ?c'"
    using fini_message_bytes [OF c1(1) n] c1(2) by (simp_all add: short_len)
  have t: "typ < 16" using assms(5) by auto
  note fb = first_byte [OF t, of 0 q 0 "2 # [hi8 mid, lo8 mid]", folded m(1)]
  have id4: "be16 (message_bytes ?c') 2 = unat mid"
    using be16_id [of "[type_byte typ 0 q 0, 2]" mid "[]"] by (simp add: m numeral_2_eq_2)
  have b1: "byte_at (message_bytes ?c') 1 AND 0x80 = 0" by (simp add: m byte_at_def and_80)
  have ty: "typ \<in> {4, 5, 6, 7}" using assms(5) by auto
  have "type_byte typ 0 q 0 AND 0x0f = (if typ = 6 then 2 else 0)"
    using ack_flags ty by (auto simp: q_def)
  then have "byte_at (message_bytes ?c') 0 AND 0x0f = (if typ = 6 then 2 else 0)"
    by (simp only: m byte_at_def) simp
  with ty show ?thesis using parse_ack [OF fb(1) _ b1] id4 r fb(1) m by auto
qed

subsection \<open>Memory safety of the builders\<close>

text \<open>What a builder leaves: a buffer of the announced size, and in it the message.\<close>

definition message_inside :: "mqtt_connection \<Rightarrow> bool" where
  "message_inside c \<longleftrightarrow> conn_wf c \<and> mm_off c + mm_length c \<le> mc_buffer_length c"

lemma message_inside_wf: "message_inside c \<Longrightarrow> conn_wf c"
  by (simp add: message_inside_def)

lemma fail_wf [simp]: "conn_wf (fail_message c) = conn_wf c"
  by (simp add: fail_message_def conn_wf_def)

lemma fail_in [simp]: "message_inside (fail_message c) = conn_wf c"
  by (simp add: fail_message_def conn_wf_def message_inside_def)

lemma fini_in: "build_inv c \<Longrightarrow> message_inside (fini_message typ dup qos retain c)"
  by (auto simp: fini_message_def Let_def message_inside_def conn_wf_def build_inv_def fail_message_def)

lemmas fini_wf = fini_in [THEN message_inside_wf]

text \<open>While the connect message is built, the byte of its flags stays inside the buffer.\<close>

definition flag_inv :: "nat \<Rightarrow> mqtt_connection \<Rightarrow> bool" where
  "flag_inv pos c \<longleftrightarrow> build_inv c \<and> pos < mc_buffer_length c"

lemma flag_inv_build: "flag_inv pos c \<Longrightarrow> build_inv c"
  by (simp add: flag_inv_def)

lemma or_flag_inv: "flag_inv pos c \<Longrightarrow> flag_inv pos (or_flag pos bits c)"
  by (simp add: flag_inv_def or_flag_def build_inv_def)

lemma append_string_inv: "append_string t c = Some c' \<Longrightarrow> flag_inv pos c \<Longrightarrow> flag_inv pos c'"
  using append_string_body [of t c c'] by (simp add: flag_inv_def)

lemma place_data_inv: "build_inv c \<Longrightarrow> build_inv (place_data data dl c)"
  by (auto simp: place_data_def build_inv_def split: option.split)

lemma append_will_inv:
  "flag_inv fo c \<Longrightarrow> case append_will fo info c of Inl c' \<Rightarrow> flag_inv fo c' | Inr c' \<Rightarrow> flag_inv fo c'"
  by (auto simp: append_will_def Let_def intro!: or_flag_inv dest: append_string_inv split: option.split)

lemma append_opt_inv: "append_opt fo bits s c = Some c' \<Longrightarrow> flag_inv fo c \<Longrightarrow> flag_inv fo c'"
  by (auto simp: append_opt_def intro!: or_flag_inv dest: append_string_inv split: option.splits)

lemma append_id_wf:
  assumes "append_message_id env mid c = Some (m, c')" "build_inv c"
  shows "conn_wf c'" "m \<noteq> 0 \<Longrightarrow> build_inv c'"
  using append_id_cases [OF assms] build_inv_conn_wf by (auto split: if_splits)

lemma connect_in:
  assumes "conn_wf c"
  shows "message_inside (mqtt_msg_connect info c)"
proof -
  define hl where "hl = (if protocol_v31 info then MQTT_3_1_VARIABLE_HEADER_SIZE else MQTT_3_1_1_VARIABLE_HEADER_SIZE)"
  have vh: "length (variable_header info) = hl" by (simp add: variable_header_def hl_def cstr_def)
  have i: "build_inv (init_message c)" "mm_length (init_message c) = 5" "conn_wf (init_message c)"
    using init_message_inv [OF assms] build_inv_conn_wf by (auto simp: init_message_def)
  let ?c1 = "(init_message c)\<lparr>mm_length := mm_length (init_message c) + hl,
    mc_buffer := mem_write (mm_length (init_message c)) (variable_header info) (mc_buffer (init_message c))\<rparr>"
  have c1: "flag_inv (mm_length (init_message c) + hl - 3) ?c1"
    if "mm_length (init_message c) + hl \<le> mc_buffer_length (init_message c)"
    using extend_body [OF i(1), of "variable_header info" ?c1] that vh i(2)
    by (simp add: flag_inv_def hl_def split: if_splits)
  have step: "message_inside (case given (client_id info) of None \<Rightarrow> fail_message c2 | Some cid \<Rightarrow>
      (case append_string cid c2 of None \<Rightarrow> fail_message c2 | Some c \<Rightarrow>
      (case append_will fo info c of Inl c \<Rightarrow> fail_message c | Inr c \<Rightarrow>
      (case append_opt fo MQTT_CONNECT_FLAG_USERNAME (username info) c of None \<Rightarrow> fail_message c | Some c \<Rightarrow>
      (case append_opt fo MQTT_CONNECT_FLAG_PASSWORD (password info) c of None \<Rightarrow> fail_message c | Some c \<Rightarrow>
         fini_message MQTT_MSG_TYPE_CONNECT 0 0 0 c)))))" if c2: "flag_inv fo c2" for c2 fo
  proof -
    have wf: "conn_wf c" if "flag_inv fo c" for c
      using that by (rule build_inv_conn_wf [OF flag_inv_build])
    have fin: "message_inside (fini_message k 0 0 0 c)" if "flag_inv fo c" for c k
      using that by (rule fini_in [OF flag_inv_build])
    have will: "append_will fo info c = Inl c' \<Longrightarrow> flag_inv fo c \<Longrightarrow> flag_inv fo c'"
      "append_will fo info c = Inr c' \<Longrightarrow> flag_inv fo c \<Longrightarrow> flag_inv fo c'" for c c'
      using append_will_inv [of fo c info] by auto
    show ?thesis
      using c2 by (auto split: option.split sum.split intro!: wf fin dest: append_string_inv append_opt_inv will)
  qed
  show ?thesis
  proof (cases "mm_length (init_message c) + hl > mc_buffer_length (init_message c)")
    case True
    then show ?thesis using i by (simp add: mqtt_msg_connect_def Let_def hl_def [symmetric])
  next
    case False
    let ?fo = "mm_length (init_message c) + hl - 3"
    let ?c2 = "if clean_session info then or_flag ?fo MQTT_CONNECT_FLAG_CLEAN_SESSION ?c1 else ?c1"
    have "flag_inv ?fo ?c2" using c1 False by (auto intro: or_flag_inv)
    from step [OF this] False show ?thesis
      unfolding mqtt_msg_connect_def Let_def hl_def [symmetric] by (simp only: if_False)
  qed
qed

lemmas connect_wf = connect_in [THEN message_inside_wf]

lemma publish_in:
  assumes "conn_wf c" "mqtt_msg_publish env topic data dl qos retain mid c = Some (m, c')"
  shows "message_inside c'"
proof -
  have i: "build_inv (init_message c)" "conn_wf (init_message c)"
    using init_message_inv [OF assms(1)] build_inv_conn_wf by auto
  show ?thesis
  proof (cases "given topic")
    case None
    with assms(2) i show ?thesis by (auto simp: mqtt_msg_publish_def)
  next
    case (Some t)
    show ?thesis
    proof (cases "append_string t (init_message c)")
      case None
      with Some assms(2) i show ?thesis by (auto simp: mqtt_msg_publish_def)
    next
      case (Some c2)
      then have c2: "build_inv c2" using append_string_body i(1) by blast
      then show ?thesis
        using Some \<open>given topic = Some t\<close> assms(2) append_id_wf [of env 0 c2] build_inv_conn_wf [OF c2]
        by (auto simp: mqtt_msg_publish_def intro!: fini_in place_data_inv split: if_splits option.splits)
    qed
  qed
qed

lemmas publish_wf = publish_in [THEN message_inside_wf]

lemma subscribe_in:
  assumes "conn_wf c"
  shows "mqtt_msg_subscribe env topic qos mid c = Some (m, c') \<Longrightarrow> message_inside c'"
    "mqtt_msg_unsubscribe env topic mid c = Some (m, c') \<Longrightarrow> message_inside c'"
proof -
  have i: "build_inv (init_message c)" "conn_wf (init_message c)"
    using init_message_inv [OF assms] build_inv_conn_wf by auto
  have a: "append_string t c2 = Some c3 \<Longrightarrow> build_inv c2 \<Longrightarrow> build_inv c3" for t c2 c3
    using append_string_body by blast
  have q: "build_inv c3 \<Longrightarrow> \<not> mc_buffer_length c3 < Suc (mm_length c3) \<Longrightarrow>
      build_inv (c3\<lparr>mc_buffer := poke (mm_length c3) x (mc_buffer c3), mm_length := Suc (mm_length c3)\<rparr>)" for c3 x
    by (simp add: build_inv_def)
  show "mqtt_msg_subscribe env topic qos mid c = Some (m, c') \<Longrightarrow> message_inside c'"
    using i append_id_wf [OF _ i(1), of env 0]
    by (auto simp: mqtt_msg_subscribe_def Let_def intro!: fini_in q split: if_splits option.splits)
      (use a build_inv_conn_wf in \<open>metis+\<close>)
  show "mqtt_msg_unsubscribe env topic mid c = Some (m, c') \<Longrightarrow> message_inside c'"
    using i append_id_wf [OF _ i(1), of env 0]
    by (auto simp: mqtt_msg_unsubscribe_def Let_def intro!: fini_in intro: a build_inv_conn_wf split: if_splits option.splits)
qed

lemmas subscribe_wf = subscribe_in [THEN message_inside_wf]

text \<open>C26: No builder leaves its buffer: whatever topic, data, options and connection state it is called with,
  every message builder keeps the buffer at its size, where a write past its end would lengthen it (\<^theory_text>\<open>poke\<close>,
  \<^theory_text>\<open>mem_write\<close>), and the message it announces lies inside the buffer, given a buffer with room for a fixed
  header.\<close>

theorem builders_stay_in_buffer:
  assumes "conn_wf c"
  shows "message_inside (mqtt_msg_connect info c)
    \<and> (mqtt_msg_publish env topic data dl qos retain mid c = Some (m, c1) \<longrightarrow> message_inside c1)
    \<and> (ack_message env typ qos mid c = Some c2 \<longrightarrow> message_inside c2)
    \<and> (mqtt_msg_subscribe env topic qos mid c = Some (m, c3) \<longrightarrow> message_inside c3)
    \<and> (mqtt_msg_unsubscribe env topic mid c = Some (m, c4) \<longrightarrow> message_inside c4)
    \<and> message_inside (mqtt_msg_pingreq c) \<and> message_inside (mqtt_msg_pingresp c) \<and> message_inside (mqtt_msg_disconnect c)"
proof -
  have i: "build_inv (init_message c)" using init_message_inv [OF assms] by simp
  have "ack_message env typ qos mid c = Some c2 \<longrightarrow> message_inside c2"
    using append_id_wf [OF _ i] by (auto simp: ack_message_def intro!: fini_in split: if_splits option.splits)
  then show ?thesis
    using connect_in [OF assms] publish_in [OF assms] subscribe_in [OF assms] fini_in [OF i]
    by (auto simp: mqtt_msg_pingreq_def mqtt_msg_pingresp_def mqtt_msg_disconnect_def)
qed

theorem builders_stay_in_buffer_witness:
  "\<exists>m c. mqtt_msg_subscribe demo_env (Some [65, 66]) 1 0 (mqtt_msg_init (replicate 11 0) 11) = Some (m, c) \<and> message_inside c"
proof -
  let ?c = "mqtt_msg_init (replicate 11 0) 11"
  obtain m c where r: "mqtt_msg_subscribe demo_env (Some [65, 66]) 1 0 ?c = Some (m, c)"
    using builders_return [of demo_env "Some [65, 66]" None 0 1 0 0 ?c 0] demo_random by auto
  have "conn_wf ?c" by (rule demo_conn_wf) simp
  from builders_stay_in_buffer [OF this] r show ?thesis by blast
qed

end
