(* ===== verification/Mqtt_Outbox_Props.thy ===== *)
theory Mqtt_Outbox_Props
  imports Mqtt_Outbox Interfaces
begin

text \<open>
  The outbox frees exactly what it allocated, deletes exactly what it is asked to delete, and hands out the
  queued messages in the order they came.
\<close>

subsection \<open>Heap blocks\<close>

definition blocks :: "outbox \<Rightarrow> nat list" where
  "blocks ob = ob_addr ob # map i_addr (ob_items ob) @ map i_buf (ob_items ob)"

text \<open>The blocks of the outbox are distinct, and together with the blocks \<open>base\<close> of the rest of the program
  they are the blocks in use.\<close>

definition ob_wf :: "nat set \<Rightarrow> outbox \<Rightarrow> bool" where
  "ob_wf base ob \<longleftrightarrow> distinct (blocks ob) \<and> base \<inter> set (blocks ob) = {} \<and> ob_live ob = base \<union> set (blocks ob)"

lemma addr_inj:
  "ob_wf base ob \<Longrightarrow> x \<in> set (ob_items ob) \<Longrightarrow> y \<in> set (ob_items ob) \<Longrightarrow> i_addr x = i_addr y \<Longrightarrow> x = y"
  by (auto simp: ob_wf_def blocks_def distinct_map inj_on_def)

lemma remove_item_items:
  "ob_wf base ob \<Longrightarrow> it \<in> set (ob_items ob) \<Longrightarrow>
   ob_items (remove_item it ob) = filter (\<lambda>x. x \<noteq> it) (ob_items ob)"
  using addr_inj [of base ob] by (auto simp: remove_item_def intro!: filter_cong)

lemma remove_item_wf:
  assumes "ob_wf base ob" "it \<in> set (ob_items ob)"
  shows "ob_wf base (remove_item it ob)"
proof -
  let ?r = "remove_item it ob"
  have items: "ob_items ?r = filter (\<lambda>x. x \<noteq> it) (ob_items ob)" by (rule remove_item_items [OF assms])
  have d: "distinct (map i_addr (ob_items ob))" "distinct (map i_buf (ob_items ob))"
    "i_addr ` set (ob_items ob) \<inter> i_buf ` set (ob_items ob) = {}" "ob_addr ob \<notin> i_addr ` set (ob_items ob)"
    "ob_addr ob \<notin> i_buf ` set (ob_items ob)"
    using assms(1) by (auto simp: ob_wf_def blocks_def)
  have "distinct (map i_addr (ob_items ?r))" "distinct (map i_buf (ob_items ?r))"
    using d(1,2) by (simp_all add: items distinct_map_filter)
  then have "distinct (blocks ?r)" using d(3-5) by (auto simp: blocks_def items remove_item_def)
  moreover have "i_addr ` {x \<in> set (ob_items ob). x \<noteq> it} = i_addr ` set (ob_items ob) - {i_addr it}"
    "i_buf ` {x \<in> set (ob_items ob). x \<noteq> it} = i_buf ` set (ob_items ob) - {i_buf it}"
    using d(1,2) assms(2) by (auto simp: distinct_map inj_on_def)
  then have "set (blocks ?r) = set (blocks ob) - {i_buf it} - {i_addr it}"
    using d(3-5) assms(2) by (auto simp: blocks_def items remove_item_def)
  moreover have "ob_live ?r = ob_live ob - {i_buf it} - {i_addr it}" by (simp add: remove_item_def)
  moreover have "i_buf it \<notin> base" "i_addr it \<notin> base"
    using assms by (auto simp: ob_wf_def blocks_def)
  ultimately show ?thesis using assms(1) by (auto simp: ob_wf_def)
qed

lemma remove_first_laws:
  assumes "ob_wf base ob" "remove_first P ob = (r, ob')"
  shows "ob_wf base ob'"
    "r = None \<Longrightarrow> ob' = ob \<and> (\<forall>x \<in> set (ob_items ob). \<not> P x)"
    "r = Some it \<Longrightarrow> it \<in> set (ob_items ob) \<and> P it \<and> ob_items ob' = filter (\<lambda>x. x \<noteq> it) (ob_items ob)"
proof -
  have "it \<in> set (ob_items ob) \<and> P it" if "find P (ob_items ob) = Some it" for it
    using that by (auto simp: find_Some_iff)
  then show "ob_wf base ob'" "r = None \<Longrightarrow> ob' = ob \<and> (\<forall>x \<in> set (ob_items ob). \<not> P x)"
    "r = Some it \<Longrightarrow> it \<in> set (ob_items ob) \<and> P it \<and> ob_items ob' = filter (\<lambda>x. x \<noteq> it) (ob_items ob)"
    using assms(2) remove_item_wf [OF assms(1)] remove_item_items [OF assms(1)] assms(1)
    by (auto simp: remove_first_def find_None_iff split: option.splits)
qed

lemma remove_fold:
  assumes "ob_wf base ob" "set xs \<subseteq> set (ob_items ob)" "distinct xs"
  shows "ob_wf base (fold (\<lambda>it ob. if P it then remove_item it ob else ob) xs ob)"
    "ob_items (fold (\<lambda>it ob. if P it then remove_item it ob else ob) xs ob) =
      filter (\<lambda>x. \<not> (x \<in> set xs \<and> P x)) (ob_items ob)"
proof -
  have "ob_wf base (fold (\<lambda>it ob. if P it then remove_item it ob else ob) xs ob) \<and>
    ob_items (fold (\<lambda>it ob. if P it then remove_item it ob else ob) xs ob) =
      filter (\<lambda>x. \<not> (x \<in> set xs \<and> P x)) (ob_items ob)"
    using assms
  proof (induction xs arbitrary: ob)
    case (Cons it xs)
    let ?ob = "if P it then remove_item it ob else ob"
    have items: "ob_items ?ob = filter (\<lambda>x. \<not> (x = it \<and> P x)) (ob_items ob)"
      using remove_item_items [OF Cons.prems(1), of it] Cons.prems(2) by (auto intro!: filter_cong)
    moreover have "ob_wf base ?ob" using remove_item_wf [OF Cons.prems(1), of it] Cons.prems(1,2) by auto
    moreover have "set xs \<subseteq> set (ob_items ?ob)" using Cons.prems(2,3) by (auto simp: items)
    ultimately show ?case
      using Cons.IH [of ?ob] Cons.prems(3) by (auto intro!: filter_cong)
  qed simp
  then show "ob_wf base (fold (\<lambda>it ob. if P it then remove_item it ob else ob) xs ob)"
    "ob_items (fold (\<lambda>it ob. if P it then remove_item it ob else ob) xs ob) =
      filter (\<lambda>x. \<not> (x \<in> set xs \<and> P x)) (ob_items ob)" by auto
qed

lemma items_distinct: "ob_wf base ob \<Longrightarrow> distinct (ob_items ob)"
  by (auto simp: ob_wf_def blocks_def distinct_map)

lemma remove_all_laws:
  assumes "ob_wf base ob"
  shows "ob_wf base (remove_all P ob)" "ob_items (remove_all P ob) = filter (\<lambda>x. \<not> P x) (ob_items ob)"
  using remove_fold [OF assms subset_refl items_distinct [OF assms]]
  by (auto simp: remove_all_def intro!: filter_cong)

lemma update_item_wf:
  assumes "ob_wf base ob" "\<And>it. i_addr (f it) = i_addr it" "\<And>it. i_buf (f it) = i_buf it"
  shows "ob_wf base (snd (update_item msg_id f ob))"
proof -
  have "blocks (snd (update_item msg_id f ob)) = blocks ob" "ob_live (snd (update_item msg_id f ob)) = ob_live ob"
    by (cases "outbox_get ob msg_id"; simp add: update_item_def blocks_def assms(2,3))+
  with assms(1) show ?thesis by (simp add: ob_wf_def)
qed

subsection \<open>Properties of the operations\<close>

lemma fold_count:
  "fold (\<lambda>it (n, ob). if P it then (n + 1, remove_item it ob) else (n, ob)) xs (n, ob) =
    (n + int (length (filter P xs)), fold (\<lambda>it ob. if P it then remove_item it ob else ob) xs ob)"
  by (induction xs arbitrary: n ob) auto

text \<open>Deleting expired messages removes exactly the messages older than the timeout, keeps the others in
  order, frees their two heap blocks each, and returns their number.\<close>

lemma delete_expired_exact:
  assumes "ob_wf base ob" "outbox_delete_expired ob now timeout = (n, ob')"
  shows "n = int (length (filter (expired now timeout) (ob_items ob)))
    \<and> ob_items ob' = filter (\<lambda>it. \<not> expired now timeout it) (ob_items ob) \<and> ob_wf base ob'"
  using assms(2) remove_all_laws [OF assms(1), of "expired now timeout"]
  by (auto simp: outbox_delete_expired_def fold_count remove_all_def)

lemma cleanup_laws:
  "ob_wf base ob \<Longrightarrow> outbox_cleanup ob max_size = (r, ob') \<Longrightarrow>
    ob_wf base ob' \<and> (if r = ESP_OK then outbox_get_size ob' \<le> max_size
      else outbox_get_size ob' > max_size \<and> (\<forall>it \<in> set (ob_items ob'). i_pending it \<noteq> CONFIRMED)) \<and>
    filter (\<lambda>it. i_pending it \<noteq> CONFIRMED) (ob_items ob') = filter (\<lambda>it. i_pending it \<noteq> CONFIRMED) (ob_items ob)"
proof (induction ob max_size rule: outbox_cleanup.induct)
  case (1 ob max_size)
  show ?case
  proof (cases "outbox_get_size ob > max_size")
    case False
    with 1(3) have "r = ESP_OK" "ob' = ob" by (simp_all add: outbox_cleanup.simps)
    with 1(2) False show ?thesis by simp
  next
    case True
    show ?thesis
    proof (cases "outbox_dequeue ob CONFIRMED")
      case None
      with True 1(3) have "r = ESP_FAIL" "ob' = ob" by (simp_all add: outbox_cleanup.simps)
      with 1(2) True None show ?thesis by (auto simp: outbox_dequeue_def find_None_iff)
    next
      case (Some it)
      note it = outbox_dequeue_mem [OF Some]
      have "outbox_cleanup (remove_item it ob) max_size = (r, ob')"
        using True Some 1(3) by (simp add: outbox_cleanup.simps [of ob])
      from 1(1) [OF True Some remove_item_wf [OF 1(2)] this] it
      show ?thesis
        using remove_item_items [OF 1(2), of it] it by (auto intro!: filter_cong)
    qed
  qed
qed

text \<open>\<open>outbox_cleanup\<close> always returns, and brings the outbox below the limit or reports failure: it never
  drops a message that is not confirmed, keeps the order of the rest and fails only when no confirmed
  message is left.\<close>

lemma cleanup_drops_confirmed_only:
  assumes "ob_wf base ob" "outbox_cleanup ob max_size = (r, ob')"
  shows "ob_wf base ob' \<and> (if r = ESP_OK then outbox_get_size ob' \<le> max_size
      else outbox_get_size ob' > max_size \<and> (\<forall>it \<in> set (ob_items ob'). i_pending it \<noteq> CONFIRMED)) \<and>
    filter (\<lambda>it. i_pending it \<noteq> CONFIRMED) (ob_items ob') = filter (\<lambda>it. i_pending it \<noteq> CONFIRMED) (ob_items ob)"
  using assms by (rule cleanup_laws)

lemma enqueue_wf:
  assumes "ob_wf base ob"
    and "\<And>a. blk = Some a \<Longrightarrow> a \<notin> ob_live ob"
    and "\<And>a b j. blk = Some a \<Longrightarrow> buf = Some (b, j) \<Longrightarrow> b \<notin> insert a (ob_live ob)"
  shows "ob_wf base (snd (outbox_enqueue blk buf msg tick ob))"
proof (cases "blk = None \<or> buf = None")
  case True
  then show ?thesis
    using assms(1,2) by (auto simp: outbox_enqueue_def Let_def ob_wf_def blocks_def split: option.split)
next
  case False
  then obtain a b j where ab: "blk = Some a" "buf = Some (b, j)" by (auto simp: not_None_eq)
  then have "a \<notin> ob_live ob" "b \<notin> insert a (ob_live ob)" using assms(2,3) by blast+
  then show ?thesis using assms(1) by (auto simp: ab outbox_enqueue_def Let_def ob_wf_def blocks_def)
qed

lemma destroy_base: "ob_wf base ob \<Longrightarrow> outbox_destroy ob = base"
proof -
  assume wf: "ob_wf base ob"
  let ?r = "remove_all (\<lambda>_. True) ob"
  have r: "ob_items ?r = []" "ob_wf base ?r" using remove_all_laws [OF wf, of "\<lambda>_. True"] by simp_all
  have "ob_addr (fold remove_item xs o') = ob_addr o'" for xs o'
    by (induction xs arbitrary: o') (simp_all add: remove_item_def)
  then have "ob_addr ?r = ob_addr ob" by (simp add: remove_all_def)
  with r show ?thesis by (auto simp: outbox_destroy_def ob_wf_def blocks_def)
qed

text \<open>C25: The outbox does not leak: every operation keeps the heap blocks in use equal to those
  of the rest of the program plus two for each stored message and one for the queue (also when an
  allocation fails half way), and \<open>outbox_destroy\<close> gives all of them back.\<close>

theorem outbox_no_leak:
  assumes "ob_wf base ob"
    and "\<And>a. blk = Some a \<Longrightarrow> a \<notin> ob_live ob"
    and "\<And>a b j. blk = Some a \<Longrightarrow> buf = Some (b, j) \<Longrightarrow> b \<notin> insert a (ob_live ob)"
  shows "ob_wf base (snd (outbox_enqueue blk buf msg tick ob))
    \<and> ob_wf base (snd (outbox_delete_item ob a)) \<and> ob_wf base (snd (outbox_delete ob i t))
    \<and> ob_wf base (snd (outbox_delete_msgid ob i)) \<and> ob_wf base (snd (outbox_delete_msgtype ob t))
    \<and> ob_wf base (snd (outbox_delete_single_expired ob now timeout))
    \<and> ob_wf base (snd (outbox_delete_expired ob now timeout))
    \<and> ob_wf base (snd (outbox_set_pending ob i p)) \<and> ob_wf base (snd (outbox_set_tick ob i now))
    \<and> ob_wf base (snd (outbox_cleanup ob max_size))
    \<and> outbox_destroy ob = base"
proof -
  note first = remove_first_laws(1) [OF assms(1), OF prod.collapse [symmetric]]
  have "ob_wf base (snd (outbox_delete_item ob a))" "ob_wf base (snd (outbox_delete ob i t))"
    "ob_wf base (snd (outbox_delete_single_expired ob now timeout))"
    using first by (simp_all add: outbox_delete_item_def outbox_delete_def outbox_delete_single_expired_def
        case_prod_beta split: option.split)
  moreover have "ob_wf base (snd (outbox_delete_msgid ob i))" "ob_wf base (snd (outbox_delete_msgtype ob t))"
    using remove_all_laws(1) [OF assms(1)] by (simp_all add: outbox_delete_msgid_def outbox_delete_msgtype_def)
  moreover have "ob_wf base (snd (outbox_delete_expired ob now timeout))"
    using remove_all_laws(1) [OF assms(1)] by (simp add: outbox_delete_expired_def fold_count remove_all_def)
  moreover have "ob_wf base (snd (outbox_set_pending ob i p))" "ob_wf base (snd (outbox_set_tick ob i now))"
    unfolding outbox_set_pending_def outbox_set_tick_def by (rule update_item_wf [OF assms(1)]; simp)+
  moreover have "ob_wf base (snd (outbox_cleanup ob max_size))"
    using cleanup_laws [OF assms(1), OF prod.collapse [symmetric]] by blast
  moreover note destroy_base [OF assms(1)]
  moreover have "ob_wf base (snd (outbox_enqueue blk buf msg tick ob))" using assms by (rule enqueue_wf)
  ultimately show ?thesis by simp
qed

subsection \<open>Order of transmission\<close>

text \<open>The queued messages as identifier and data, the steps of the client that stores a message and marks the
  oldest queued one as transmitted, and the state in which identifiers are unique.\<close>

definition queued :: "outbox \<Rightarrow> (int \<times> bytes) list" where
  "queued ob = map (\<lambda>it. (i_msg_id it, i_data it)) (filter (\<lambda>it. i_pending it = QUEUED) (ob_items ob))"

definition fresh :: "outbox \<Rightarrow> nat" where
  "fresh ob = Suc (Max (ob_live ob))"

definition store_message :: "int \<times> bytes \<Rightarrow> outbox \<Rightarrow> outbox" where
  "store_message a ob = snd (outbox_enqueue (Some (fresh ob)) (Some (Suc (fresh ob), replicate (length (snd a)) 0))
     \<lparr>om_data = snd a, om_len = length (snd a), om_msg_id = fst a, om_msg_qos = 1, om_msg_type = 3,
      om_remaining_data = None, om_remaining_len = 0\<rparr> 0 ob)"

definition next_queued :: "outbox \<Rightarrow> (int \<times> bytes) option" where
  "next_queued ob = map_option (\<lambda>it. (i_msg_id it, i_data it)) (outbox_dequeue ob QUEUED)"

definition transmit_next :: "outbox \<Rightarrow> outbox" where
  "transmit_next ob = (case outbox_dequeue ob QUEUED of
      None \<Rightarrow> ob | Some it \<Rightarrow> snd (outbox_set_pending ob (i_msg_id it) TRANSMITTED))"

definition unique_ids :: "outbox \<Rightarrow> bool" where
  "unique_ids ob \<longleftrightarrow> (\<exists>base. finite base \<and> ob_wf base ob) \<and> distinct (map i_msg_id (ob_items ob))"

lemma fresh_blocks:
  assumes "unique_ids ob"
  shows "fresh ob \<notin> ob_live ob" "Suc (fresh ob) \<notin> insert (fresh ob) (ob_live ob)"
proof -
  have fin: "finite (ob_live ob)" using assms by (auto simp: unique_ids_def ob_wf_def)
  then have "x < fresh ob" if "x \<in> ob_live ob" for x
    using Max_ge [OF fin that] by (simp add: fresh_def)
  then show "fresh ob \<notin> ob_live ob" "Suc (fresh ob) \<notin> insert (fresh ob) (ob_live ob)" by fastforce+
qed

lemma find_map_split:
  assumes "find P xs = Some x"
  obtains ys zs where "xs = ys @ x # zs" "P x" "\<forall>y \<in> set ys. \<not> P y"
  using assms
proof (induction xs arbitrary: thesis)
  case (Cons a xs)
  show ?case
  proof (cases "P a")
    case True
    then show ?thesis using Cons.prems(2) by (intro Cons.prems(1) [of "[]" xs]) auto
  next
    case False
    then obtain ys zs where "xs = ys @ x # zs" "P x" "\<forall>y \<in> set ys. \<not> P y"
      using Cons.IH Cons.prems(2) by auto
    with False show ?thesis by (intro Cons.prems(1) [of "a # ys" zs]) auto
  qed
qed simp

lemma transmit_next_items:
  assumes "unique_ids ob" "outbox_dequeue ob QUEUED = Some it"
  obtains ys zs where "ob_items ob = ys @ it # zs" "\<forall>y \<in> set ys. i_pending y \<noteq> QUEUED" "i_pending it = QUEUED"
    "ob_items (transmit_next ob) = ys @ it\<lparr>i_pending := TRANSMITTED\<rparr> # zs"
proof -
  obtain ys zs where sp: "ob_items ob = ys @ it # zs" "i_pending it = QUEUED" "\<forall>y \<in> set ys. i_pending y \<noteq> QUEUED"
    using assms(2) unfolding outbox_dequeue_def by (rule find_map_split)
  have ids: "distinct (map i_msg_id (ob_items ob))" and d: "distinct (map i_addr (ob_items ob))"
    using assms(1) by (auto simp: unique_ids_def ob_wf_def blocks_def)
  have "find (\<lambda>x. i_msg_id x = i_msg_id it) (ob_items ob) = Some it"
  proof -
    have "find (\<lambda>x. i_msg_id x = i_msg_id it) ys = None" using ids sp(1) by (auto simp: find_None_iff) (metis image_eqI)
    then show ?thesis unfolding sp(1) by (induction ys) (auto split: if_splits)
  qed
  moreover have "i_addr x \<noteq> i_addr it" if "x \<in> set ys \<union> set zs" for x
    using d that unfolding sp(1) by (auto dest: sym)
  then have "map (\<lambda>x. if i_addr x = i_addr it then f x else x) ys = ys"
    "map (\<lambda>x. if i_addr x = i_addr it then f x else x) zs = zs" for f
    by (auto intro!: map_idI)
  ultimately have "ob_items (transmit_next ob) = ys @ it\<lparr>i_pending := TRANSMITTED\<rparr> # zs"
    using assms(2) by (simp add: transmit_next_def outbox_set_pending_def update_item_def outbox_get_def sp(1))
  with sp that show ?thesis by blast
qed

interpretation outbox_fifo: fifo_queue queued store_message next_queued transmit_next unique_ids
    "\<lambda>a ob. fst a \<notin> i_msg_id ` set (ob_items ob)"
proof (unfold_locales, goal_cases)
  case (1 ob a)
  then show ?case
    by (simp add: store_message_def outbox_enqueue_def Let_def queued_def mem_write_0)
next
  case (2 ob a)
  then obtain base where b: "finite base" "ob_wf base ob" by (auto simp: unique_ids_def)
  have "ob_wf base (store_message a ob)"
    unfolding store_message_def using fresh_blocks [OF 2(1)] by (intro enqueue_wf [OF b(2)]) auto
  then show ?case
    using 2 b(1) by (auto simp: unique_ids_def store_message_def outbox_enqueue_def Let_def)
next
  case (3 ob)
  have "find P xs = (case filter P xs of [] \<Rightarrow> None | x # _ \<Rightarrow> Some x)" for P and xs :: "outbox_item list"
    by (induction xs) auto
  then show ?case by (simp add: next_queued_def outbox_dequeue_def queued_def split: list.split)
next
  case (4 ob)
  then have "outbox_dequeue ob QUEUED \<noteq> None"
    by (auto simp: queued_def outbox_dequeue_def find_None_iff filter_empty_conv)
  then obtain it where it: "outbox_dequeue ob QUEUED = Some it" by blast
  obtain ys zs where "ob_items ob = ys @ it # zs" "\<forall>y \<in> set ys. i_pending y \<noteq> QUEUED" "i_pending it = QUEUED"
    "ob_items (transmit_next ob) = ys @ it\<lparr>i_pending := TRANSMITTED\<rparr> # zs"
    by (rule transmit_next_items [OF 4(1) it])
  moreover from this(2) have "filter (\<lambda>it. i_pending it = QUEUED) ys = []" by (simp add: filter_empty_conv)
  ultimately show ?case by (simp add: queued_def)
next
  case (5 ob)
  show ?case
  proof (cases "outbox_dequeue ob QUEUED")
    case None
    with 5 show ?thesis by (simp add: transmit_next_def)
  next
    case (Some it)
    obtain base where b: "finite base" "ob_wf base ob" using 5 by (auto simp: unique_ids_def)
    have "ob_wf base (transmit_next ob)"
      using update_item_wf [OF b(2)] by (simp add: transmit_next_def Some outbox_set_pending_def)
    moreover obtain ys zs where "ob_items ob = ys @ it # zs"
      "ob_items (transmit_next ob) = ys @ it\<lparr>i_pending := TRANSMITTED\<rparr> # zs"
      by (rule transmit_next_items [OF 5 Some])
    then have "map i_msg_id (ob_items (transmit_next ob)) = map i_msg_id (ob_items ob)" by simp
    then have "distinct (map i_msg_id (ob_items (transmit_next ob)))" using 5 by (simp add: unique_ids_def)
    ultimately show ?thesis using b(1) by (auto simp: unique_ids_def)
  qed
qed

text \<open>C23: Messages leave the outbox in the order they entered it: after any messages with new identifiers were
  stored, repeatedly taking the oldest queued message and marking it as transmitted yields first what was
  queued before, then those messages with their contents, in order.\<close>

theorem outbox_transmits_in_order:
  assumes "unique_ids ob" "outbox_fifo.can_push as ob" "length (queued ob) + length as \<le> n"
  shows "outbox_fifo.drain n (fold store_message as ob) = queued ob @ as"
  using outbox_fifo.fifo_order [OF assms(1,2)] assms(3) by simp

definition demo_outbox :: outbox where
  "demo_outbox = \<lparr>ob_addr = 1, ob_items = [], ob_live = {0, 1}\<rparr>"

lemma demo_outbox_wf: "ob_wf {0} demo_outbox" "unique_ids demo_outbox"
proof -
  show "ob_wf {0} demo_outbox" by (auto simp: ob_wf_def blocks_def demo_outbox_def)
  moreover have "finite {0 :: nat}" by simp
  ultimately show "unique_ids demo_outbox" unfolding unique_ids_def by (auto simp: demo_outbox_def)
qed

theorem outbox_transmits_in_order_witness:
  "outbox_fifo.drain 5 (fold store_message [(7, [1, 2]), (9, [3])] demo_outbox) = [(7, [1, 2]), (9, [3])]"
proof -
  have "outbox_fifo.can_push [(7, [1, 2]), (9, [3])] demo_outbox"
    by (simp add: demo_outbox_def store_message_def outbox_enqueue_def Let_def)
  from outbox_transmits_in_order [OF demo_outbox_wf(2) this, of 5] show ?thesis
    by (simp add: queued_def demo_outbox_def)
qed

theorem outbox_no_leak_witness:
  "outbox_destroy (store_message (7, [1, 2]) demo_outbox) = {0}"
proof -
  have "ob_wf {0} (store_message (7, [1, 2]) demo_outbox)"
    unfolding store_message_def using fresh_blocks [OF demo_outbox_wf(2)]
    by (intro enqueue_wf [OF demo_outbox_wf(1)]) auto
  from outbox_no_leak [OF this, of None None] show ?thesis by simp
qed

end
