(* ===== verification/Mqtt_Client_Inv.thy ===== *)
theory Mqtt_Client_Inv
  imports Mqtt_Env Mqtt_Props Mqtt_Outbox_Props
begin

text \<open>
  The invariant of the MQTT client, kept by every turn of its task and every call of the application: the lock is
  given back, the outbox is well-formed and never holds more messages than are counted as pending, and the output
  buffer keeps its size.
\<close>

subsection \<open>The invariant and the environment\<close>

text \<open>\<open>base\<close> are the heap blocks in use by the rest of the program, \<open>k\<close> how often the lock is held.\<close>

definition mqtt_inv :: "nat set \<Rightarrow> nat \<Rightarrow> 'w esp_mqtt_client \<Rightarrow> bool" where
  "mqtt_inv base k c \<longleftrightarrow> api_lock c = k \<and> ob_wf base (m_outbox c)
     \<and> int (length (ob_items (m_outbox c))) \<le> pending_msg_count c
     \<and> conn_wf (mqtt_conn c)"

text \<open>What the code relies on: the heap hands out blocks that are not in use, and the application's handler leaves
  the invariant intact, as the client's functions do.\<close>

definition heap_fresh :: "'w mqtt_os \<Rightarrow> bool" where
  "heap_fresh os \<longleftrightarrow> (\<forall>live w a. fst (os_calloc os live w) = Some a \<longrightarrow> a \<notin> live)
     \<and> (\<forall>n live w b j. fst (os_malloc os n live w) = Some (b, j) \<longrightarrow> b \<notin> live)"

definition handler_keeps :: "'w mqtt_os \<Rightarrow> nat set \<Rightarrow> bool" where
  "handler_keeps os base \<longleftrightarrow> (\<forall>k ev c. mqtt_inv base k c \<longrightarrow>
     mqtt_inv base k (os_event_handle os ev c) \<and> mqtt_inv base k (os_event_loop os ev c))"

definition mqtt_os_ok :: "'w mqtt_os \<Rightarrow> nat set \<Rightarrow> bool" where
  "mqtt_os_ok os base \<longleftrightarrow> heap_fresh os \<and> handler_keeps os base"

text \<open>Fields the invariant does not mention.\<close>

lemma mqtt_inv_updates [simp]:
  "mqtt_inv base k (c\<lparr>m_world := w\<rparr>) = mqtt_inv base k c"
  "mqtt_inv base k (c\<lparr>m_event := e\<rparr>) = mqtt_inv base k c"
  "mqtt_inv base k (c\<lparr>m_config := cfg\<rparr>) = mqtt_inv base k c"
  "mqtt_inv base k (c\<lparr>m_state := st\<rparr>) = mqtt_inv base k c"
  "mqtt_inv base k (c\<lparr>m_run := b\<rparr>) = mqtt_inv base k c"
  "mqtt_inv base k (c\<lparr>m_transport := b\<rparr>) = mqtt_inv base k c"
  "mqtt_inv base k (c\<lparr>refresh_connection_tick := t\<rparr>) = mqtt_inv base k c"
  "mqtt_inv base k (c\<lparr>keepalive_tick := t\<rparr>) = mqtt_inv base k c"
  "mqtt_inv base k (c\<lparr>reconnect_tick := t\<rparr>) = mqtt_inv base k c"
  "mqtt_inv base k (c\<lparr>wait_timeout_ms := n\<rparr>) = mqtt_inv base k c"
  "mqtt_inv base k (c\<lparr>wait_for_ping_resp := b\<rparr>) = mqtt_inv base k c"
  "mqtt_inv base k (c\<lparr>stopped_bit := b\<rparr>) = mqtt_inv base k c"
  "mqtt_inv base k (c\<lparr>reconnect_bit := b\<rparr>) = mqtt_inv base k c"
  "mqtt_inv base k (c\<lparr>disconnect_bit := b\<rparr>) = mqtt_inv base k c"
  "mqtt_inv base k (c\<lparr>message_length := ml\<rparr>) = mqtt_inv base k c"
  "mqtt_inv base k (c\<lparr>out_item := i\<rparr>) = mqtt_inv base k c"
  "mqtt_inv base k (c\<lparr>in_buffer := buf\<rparr>) = mqtt_inv base k c"
  "mqtt_inv base k (c\<lparr>in_buffer_read_len := rl\<rparr>) = mqtt_inv base k c"
  "mqtt_inv base k (c\<lparr>pending_msg_id := m\<rparr>) = mqtt_inv base k c"
  "mqtt_inv base k (c\<lparr>pending_msg_type := n\<rparr>) = mqtt_inv base k c"
  "mqtt_inv base k (c\<lparr>pending_publish_qos := n\<rparr>) = mqtt_inv base k c"
  by (simp_all add: mqtt_inv_def)

lemma mqtt_inv_lock [simp]:
  "mqtt_inv base (Suc k) (MQTT_API_LOCK c) = mqtt_inv base k c"
  "mqtt_inv base (Suc k) c \<Longrightarrow> mqtt_inv base k (MQTT_API_UNLOCK c)"
  by (auto simp: mqtt_inv_def MQTT_API_LOCK_def MQTT_API_UNLOCK_def)

lemma mqtt_inv_conn: "mqtt_inv base k c \<Longrightarrow> conn_wf conn \<Longrightarrow> mqtt_inv base k (c\<lparr>mqtt_conn := conn\<rparr>)"
  by (simp add: mqtt_inv_def)

lemma mqtt_inv_outbound [inv_intros]: "mqtt_inv base k c \<Longrightarrow> conn_wf conn \<Longrightarrow> mqtt_inv base k (set_outbound conn c)"
  by (simp add: mqtt_inv_def set_outbound_def)

lemma mqtt_inv_count: "mqtt_inv base k c \<Longrightarrow> n \<ge> pending_msg_count c \<Longrightarrow> mqtt_inv base k (c\<lparr>pending_msg_count := n\<rparr>)"
  by (simp add: mqtt_inv_def)

lemma mqtt_inv_connD: "mqtt_inv base k c \<Longrightarrow> conn_wf (mqtt_conn c)"
  by (simp add: mqtt_inv_def)

lemma conn_wf_updates [simp]:
  "conn_wf (conn\<lparr>mm_length := n\<rparr>) = conn_wf conn"
  "conn_wf (conn\<lparr>fragmented_msg_total_length := n\<rparr>) = conn_wf conn"
  "conn_wf (conn\<lparr>fragmented_msg_data_offset := u\<rparr>) = conn_wf conn"
  by (simp_all add: conn_wf_def)

text \<open>An outbox with no more messages.\<close>

lemma mqtt_inv_outbox:
  "mqtt_inv base k c \<Longrightarrow> ob_wf base ob \<Longrightarrow> length (ob_items ob) \<le> length (ob_items (m_outbox c)) \<Longrightarrow>
   mqtt_inv base k (c\<lparr>m_outbox := ob\<rparr>)"
  by (auto simp: mqtt_inv_def)

lemma length_update_item [simp]: "length (ob_items (snd (update_item i f ob))) = length (ob_items ob)"
  by (simp add: update_item_def split: option.split)

lemma mark_dup_wf: "ob_wf base ob \<Longrightarrow> ob_wf base (mark_dup a ob)"
proof -
  assume "ob_wf base ob"
  moreover have "blocks (mark_dup a ob) = blocks ob" "ob_live (mark_dup a ob) = ob_live ob"
    by (simp_all add: blocks_def mark_dup_def)
  ultimately show ?thesis by (simp add: ob_wf_def)
qed

lemma length_mark_dup [simp]: "length (ob_items (mark_dup a ob)) = length (ob_items ob)"
  by (simp add: mark_dup_def)

lemma outbox_delete_wf:
  assumes "ob_wf base ob" "outbox_delete ob i t = (r, ob')"
  shows "ob_wf base ob'" "r = ESP_OK \<Longrightarrow> length (ob_items ob') < length (ob_items ob)" "r = ESP_FAIL \<Longrightarrow> ob' = ob"
proof -
  obtain r0 where r0: "remove_first (\<lambda>it. i_msg_id it = i \<and> i_msg_type it mod 256 = t) ob = (r0, ob')"
    and r: "r = (if r0 = None then ESP_FAIL else ESP_OK)"
    using assms(2) by (auto simp: outbox_delete_def split: prod.splits option.splits)
  show "ob_wf base ob'" by (rule remove_first_laws(1) [OF assms(1) r0])
  show "r = ESP_FAIL \<Longrightarrow> ob' = ob" using remove_first_laws(2) [OF assms(1) r0] r by (auto split: if_splits)
  show "length (ob_items ob') < length (ob_items ob)" if ok: "r = ESP_OK"
  proof -
    obtain it where "r0 = Some it" using ok r by (cases r0) auto
    from remove_first_laws(3) [OF assms(1) r0 this]
    show ?thesis by (auto intro: length_filter_less)
  qed
qed

lemma delete_item_wf:
  assumes "ob_wf base ob"
  shows "ob_wf base (snd (outbox_delete_item ob a))"
    "length (ob_items (snd (outbox_delete_item ob a))) \<le> length (ob_items ob)"
proof -
  obtain r ob' where r: "remove_first (\<lambda>it. i_addr it = a) ob = (r, ob')" by (cases "remove_first (\<lambda>it. i_addr it = a) ob")
  then have "snd (outbox_delete_item ob a) = ob'" by (auto simp: outbox_delete_item_def split: option.splits)
  with remove_first_laws [OF assms r] show "ob_wf base (snd (outbox_delete_item ob a))"
    "length (ob_items (snd (outbox_delete_item ob a))) \<le> length (ob_items ob)"
    by (cases r; auto)+
qed

lemma length_cleanup: "length (ob_items (snd (outbox_cleanup ob n))) \<le> length (ob_items ob)"
proof (induction ob n rule: outbox_cleanup.induct)
  case (1 ob n)
  show ?case
  proof (cases "outbox_get_size ob > n \<and> outbox_dequeue ob CONFIRMED \<noteq> None")
    case True
    then obtain it where it: "outbox_dequeue ob CONFIRMED = Some it" by blast
    have "length (ob_items (remove_item it ob)) < length (ob_items ob)"
      using outbox_dequeue_mem [OF it] by (intro remove_item_shrinks) simp
    then show ?thesis using 1 [OF _ it] True it by (subst outbox_cleanup.simps) simp
  next
    case False
    then show ?thesis by (subst outbox_cleanup.simps) (auto split: option.split)
  qed
qed

subsection \<open>Events, writing, the outbox\<close>

lemma tick_eq: "platform_tick_get_ms os c = (fst (os_tick os (m_world c)), c\<lparr>m_world := snd (os_tick os (m_world c))\<rparr>)"
  by (simp add: platform_tick_get_ms_def split: prod.split)

lemma dispatch_inv [inv_intros]:
  assumes "mqtt_os_ok os base" "mqtt_inv base k c"
  shows "mqtt_inv base k (esp_mqtt_dispatch_event os c)"
    "mqtt_inv base k (esp_mqtt_dispatch_event_with_msgid os c)"
    "mqtt_inv base k (dispatch_id os ev c)"
    "mqtt_inv base k (esp_mqtt_client_dispatch_transport_error os c)"
proof -
  have e: "mqtt_inv base k (esp_mqtt_dispatch_event os c)" if "mqtt_inv base k c" for c
    using assms(1) that by (auto simp: mqtt_os_ok_def handler_keeps_def esp_mqtt_dispatch_event_def)
  then show "mqtt_inv base k (esp_mqtt_dispatch_event os c)" "mqtt_inv base k (esp_mqtt_dispatch_event_with_msgid os c)"
    "mqtt_inv base k (dispatch_id os ev c)" "mqtt_inv base k (esp_mqtt_client_dispatch_transport_error os c)"
    using assms(2) by (simp_all add: esp_mqtt_dispatch_event_with_msgid_def dispatch_id_def
        esp_mqtt_client_dispatch_transport_error_def)
qed

lemma abort_inv [inv_intros]:
  assumes "mqtt_os_ok os base" "mqtt_inv base k c"
  shows "mqtt_inv base k (esp_mqtt_abort_connection os c)"
proof -
  have "mqtt_inv base (Suc k) (dispatch_id os MQTT_EVENT_DISCONNECTED c')" if "mqtt_inv base (Suc k) c'" for c'
    using assms(1) that by (rule dispatch_inv)
  then show ?thesis
    using assms(2) by (simp add: esp_mqtt_abort_connection_def tick_eq Let_def)
qed

lemma write_inv:
  assumes "mqtt_os_ok os base" "mqtt_inv base k c" "mqtt_write_data os c = (r, c')"
  shows "mqtt_inv base k c'"
proof -
  obtain wl w where w: "os_write os (take (mm_length (mqtt_conn c)) (outbound_data c))
      (cfg_network_timeout_ms (m_config c)) (m_world c) = (wl, w)" by fastforce
  have "mqtt_inv base k (esp_mqtt_client_dispatch_transport_error os (c\<lparr>m_world := w\<rparr>))"
    using assms(1,2) by (intro dispatch_inv) simp_all
  then show ?thesis
    using assms(2,3) w by (auto simp: mqtt_write_data_def tick_eq Let_def split: if_splits)
qed

lemma write_snd_inv [inv_intros]:
  "mqtt_os_ok os base \<Longrightarrow> mqtt_inv base k c \<Longrightarrow> mqtt_inv base k (snd (mqtt_write_data os c))"
  using write_inv prod.collapse by metis

lemma is_valid_inv:
  assumes "mqtt_inv base k c" "is_valid_mqtt_msg typ i c = (r, c')"
  shows "mqtt_inv base k c'"
proof -
  obtain e ob where d: "outbox_delete (m_outbox c) i (int typ) = (e, ob)" by fastforce
  have wf: "ob_wf base (m_outbox c)" using assms(1) by (simp add: mqtt_inv_def)
  show ?thesis
    using assms outbox_delete_wf [OF wf d] d
    by (auto simp: is_valid_mqtt_msg_def mqtt_inv_def split: if_splits esp_err.splits)
qed

lemma set_pending_inv [inv_intros]: "mqtt_inv base k c \<Longrightarrow> mqtt_inv base k (set_pending i p c)"
  unfolding set_pending_def outbox_set_pending_def
  by (intro mqtt_inv_outbox update_item_wf) (auto simp: mqtt_inv_def)

lemma set_tick_inv [inv_intros]:
  "mqtt_inv base k c \<Longrightarrow> mqtt_inv base k (c\<lparr>m_outbox := snd (outbox_set_tick (m_outbox c) i t)\<rparr>)"
  unfolding outbox_set_tick_def by (intro mqtt_inv_outbox update_item_wf) (auto simp: mqtt_inv_def)

text \<open>A message can be stored once it is counted.\<close>

lemma store_inv:
  assumes "mqtt_os_ok os base" "mqtt_inv base k c" "int (length (ob_items (m_outbox c))) < pending_msg_count c"
  shows "mqtt_inv base k (outbox_store os msg c)"
proof -
  define c1 where "c1 = snd (platform_tick_get_ms os c)"
  obtain blk w1 where blk: "os_calloc os (ob_live (m_outbox c)) (m_world c1) = (blk, w1)" by fastforce
  obtain buf w2 where buf: "(case blk of None \<Rightarrow> (None, w1)
      | Some a \<Rightarrow> os_malloc os (om_len msg + om_remaining_len msg) (insert a (ob_live (m_outbox c))) w1) = (buf, w2)"
    by fastforce
  have fresh: "a \<notin> ob_live (m_outbox c)" if "blk = Some a" for a
    using assms(1) blk that by (auto simp: mqtt_os_ok_def heap_fresh_def) (metis fst_conv)
  have fresh2: "b \<notin> insert a (ob_live (m_outbox c))" if "blk = Some a" "buf = Some (b, j)" for a b j
    using assms(1) buf that by (auto simp: mqtt_os_ok_def heap_fresh_def) (metis fst_conv insert_iff)+
  let ?ob = "\<lambda>t. snd (outbox_enqueue blk buf msg t (m_outbox c))"
  have "ob_wf base (?ob t)" for t
    using assms(2) fresh fresh2 by (intro enqueue_wf) (auto simp: mqtt_inv_def)
  moreover have "length (ob_items (?ob t)) \<le> Suc (length (ob_items (m_outbox c)))" for t
    by (simp add: outbox_enqueue_def Let_def split: option.split)
  then have "int (length (ob_items (?ob t))) \<le> pending_msg_count c" for t
    using assms(3) by (smt (verit) of_nat_Suc of_nat_le_iff)
  moreover have "outbox_store os msg c = c\<lparr>m_world := w2, m_outbox := ?ob (sint (fst (os_tick os (m_world c))))\<rparr>"
    using blk buf by (cases blk) (simp_all add: outbox_store_def c1_def tick_eq Let_def)
  ultimately show ?thesis using assms(2) by (simp add: mqtt_inv_def)
qed

lemma pending_simps [simp]:
  "pending_msg_count (set_outbound conn c) = pending_msg_count c" "m_outbox (set_outbound conn c) = m_outbox c"
  by (simp_all add: set_outbound_def)

lemma enqueue_inv:
  assumes "mqtt_os_ok os base" "mqtt_inv base k c"
  shows "mqtt_inv base k (mqtt_enqueue os (c\<lparr>pending_msg_count := pending_msg_count c + 1\<rparr>))"
    "mqtt_inv base k (mqtt_enqueue_oversized os rest n (c\<lparr>pending_msg_count := pending_msg_count c + 1\<rparr>))"
proof -
  let ?c = "c\<lparr>pending_msg_count := pending_msg_count c + 1\<rparr>"
  have "mqtt_inv base k ?c" "int (length (ob_items (m_outbox ?c))) < pending_msg_count ?c"
    using assms(2) by (auto simp: mqtt_inv_def)
  then show "mqtt_inv base k (mqtt_enqueue os ?c)" "mqtt_inv base k (mqtt_enqueue_oversized os rest n ?c)"
    unfolding mqtt_enqueue_def mqtt_enqueue_oversized_def using store_inv [OF assms(1), of k ?c] by simp_all
qed

lemma delete_expired_inv [inv_intros]:
  assumes "mqtt_inv base k c"
  shows "mqtt_inv base k (mqtt_delete_expired_messages os c)"
proof -
  let ?t = "sint (fst (os_tick os (m_world c)))"
  obtain n ob where d: "outbox_delete_expired (m_outbox c) ?t OUTBOX_EXPIRED_TIMEOUT_MS = (n, ob)" by fastforce
  let ?e = "expired ?t OUTBOX_EXPIRED_TIMEOUT_MS"
  have wf: "ob_wf base (m_outbox c)" using assms by (simp add: mqtt_inv_def)
  have ob: "ob = remove_all ?e (m_outbox c)" "n = int (length (filter ?e (ob_items (m_outbox c))))"
    using d by (auto simp: outbox_delete_expired_def fold_count remove_all_def)
  have "length (ob_items ob) + length (filter ?e (ob_items (m_outbox c))) = length (ob_items (m_outbox c))"
    using remove_all_laws(2) [OF wf, of ?e] sum_length_filter_compl [of ?e "ob_items (m_outbox c)"] by (simp add: ob)
  then have "int (length (ob_items ob)) \<le> pending_msg_count c - n"
    using assms unfolding ob(2) mqtt_inv_def by linarith
  then show ?thesis
    using assms d remove_all_laws(1) [OF wf, of ?e] unfolding mqtt_delete_expired_messages_def tick_eq
    by (auto simp: mqtt_inv_def ob(1))
qed

lemma resend_inv:
  assumes "mqtt_os_ok os base" "mqtt_inv base k c" "mqtt_resend_queued os item c = (r, c')"
  shows "mqtt_inv base k c'"
proof -
  define c1 where "c1 = c\<lparr>mqtt_conn := (mqtt_conn c)\<lparr>mm_length := nat (i_len item)\<rparr>, out_item := Some (i_addr item),
      pending_msg_id := word_of_int (i_msg_id item), pending_msg_type := i_msg_type item,
      pending_publish_qos := i_msg_qos item\<rparr>"
  define c2 where "c2 = (if i_msg_type item = int MQTT_MSG_TYPE_PUBLISH \<and> i_msg_qos item > 0
      then c1\<lparr>m_outbox := mark_dup (i_addr item) (m_outbox c1)\<rparr> else c1)"
  obtain e c3 where w: "mqtt_write_data os c2 = (e, c3)" by fastforce
  have "mqtt_inv base k c1" using assms(2) by (simp add: c1_def mqtt_inv_conn mqtt_inv_connD)
  then have "mqtt_inv base k c2"
    by (auto simp: c2_def intro!: mqtt_inv_outbox mark_dup_wf) (simp add: mqtt_inv_def)
  then have c3: "mqtt_inv base k c3" using write_inv [OF assms(1) _ w] by blast
  then have "mqtt_inv base k (c3\<lparr>m_outbox := snd (outbox_delete_item (m_outbox c3) a)\<rparr>)" for a
    using delete_item_wf [of base "m_outbox c3"] by (intro mqtt_inv_outbox) (simp_all add: mqtt_inv_def)
  then show ?thesis
    using assms(1,3) c3 w abort_inv [OF assms(1) c3]
    by (auto simp: mqtt_resend_queued_def outbox_item_get_data_def c2_def c1_def Let_def split: esp_err.splits if_splits)
qed

subsection \<open>Receiving\<close>

lemma read_at_inv: "mqtt_inv base k c \<Longrightarrow> read_at os pos n t c = (r, c') \<Longrightarrow> mqtt_inv base k c'"
  by (auto simp: read_at_def split: prod.splits)

lemma advance_inv [simp]: "mqtt_inv base k (advance n c) = mqtt_inv base k c"
  by (simp add: advance_def)

lemma receive_err_inv:
  "mqtt_os_ok os base \<Longrightarrow> mqtt_inv base k c \<Longrightarrow> mqtt_inv base k (snd (receive_err os c))"
  by (simp add: receive_err_def dispatch_inv)

lemma read_stage_inv:
  assumes "mqtt_os_ok os base" "mqtt_inv base k c"
    and "\<And>r c'. mqtt_inv base k c' \<Longrightarrow> mqtt_inv base k (snd (f r c'))"
  shows "mqtt_inv base k (snd (read_stage os n t c f))"
proof -
  obtain r c' where r: "read_at os (in_buffer_read_len c) n t c = (r, c')" by fastforce
  from read_at_inv [OF assms(2) this] show ?thesis
    using assms(3) receive_err_inv [OF assms(1)] by (auto simp: read_stage_def r)
qed

lemma receive_length_loop_inv:
  "mqtt_os_ok os base \<Longrightarrow> mqtt_inv base k c \<Longrightarrow> mqtt_inv base k (snd (receive_length_loop os t c))"
proof (induction os t c rule: receive_length_loop.induct)
  case (1 os t c)
  obtain r c' where r: "read_at os (in_buffer_read_len c) 1 t c = (r, c')" by fastforce
  have c': "mqtt_inv base k c'" by (rule read_at_inv [OF 1(3) r])
  show ?case
  proof (cases "r > 0 \<and> length_continues (advance 1 c')")
    case True
    then have "mqtt_inv base k (snd (receive_length_loop os t (advance 1 c')))"
      using r c' by (intro 1(1) [OF r [symmetric] refl _ _ refl _ 1(2)]) simp_all
    with True r show ?thesis by (subst receive_length_loop.simps) simp
  next
    case False
    with r c' show ?thesis
      by (subst receive_length_loop.simps) (auto simp: Let_def intro: receive_err_inv [OF 1(2)])
  qed
qed

lemma receive_stages_inv:
  assumes "mqtt_os_ok os base" "mqtt_inv base k c"
  shows "mqtt_inv base k (snd (receive_first os t c))" "mqtt_inv base k (snd (receive_length os t c))"
    "mqtt_inv base k (snd (receive_topic os t fh c))" "mqtt_inv base k (snd (receive_rest os t tot c))"
proof -
  note rs = read_stage_inv [OF assms]
  show "mqtt_inv base k (snd (receive_first os t c))"
    unfolding receive_first_def using assms receive_err_inv by (auto intro!: rs)
  show "mqtt_inv base k (snd (receive_length os t c))"
    unfolding receive_length_def using assms receive_length_loop_inv by auto
  show "mqtt_inv base k (snd (receive_topic os t fh c))"
    unfolding receive_topic_def Let_def using assms receive_err_inv by (auto intro!: rs)
  show "mqtt_inv base k (snd (receive_rest os t tot c))"
    unfolding receive_rest_def Let_def using assms by (auto intro!: rs)
qed

lemma then_do_inv:
  "mqtt_inv base k (snd s) \<Longrightarrow> (\<And>c. mqtt_inv base k c \<Longrightarrow> mqtt_inv base k (snd (f c))) \<Longrightarrow>
   mqtt_inv base k (snd (then_do s f))"
  by (auto simp: then_do_def split: prod.split option.split)

lemma receive_inv:
  assumes "mqtt_os_ok os base" "mqtt_inv base k c" "mqtt_message_receive os t c = (r, c')"
  shows "mqtt_inv base k c'"
proof -
  note st = receive_stages_inv [OF assms(1)]
  have fin: "mqtt_inv base k (snd (receive_finish os t tot c))" if "mqtt_inv base k c" for tot c
    unfolding receive_finish_def using that by (auto intro!: then_do_inv st)
  have sized: "mqtt_inv base k (snd (receive_sized os t c))" if c: "mqtt_inv base k c" for c
    unfolding receive_sized_def Let_def using c fin dispatch_inv(4) [OF assms(1)]
    by (auto intro!: then_do_inv st split: prod.split)
  have "mqtt_inv base k (snd (mqtt_message_receive os t c))"
    unfolding mqtt_message_receive_def using assms(2) sized by (intro then_do_inv st) simp_all
  then show ?thesis using assms(3) by simp
qed

lemma post_data_inv:
  assumes "mqtt_os_ok os base" "post_data_event os tot topic d dl off rl c = Some y" "mqtt_inv base k c"
  shows "mqtt_inv base k (snd y)"
proof -
  have "os = os \<longrightarrow> mqtt_inv base k c \<longrightarrow> mqtt_inv base k (snd y)"
  proof (rule post_data_event.raw_induct [where P = "\<lambda>os' tot topic d dl off rl c y.
        os' = os \<longrightarrow> mqtt_inv base k c \<longrightarrow> mqtt_inv base k (snd y)", OF _ assms(2)], intro impI)
    fix f os' tot topic d dl off rl c y
    assume IH: "\<And>os' tot topic d dl off rl c y. f os' tot topic d dl off rl c = Some y \<Longrightarrow>
        os' = os \<longrightarrow> mqtt_inv base k c \<longrightarrow> mqtt_inv base k (snd y)"
      and body: "(let c = post_data os' topic d dl off c in
        if rl < tot then
          let (len, c) = next_piece os' tot rl c in
          if len = 0 then Some (ESP_FAIL, c) else f os' tot None 0 len (off + dl) (rl + len) c
        else Some (ESP_OK, c)) = Some y"
      and os: "os' = os" and c: "mqtt_inv base k c"
    define c1 where "c1 = post_data os topic d dl off c"
    have c1: "mqtt_inv base k c1"
      unfolding c1_def post_data_def using assms(1) c by (intro dispatch_inv) simp_all
    obtain len c2 where p: "next_piece os tot rl c1 = (len, c2)" by fastforce
    then have "mqtt_inv base k c2"
      using read_at_inv [OF c1] by (auto simp: next_piece_def Let_def split: prod.splits)
    moreover have "(if rl < tot then if len = 0 then Some (ESP_FAIL, c2)
        else f os tot None 0 len (off + dl) (rl + len) c2 else Some (ESP_OK, c1)) = Some y"
      using body p unfolding os c1_def [symmetric] by (cases "rl < tot") simp_all
    ultimately show "mqtt_inv base k (snd y)" using c1 IH [of os] by (auto split: if_splits)
  qed
  then show ?thesis using assms(3) by simp
qed

lemma deliver_inv:
  assumes "mqtt_os_ok os base" "mqtt_inv base k c" "deliver_publish os c = Some (r, c')"
  shows "mqtt_inv base k c'"
  using assms(2,3) post_data_inv [OF assms(1)]
  by (fastforce simp: deliver_publish_def Let_def split: option.splits prod.splits)

subsection \<open>Answering\<close>

lemma ack_wf: "conn_wf c \<Longrightarrow> ack_message env typ qos mid c = Some c' \<Longrightarrow> conn_wf c'"
  using append_id_wf [of env mid "init_message c"] init_message_inv [of c]
  by (auto simp: ack_message_def intro!: fini_wf split: if_splits option.splits)

lemma short_wf: "conn_wf c \<Longrightarrow> conn_wf (mqtt_msg_pingreq c)" "conn_wf c \<Longrightarrow> conn_wf (mqtt_msg_disconnect c)"
  using init_message_inv [of c] by (simp_all add: mqtt_msg_pingreq_def mqtt_msg_disconnect_def fini_wf)

lemmas ack_defs = mqtt_msg_puback_def mqtt_msg_pubrec_def mqtt_msg_pubrel_def mqtt_msg_pubcomp_def

lemma answer_inv:
  "mqtt_inv base k c \<Longrightarrow> answer os (ack_message env typ qos mid (mqtt_conn c)) c = Some c' \<Longrightarrow> mqtt_inv base k c'"
  by (auto simp: answer_def intro!: mqtt_inv_outbound intro: ack_wf mqtt_inv_connD)

lemma acknowledged_inv [inv_intros]:
  assumes "mqtt_os_ok os base" "mqtt_inv base k c"
  shows "mqtt_inv base k (acknowledged os typ ev confirm i c)"
proof -
  obtain r c1 where v: "is_valid_mqtt_msg typ (uint i) c = (r, c1)" by fastforce
  from is_valid_inv [OF assms(2) this] show ?thesis
    using assms(1) by (cases r) (auto simp: acknowledged_def v intro!: inv_intros)
qed

lemma receive_publish_inv:
  assumes ok: "mqtt_os_ok os base" and c: "mqtt_inv base k c" and r: "receive_publish os q i c = Some (r, c')"
  shows "mqtt_inv base k c'"
proof -
  obtain r1 c1 where d: "deliver_publish os c = Some (r1, c1)"
    using r by (auto simp: receive_publish_def Option.bind_eq_Some_conv)
  have c1: "mqtt_inv base k c1" by (rule deliver_inv [OF ok c d])
  show ?thesis
  proof (cases "r1 = ESP_OK")
    case True
    then obtain c2 where "(if q = 1 then answer os (mqtt_msg_puback (os_env os) i (mqtt_conn c1)) c1
        else if q = 2 then answer os (mqtt_msg_pubrec (os_env os) i (mqtt_conn c1)) c1 else Some c1) = Some c2"
      and fin: "(if message_failed c2 then Some (ESP_FAIL, c2)
        else if q = 1 \<or> q = 2 then Some (mqtt_write_data os c2) else Some (ESP_OK, c2)) = Some (r, c')"
      using r d unfolding receive_publish_def by (auto simp: Option.bind_eq_Some_conv split: if_splits)
    then have "mqtt_inv base k c2" using c1 answer_inv unfolding ack_defs by (auto split: if_splits)
    with fin write_inv [OF ok this] show ?thesis by (auto split: if_splits)
  next
    case False
    with r d c1 show ?thesis by (simp add: receive_publish_def)
  qed
qed

lemma process_message_inv:
  assumes ok: "mqtt_os_ok os base" and c: "mqtt_inv base k c" and r: "process_message os c = Some (r, c')"
  shows "mqtt_inv base k c'"
proof -
  have w: "mqtt_inv base k (snd (mqtt_write_data os c2))" "mqtt_inv base k (snd (mqtt_write_data os (set_pending i p c2)))"
    if "answer os (ack_message env ty qos mid (mqtt_conn c)) c = Some c2" for c2 i p env ty qos mid
    using answer_inv [OF c that] ok by (auto intro!: inv_intros)
  show ?thesis
    using r c acknowledged_inv [OF ok c] receive_publish_inv [OF ok c] w answer_inv [OF c]
    unfolding process_message_def ack_defs Let_def
    by (auto simp: Option.bind_eq_Some_conv split: if_splits)
qed

lemma process_receive_inv:
  assumes ok: "mqtt_os_ok os base" and c: "mqtt_inv base k c" and r: "mqtt_process_receive os c = Some (r, c')"
  shows "mqtt_inv base k c'"
proof -
  obtain n c1 where m: "mqtt_message_receive os 0 c = (n, c1)" by fastforce
  from receive_inv [OF ok c this] have "mqtt_inv base k c1" .
  then show ?thesis
    using r process_message_inv [OF ok] by (auto simp: mqtt_process_receive_def m Option.bind_eq_Some_conv split: if_splits)
qed

subsection \<open>The functions of the application\<close>

lemma enqueue_priv_inv:
  assumes ok: "mqtt_os_ok os base" and c: "mqtt_inv base k c"
    and r: "mqtt_client_enqueue_priv os topic data len qos retain store c = Some (r, c')"
  shows "mqtt_inv base k c'"
proof -
  obtain mid conn where p: "mqtt_msg_publish (os_env os) topic data
      (nat (if len \<le> 0 \<and> data \<noteq> None then int (length (c_str (data_bytes data))) else len)) qos retain 0 (mqtt_conn c)
      = Some (mid, conn)"
    using r by (auto simp: mqtt_client_enqueue_priv_def Option.bind_eq_Some_conv Let_def)
  define c1 where "c1 = set_outbound conn c"
  define c2 where "c2 = c1\<lparr>pending_msg_type := int (mqtt_get_type (outbound_data c1)), pending_msg_id := mid,
    pending_publish_qos := qos\<rparr>"
  have "conn_wf conn" using publish_wf [OF mqtt_inv_connD [OF c] p] .
  then have c1: "mqtt_inv base k c1" unfolding c1_def using c by (intro inv_intros)
  then have c2: "mqtt_inv base k c2" by (simp add: c2_def)
  have frag: "mqtt_inv base k (c'\<lparr>mqtt_conn := (mqtt_conn c')\<lparr>fragmented_msg_total_length := 0\<rparr>\<rparr>)"
    if "mqtt_inv base k c'" for c' :: "'a esp_mqtt_client"
    using that by (intro mqtt_inv_conn) (simp_all add: mqtt_inv_connD)
  have upd: "c1\<lparr>pending_msg_type := int (mqtt_get_type (outbound_data c1)), pending_msg_id := mid,
    pending_publish_qos := qos, pending_msg_count := n\<rparr> = c2\<lparr>pending_msg_count := n\<rparr>" for n
    by (simp add: c2_def)
  have cnt: "pending_msg_count c1 = pending_msg_count c2" by (simp add: c2_def)
  show ?thesis
    using r c1 frag [OF enqueue_inv(2) [OF ok c2]] enqueue_inv(1) [OF ok c2]
    unfolding mqtt_client_enqueue_priv_def Let_def p
    by (auto simp: c1_def [symmetric] upd cnt split: if_splits)
qed

lemma load_fragment_inv:
  assumes "mqtt_inv base k c"
  shows "mqtt_inv base k (load_fragment data pos n c)"
proof -
  have "conn_wf ((mqtt_conn c)\<lparr>mc_buffer := mem_write 0 (take m d) (mc_buffer (mqtt_conn c)), mm_length := m, mm_off := 0\<rparr>)"
    if "m \<le> mc_buffer_length (mqtt_conn c)" for m d
    using assms that by (auto simp: mqtt_inv_def conn_wf_def)
  then show ?thesis
    unfolding load_fragment_def Let_def using assms by (intro mqtt_inv_outbound) auto
qed

lemma publish_loop_inv:
  assumes "mqtt_os_ok os base" "publish_loop os data pos n c = Some y" "mqtt_inv base k c"
  shows "mqtt_inv base k (snd y)"
proof -
  have "os = os \<longrightarrow> mqtt_inv base k c \<longrightarrow> mqtt_inv base k (snd y)"
  proof (rule publish_loop.raw_induct [where P = "\<lambda>os' data pos n c y.
        os' = os \<longrightarrow> mqtt_inv base k c \<longrightarrow> mqtt_inv base k (snd y)", OF _ assms(2)], intro impI)
    fix f os' data pos n c y
    assume IH: "\<And>os' data pos n c y. f os' data pos n c = Some y \<Longrightarrow>
        os' = os \<longrightarrow> mqtt_inv base k c \<longrightarrow> mqtt_inv base k (snd y)"
      and body: "(case mqtt_write_data os' c of
         (ESP_FAIL, c) \<Rightarrow> Some (ESP_FAIL, esp_mqtt_abort_connection os' c)
       | (ESP_OK, c) \<Rightarrow>
          let data_sent = fragment_len (mqtt_conn c);
              c = c\<lparr>mqtt_conn := (mqtt_conn c)\<lparr>fragmented_msg_data_offset := 0, fragmented_msg_total_length := 0\<rparr>\<rparr>;
              n = n - data_sent; pos = pos + data_sent
          in if n > 0 then f os' data pos n (load_fragment data pos n c) else Some (ESP_OK, c)) = Some y"
      and os: "os' = os" and c: "mqtt_inv base k c"
    obtain e c1 where w: "mqtt_write_data os c = (e, c1)" by fastforce
    have c1: "mqtt_inv base k c1" by (rule write_inv [OF assms(1) c w])
    let ?c2 = "c1\<lparr>mqtt_conn := (mqtt_conn c1)\<lparr>fragmented_msg_data_offset := 0, fragmented_msg_total_length := 0\<rparr>\<rparr>"
    have c2: "mqtt_inv base k ?c2" using c1 by (intro mqtt_inv_conn) (simp_all add: mqtt_inv_connD)
    show "mqtt_inv base k (snd y)"
      using body c2 abort_inv [OF assms(1) c1] IH [of os] load_fragment_inv [OF c2]
      unfolding os w by (auto simp: Let_def split: esp_err.splits if_splits)
  qed
  then show ?thesis using assms(3) by simp
qed

lemma unlock_frag_inv:
  "mqtt_inv base (Suc k) c \<Longrightarrow>
   mqtt_inv base k (MQTT_API_UNLOCK (c\<lparr>mqtt_conn := (mqtt_conn c)\<lparr>fragmented_msg_total_length := 0\<rparr>\<rparr>))"
  by (intro mqtt_inv_lock mqtt_inv_conn) (simp_all add: mqtt_inv_connD)

lemma publish_inv:
  assumes ok: "mqtt_os_ok os base" and c: "mqtt_inv base k c"
    and r: "esp_mqtt_client_publish os topic data len qos retain c = Some (r, c')"
  shows "mqtt_inv base k c'"
proof -
  obtain mid c1 where e: "mqtt_client_enqueue_priv os topic data len qos retain False (MQTT_API_LOCK c) = Some (mid, c1)"
    using r by (auto simp: esp_mqtt_client_publish_def Option.bind_eq_Some_conv Let_def)
  have c1: "mqtt_inv base (Suc k) c1" using c by (intro enqueue_priv_inv [OF ok _ e]) simp
  have c2: "mqtt_inv base (Suc k) c2" if "publish_loop os (data_bytes data) 0 len c1 = Some (x, c2)" for x c2
    using publish_loop_inv [OF ok that c1] by simp
  have fin: "mqtt_inv base k (MQTT_API_UNLOCK (set_pending i TRANSMITTED
      (c2\<lparr>m_world := w, m_outbox := snd (outbox_set_tick (m_outbox c2) i t)\<rparr>)))"
    if "mqtt_inv base (Suc k) c2" for c2 :: "'a esp_mqtt_client" and w t i
  proof -
    have "mqtt_inv base (Suc k) ((c2\<lparr>m_world := w\<rparr>)\<lparr>m_outbox := snd (outbox_set_tick (m_outbox (c2\<lparr>m_world := w\<rparr>)) i t)\<rparr>)"
      using that by (intro set_tick_inv) simp
    then show ?thesis by (intro mqtt_inv_lock set_pending_inv) simp
  qed
  show ?thesis
    using r e c1 unlock_frag_inv [OF delete_expired_inv [OF c1]]
    unfolding esp_mqtt_client_publish_def Let_def
    by (auto simp: Option.bind_eq_Some_conv tick_eq intro: unlock_frag_inv fin dest!: c2 split: if_splits)
qed

lemma enqueue_api_inv:
  assumes ok: "mqtt_os_ok os base" and c: "mqtt_inv base k c"
    and r: "esp_mqtt_client_enqueue os topic data len qos retain store c = Some (r, c')"
  shows "mqtt_inv base k c'"
proof -
  obtain mid c1 where e: "mqtt_client_enqueue_priv os topic data len qos retain store (MQTT_API_LOCK c) = Some (mid, c1)"
    and c': "c' = MQTT_API_UNLOCK c1"
    using r by (auto simp: esp_mqtt_client_enqueue_def Option.bind_eq_Some_conv Let_def)
  have "mqtt_inv base (Suc k) c1" using c by (intro enqueue_priv_inv [OF ok _ e]) simp
  then show ?thesis unfolding c' by (rule mqtt_inv_lock)
qed

lemma send_request_inv:
  assumes ok: "mqtt_os_ok os base" and c: "mqtt_inv base (Suc k) c" and wf: "conn_wf (snd msg)"
  shows "mqtt_inv base k (snd (send_request os msg c))"
proof -
  define c1 where "c1 = set_outbound (snd msg) (c\<lparr>pending_msg_id := fst msg\<rparr>)"
  define c2 where "c2 = c1\<lparr>pending_msg_type := int (mqtt_get_type (outbound_data c1))\<rparr>"
  define c3 where "c3 = mqtt_enqueue os (c2\<lparr>pending_msg_count := pending_msg_count c2 + 1\<rparr>)"
  define c4 where "c4 = set_pending (uint (pending_msg_id c1)) TRANSMITTED c3"
  obtain e c5 where w: "mqtt_write_data os c4 = (e, c5)" by fastforce
  have c1: "mqtt_inv base (Suc k) c1" unfolding c1_def using c wf by (intro inv_intros) simp_all
  then have "mqtt_inv base (Suc k) c2" by (simp add: c2_def)
  then have "mqtt_inv base (Suc k) c4"
    unfolding c4_def c3_def by (intro set_pending_inv enqueue_inv [OF ok])
  from write_inv [OF ok this w] have "mqtt_inv base (Suc k) c5" .
  moreover have "c2\<lparr>pending_msg_count := pending_msg_count c2 + 1\<rparr> =
    c1\<lparr>pending_msg_type := int (mqtt_get_type (outbound_data c1)), pending_msg_count := pending_msg_count c1 + 1\<rparr>"
    by (simp add: c2_def)
  then have "send_request os msg c = (if message_failed c1 then (-1, MQTT_API_UNLOCK c1)
      else (if e = ESP_FAIL then -1 else uint (pending_msg_id c5), MQTT_API_UNLOCK c5))"
    using w by (simp add: send_request_def c1_def [symmetric] c4_def c3_def Let_def split_def split: esp_err.split)
  ultimately show ?thesis using c1 mqtt_inv_lock(2) by auto
qed

lemma subscribe_inv:
  assumes ok: "mqtt_os_ok os base" and c: "mqtt_inv base k c"
  shows "esp_mqtt_client_subscribe os topic qos c = Some (r, c') \<Longrightarrow> mqtt_inv base k c'"
    "esp_mqtt_client_unsubscribe os topic c = Some (r, c') \<Longrightarrow> mqtt_inv base k c'"
proof -
  have l: "mqtt_inv base (Suc k) (MQTT_API_LOCK c)" using c by simp
  note wf = subscribe_wf [OF mqtt_inv_connD [OF l]]
  note sr = send_request_inv [OF ok l]
  show "mqtt_inv base k c'" if r: "esp_mqtt_client_subscribe os topic qos c = Some (r, c')"
    using r mqtt_inv_lock(2) [OF l] wf(1) sr
    by (auto simp: esp_mqtt_client_subscribe_def Let_def Option.bind_eq_Some_conv split: if_splits) (metis snd_conv)
  show "mqtt_inv base k c'" if r: "esp_mqtt_client_unsubscribe os topic c = Some (r, c')"
    using r mqtt_inv_lock(2) [OF l] wf(2) sr
    by (auto simp: esp_mqtt_client_unsubscribe_def Let_def Option.bind_eq_Some_conv split: if_splits) (metis snd_conv)
qed

lemma control_inv [inv_intros]:
  assumes "mqtt_inv base k c"
  shows "mqtt_inv base k (snd (esp_mqtt_client_start os c))" "mqtt_inv base k (snd (esp_mqtt_client_disconnect c))"
    "mqtt_inv base k (snd (esp_mqtt_client_reconnect c))"
proof -
  have l: "mqtt_inv base (Suc k) (MQTT_API_LOCK c)" using assms by simp
  then have "mqtt_inv base k (MQTT_API_UNLOCK ((MQTT_API_LOCK c)\<lparr>m_world := w\<rparr>))" for w
    by (intro mqtt_inv_lock) simp
  then show "mqtt_inv base k (snd (esp_mqtt_client_start os c))"
    using mqtt_inv_lock(2) [OF l] by (auto simp: esp_mqtt_client_start_def Let_def split: prod.split)
qed (use assms in \<open>simp_all add: esp_mqtt_client_disconnect_def esp_mqtt_client_reconnect_def\<close>)

lemma stop_inv [inv_intros]:
  assumes ok: "mqtt_os_ok os base" and c: "mqtt_inv base k c"
  shows "mqtt_inv base k (snd (esp_mqtt_client_stop os from_task c))"
proof -
  have l: "mqtt_inv base (Suc k) (MQTT_API_LOCK c)" using c by simp
  let ?d = "set_outbound (mqtt_msg_disconnect (mqtt_conn (MQTT_API_LOCK c))) (MQTT_API_LOCK c)"
  have d: "mqtt_inv base (Suc k) ?d" using l by (intro inv_intros short_wf mqtt_inv_connD)
  have halt: "mqtt_inv base k (MQTT_API_UNLOCK (c\<lparr>m_run := False, m_state := MQTT_STATE_UNKNOWN\<rparr>))"
    if "mqtt_inv base (Suc k) c" for c :: "'a esp_mqtt_client"
    using that by (intro mqtt_inv_lock) simp
  show ?thesis
    using mqtt_inv_lock(2) [OF l] mqtt_inv_lock(2) [OF d] halt [OF write_snd_inv [OF ok d]] halt [OF l]
    by (simp add: esp_mqtt_client_stop_def Let_def)
qed

text \<open>Destroying the client gives all the blocks of the outbox back, those of messages still stored included.\<close>

lemma destroy_frees_outbox:
  assumes "mqtt_os_ok os base" "mqtt_inv base k c" "\<And>c. mqtt_inv base k c \<Longrightarrow> mqtt_inv base k (wait_stopped c)"
  shows "\<exists>w. esp_mqtt_client_destroy os from_task wait_stopped (Some c) = Some (ESP_OK, base, w)"
proof -
  have "mqtt_inv base k (snd (esp_mqtt_client_stop os from_task c))" by (rule stop_inv [OF assms(1,2)])
  with assms(3) show ?thesis
    by (auto simp: esp_mqtt_client_destroy_def Let_def case_prod_beta mqtt_inv_def destroy_base)
qed

lemma register_inv [inv_intros]: "mqtt_inv base k c \<Longrightarrow> mqtt_inv base k (snd (esp_mqtt_client_register_event os ev c))"
  by (simp add: esp_mqtt_client_register_event_def Let_def split: prod.split)

subsection \<open>The task\<close>

lemma ping_inv: "mqtt_os_ok os base \<Longrightarrow> mqtt_inv base k c \<Longrightarrow> mqtt_inv base k (snd (esp_mqtt_client_ping os c))"
  by (auto simp: esp_mqtt_client_ping_def Let_def intro!: inv_intros short_wf intro: mqtt_inv_connD)

lemma connack_inv:
  assumes "mqtt_os_ok os base" "connack_loop os t t0 c = Some y" "mqtt_inv base k c"
  shows "mqtt_inv base k (snd y)"
proof -
  have "os = os \<longrightarrow> mqtt_inv base k c \<longrightarrow> mqtt_inv base k (snd y)"
  proof (rule connack_loop.raw_induct [where P = "\<lambda>os' t t0 c y.
        os' = os \<longrightarrow> mqtt_inv base k c \<longrightarrow> mqtt_inv base k (snd y)", OF _ assms(2)], intro impI)
    fix f os' t t0 c y
    assume IH: "\<And>os' t t0 c y. f os' t t0 c = Some y \<Longrightarrow> os' = os \<longrightarrow> mqtt_inv base k c \<longrightarrow> mqtt_inv base k (snd y)"
      and body: "(let (n, c) = mqtt_message_receive os' t c in
        if n = 0 then let (tick, c) = platform_tick_get_ms os' c in
          if tick - t0 < word_of_int t then f os' t t0 c else Some (n, c)
        else Some (n, c)) = Some y"
      and os: "os' = os" and c: "mqtt_inv base k c"
    obtain n c1 where r: "mqtt_message_receive os t c = (n, c1)" by fastforce
    have "mqtt_inv base k c1" by (rule receive_inv [OF assms(1) c r])
    then show "mqtt_inv base k (snd y)"
      using body IH [of os] unfolding os r tick_eq by (auto split: if_splits)
  qed
  then show ?thesis using assms(3) by simp
qed

lemma connect_inv:
  assumes ok: "mqtt_os_ok os base" and c: "mqtt_inv base k c" and r: "esp_mqtt_connect os t c = Some (r, c')"
  shows "mqtt_inv base k c'"
proof -
  define c1 where "c1 = set_outbound (mqtt_msg_connect (connect_info c) (mqtt_conn c)) (c\<lparr>wait_for_ping_resp := False\<rparr>)"
  have c1: "mqtt_inv base k c1"
    unfolding c1_def using c connect_wf [OF mqtt_inv_connD [OF c]] by (intro inv_intros) simp_all
  have res: "mqtt_inv base k (snd (connack_result os n c2))" if "mqtt_inv base k c2" for n c2
    unfolding connack_result_def Let_def using that by (auto intro!: dispatch_inv [OF ok])
  define c2 where "c2 = c1\<lparr>pending_msg_type := int (mqtt_get_type (outbound_data c1)),
    pending_msg_id := of_nat (mqtt_get_id (outbound_data c1) (mm_length (mqtt_conn c1)))\<rparr>"
  obtain n w where w: "os_write os (take (mm_length (mqtt_conn c2)) (outbound_data c2))
      (cfg_network_timeout_ms (m_config c2)) (m_world c2) = (n, w)" by fastforce
  define c3 where "c3 = c2\<lparr>in_buffer_read_len := 0, message_length := 0, m_world := snd (os_tick os w)\<rparr>"
  have c3: "mqtt_inv base k c3" "mqtt_inv base k (c2\<lparr>m_world := w\<rparr>)" using c1 by (simp_all add: c2_def c3_def)
  have "connack_loop os tm t0 c3 = Some y \<Longrightarrow> mqtt_inv base k (snd (connack_result os (fst y) (snd y)))" for tm t0 y
    using connack_inv [OF ok _ c3(1)] res by blast
  then show ?thesis
    using r c1 c3(2) unfolding esp_mqtt_connect_def c1_def [symmetric] tick_eq
    by (auto simp: Let_def c2_def [symmetric] w c3_def [symmetric] Option.bind_eq_Some_conv split: if_splits) fastforce
qed

lemma pass_init_inv:
  assumes ok: "mqtt_os_ok os base" and c: "mqtt_inv base k c" and r: "pass_init os c = Some c'"
  shows "mqtt_inv base k c'"
proof -
  define c1 where "c1 = dispatch_id os MQTT_EVENT_BEFORE_CONNECT (c\<lparr>reconnect_bit := False, disconnect_bit := False\<rparr>)"
  define c2 where "c2 = (if \<not> m_transport c1 then c1\<lparr>m_run := False\<rparr> else c1)"
  obtain x w where x: "os_connect os (cfg_host (m_config c2)) (cfg_port (m_config c2)) (cfg_network_timeout_ms (m_config c2))
      (os_set_ssl os (m_world c2)) = (x, w)" by fastforce
  have "mqtt_inv base k c1" unfolding c1_def using ok c by (intro dispatch_inv) simp_all
  then have c3: "mqtt_inv base k (c2\<lparr>m_world := w\<rparr>)" by (simp add: c2_def)
  show ?thesis
  proof (cases "x < 0")
    case True
    then have "c' = esp_mqtt_abort_connection os (esp_mqtt_client_dispatch_transport_error os (c2\<lparr>m_world := w\<rparr>))"
      using r x unfolding pass_init_def c1_def [symmetric] by (simp add: c2_def [symmetric] Let_def)
    then show ?thesis using c3 abort_inv [OF ok] dispatch_inv(4) [OF ok] by metis
  next
    case False
    then obtain y c4 where y: "esp_mqtt_connect os (cfg_network_timeout_ms (m_config c2)) (c2\<lparr>m_world := w\<rparr>) = Some (y, c4)"
      and c': "c' = (if y \<noteq> ESP_OK then esp_mqtt_abort_connection os c4 else pass_up os c4)"
      using r x unfolding pass_init_def c1_def [symmetric]
      by (auto simp: c2_def [symmetric] Let_def Option.bind_eq_Some_conv)
    have "mqtt_inv base k c4" by (rule connect_inv [OF ok c3 y])
    then show ?thesis
      using c' abort_inv [OF ok] dispatch_inv(3) [OF ok] by (auto simp: pass_up_def tick_eq Let_def)
  qed
qed

lemma pass_resend_inv:
  assumes ok: "mqtt_os_ok os base" and c: "mqtt_inv base k c" and r: "pass_resend os lr c = (lr', c')"
  shows "mqtt_inv base k c'"
proof -
  have rs: "mqtt_inv base k (snd (mqtt_resend_queued os it c1))" if "mqtt_inv base k c1" for it c1
    using resend_inv [OF ok that prod.collapse [symmetric]] .
  show ?thesis
  proof (cases "outbox_dequeue (m_outbox c) QUEUED")
    case (Some it)
    obtain e c1 where e: "mqtt_resend_queued os it c = (e, c1)" by fastforce
    with rs [OF c, of it] have "mqtt_inv base k c1" by simp
    then show ?thesis using r Some e by (auto simp: pass_resend_def intro!: inv_intros split: esp_err.splits)
  next
    case None
    with r c rs show ?thesis
      by (auto simp: pass_resend_def tick_eq split: if_splits option.splits)
  qed
qed

lemma pass_rest_inv:
  assumes ok: "mqtt_os_ok os base" and c: "mqtt_inv base k c"
  shows "mqtt_inv base k (snd (pass_keepalive os c))" "mqtt_inv base k (pass_refresh os c)"
    "mqtt_inv base k (c\<lparr>m_outbox := snd (outbox_cleanup (m_outbox c) OUTBOX_MAX_SIZE)\<rparr>)"
proof -
  have t: "mqtt_inv base k (c\<lparr>m_world := w\<rparr>)" for w using c by simp
  have p: "mqtt_inv base k c2" if "esp_mqtt_client_ping os (c\<lparr>m_world := w\<rparr>) = (e, c2)" for w e c2
    using ping_inv [OF ok t, of w] that by simp
  show "mqtt_inv base k (snd (pass_keepalive os c))"
    using c abort_inv [OF ok t] abort_inv [OF ok p] p
    by (auto simp: pass_keepalive_def tick_eq split: prod.split esp_err.split)
  show "mqtt_inv base k (pass_refresh os c)"
    using c abort_inv [OF ok t] by (simp add: pass_refresh_def tick_eq)
  have "ob_wf base (m_outbox c)" using c by (simp add: mqtt_inv_def)
  from cleanup_laws [OF this prod.collapse [symmetric]]
  show "mqtt_inv base k (c\<lparr>m_outbox := snd (outbox_cleanup (m_outbox c) OUTBOX_MAX_SIZE)\<rparr>)"
    using c length_cleanup by (intro mqtt_inv_outbox) blast+
qed

lemma pass_connected_inv:
  assumes ok: "mqtt_os_ok os base" and c: "mqtt_inv base k c" and r: "pass_connected os lr c = Some (lr', c')"
  shows "mqtt_inv base k c'"
proof (cases "disconnect_bit c")
  case True
  have "mqtt_inv base k (esp_mqtt_abort_connection os (c\<lparr>disconnect_bit := False\<rparr>))"
    using ok c by (intro abort_inv) simp_all
  with True r show ?thesis by (simp add: pass_connected_def)
next
  case False
  then obtain e c1 where e: "mqtt_process_receive os c = Some (e, c1)"
    using r by (auto simp: pass_connected_def Option.bind_eq_Some_conv)
  have c1: "mqtt_inv base k c1" by (rule process_receive_inv [OF ok c e])
  obtain l c2 where rs: "pass_resend os lr (mqtt_delete_expired_messages os c1) = (l, c2)" by fastforce
  have c2: "mqtt_inv base k c2" by (rule pass_resend_inv [OF ok delete_expired_inv [OF c1] rs])
  obtain g c3 where ka: "pass_keepalive os c2 = (g, c3)" by fastforce
  with pass_rest_inv(1) [OF ok c2] have c3: "mqtt_inv base k c3" by simp
  show ?thesis
    using r False e c3 abort_inv [OF ok c1] pass_rest_inv(3) [OF ok pass_rest_inv(2) [OF ok c3]]
    by (auto simp: pass_connected_def rs ka Let_def split: if_splits)
qed

lemma pass_wait_inv:
  assumes "mqtt_inv base (Suc k) c" "pass_wait os c = (b, c')"
  shows "if b then mqtt_inv base k c' else mqtt_inv base (Suc k) c'"
proof -
  have "mqtt_inv base k (MQTT_API_UNLOCK (c\<lparr>m_world := w\<rparr>))" for w
    using assms(1) by (intro mqtt_inv_lock) simp
  then show ?thesis
    using assms by (auto simp: pass_wait_def tick_eq split: if_splits)
qed

lemma task_pass_inv:
  assumes ok: "mqtt_os_ok os base" and c: "mqtt_inv base k c" and r: "task_pass os lr c = Some (b, lr', c')"
  shows "mqtt_inv base k c'"
proof -
  have l: "mqtt_inv base (Suc k) (MQTT_API_LOCK c)" using c by simp
  have w: "mqtt_inv base k (if b then c1 else MQTT_API_UNLOCK c1)" if "pass_wait os (MQTT_API_LOCK c) = (b, c1)" for b c1
    using pass_wait_inv [OF l that] mqtt_inv_lock(2) by (auto split: if_splits)
  show ?thesis
    using r w pass_init_inv [OF ok l] pass_connected_inv [OF ok l] mqtt_inv_lock(2) [OF l]
    by (fastforce simp: task_pass_def Let_def intro: mqtt_inv_lock(2) split: mqtt_client_state.splits prod.splits bool.splits)
qed

lemma task_rest_inv [inv_intros]:
  assumes ok: "mqtt_os_ok os base" and c: "mqtt_inv base k c"
  shows "mqtt_inv base k (task_prologue os c)" "mqtt_inv base k (task_poll os c)" "mqtt_inv base k (task_epilogue os c)"
  using c abort_inv [OF ok, of k "c\<lparr>m_world := w\<rparr>" for w]
  by (simp_all add: task_prologue_def task_poll_def task_epilogue_def Let_def split: prod.split)

lemma mqtt_step_inv:
  "mqtt_step os s s' \<Longrightarrow> mqtt_os_ok os base \<Longrightarrow> mqtt_inv base 0 (snd s) \<Longrightarrow> mqtt_inv base 0 (snd s')"
proof (induction rule: mqtt_step.induct)
  case (step_start ph c r c')
  then show ?case using control_inv(1) [of base 0 c os] by simp
qed (auto intro: inv_intros publish_inv enqueue_api_inv subscribe_inv task_pass_inv)

lemma init_client_inv:
  assumes "init_client os info cfg bs obs mem (Some ob) w = Some c" "ob_wf base ob" "ob_items ob = []"
    "5 \<le> obs" "\<And>b. mem obs = Some b \<Longrightarrow> length b = nat obs"
  shows "mqtt_inv base 0 c"
  using assms by (auto simp: init_client_def mqtt_inv_def conn_wf_def mqtt_msg_init_def Option.bind_eq_Some_conv Let_def
      split: prod.splits)

text \<open>C8: Every state of the MQTT client that turns of its task and calls of the application can reach from its
  initialisation is sound, whatever the network, the clock, the heap and the broker do: the client's lock is given
  back on every path, the outbox frees exactly what it allocated (its blocks are distinct and nothing else is in
  use), it never holds more messages than are counted as pending (so that no acknowledgement is ignored), and the
  output buffer has kept its size.\<close>

theorem mqtt_client_invariant:
  assumes "mqtt_os_ok os base" "init_client os info cfg bs obs mem (Some ob) w = Some c" "ob_wf base ob" "ob_items ob = []"
    and "5 \<le> obs" "\<And>b. mem obs = Some b \<Longrightarrow> length b = nat obs"
    and "(mqtt_step os)\<^sup>*\<^sup>* (Task_none, c) (ph, c')"
  shows "api_lock c' = 0 \<and> ob_wf base (m_outbox c')
    \<and> int (length (ob_items (m_outbox c'))) \<le> pending_msg_count c'
    \<and> length (mc_buffer (mqtt_conn c')) = mc_buffer_length (mqtt_conn c')"
proof -
  have "mqtt_inv base 0 (snd (Task_none, c))" using init_client_inv [OF assms(2-6)] by simp
  with assms(7) have "mqtt_inv base 0 (snd (ph, c'))"
    by (induction rule: rtranclp_induct) (auto intro: mqtt_step_inv [OF _ assms(1)])
  then show ?thesis by (auto simp: mqtt_inv_def conn_wf_def)
qed

lemma fresh_block_new: "fresh_block live = Some a \<Longrightarrow> a \<notin> live"
  unfolding fresh_block_def find_Some_iff by blast

lemma net_os_ok: "mqtt_os_ok net_os base"
  by (auto simp: mqtt_os_ok_def heap_fresh_def handler_keeps_def net_os_def note_event_def dest!: fresh_block_new)

lemma net_outbox_wf: "ob_wf {} net_outbox"
  by (simp add: net_outbox_def ob_wf_def blocks_def)

lemma net_client_inv: "mqtt_inv {} 0 (net_client bs)"
  by (rule init_client_inv [OF net_init_Some [unfolded net_init_def] net_outbox_wf]) (simp_all add: net_outbox_def)

text \<open>The client started, its task on the way, and a message published that waits for the connection.\<close>

theorem mqtt_client_invariant_witness:
  "let c1 = task_prologue net_os (snd (esp_mqtt_client_start net_os (net_client [])));
       c2 = snd (the (esp_mqtt_client_publish net_os (Some (cstr ''t'')) (Some (cstr ''on'')) 2 1 0 c1))
   in length (ob_items (m_outbox c2)) = 1 \<and> api_lock c2 = 0 \<and> ob_wf {} (m_outbox c2)"
proof -
  define c0 where "c0 = net_client []"
  define c1 where "c1 = task_prologue net_os (snd (esp_mqtt_client_start net_os c0))"
  define r where "r = the (esp_mqtt_client_publish net_os (Some (cstr ''t'')) (Some (cstr ''on'')) 2 1 0 c1)"
  have st: "fst (esp_mqtt_client_start net_os c0) = ESP_OK"
    and pb: "esp_mqtt_client_publish net_os (Some (cstr ''t'')) (Some (cstr ''on'')) 2 1 0 c1 \<noteq> None"
    and len: "length (ob_items (m_outbox (snd r))) = 1"
    unfolding r_def c1_def c0_def by code_simp+
  have "mqtt_step net_os (Task_none, c0) (Task_begin, snd (esp_mqtt_client_start net_os c0))"
    using step_start [of Task_none net_os c0, OF _ prod.collapse [symmetric]] st by simp
  moreover have "mqtt_step net_os (Task_begin, snd (esp_mqtt_client_start net_os c0)) (Task_loop 0, c1)"
    unfolding c1_def by (rule step_begin)
  moreover have "esp_mqtt_client_publish net_os (Some (cstr ''t'')) (Some (cstr ''on'')) 2 1 0 c1 = Some (fst r, snd r)"
    using pb by (simp add: r_def)
  then have "mqtt_step net_os (Task_loop 0, c1) (Task_loop 0, snd r)" by (rule step_publish)
  ultimately have "(mqtt_step net_os)\<^sup>*\<^sup>* (Task_none, net_client []) (Task_loop 0, snd r)"
    unfolding c0_def by (meson converse_rtranclp_into_rtranclp rtranclp.rtrancl_refl)
  from mqtt_client_invariant [OF net_os_ok net_init_Some [unfolded net_init_def] net_outbox_wf _ _ _ this]
  show ?thesis using len by (simp add: net_outbox_def r_def c1_def c0_def Let_def)
qed

end
