(* ===== verification/Mqtt_Receive.thy ===== *)
theory Mqtt_Receive
  imports Mqtt_Client_Inv
begin

text \<open>
  What the MQTT client makes of the bytes it receives: one message is taken from the stream, an acknowledgement
  completes exactly the message it is for, and a long message is delivered in pieces that make up the whole.
\<close>

subsection \<open>A transport that is a stream\<close>

text \<open>\<open>strm w\<close> are the bytes that have arrived and are not read yet; a read gives as many of them as it asks for.  \<open>keep w\<close> is
  what else there is in the world and not touched by reading.\<close>

definition byte_stream :: "'w mqtt_os \<Rightarrow> ('w \<Rightarrow> bytes) \<Rightarrow> ('w \<Rightarrow> 'x) \<Rightarrow> bool" where
  "byte_stream os strm keep \<longleftrightarrow> (\<forall>n t w r bs w'. 0 < n \<longrightarrow> os_read os n t w = (r, bs, w') \<longrightarrow>
     bs = take (nat n) (strm w) \<and> r = int (length bs) \<and> strm w' = drop (nat n) (strm w) \<and> keep w' = keep w)"

lemma net_stream: "byte_stream net_os n_in n_events"
  by (auto simp: byte_stream_def net_os_def Let_def)

text \<open>The client \<open>c0\<close> after it has read the bytes \<open>got\<close> of a message; \<open>rest\<close> is still in the stream.\<close>

definition has_read :: "('w \<Rightarrow> bytes) \<Rightarrow> ('w \<Rightarrow> 'x) \<Rightarrow> 'w esp_mqtt_client \<Rightarrow> bytes \<Rightarrow> bytes \<Rightarrow> 'w esp_mqtt_client \<Rightarrow> bool" where
  "has_read strm keep c0 got rest c \<longleftrightarrow> (\<exists>w. strm w = rest \<and> keep w = keep (m_world c0) \<and>
     c = c0\<lparr>m_world := w, in_buffer := mem_write 0 got (in_buffer c0), in_buffer_read_len := length got\<rparr>)"

lemma mem_write_append:
  "length xs + length ys \<le> length buf \<Longrightarrow> mem_write (length xs) ys (mem_write 0 xs buf) = mem_write 0 (xs @ ys) buf"
  by (simp add: mem_write_def add.commute)

lemma read_step:
  assumes "byte_stream os strm keep" "has_read strm keep c0 got (bs @ rest) c" "bs \<noteq> []"
    and "length got + length bs \<le> length (in_buffer c0)"
  obtains c' where "read_at os (in_buffer_read_len c) (int (length bs)) t c = (int (length bs), c')"
    "has_read strm keep c0 (got @ bs) rest (advance (length bs) c')"
proof -
  obtain w where w: "strm w = bs @ rest" "keep w = keep (m_world c0)"
    and c: "c = c0\<lparr>m_world := w, in_buffer := mem_write 0 got (in_buffer c0), in_buffer_read_len := length got\<rparr>"
    using assms(2) by (auto simp: has_read_def)
  obtain r bs' w' where r: "os_read os (int (length bs)) t w = (r, bs', w')" using prod_cases3 by blast
  have "0 < int (length bs)" using assms(3) by simp
  then have "bs' = bs" "r = int (length bs)" "strm w' = rest" "keep w' = keep (m_world c0)"
    using assms(1) r w unfolding byte_stream_def by fastforce+
  with r have rd: "read_at os (in_buffer_read_len c) (int (length bs)) t c = (int (length bs),
      c\<lparr>m_world := w', in_buffer := mem_write (in_buffer_read_len c) bs (in_buffer c)\<rparr>)"
    by (simp add: read_at_def c)
  have "has_read strm keep c0 (got @ bs) rest (advance (length bs)
      (c\<lparr>m_world := w', in_buffer := mem_write (in_buffer_read_len c) bs (in_buffer c)\<rparr>))"
    unfolding has_read_def using \<open>strm w' = rest\<close> \<open>keep w' = keep (m_world c0)\<close> assms(4)
    by (intro exI [of _ w']) (simp add: c advance_def mem_write_append)
  with rd show ?thesis by (rule that)
qed

lemma has_read_buffer:
  assumes "has_read strm keep c0 got rest c" "length got \<le> length (in_buffer c0)"
  shows "take (length got) (in_buffer c) = got" "in_buffer_read_len c = length got"
    "length (in_buffer c) = length (in_buffer c0)" "\<exists>tail. in_buffer c = got @ tail"
  using assms by (auto simp: has_read_def mem_write_def)

subsection \<open>The fixed header\<close>

text \<open>Length bytes: all but the last one have the continuation bit.\<close>

fun var_len :: "bytes \<Rightarrow> bool" where
  "var_len [] = False"
| "var_len [b] = (b AND 0x80 = 0)"
| "var_len (b # bs) = (b AND 0x80 \<noteq> 0 \<and> var_len bs)"

lemma var_len_encode: "var_len (encode_len n)"
proof (induction n rule: encode_len.induct)
  case (1 n)
  have m: "n mod 128 < 128" by simp
  show ?case
  proof (cases "n div 128 = 0")
    case True
    then show ?thesis using length_byte(1) [OF m] by (subst encode_len.simps) simp
  next
    case False
    from 1 [OF this] obtain b bs where "encode_len (n div 128) = b # bs" by (cases "encode_len (n div 128)") auto
    with 1 [OF False] False show ?thesis
      using length_byte(2) [OF m] by (subst encode_len.simps) (simp del: of_nat_add)
  qed
qed

lemma length_loop:
  assumes "byte_stream os strm keep"
  shows "var_len ls \<Longrightarrow> has_read strm keep c0 got (ls @ rest) c \<Longrightarrow> length got + length ls \<le> 5 \<Longrightarrow>
    5 \<le> length (in_buffer c0) \<Longrightarrow>
    \<exists>c'. receive_length_loop os t c = (None, c') \<and> has_read strm keep c0 (got @ ls) rest c'"
proof (induction ls arbitrary: got c rule: var_len.induct)
  case (2 b)
  obtain c1 where c1: "read_at os (in_buffer_read_len c) (int (length [b])) t c = (int (length [b]), c1)"
    "has_read strm keep c0 (got @ [b]) rest (advance (length [b]) c1)"
    by (rule read_step [OF assms, of c0 got "[b]" rest c t]) (use 2 in auto)
  let ?c = "advance 1 c1"
  have "length (got @ [b]) \<le> length (in_buffer c0)" using 2(3,4) by simp
  from has_read_buffer [OF c1(2) this] have "byte_at (in_buffer ?c) (in_buffer_read_len ?c - 1) = b"
    by (auto simp: byte_at_def)
  then have "\<not> length_continues ?c" using 2(1) by (simp add: length_continues_def)
  then show ?case using c1 by (subst receive_length_loop.simps) simp
next
  case (3 b b' bs)
  obtain c1 where c1: "read_at os (in_buffer_read_len c) (int (length [b])) t c = (int (length [b]), c1)"
    "has_read strm keep c0 (got @ [b]) ((b' # bs) @ rest) (advance (length [b]) c1)"
    by (rule read_step [OF assms, of c0 got "[b]" "(b' # bs) @ rest" c t]) (use 3 in auto)
  let ?c = "advance 1 c1"
  have "length (got @ [b]) \<le> length (in_buffer c0)" using 3(4,5) by simp
  from has_read_buffer [OF c1(2) this]
  have "byte_at (in_buffer ?c) (in_buffer_read_len ?c - 1) = b" "in_buffer_read_len ?c = Suc (length got)"
    by (auto simp: byte_at_def)
  then have "length_continues ?c" using 3(2,4) by (simp add: length_continues_def)
  moreover have "\<exists>c'. receive_length_loop os t ?c = (None, c') \<and> has_read strm keep c0 ((got @ [b]) @ b' # bs) rest c'"
    using 3 c1(2) by (intro 3(1)) simp_all
  ultimately show ?case using c1(1) by (subst receive_length_loop.simps) simp
qed simp

lemma first_byte_cong:
  assumes "byte_at b 0 = byte_at b' 0"
  shows "mqtt_get_type b = mqtt_get_type b'" "mqtt_get_qos b = mqtt_get_qos b'" "mqtt_get_dup b = mqtt_get_dup b'"
    "mqtt_has_valid_msg_hdr b n = mqtt_has_valid_msg_hdr b' n"
  unfolding mqtt_has_valid_msg_hdr_def mqtt_get_type_def mqtt_get_qos_def mqtt_get_dup_def assms by (rule refl)+

lemma first_stage:
  assumes "byte_stream os strm keep" "has_read strm keep c0 [] (tb # rest) c" "1 \<le> length (in_buffer c0)"
    "mqtt_has_valid_msg_hdr [tb] 1"
  shows "\<exists>c'. receive_first os t c = (None, c') \<and> has_read strm keep c0 [tb] rest c'"
proof -
  obtain c1 where c1: "read_at os (in_buffer_read_len c) (int (length [tb])) t c = (int (length [tb]), c1)"
    "has_read strm keep c0 ([] @ [tb]) rest (advance (length [tb]) c1)"
    by (rule read_step [OF assms(1), of c0 "[]" "[tb]" rest c t]) (use assms in auto)
  have "in_buffer (advance (length [tb]) c1) = in_buffer c1" by (simp add: advance_def)
  with has_read_buffer(4) [OF c1(2)] assms(3) obtain tail where b: "in_buffer c1 = tb # tail" by auto
  have "mqtt_has_valid_msg_hdr (in_buffer c1) 1"
    using assms(4) first_byte_cong(4) [of "in_buffer c1" "[tb]" 1] by (simp add: b byte_at_def)
  moreover have "in_buffer_read_len c = 0" using assms(2) by (auto simp: has_read_def)
  ultimately show ?thesis using c1 by (simp add: receive_first_def read_stage_def)
qed

subsection \<open>One message\<close>

lemma small_word:
  assumes "n < 2 ^ 31"
  shows "sint (of_nat n :: u32) = int n" "unat (of_nat n :: u32) = n"
  using assms by (simp_all add: signed_of_nat signed_take_bit_int_eq_self unat_of_nat)

lemma rest_stage:
  assumes "byte_stream os strm keep" "has_read strm keep c0 got (bs @ rest) c" "length got + length bs \<le> length (in_buffer c0)"
    "length got + length bs < 2 ^ 31"
  shows "\<exists>c'. receive_finish os t (int (length got + length bs)) c = (1, c') \<and> has_read strm keep c0 (got @ bs) rest c'"
proof (cases "bs = []")
  case True
  have "in_buffer_read_len c = length got" using assms(2) by (auto simp: has_read_def)
  with True assms show ?thesis
    by (simp add: receive_finish_def receive_rest_def then_do_def)
next
  case False
  obtain c1 where c1: "read_at os (in_buffer_read_len c) (int (length bs)) t c = (int (length bs), c1)"
    "has_read strm keep c0 (got @ bs) rest (advance (length bs) c1)"
    by (rule read_step [OF assms(1,2) False assms(3)])
  have rl: "in_buffer_read_len c = length got" using assms(2) by (auto simp: has_read_def)
  have rl': "in_buffer_read_len (advance (length bs) c1) = length got + length bs" using c1(2) by (auto simp: has_read_def)
  let ?w = "of_nat (length got + length bs) :: u32"
  have lt: "(of_nat (length got) :: u32) < ?w"
    using False assms(4) by (simp add: word_less_nat_alt small_word(2) del: of_nat_add)
  have d: "sint (?w - of_nat (length got)) = int (length bs)"
    using small_word(1) [of "length bs"] assms(4) by simp
  show ?thesis
    using c1 rl rl' lt d False
    by (simp add: receive_finish_def receive_rest_def read_stage_def then_do_def Let_def del: of_nat_add)
qed

text \<open>A packet: first byte, remaining length, body.\<close>

definition packet :: "u8 \<Rightarrow> bytes \<Rightarrow> bytes" where
  "packet tb bd = tb # encode_len (length bd) @ bd"

text \<open>The client ready for the next message.\<close>

definition idle :: "'w esp_mqtt_client \<Rightarrow> bool" where
  "idle c \<longleftrightarrow> in_buffer_read_len c = 0 \<and> length (in_buffer c) = in_buffer_length c \<and> 5 \<le> in_buffer_length c"

lemma receive_header:
  assumes "byte_stream os strm keep" "idle c" "strm (m_world c) = packet tb bd @ rest" "length bd < 2 ^ 28"
    "mqtt_has_valid_msg_hdr [tb] 1"
  shows "\<exists>c1. mqtt_message_receive os t c = receive_sized os t c1
    \<and> has_read strm keep (c\<lparr>message_length := 0\<rparr>) (tb # encode_len (length bd)) (bd @ rest) c1"
proof -
  let ?c0 = "c\<lparr>message_length := 0\<rparr>" and ?ls = "encode_len (length bd)"
  have l4: "length ?ls \<le> 4" by (rule length_encode_len_4 [OF assms(4)])
  have "has_read strm keep ?c0 [] (tb # ?ls @ bd @ rest) ?c0"
    unfolding has_read_def using assms(2,3) by (intro exI [of _ "m_world c"]) (simp add: idle_def packet_def)
  then obtain c1 where c1: "receive_first os t ?c0 = (None, c1)" "has_read strm keep ?c0 [tb] (?ls @ bd @ rest) c1"
    using first_stage [OF assms(1), of ?c0 tb _ ?c0 t] assms(2,5) by (auto simp: idle_def)
  obtain c2 where c2: "receive_length_loop os t c1 = (None, c2)" "has_read strm keep ?c0 ([tb] @ ?ls) (bd @ rest) c2"
    using length_loop [OF assms(1) var_len_encode c1(2)] l4 assms(2) by (auto simp: idle_def)
  have "in_buffer_read_len c1 = 1" using c1(2) by (auto simp: has_read_def)
  with c1(1) c2 show ?thesis by (auto simp: mqtt_message_receive_def receive_length_def then_do_def)
qed

lemma total_length:
  assumes "has_read strm keep c0 (tb # encode_len n) rest c" "n < 2 ^ 28" "5 \<le> length (in_buffer c0)"
  shows "mqtt_get_total_length (in_buffer c) (in_buffer_read_len c) =
    (of_nat (1 + length (encode_len n) + n), 1 + length (encode_len n))"
proof -
  have "length (tb # encode_len n) \<le> length (in_buffer c0)" using length_encode_len_4 [OF assms(2)] assms(3) by simp
  from has_read_buffer [OF assms(1) this] obtain tail where
    b: "in_buffer c = tb # encode_len n @ tail" "in_buffer_read_len c = 1 + length (encode_len n)" by auto
  then show ?thesis using remaining_length_roundtrip_lemma [OF assms(2), of "1 + length (encode_len n)" tb tail] by simp
qed

lemma has_read_length:
  "has_read strm keep (c0\<lparr>message_length := m0\<rparr>) got rest c \<Longrightarrow> has_read strm keep (c0\<lparr>message_length := m\<rparr>) got rest (c\<lparr>message_length := m\<rparr>)"
  unfolding has_read_def by (elim exE conjE, rule exI, intro conjI, assumption) simp_all

lemma receive_one:
  assumes "byte_stream os strm keep" "idle c" "strm (m_world c) = packet tb bd @ rest" "length bd < 2 ^ 28"
    "mqtt_has_valid_msg_hdr [tb] 1" "length (packet tb bd) \<le> in_buffer_length c"
  shows "\<exists>w. strm w = rest \<and> keep w = keep (m_world c) \<and> mqtt_message_receive os t c = (1, c\<lparr>m_world := w,
    in_buffer := mem_write 0 (packet tb bd) (in_buffer c), in_buffer_read_len := length (packet tb bd),
    message_length := of_nat (length (packet tb bd))\<rparr>)"
proof -
  let ?got = "tb # encode_len (length bd)" and ?n = "length (packet tb bd)"
  have n: "?n = length ?got + length bd" "1 + length (encode_len (length bd)) + length bd = ?n"
    by (simp_all add: packet_def)
  have small: "?n < 2 ^ 31" using n(1) length_encode_len_4 [OF assms(4)] assms(4) by simp
  have buf: "length (in_buffer c) = in_buffer_length c" "5 \<le> length (in_buffer (c\<lparr>message_length := 0\<rparr>))"
    using assms(2) by (simp_all add: idle_def)
  obtain c1 where c1: "mqtt_message_receive os t c = receive_sized os t c1"
    "has_read strm keep (c\<lparr>message_length := 0\<rparr>) ?got (bd @ rest) c1"
    using receive_header [OF assms(1-5)] by blast
  note tot = total_length [OF c1(2) assms(4) buf(2), unfolded n(2)]
  let ?c2 = "c1\<lparr>message_length := of_nat ?n\<rparr>"
  have c2: "has_read strm keep (c\<lparr>message_length := of_nat ?n\<rparr>) ?got (bd @ rest) ?c2" by (rule has_read_length [OF c1(2)])
  obtain c3 where c3: "receive_finish os t (int (length ?got + length bd)) ?c2 = (1, c3)"
    "has_read strm keep (c\<lparr>message_length := of_nat ?n\<rparr>) (?got @ bd) rest c3"
    using rest_stage [OF assms(1) c2, of t] n(1) small buf assms(6) by auto
  have "in_buffer_length ?c2 = in_buffer_length c" using c1(2) by (auto simp: has_read_def)
  then have "receive_sized os t c1 = (1, c3)"
    using c3(1) tot small_word(1) [OF small] assms(6) unfolding n(1) [symmetric] by (simp add: receive_sized_def)
  moreover have "?got @ bd = packet tb bd" by (simp add: packet_def)
  then obtain w where "strm w = rest" "keep w = keep (m_world c)" "c3 = c\<lparr>m_world := w, in_buffer := mem_write 0 (packet tb bd) (in_buffer c),
    in_buffer_read_len := ?n, message_length := of_nat ?n\<rparr>"
    using c3(2) unfolding has_read_def by auto
  ultimately show ?thesis using c1(1) by auto
qed

text \<open>A message that has arrived is taken from the stream as a whole: from any idle client whose input buffer holds
  the message, \<open>mqtt_message_receive\<close> returns 1 with exactly the bytes of the message at the front of the buffer, their
  number in both length fields, everything else in the client unchanged, and the stream behind the message.\<close>

lemma receive_takes_one_message:
  assumes "byte_stream os strm keep" "idle c" "strm (m_world c) = packet tb bd @ rest" "length bd < 2 ^ 28"
    "mqtt_has_valid_msg_hdr [tb] 1" "length (packet tb bd) \<le> in_buffer_length c"
  shows "\<exists>w. strm w = rest \<and> keep w = keep (m_world c) \<and> mqtt_message_receive os t c = (1, c\<lparr>m_world := w,
    in_buffer := mem_write 0 (packet tb bd) (in_buffer c), in_buffer_read_len := length (packet tb bd),
    message_length := of_nat (length (packet tb bd))\<rparr>)"
  using assms by (rule receive_one)

lemma net_idle: "idle (net_client bs)" "in_buffer_length (net_client bs) = 32" "n_in (m_world (net_client bs)) = bs"
  by (simp_all add: net_client_def net_init_def init_client_def net_os_def net_world_def Let_def idle_def)

subsection \<open>Acknowledgements\<close>

lemma ack_packet: "packet tb [hi8 m, lo8 m] = [tb, 2, hi8 m, lo8 m]"
  by (simp add: packet_def short_len)

lemma ack_id:
  assumes "mqtt_get_type [tb] \<in> {MQTT_MSG_TYPE_PUBACK, MQTT_MSG_TYPE_PUBREC, MQTT_MSG_TYPE_PUBREL, MQTT_MSG_TYPE_PUBCOMP}"
    "4 \<le> n"
  shows "mqtt_get_id ([tb, 2, hi8 m, lo8 m] @ tail) n = unat m"
proof -
  let ?b = "[tb, 2, hi8 m, lo8 m] @ tail"
  have "mqtt_get_type ?b = mqtt_get_type [tb]" by (rule first_byte_cong) (simp add: byte_at_def)
  moreover have "be16 ?b 2 = unat m" using be16_id [of "[tb, 2]" m tail] by (simp add: numeral_2_eq_2)
  moreover have "byte_at ?b 1 AND 0x80 = 0" by (simp add: byte_at_def)
  ultimately show ?thesis using assms by (auto simp: mqtt_get_id_def)
qed

text \<open>Deleting the message with a given identifier, when identifiers are unique.\<close>

lemma delete_unique:
  assumes "ob_wf base ob" "distinct (map i_msg_id (ob_items ob))" "it \<in> set (ob_items ob)"
    "i_msg_id it = i" "i_msg_type it mod 256 = ty"
  shows "\<exists>ob'. outbox_delete ob i ty = (ESP_OK, ob') \<and> ob_items ob' = filter (\<lambda>x. x \<noteq> it) (ob_items ob)"
proof -
  let ?P = "\<lambda>it. i_msg_id it = i \<and> i_msg_type it mod 256 = ty"
  obtain r ob' where r: "remove_first ?P ob = (r, ob')" by fastforce
  then obtain x where x: "r = Some x" using remove_first_laws(2) [OF assms(1) r] assms(3-5) by (cases r) auto
  from remove_first_laws(3) [OF assms(1) r x] have "x \<in> set (ob_items ob)" "i_msg_id x = i"
    "ob_items ob' = filter (\<lambda>y. y \<noteq> x) (ob_items ob)" by auto
  moreover from this assms(2-4) have "x = it" by (auto simp: distinct_map inj_on_def)
  ultimately show ?thesis using r x by (auto simp: outbox_delete_def)
qed

lemma set_pending_absent: "i \<notin> i_msg_id ` set (ob_items (m_outbox c)) \<Longrightarrow> set_pending i p c = c"
proof -
  assume "i \<notin> i_msg_id ` set (ob_items (m_outbox c))"
  then have "outbox_get (m_outbox c) i = None" by (auto simp: outbox_get_def find_None_iff)
  then show ?thesis by (simp add: set_pending_def outbox_set_pending_def update_item_def)
qed

lemma acknowledged_found:
  assumes "mqtt_inv base k c" "distinct (map i_msg_id (ob_items (m_outbox c)))" "it \<in> set (ob_items (m_outbox c))"
    "i_msg_id it = uint m" "i_msg_type it mod 256 = int ty"
  shows "\<exists>ob'. acknowledged os ty ev confirm m c =
      dispatch_id os ev (c\<lparr>m_outbox := ob', pending_msg_count := pending_msg_count c - 1\<rparr>)
    \<and> ob_items ob' = filter (\<lambda>x. x \<noteq> it) (ob_items (m_outbox c))"
proof -
  have wf: "ob_wf base (m_outbox c)" "int (length (ob_items (m_outbox c))) \<le> pending_msg_count c"
    using assms(1) by (simp_all add: mqtt_inv_def)
  obtain ob' where ob': "outbox_delete (m_outbox c) (uint m) (int ty) = (ESP_OK, ob')"
    "ob_items ob' = filter (\<lambda>x. x \<noteq> it) (ob_items (m_outbox c))"
    using delete_unique [OF wf(1) assms(2-5)] by blast
  have "0 < length (ob_items (m_outbox c))" using assms(3) by (cases "ob_items (m_outbox c)") auto
  then have cnt: "pending_msg_count c \<noteq> 0" using wf(2) by linarith
  have "uint m \<notin> i_msg_id ` set (ob_items ob')"
    using assms(2-4) unfolding ob'(2) by (auto simp: distinct_map inj_on_def)
  then have "set_pending (uint m) CONFIRMED (c\<lparr>m_outbox := ob', pending_msg_count := n\<rparr>)
      = c\<lparr>m_outbox := ob', pending_msg_count := n\<rparr>" for n
    by (intro set_pending_absent) simp
  then show ?thesis using ob' cnt by (auto simp: acknowledged_def is_valid_mqtt_msg_def)
qed

text \<open>C11: An acknowledgement completes exactly the message it is for.  When the broker's PUBACK (or, for quality of
  service 2, its PUBCOMP) for identifier \<open>m\<close> arrives at a client whose outbox holds a publish message with that
  identifier, it is not ignored: that message and no other leaves the outbox, the count of pending messages goes
  down by one, and the application is told \<open>MQTT_EVENT_PUBLISHED\<close>, with the identifier \<open>m\<close> read from the input buffer.\<close>

theorem ack_completes_message:
  assumes "mqtt_inv base k c" "byte_stream os strm keep" "idle c" "strm (m_world c) = [tb, 2, hi8 m, lo8 m] @ rest"
    and "tb = 0x40 \<or> tb = 0x70" "it \<in> set (ob_items (m_outbox c))" "i_msg_id it = uint m"
    and "i_msg_type it mod 256 = int MQTT_MSG_TYPE_PUBLISH" "distinct (map i_msg_id (ob_items (m_outbox c)))"
  shows "\<exists>c1. mqtt_process_receive os c = Some (ESP_OK, (dispatch_id os MQTT_EVENT_PUBLISHED c1)\<lparr>in_buffer_read_len := 0\<rparr>)
    \<and> ob_items (m_outbox c1) = filter (\<lambda>x. x \<noteq> it) (ob_items (m_outbox c))
    \<and> pending_msg_count c1 = pending_msg_count c - 1
    \<and> mqtt_get_id (in_buffer c1) (in_buffer_length c1) = unat m \<and> strm (m_world c1) = rest"
proof -
  have ty: "mqtt_get_type [tb] = MQTT_MSG_TYPE_PUBACK \<or> mqtt_get_type [tb] = MQTT_MSG_TYPE_PUBCOMP"
    "mqtt_has_valid_msg_hdr [tb] 1"
  proof -
    have "mqtt_get_type [0x40] = 4 \<and> mqtt_has_valid_msg_hdr [0x40] 1" "mqtt_get_type [0x70] = 7 \<and> mqtt_has_valid_msg_hdr [0x70] 1"
      by code_simp+
    then show "mqtt_get_type [tb] = 4 \<or> mqtt_get_type [tb] = 7" "mqtt_has_valid_msg_hdr [tb] 1" using assms(5) by auto
  qed
  have big: "5 \<le> in_buffer_length c" "length (in_buffer c) = in_buffer_length c" using assms(3) by (simp_all add: idle_def)
  let ?pk = "packet tb [hi8 m, lo8 m]"
  obtain w where w: "strm w = rest" and r: "mqtt_message_receive os 0 c = (1, c\<lparr>m_world := w,
      in_buffer := mem_write 0 ?pk (in_buffer c), in_buffer_read_len := length ?pk, message_length := of_nat (length ?pk)\<rparr>)"
    using receive_one [OF assms(2,3), of tb "[hi8 m, lo8 m]" rest 0] assms(4) ty(2) big by (auto simp: ack_packet)
  define c1 where "c1 = c\<lparr>m_world := w, in_buffer := [tb, 2, hi8 m, lo8 m] @ drop 4 (in_buffer c),
    in_buffer_read_len := 4, message_length := 4\<rparr>"
  have r1: "mqtt_message_receive os 0 c = (1, c1)" using r by (simp add: c1_def ack_packet mem_write_0 eval_nat_numeral)
  have inv: "mqtt_inv base k c1" using assms(1) by (simp add: c1_def)
  have same: "ob_items (m_outbox c1) = ob_items (m_outbox c)" by (simp add: c1_def)
  obtain ob' where ob': "acknowledged os MQTT_MSG_TYPE_PUBLISH MQTT_EVENT_PUBLISHED True m c1 =
      dispatch_id os MQTT_EVENT_PUBLISHED (c1\<lparr>m_outbox := ob', pending_msg_count := pending_msg_count c1 - 1\<rparr>)"
    "ob_items ob' = filter (\<lambda>x. x \<noteq> it) (ob_items (m_outbox c1))"
    using acknowledged_found [OF inv, of it m MQTT_MSG_TYPE_PUBLISH] assms(6-9) unfolding same by blast
  have gid: "mqtt_get_id (in_buffer c1) n = unat m" if "4 \<le> n" for n
    unfolding c1_def using ack_id [of tb n m] ty(1) that by auto
  have gt: "mqtt_get_type (in_buffer c1) = mqtt_get_type [tb]"
    by (rule first_byte_cong) (simp add: c1_def byte_at_def)
  have "process_message os c1 = Some (ESP_OK,
      dispatch_id os MQTT_EVENT_PUBLISHED (c1\<lparr>m_outbox := ob', pending_msg_count := pending_msg_count c1 - 1\<rparr>))"
    using ty(1) gt gid [of 4] ob'(1) by (auto simp: process_message_def c1_def)
  then show ?thesis
    using r1 ob'(2) w gid [of "in_buffer_length c"] big
    by (intro exI [of _ "c1\<lparr>m_outbox := ob', pending_msg_count := pending_msg_count c1 - 1\<rparr>"])
      (simp add: mqtt_process_receive_def, simp add: c1_def)
qed

text \<open>A message of quality of service 1 published without a connection and acknowledged later.\<close>

definition net_published :: "mqtt_net esp_mqtt_client" where
  "net_published = snd (the (esp_mqtt_client_publish net_os (Some (cstr ''t'')) (Some (cstr ''on'')) 2 1 0
     (net_client [0x40, 2, 0, 1])))"

lemma net_published_state:
  "esp_mqtt_client_publish net_os (Some (cstr ''t'')) (Some (cstr ''on'')) 2 1 0 (net_client [0x40, 2, 0, 1]) \<noteq> None"
  "n_in (m_world net_published) = [0x40, 2, 0, 1]" "idle net_published" "in_buffer_length net_published = 32"
  "map (\<lambda>it. (i_msg_id it, i_msg_type it)) (ob_items (m_outbox net_published)) = [(1, 3)]"
  by code_simp+

lemma net_published_inv: "mqtt_inv {} 0 net_published"
proof -
  have "esp_mqtt_client_publish net_os (Some (cstr ''t'')) (Some (cstr ''on'')) 2 1 0 (net_client [0x40, 2, 0, 1]) =
      Some (fst (the (esp_mqtt_client_publish net_os (Some (cstr ''t'')) (Some (cstr ''on'')) 2 1 0 (net_client [0x40, 2, 0, 1]))),
        net_published)"
    using net_published_state(1) by (auto simp: net_published_def)
  from publish_inv [OF net_os_ok net_client_inv this] show ?thesis .
qed

theorem ack_completes_message_witness:
  "\<exists>c1. mqtt_process_receive net_os net_published =
      Some (ESP_OK, (dispatch_id net_os MQTT_EVENT_PUBLISHED c1)\<lparr>in_buffer_read_len := 0\<rparr>)
    \<and> ob_items (m_outbox c1) = [] \<and> mqtt_get_id (in_buffer c1) (in_buffer_length c1) = unat (1 :: u16)"
proof -
  obtain it where it: "ob_items (m_outbox net_published) = [it]" "i_msg_id it = 1" "i_msg_type it = 3"
    using net_published_state(5) by auto
  have b: "hi8 (1 :: u16) = 0" "lo8 (1 :: u16) = 1" by code_simp+
  from ack_completes_message [OF net_published_inv net_stream net_published_state(3), of "0x40" 1 "[]" it]
  show ?thesis using net_published_state(2) it b by auto
qed

end
