(* ===== verification/Mqtt_Publish.thy ===== *)
theory Mqtt_Publish
  imports Mqtt_Receive
begin

text \<open>
  What the MQTT client puts on the wire: a publication is sent as one packet, in as many fragments as the output buffer
  makes necessary, and a message that waits in the outbox is sent when the client is connected.
\<close>

subsection \<open>A transport that takes every byte\<close>

definition sends :: "'w mqtt_os \<Rightarrow> ('w \<Rightarrow> bytes) \<Rightarrow> bool" where
  "sends os sent \<longleftrightarrow>
     (\<forall>bs t w. bs \<noteq> [] \<longrightarrow> fst (os_write os bs t w) = int (length bs) \<and> sent (snd (os_write os bs t w)) = sent w @ bs)
   \<and> (\<forall>w. sent (snd (os_tick os w)) = sent w)
   \<and> (\<forall>live w. sent (snd (os_calloc os live w)) = sent w)
   \<and> (\<forall>n live w. sent (snd (os_malloc os n live w)) = sent w)"

lemma net_sends: "sends net_os n_sent"
  by (simp add: sends_def net_os_def)

lemma sends_tick: "sends os sent \<Longrightarrow> sent (snd (os_tick os w)) = sent w"
  by (simp add: sends_def)

lemma write_sends:
  assumes "sends os sent" "bs = take (mm_length (mqtt_conn c)) (outbound_data c)" "bs \<noteq> []"
  shows "\<exists>w t. mqtt_write_data os c = (ESP_OK, c\<lparr>m_world := w, keepalive_tick := t\<rparr>) \<and> sent w = sent (m_world c) @ bs"
proof -
  let ?w = "os_write os bs (cfg_network_timeout_ms (m_config c)) (m_world c)"
  have "fst ?w = int (length bs)" "sent (snd ?w) = sent (m_world c) @ bs" using assms(1,3) by (simp_all add: sends_def)
  then show ?thesis
    using assms(3) sends_tick [OF assms(1), of "snd ?w"]
    by (auto simp: mqtt_write_data_def assms(2) [symmetric] tick_eq Let_def split_beta)
qed

subsection \<open>Fragments\<close>

lemma load_fragment_simps:
  assumes "conn_wf (mqtt_conn c)" "0 \<le> pos" "0 < n" "pos + n = int (length d)"
  defines "k \<equiv> min (nat n) (mc_buffer_length (mqtt_conn c))"
  shows "mqtt_conn (load_fragment d pos n c) = (mqtt_conn c)\<lparr>mc_buffer := mem_write 0 (take k (drop (nat pos) d))
      (mc_buffer (mqtt_conn c)), mm_length := k, mm_off := 0\<rparr>"
    "take k (outbound_data (load_fragment d pos n c)) = take k (drop (nat pos) d)" "0 < k"
    "take k (drop (nat pos) d) \<noteq> []" "m_world (load_fragment d pos n c) = m_world c"
proof -
  have k: "(if n > int (mc_buffer_length (mqtt_conn c)) then mc_buffer_length (mqtt_conn c) else nat n) = k"
    unfolding k_def using assms(3) by auto
  show conn: "mqtt_conn (load_fragment d pos n c) = (mqtt_conn c)\<lparr>mc_buffer := mem_write 0 (take k (drop (nat pos) d))
      (mc_buffer (mqtt_conn c)), mm_length := k, mm_off := 0\<rparr>"
    by (simp add: load_fragment_def k Let_def set_outbound_def)
  have "out_item (load_fragment d pos n c) = None" by (simp add: load_fragment_def set_outbound_def Let_def)
  then show "take k (outbound_data (load_fragment d pos n c)) = take k (drop (nat pos) d)"
    using assms(2-4) by (simp add: outbound_data_def conn mem_write_0 k_def)
  show "0 < k" using assms(1,3) by (simp add: k_def conn_wf_def)
  then show "take k (drop (nat pos) d) \<noteq> []" using assms(2-4) by simp
  show "m_world (load_fragment d pos n c) = m_world c" by (simp add: load_fragment_def set_outbound_def Let_def)
qed

lemma fragments_sent:
  assumes "sends os sent" "length d < 2 ^ 31"
  shows "0 \<le> pos \<Longrightarrow> 0 < n \<Longrightarrow> pos + n = int (length d) \<Longrightarrow> conn_wf (mqtt_conn c) \<Longrightarrow>
    fragmented_msg_data_offset (mqtt_conn c) = 0 \<Longrightarrow>
    \<exists>c'. publish_loop os d pos n (load_fragment d pos n c) = Some (ESP_OK, c') \<and>
      sent (m_world c') = sent (m_world c) @ drop (nat pos) d"
proof (induction "nat n" arbitrary: pos n c rule: less_induct)
  case less
  define k where "k = min (nat n) (mc_buffer_length (mqtt_conn c))"
  note ld = load_fragment_simps [OF less.prems(4,1-3), folded k_def]
  let ?c1 = "load_fragment d pos n c"
  obtain w t where wr: "mqtt_write_data os ?c1 = (ESP_OK, ?c1\<lparr>m_world := w, keepalive_tick := t\<rparr>)"
    "sent w = sent (m_world c) @ take k (drop (nat pos) d)"
    using write_sends [OF assms(1) refl, of ?c1] ld by auto
  let ?c2 = "?c1\<lparr>m_world := w, keepalive_tick := t,
    mqtt_conn := (mqtt_conn ?c1)\<lparr>fragmented_msg_data_offset := 0, fragmented_msg_total_length := 0\<rparr>\<rparr>"
  have kd: "k < 2 ^ 31" "int k \<le> n" using assms(2) less.prems(1-3) by (auto simp: k_def)
  have fl: "fragment_len (mqtt_conn ?c1) = int k"
    using small_word(1) [OF kd(1)] less.prems(5) by (simp add: fragment_len_def ld(1))
  have step: "publish_loop os d pos n ?c1 = (if n - int k > 0
      then publish_loop os d (pos + int k) (n - int k) (load_fragment d (pos + int k) (n - int k) ?c2) else Some (ESP_OK, ?c2))"
    using fl by (subst publish_loop.simps) (simp add: wr(1) Let_def)
  show ?case
  proof (cases "n - int k > 0")
    case True
    have "conn_wf (mqtt_conn ?c2)" using less.prems(4) by (auto simp: ld(1) conn_wf_def k_def)
    moreover have "nat (n - int k) < nat n" using ld(3) True by simp
    ultimately obtain c' where "publish_loop os d (pos + int k) (n - int k) (load_fragment d (pos + int k) (n - int k) ?c2)
        = Some (ESP_OK, c')" "sent (m_world c') = sent w @ drop (nat (pos + int k)) d"
      using less.hyps [of "n - int k" "pos + int k" ?c2] less.prems(1,3) True by auto
    moreover have "take k (drop (nat pos) d) @ drop (nat (pos + int k)) d = drop (nat pos) d"
      using less.prems(1) by (metis append_take_drop_id drop_drop nat_int_add add.commute nat_add_distrib nat_int of_nat_0_le_iff)
    ultimately show ?thesis using step True wr(2) by auto
  next
    case False
    then have "k = nat n" using kd(2) by simp
    then have "take k (drop (nat pos) d) = drop (nat pos) d" using less.prems(1-3) by simp
    then show ?thesis using step False wr(2) by auto
  qed
qed

subsection \<open>Publishing\<close>

lemma store_sends:
  assumes "sends os sent"
  shows "\<exists>w ob. outbox_store os msg c = c\<lparr>m_world := w, m_outbox := ob\<rparr> \<and> sent w = sent (m_world c)"
proof -
  obtain blk w1 where a: "os_calloc os (ob_live (m_outbox c)) (snd (os_tick os (m_world c))) = (blk, w1)" by fastforce
  have w1: "sent w1 = sent (m_world c)"
    using assms a sends_tick [OF assms] unfolding sends_def by (metis snd_conv)
  obtain buf w2 where b: "(case blk of None \<Rightarrow> (None, w1)
      | Some a \<Rightarrow> os_malloc os (om_len msg + om_remaining_len msg) (insert a (ob_live (m_outbox c))) w1) = (buf, w2)"
    by fastforce
  have "sent w2 = sent w1" using assms b unfolding sends_def by (cases blk) (auto, metis snd_conv)
  moreover have "outbox_store os msg c = c\<lparr>m_world := w2,
      m_outbox := snd (outbox_enqueue blk buf msg (sint (fst (os_tick os (m_world c)))) (m_outbox c))\<rparr>"
    using a b by (cases blk) (simp_all add: outbox_store_def tick_eq Let_def)
  ultimately show ?thesis using w1 by auto
qed

lemma enqueue_priv_sends:
  assumes "sends os sent" "mqtt_msg_publish (os_env os) topic (Some d) (length d) qos retain 0 (mqtt_conn c) = Some (m, conn)"
    "mm_length conn \<noteq> 0" "d \<noteq> []"
  shows "\<exists>c1 f. mqtt_client_enqueue_priv os topic (Some d) (int (length d)) qos retain False c = Some (uint m, c1)
    \<and> mqtt_conn c1 = conn\<lparr>fragmented_msg_total_length := f\<rparr> \<and> out_item c1 = None \<and> m_state c1 = m_state c
    \<and> sent (m_world c1) = sent (m_world c)"
proof -
  define c1 where "c1 = set_outbound conn c"
  define c2 where "c2 = c1\<lparr>pending_msg_type := int (mqtt_get_type (outbound_data c1)), pending_msg_id := m,
    pending_publish_qos := qos, pending_msg_count := pending_msg_count c1 + 1\<rparr>"
  have c1: "mqtt_conn c1 = conn" "out_item c1 = None" "m_state c1 = m_state c" "m_world c1 = m_world c" "\<not> message_failed c1"
    using assms(3) by (simp_all add: c1_def set_outbound_def message_failed_def)
  have upd: "\<exists>f. x = x\<lparr>fragmented_msg_total_length := f\<rparr>" for x :: mqtt_connection
    by (rule exI [of _ "fragmented_msg_total_length x"]) simp
  have st: "mqtt_conn (outbox_store os msg c2) = conn" "out_item (outbox_store os msg c2) = None"
    "m_state (outbox_store os msg c2) = m_state c" "sent (m_world (outbox_store os msg c2)) = sent (m_world c)" for msg
    using store_sends [OF assms(1), of msg c2] c1 by (auto simp: c2_def)
  have q: "mqtt_conn (mqtt_enqueue os c2) = conn" "out_item (mqtt_enqueue os c2) = None"
    "m_state (mqtt_enqueue os c2) = m_state c" "sent (m_world (mqtt_enqueue os c2)) = sent (m_world c)"
    unfolding mqtt_enqueue_def using st c1 by (simp_all add: c2_def)
  have r: "mqtt_client_enqueue_priv os topic (Some d) (int (length d)) qos retain False c = Some (uint m,
      if qos > 0 then if fragmented_msg_total_length conn = 0 then mqtt_enqueue os c2
        else (let c3 = mqtt_enqueue_oversized os (drop (nat (fragment_len conn)) d) (nat (int (length d) - fragment_len conn)) c2
          in c3\<lparr>mqtt_conn := (mqtt_conn c3)\<lparr>fragmented_msg_total_length := 0\<rparr>\<rparr>)
      else c1)"
    using assms(2,4) c1(5) unfolding mqtt_client_enqueue_priv_def
    by (simp add: c1_def [symmetric] c2_def data_bytes_def Let_def)
  show ?thesis
    unfolding r using q st c1 upd by (auto simp: mqtt_enqueue_oversized_def Let_def)
qed

text \<open>The first fragment: the loop counts as sent what it carried of the data, or more when it carried all of it.\<close>

lemma first_fragment_len:
  assumes "mqtt_msg_publish env (Some t) (Some d) (length d) qos retain mid c = Some (m, c')" "conn_wf c"
    and "is_cstr t" "t \<noteq> []" "9 + length t \<le> mc_buffer_length c" "9 + length t + length d < 2 ^ 28"
    and "unat (- fragmented_msg_data_offset c) < 2 ^ 30"
  defines "k \<equiv> min (length d) (mc_buffer_length c - (5 + length (str_bytes t @ id_bytes qos m)))"
  shows "if k = length d then int k \<le> fragment_len c' else fragment_len c' = int k"
proof -
  define h where "h = str_bytes t @ id_bytes qos m"
  define n where "n = length h + length d"
  let ?L = "length (encode_len n)"
  note P = publish_message [OF assms(1-6), folded h_def, folded n_def, folded k_def [folded h_def]]
  have L: "?L \<le> 4" using P length_encode_len_4 by blast
  have small: "n < 2 ^ 28" "k \<le> length d" using P by (auto simp: k_def)
  define K where "K = unat (- fragmented_msg_data_offset c)"
  have K: "fragmented_msg_data_offset c = - of_nat K" by (simp add: K_def)
  show ?thesis
  proof (cases "k = length d")
    case True
    have "of_nat (mm_length c') - fragmented_msg_data_offset c' = (of_nat (mm_length c' + K + (4 - ?L)) :: u32)"
      using P True K by simp
    moreover have "mm_length c' + K + (4 - ?L) < 2 ^ 31"
      using P True small assms(7) L by (simp add: n_def K_def)
    ultimately have "fragment_len c' = int (mm_length c' + K + (4 - ?L))"
      unfolding fragment_len_def by (simp only: small_word(1))
    then show ?thesis using P True by simp
  next
    case False
    have "of_nat (mm_length c') - fragmented_msg_data_offset c' = (of_nat k :: u32)"
      using P False L by (simp add: of_nat_diff)
    moreover have "k < 2 ^ 31" using small by (simp add: n_def)
    ultimately show ?thesis using False unfolding fragment_len_def by (simp only: small_word(1) if_False)
  qed
qed

lemma publish_loop_sends:
  assumes "sends os sent" "length d < 2 ^ 31" "conn_wf (mqtt_conn c)" "k \<le> length d"
    and "take (mm_length (mqtt_conn c)) (outbound_data c) = first" "first \<noteq> []"
    and "if k = length d then int k \<le> fragment_len (mqtt_conn c) else fragment_len (mqtt_conn c) = int k"
  shows "\<exists>c'. publish_loop os d 0 (int (length d)) c = Some (ESP_OK, c') \<and> sent (m_world c') = sent (m_world c) @ first @ drop k d"
proof -
  obtain w tk where
    wr: "mqtt_write_data os c = (ESP_OK, c\<lparr>m_world := w, keepalive_tick := tk\<rparr>)" "sent w = sent (m_world c) @ first"
    using write_sends [OF assms(1) assms(5) [symmetric] assms(6)] by auto
  let ?c2 = "c\<lparr>m_world := w, keepalive_tick := tk,
    mqtt_conn := (mqtt_conn c)\<lparr>fragmented_msg_data_offset := 0, fragmented_msg_total_length := 0\<rparr>\<rparr>"
  show ?thesis
  proof (cases "k = length d")
    case True
    then have "publish_loop os d 0 (int (length d)) c = Some (ESP_OK, ?c2)"
      using assms(7) by (subst publish_loop.simps) (simp add: wr(1) Let_def)
    then show ?thesis using True wr(2) by auto
  next
    case False
    then have pos: "0 < int (length d) - int k" using assms(4) by simp
    then obtain c3 where "publish_loop os d (int k) (int (length d) - int k)
        (load_fragment d (int k) (int (length d) - int k) ?c2) = Some (ESP_OK, c3)" "sent (m_world c3) = sent w @ drop k d"
      using fragments_sent [OF assms(1,2), of "int k" "int (length d) - int k" ?c2] assms(3) by auto
    moreover have "publish_loop os d 0 (int (length d)) c = publish_loop os d (int k) (int (length d) - int k)
        (load_fragment d (int k) (int (length d) - int k) ?c2)"
      using assms(7) False pos by (subst publish_loop.simps) (simp add: wr(1) Let_def)
    ultimately show ?thesis using wr(2) by auto
  qed
qed

text \<open>C9: A publication is one packet on the wire, whatever the size of the output buffer.  On a connected client and a
  transport that takes what it is given, \<open>esp_mqtt_client_publish\<close> with data of known length returns the identifier of
  the message (0 for quality of service 0) after it has written exactly the fixed header with the length of the whole
  packet, the topic, the identifier and all of the data, in as many fragments as needed.  (The hypothesis on the
  offset says that no earlier fragmented message was abandoned.)\<close>

theorem publish_sends_whole_message:
  assumes "sends os sent" "random_moves (os_env os) \<or> MQTT_MSG_ID_INCREMENTAL (os_env os)" "m_state c = MQTT_STATE_CONNECTED" "conn_wf (mqtt_conn c)"
    and "is_cstr t" "t \<noteq> []" "d \<noteq> []" "9 + length t \<le> mc_buffer_length (mqtt_conn c)" "9 + length t + length d < 2 ^ 28"
    and "unat (- fragmented_msg_data_offset (mqtt_conn c)) < 2 ^ 30"
  shows "\<exists>m c'. esp_mqtt_client_publish os (Some t) (Some d) (int (length d)) qos retain c = Some (uint m, c')
    \<and> sent (m_world c') = sent (m_world c) @
        packet (type_byte MQTT_MSG_TYPE_PUBLISH 0 qos retain) (str_bytes t @ id_bytes qos m @ d)
    \<and> m \<noteq> 0 = (qos > 0)"
proof -
  let ?l = "MQTT_API_LOCK c"
  have l: "mqtt_conn ?l = mqtt_conn c" "m_world ?l = m_world c" "m_state ?l = m_state c"
    by (simp_all add: MQTT_API_LOCK_def)
  obtain m conn where p: "mqtt_msg_publish (os_env os) (Some t) (Some d) (length d) qos retain 0 (mqtt_conn c) = Some (m, conn)"
    using builders_return [OF assms(2), of "Some t" "Some d" "length d" qos retain 0 "mqtt_conn c" 0] by auto
  define h where "h = str_bytes t @ id_bytes qos m"
  define k where "k = min (length d) (mc_buffer_length (mqtt_conn c) - (5 + length h))"
  note P = publish_message [OF p assms(4,5,6,8,9), folded h_def, folded k_def]
  note F = first_fragment_len [OF p assms(4,5,6,8,9,10), folded h_def, folded k_def]
  obtain c1 f where e: "mqtt_client_enqueue_priv os (Some t) (Some d) (int (length d)) qos retain False ?l = Some (uint m, c1)"
    and c1: "mqtt_conn c1 = conn\<lparr>fragmented_msg_total_length := f\<rparr>" "out_item c1 = None"
      "m_state c1 = MQTT_STATE_CONNECTED" "sent (m_world c1) = sent (m_world c)"
    using enqueue_priv_sends [OF assms(1), of "Some t" d qos retain ?l m conn] p P assms(3,7) l by auto
  define first where "first = type_byte MQTT_MSG_TYPE_PUBLISH 0 qos retain # encode_len (length h + length d) @ h @ take k d"
  have "take (mm_length (mqtt_conn c1)) (outbound_data c1) = first"
    using conjunct1 [OF P] c1(1,2) by (simp add: outbound_data_def message_bytes_def first_def)
  moreover have "fragment_len (mqtt_conn c1) = fragment_len conn" by (simp add: c1(1) fragment_len_def)
  with F have "if k = length d then int k \<le> fragment_len (mqtt_conn c1) else fragment_len (mqtt_conn c1) = int k" by (auto split: if_splits)
  moreover have "length d < 2 ^ 31" "k \<le> length d" "first \<noteq> []" "conn_wf (mqtt_conn c1)"
    using assms(9) P c1(1) by (simp_all add: k_def first_def)
  ultimately obtain c3 where c3: "publish_loop os d 0 (int (length d)) c1 = Some (ESP_OK, c3)"
    "sent (m_world c3) = sent (m_world c) @ first @ drop k d"
    using publish_loop_sends [OF assms(1), of d c1 k first] c1(4) by auto
  have "first @ drop k d = packet (type_byte MQTT_MSG_TYPE_PUBLISH 0 qos retain) (h @ d)"
    by (simp add: first_def packet_def)
  moreover have "\<not> uint m < 0" by simp
  ultimately show ?thesis
    using e c1(3) c3 P sends_tick [OF assms(1)]
    by (auto simp: esp_mqtt_client_publish_def data_bytes_def tick_eq Let_def h_def MQTT_API_UNLOCK_def set_pending_def
        simp del: uint_nonnegative)
qed

definition net_up :: "bytes \<Rightarrow> mqtt_net esp_mqtt_client" where
  "net_up bs = (net_client bs)\<lparr>m_state := MQTT_STATE_CONNECTED\<rparr>"

theorem publish_sends_whole_message_witness:
  "\<exists>m c'. esp_mqtt_client_publish net_os (Some (cstr ''t'')) (Some (replicate 40 1)) (int (length (replicate 40 1 :: bytes))) 1 0
      (net_up []) = Some (uint m, c')
    \<and> n_sent (m_world c') = packet (type_byte MQTT_MSG_TYPE_PUBLISH 0 1 0) (str_bytes (cstr ''t'') @ id_bytes 1 m @ replicate 40 1)"
proof -
  have "MQTT_MSG_ID_INCREMENTAL (os_env net_os)" "m_state (net_up []) = MQTT_STATE_CONNECTED" "conn_wf (mqtt_conn (net_up []))"
    "is_cstr (cstr ''t'')" "cstr ''t'' \<noteq> []" "replicate 40 (1 :: u8) \<noteq> []"
    "9 + length (cstr ''t'') \<le> mc_buffer_length (mqtt_conn (net_up []))"
    "fragmented_msg_data_offset (mqtt_conn (net_up [])) = 0" "n_sent (m_world (net_up [])) = []"
    by code_simp+
  moreover have "9 + length (cstr ''t'') + length (replicate 40 (1 :: u8)) < 2 ^ 28" by (simp add: cstr_def)
  ultimately show ?thesis
    using publish_sends_whole_message [OF net_sends, of "net_up []" "cstr ''t''" "replicate 40 1" 1 0] by auto
qed

text \<open>Three things the code gets wrong, on concrete runs.  A fragmented message that is only stored leaves its offset behind:
  the next short publication sends ten bytes of its data twice and one byte more.\<close>

lemma stale_offset_repeats_data:
  "map_option (\<lambda>(r, c). n_sent (m_world c)) (Option.bind
     (esp_mqtt_client_enqueue net_os (Some (cstr ''longtopicname'')) (Some (replicate 40 1)) 40 1 0 True (net_up []))
     (\<lambda>(r, c). esp_mqtt_client_publish net_os (Some (cstr ''t'')) (Some (cstr ''0123456789'')) 10 0 0 c)) =
   Some (packet 0x30 (str_bytes (cstr ''t'') @ cstr ''0123456789'') @ cstr ''0123456789'' @ cstr ''2'')"
  by code_simp

text \<open>With length 0 the length of the text is used for the message, but not for the fragments: the packet announces 42 bytes and
  27 of them are sent.\<close>

lemma implicit_length_cut:
  "map_option (\<lambda>(r, c). n_sent (m_world c))
     (esp_mqtt_client_publish net_os (Some (cstr ''t'')) (Some (replicate 39 1 @ [0])) 0 0 0 (net_up [])) =
   Some (0x30 # encode_len 42 @ str_bytes (cstr ''t'') @ replicate 24 1)"
  by code_simp

text \<open>Of two stored messages of quality of service 0 the second one is marked as transmitted when the first is sent, because both
  have the identifier 0.\<close>

lemma unsent_marked_transmitted:
  "map_option (\<lambda>(r, c). let c = snd (pass_resend net_os 5000 c) in
      (n_sent (m_world c), map i_pending (ob_items (m_outbox c)))) (Option.bind
     (esp_mqtt_client_enqueue net_os (Some (cstr ''a'')) (Some (cstr ''1'')) 1 0 0 True (net_up []))
     (\<lambda>(r, c). esp_mqtt_client_enqueue net_os (Some (cstr ''b'')) (Some (cstr ''2'')) 1 0 0 True c)) =
   Some (packet 0x30 (str_bytes (cstr ''a'') @ cstr ''1''), [TRANSMITTED])"
  by code_simp

end
