(* ===== verification/Mqtt_Deliver.thy ===== *)
theory Mqtt_Deliver
  imports Mqtt_Publish
begin

text \<open>
  From the wire to the application: a publish message of any length is delivered in one or more events whose data, put
  together, is the data of the message.
\<close>

subsection \<open>An application that takes note\<close>

text \<open>The handler of the events keeps them in the world, \<open>evlog w\<close>, and leaves the rest of the client and the stream alone.\<close>

definition logs_to :: "('w \<Rightarrow> bytes) \<Rightarrow> ('w \<Rightarrow> esp_mqtt_event list) \<Rightarrow> (esp_mqtt_event \<Rightarrow> 'w esp_mqtt_client \<Rightarrow> 'w esp_mqtt_client) \<Rightarrow> bool" where
  "logs_to strm evlog h \<longleftrightarrow> (\<forall>ev c. \<exists>w. evlog w = evlog (m_world c) @ [ev] \<and> strm w = strm (m_world c) \<and> h ev c = c\<lparr>m_world := w\<rparr>)"

definition records :: "'w mqtt_os \<Rightarrow> ('w \<Rightarrow> bytes) \<Rightarrow> ('w \<Rightarrow> esp_mqtt_event list) \<Rightarrow> bool" where
  "records os strm evlog \<longleftrightarrow> logs_to strm evlog (os_event_handle os) \<and> logs_to strm evlog (os_event_loop os)"

lemma net_records: "records net_os n_in n_events"
proof -
  have "logs_to n_in n_events note_event" unfolding logs_to_def note_event_def
    by (intro allI, rule_tac x = "(m_world c)\<lparr>n_events := n_events (m_world c) @ [ev]\<rparr>" in exI) simp
  then show ?thesis by (simp add: records_def net_os_def Let_def)
qed

lemma dispatch_records:
  assumes "records os strm evlog"
  shows "\<exists>w. evlog w = evlog (m_world c) @ [m_event c] \<and> strm w = strm (m_world c)
    \<and> esp_mqtt_dispatch_event os c = c\<lparr>m_world := w\<rparr>"
  using assms by (auto simp: records_def logs_to_def esp_mqtt_dispatch_event_def)

text \<open>Events that carry consecutive pieces, the first one from offset \<open>off\<close> on.\<close>

fun pieces_from :: "int \<Rightarrow> int \<Rightarrow> esp_mqtt_event list \<Rightarrow> bool" where
  "pieces_from off tot [] = True"
| "pieces_from off tot (e # es) = (e_event_id e = MQTT_EVENT_DATA \<and> e_current_data_offset e = off
     \<and> e_data_len e = int (length (data_bytes (e_data e))) \<and> e_total_data_len e = tot \<and> pieces_from (off + e_data_len e) tot es)"

subsection \<open>The pieces of a message\<close>

lemma post_one:
  assumes "records os strm evlog" "p + dl \<le> length (in_buffer c)" "0 < dl" "dl < 2 ^ 31" "off < 2 ^ 31"
  shows "\<exists>w e ev. evlog w = evlog (m_world c) @ [e] \<and> strm w = strm (m_world c)
    \<and> post_data os topic p (of_nat dl) (of_nat off) c = c\<lparr>m_world := w, m_event := ev\<rparr>
    \<and> e_total_data_len ev = e_total_data_len (m_event c)
    \<and> e_topic e = map_option (\<lambda>(p, n). take n (drop p (in_buffer c))) topic
    \<and> data_bytes (e_data e) = take dl (drop p (in_buffer c))
    \<and> pieces_from (int off) (e_total_data_len (m_event c)) [e] \<and> e_data_len e = int dl"
proof -
  define ev where "ev = (m_event c)\<lparr>e_event_id := MQTT_EVENT_DATA,
      e_data := Some (take dl (drop p (in_buffer c))), e_data_len := int dl, e_current_data_offset := int off,
      e_topic := map_option (\<lambda>(p, n). take n (drop p (in_buffer c))) topic,
      e_topic_len := (case topic of None \<Rightarrow> 0 | Some (_, n) \<Rightarrow> int n)\<rparr>"
  have pos: "(0 :: u32) < of_nat dl" using assms(3,4) by (simp add: word_less_nat_alt small_word(2))
  then have "post_data os topic p (of_nat dl) (of_nat off) c = esp_mqtt_dispatch_event os (c\<lparr>m_event := ev\<rparr>)"
    using assms(4,5) by (simp add: post_data_def ev_def small_word)
  moreover obtain w where "evlog w = evlog (m_world c) @ [ev]" "strm w = strm (m_world c)"
    "esp_mqtt_dispatch_event os (c\<lparr>m_event := ev\<rparr>) = c\<lparr>m_event := ev, m_world := w\<rparr>"
    using dispatch_records [OF assms(1), of "c\<lparr>m_event := ev\<rparr>"] by auto
  moreover have "length (take dl (drop p (in_buffer c))) = dl" using assms(2) by simp
  ultimately show ?thesis
    by (intro exI [of _ w] exI [of _ ev]) (simp add: ev_def data_bytes_def)
qed

lemma next_piece_reads:
  assumes "byte_stream os strm evlog" "strm (m_world c) = rem @ rest" "rem \<noteq> []" "length (in_buffer c) = in_buffer_length c"
    "0 < in_buffer_length c" "in_buffer_length c < 2 ^ 31" "rl + length rem < 2 ^ 31"
  defines "k \<equiv> min (in_buffer_length c) (length rem)"
  shows "\<exists>w. next_piece os (of_nat (rl + length rem)) (of_nat rl) c =
      (of_nat k, c\<lparr>m_world := w, in_buffer := mem_write 0 (take k rem) (in_buffer c)\<rparr>)
    \<and> strm w = drop k rem @ rest \<and> evlog w = evlog (m_world c) \<and> 0 < k"
proof -
  have n: "(if of_nat (rl + length rem) - of_nat rl > (of_nat (in_buffer_length c) :: u32) then of_nat (in_buffer_length c)
      else of_nat (rl + length rem) - of_nat rl) = (of_nat k :: u32)"
    using assms(6,7) by (auto simp: k_def min_def word_less_nat_alt small_word(2))
  have k: "k < 2 ^ 31" "0 < k" "k \<le> length rem" using assms(3,5,6) by (auto simp: k_def)
  let ?t = "cfg_network_timeout_ms (m_config c)"
  obtain r bs w where r: "os_read os (int k) ?t (m_world c) = (r, bs, w)" using prod_cases3 by blast
  have "bs = take (nat (int k)) (strm (m_world c)) \<and> r = int (length bs) \<and> strm w = drop (nat (int k)) (strm (m_world c))" and "evlog w = evlog (m_world c)"
    using assms(1) [unfolded byte_stream_def, rule_format, OF _ r] k(2) by simp_all
  then have "bs = take k rem" "r = int k" "strm w = drop k rem @ rest" using assms(2) k(3) by simp_all
  moreover note \<open>evlog w = evlog (m_world c)\<close>
  moreover have "next_piece os (of_nat (rl + length rem)) (of_nat rl) c =
      (case read_at os 0 (sint (of_nat k :: u32)) ?t c of (r, c) \<Rightarrow> (word_of_int r, c))"
    unfolding next_piece_def Let_def n ..
  moreover have "sint (of_nat k :: u32) = int k" using k(1) by (rule small_word)
  ultimately show ?thesis using k(2,3) r by (intro exI [of _ w]) (simp add: read_at_def)
qed

lemma pieces_delivered:
  assumes "byte_stream os strm evlog" "records os strm evlog"
  shows "strm (m_world c) = rem @ rest \<Longrightarrow> length (in_buffer c) = in_buffer_length c \<Longrightarrow> 0 < in_buffer_length c \<Longrightarrow>
    in_buffer_length c < 2 ^ 31 \<Longrightarrow> rl + length rem < 2 ^ 31 \<Longrightarrow> off + dl \<le> rl \<Longrightarrow> 0 < dl \<Longrightarrow> p + dl \<le> length (in_buffer c) \<Longrightarrow>
    \<exists>c' e es. post_data_event os (of_nat (rl + length rem)) topic p (of_nat dl) (of_nat off) (of_nat rl) c = Some (ESP_OK, c')
      \<and> evlog (m_world c') = evlog (m_world c) @ e # es \<and> strm (m_world c') = rest
      \<and> concat (map (data_bytes \<circ> e_data) (e # es)) = take dl (drop p (in_buffer c)) @ rem
      \<and> pieces_from (int off) (e_total_data_len (m_event c)) (e # es)
      \<and> e_topic e = map_option (\<lambda>(p, n). take n (drop p (in_buffer c))) topic
      \<and> mqtt_conn c' = mqtt_conn c \<and> out_item c' = out_item c"
proof (induction "length rem" arbitrary: rem rl off dl p topic c rule: less_induct)
  case less
  obtain w e ev where e: "evlog w = evlog (m_world c) @ [e]" "strm w = strm (m_world c)"
    "post_data os topic p (of_nat dl) (of_nat off) c = c\<lparr>m_world := w, m_event := ev\<rparr>"
    "e_total_data_len ev = e_total_data_len (m_event c)"
    "e_topic e = map_option (\<lambda>(p, n). take n (drop p (in_buffer c))) topic"
    "data_bytes (e_data e) = take dl (drop p (in_buffer c))"
    "pieces_from (int off) (e_total_data_len (m_event c)) [e]" "e_data_len e = int dl"
    using post_one [OF assms(2), of p dl c off topic] less.prems by auto
  let ?c1 = "c\<lparr>m_world := w, m_event := ev\<rparr>"
  have lt: "((of_nat rl :: u32) < of_nat (rl + length rem)) = (rem \<noteq> [])"
    using less.prems(5) by (simp add: word_less_nat_alt small_word(2) del: of_nat_add)
  show ?case
  proof (cases "rem = []")
    case True
    then have "post_data_event os (of_nat (rl + length rem)) topic p (of_nat dl) (of_nat off) (of_nat rl) c = Some (ESP_OK, ?c1)"
      by (subst post_data_event.simps) (simp add: e(3))
    then show ?thesis using e less.prems(1) True by (intro exI [of _ ?c1] exI [of _ e] exI [of _ "[]"]) simp
  next
    case False
    define k where "k = min (in_buffer_length c) (length rem)"
    obtain w' where w': "next_piece os (of_nat (rl + length rem)) (of_nat rl) ?c1 =
        (of_nat k, ?c1\<lparr>m_world := w', in_buffer := mem_write 0 (take k rem) (in_buffer c)\<rparr>)"
      "strm w' = drop k rem @ rest" "0 < k" "evlog w' = evlog w"
      using next_piece_reads [OF assms(1), of ?c1 rem rest rl] less.prems(1-5) e(2) False unfolding k_def by auto
    let ?c2 = "?c1\<lparr>m_world := w', in_buffer := mem_write 0 (take k rem) (in_buffer c)\<rparr>"
    have "(of_nat k :: u32) \<noteq> 0" using w'(3) less.prems(4) small_word(2) [of k] by (auto simp: k_def simp flip: unat_eq_0)
    then have st: "post_data_event os (of_nat (rl + length rem)) topic p (of_nat dl) (of_nat off) (of_nat rl) c =
        post_data_event os (of_nat ((rl + k) + length (drop k rem))) None 0 (of_nat k) (of_nat (off + dl)) (of_nat (rl + k)) ?c2"
      using lt False e(3) w'(1) by (subst post_data_event.simps) (simp add: k_def of_nat_diff)
    have "\<exists>c' e' es. post_data_event os (of_nat ((rl + k) + length (drop k rem))) None 0 (of_nat k) (of_nat (off + dl)) (of_nat (rl + k)) ?c2
        = Some (ESP_OK, c')
      \<and> evlog (m_world c') = evlog (m_world ?c2) @ e' # es \<and> strm (m_world c') = rest
      \<and> concat (map (data_bytes \<circ> e_data) (e' # es)) = take k (drop 0 (in_buffer ?c2)) @ drop k rem
      \<and> pieces_from (int (off + dl)) (e_total_data_len (m_event ?c2)) (e' # es)
      \<and> e_topic e' = map_option (\<lambda>(p, n). take n (drop p (in_buffer ?c2))) None
      \<and> mqtt_conn c' = mqtt_conn ?c2 \<and> out_item c' = out_item ?c2"
    proof (rule less.hyps)
      show "length (drop k rem) < length rem" using False w'(3) by simp
    qed (use less.prems w'(2,3) in \<open>simp_all add: k_def\<close>)
    then obtain c' e' es where c': "post_data_event os (of_nat ((rl + k) + length (drop k rem))) None 0 (of_nat k) (of_nat (off + dl))
        (of_nat (rl + k)) ?c2 = Some (ESP_OK, c')"
      "evlog (m_world c') = evlog w' @ e' # es" "strm (m_world c') = rest"
      "concat (map (data_bytes \<circ> e_data) (e' # es)) = take k (mem_write 0 (take k rem) (in_buffer c)) @ drop k rem"
      "pieces_from (int (off + dl)) (e_total_data_len ev) (e' # es)" "mqtt_conn c' = mqtt_conn c" "out_item c' = out_item c"
      by auto
    have "concat (map (data_bytes \<circ> e_data) (e # e' # es)) = take dl (drop p (in_buffer c)) @ rem"
      using c'(4) e(6) less.prems(2) by (simp add: mem_write_0 k_def)
    then show ?thesis
      using st c' e w'(4) by (intro exI [of _ c'] exI [of _ e] exI [of _ "e' # es"]) auto
  qed
qed

subsection \<open>Receiving what does not fit\<close>

lemma past_prefix:
  assumes "length xs = m" "m \<le> n"
  shows "take n (xs @ ys) = xs @ take (n - m) ys" "drop n (xs @ ys) = drop (n - m) ys"
  using assms by auto

text \<open>The first \<open>n\<close> bytes of a publish message of quality of service 0, as the parsers see them.\<close>

lemma publish_prefix:
  assumes "take n b = take n (packet tb (str_bytes t @ d))" "mqtt_get_qos [tb] = 0" "length t < 65536"
    and "n \<le> length b" "n \<le> length (packet tb (str_bytes t @ d))" "length (str_bytes t @ d) < 2 ^ 28"
  defines "f \<equiv> 1 + length (encode_len (length (str_bytes t @ d)))"
  defines "x \<equiv> f + 2 + length t"
  assumes "x < n"
  shows "mqtt_get_publish_topic b n = Some (f + 2, length t)" "mqtt_get_publish_data b n = Some (x, n - x)"
    "take (length t) (drop (f + 2) b) = t" "take (n - x) (drop x b) = take (n - x) d"
proof -
  let ?N = "length (str_bytes t @ d)"
  let ?P = "tb # encode_len ?N @ str_bytes t"
  have P: "packet tb (str_bytes t @ d) = ?P @ d" "length ?P = x" by (simp_all add: packet_def x_def f_def str_bytes_def)
  have "take x b = take x (take n b)" using assms(9) by simp
  also have "\<dots> = take x (?P @ d)" unfolding assms(1) P(1) using assms(9) by (simp only: take_take min.absorb1 less_imp_le)
  also have "\<dots> = ?P" by (metis P(2) append_eq_conv_conj)
  finally have b: "b = ?P @ drop x b" by (metis append_take_drop_id)
  then have scan: "scan_len b n 1 0 = (of_nat ?N, f)"
    using assms(9) unfolding f_def by (intro scan_header [of _ tb ?N "str_bytes t @ drop x b"]) (simp_all add: x_def f_def)
  have b': "b = (tb # encode_len ?N) @ str_bytes t @ drop x b" using b by simp
  have topic: "be16 b f = length t"
    using be16_str [OF assms(3), of "tb # encode_len ?N" "drop x b"] unfolding b' [symmetric] by (simp add: f_def)
  have qos: "mqtt_get_qos b = 0"
  proof -
    have "byte_at b 0 = byte_at [tb] 0" by (subst b) (simp add: byte_at_def)
    from first_byte_cong(2) [OF this] show ?thesis using assms(2) by simp
  qed
  have f5: "f \<le> 5" using length_encode_len_4 [OF assms(6)] by (simp add: f_def)
  have tot: "sint (of_nat ?N + of_nat f :: u32) = int (?N + f)"
    using small_word(1) [of "?N + f"] assms(6) f5 by simp
  have len: "n \<le> ?N + f" using assms(5) by (simp add: packet_def f_def)
  show "mqtt_get_publish_topic b n = Some (f + 2, length t)"
    using scan topic assms(9) by (simp add: mqtt_get_publish_topic_def x_def)
  show "mqtt_get_publish_data b n = Some (x, n - x)"
    using scan topic assms(9) qos tot len unfolding mqtt_get_publish_data_def x_def Let_def by simp linarith
  show "take (length t) (drop (f + 2) b) = t" by (subst b) (simp add: f_def str_bytes_def)
  have "take (n - x) (drop x b) = drop x (take n b)" by (simp add: drop_take)
  also have "\<dots> = take (n - x) (drop x (?P @ d))" unfolding assms(1) P(1) by (simp only: drop_take)
  also have "\<dots> = take (n - x) d" using past_prefix(2) [OF P(2) order_refl, of d] by (simp only: diff_self_eq_0 drop_0)
  finally show "take (n - x) (drop x b) = take (n - x) d" .
qed

lemma topic_stage:
  assumes "byte_stream os strm keep" "has_read strm keep c0 (tb # encode_len n) ([a, b] @ rest) c"
    "mqtt_get_qos [tb] = 0" "1 + length (encode_len n) + 2 \<le> length (in_buffer c0)"
    "1 + length (encode_len n) + (256 * unat a + unat b) \<le> in_buffer_length c0"
  shows "\<exists>c'. receive_topic os t (1 + length (encode_len n)) c = (None, c')
    \<and> has_read strm keep c0 (tb # encode_len n @ [a, b]) rest c'"
proof -
  let ?f = "1 + length (encode_len n)" and ?got = "tb # encode_len n"
  obtain c1 where c1: "read_at os (in_buffer_read_len c) (int (length [a, b])) t c = (int (length [a, b]), c1)"
    "has_read strm keep c0 (?got @ [a, b]) rest (advance (length [a, b]) c1)"
    using read_step [OF assms(1,2), of t] assms(4) by auto
  let ?c = "advance (length [a, b]) c1"
  have l: "length (?got @ [a, b]) \<le> length (in_buffer c0)" using assms(4) by simp
  from has_read_buffer(4) [OF c1(2) l] obtain tail where b: "in_buffer ?c = ?got @ [a, b] @ tail" by auto
  have rl: "in_buffer_read_len c = ?f" "in_buffer_read_len ?c = ?f + 2" "in_buffer_length ?c = in_buffer_length c0"
    using assms(2) c1(2) by (auto simp: has_read_def)
  have "be16 (in_buffer ?c) ?f = 256 * unat a + unat b" unfolding b using be16_append [of ?got a b tail] by simp
  moreover have "mqtt_get_qos (in_buffer ?c) = 0"
  proof -
    have "byte_at (in_buffer ?c) 0 = byte_at [tb] 0" unfolding b by (simp add: byte_at_def)
    from first_byte_cong(2) [OF this] show ?thesis using assms(3) by simp
  qed
  ultimately have "\<not> int (in_buffer_length ?c) < oversized_total ?f ?c"
    using assms(5) unfolding rl(3) oversized_total_def by (simp only: of_nat_le_iff if_False not_less flip: of_nat_add) simp
  then show ?thesis
    using c1 rl by (simp add: receive_topic_def read_stage_def Let_def numeral_2_eq_2)
qed

lemma receive_long:
  assumes "byte_stream os strm keep" "idle c" "strm (m_world c) = pk @ rest" "pk = packet tb (str_bytes t @ d)"
    and "length (str_bytes t @ d) < 2 ^ 28" "mqtt_has_valid_msg_hdr [tb] 1" "mqtt_get_type [tb] = MQTT_MSG_TYPE_PUBLISH"
    "mqtt_get_qos [tb] = 0" "in_buffer_length c < length pk" "7 + length t < in_buffer_length c" "length t < 65536"
  shows "\<exists>w. strm w = drop (in_buffer_length c) pk @ rest \<and> keep w = keep (m_world c) \<and> mqtt_message_receive os 0 c = (1, c\<lparr>m_world := w,
    in_buffer := take (in_buffer_length c) pk, in_buffer_read_len := in_buffer_length c, message_length := of_nat (length pk)\<rparr>)"
proof -
  define bd where "bd = str_bytes t @ d"
  define B where "B = in_buffer_length c"
  let ?got = "tb # encode_len (length bd)" and ?f = "1 + length (encode_len (length bd))"
  obtain c1 where c1: "mqtt_message_receive os 0 c = receive_sized os 0 c1"
    "has_read strm keep (c\<lparr>message_length := 0\<rparr>) ?got (bd @ rest) c1"
    using receive_header [OF assms(1,2), of tb bd rest 0] assms(3-6) by (auto simp: bd_def)
  have f5: "?f \<le> 5" using length_encode_len_4 assms(5) by (simp add: bd_def)
  have buf: "length (in_buffer c) = B" "5 \<le> length (in_buffer (c\<lparr>message_length := 0\<rparr>))"
    using assms(2) by (simp_all add: idle_def B_def)
  have n: "?f + length bd = length pk" by (simp add: assms(4) packet_def bd_def)
  have small: "length pk < 2 ^ 31" using n f5 assms(5) by (simp add: bd_def)
  note tot = total_length [OF c1(2) assms(5) [folded bd_def] buf(2), unfolded n]
  let ?c0 = "c\<lparr>message_length := of_nat (length pk)\<rparr>" and ?c2 = "c1\<lparr>message_length := of_nat (length pk)\<rparr>"
  have c2: "has_read strm keep ?c0 ?got (bd @ rest) ?c2" by (rule has_read_length [OF c1(2)])
  define a b where "a = (of_nat (length t div 256) :: u8)" and "b = (of_nat (length t) :: u8)"
  have ab: "bd = [a, b] @ t @ d" "256 * unat a + unat b = length t"
    using assms(11) by (simp_all add: bd_def str_bytes_def a_def b_def unat_of_nat)
  have "has_read strm keep ?c0 ?got ([a, b] @ t @ d @ rest) ?c2" using c2 ab(1) by simp
  then obtain c3 where c3: "receive_topic os 0 ?f ?c2 = (None, c3)" "has_read strm keep ?c0 (?got @ [a, b]) (t @ d @ rest) c3"
    using topic_stage [OF assms(1) _ assms(8), of ?c0 "length bd" a b "t @ d @ rest" ?c2 0] f5 buf(1) ab(2) assms(10)
    by (auto simp: B_def)
  define bs where "bs = take (B - (?f + 2)) (t @ d)"
  have k: "length (?got @ [a, b]) + length bs = B" "t @ d @ rest = bs @ drop (B - (?f + 2)) (t @ d) @ rest"
    using f5 assms(9,10) n ab(1) by (simp_all add: bs_def B_def)
  obtain c4 where c4: "receive_finish os 0 (int B) c3 = (1, c4)"
    "has_read strm keep ?c0 ((?got @ [a, b]) @ bs) (drop (B - (?f + 2)) (t @ d) @ rest) c4"
    using rest_stage [OF assms(1) c3(2) [unfolded k(2)], of 0, unfolded k(1)] buf(1) small assms(9) B_def by auto
  have "pk = (?got @ [a, b]) @ t @ d" using ab(1) by (simp add: assms(4) packet_def bd_def [symmetric])
  moreover have "length (?got @ [a, b]) = ?f + 2" "?f + 2 \<le> B" using f5 assms(10) by (simp_all add: B_def)
  ultimately have pk: "(?got @ [a, b]) @ bs = take B pk" "drop (B - (?f + 2)) (t @ d) = drop B pk"
    using past_prefix [of "?got @ [a, b]" "?f + 2" B "t @ d"] by (simp_all only: bs_def)
  have "mqtt_get_type (in_buffer ?c2) = MQTT_MSG_TYPE_PUBLISH"
  proof -
    have "\<exists>tail. in_buffer ?c2 = ?got @ tail" using has_read_buffer(4) [OF c2] f5 buf by simp
    then have "byte_at (in_buffer ?c2) 0 = byte_at [tb] 0" by (auto simp: byte_at_def)
    from first_byte_cong(1) [OF this] show ?thesis using assms(7) by simp
  qed
  moreover have "in_buffer_length ?c2 = B" "in_buffer_length c3 = B" using c1(2) c3(2) by (auto simp: has_read_def B_def)
  ultimately have "receive_sized os 0 c1 = (1, c4)"
    using tot c3(1) c4(1) small_word(1) [OF small] assms(9) by (simp add: receive_sized_def then_do_def B_def)
  moreover have "mem_write 0 (take B pk) (in_buffer c) = take B pk"
    using buf(1) assms(9) by (simp add: mem_write_0 B_def)
  moreover have "has_read strm keep ?c0 (take B pk) (drop B pk @ rest) c4" using c4(2) unfolding pk .
  then obtain w where "strm w = drop B pk @ rest" "keep w = keep (m_world c)" "c4 = ?c0\<lparr>m_world := w,
      in_buffer := mem_write 0 (take B pk) (in_buffer c), in_buffer_read_len := length (take B pk)\<rparr>"
    by (auto simp: has_read_def)
  moreover have "length (take B pk) = B" using assms(9) by (simp add: B_def)
  ultimately show ?thesis using c1(1) by (intro exI [of _ w]) (simp add: B_def)
qed

subsection \<open>Delivery\<close>

text \<open>After the receive: the start of the message is in the buffer, the rest still in the stream.\<close>

lemma publish_received:
  assumes "byte_stream os strm keep" "idle c" "strm (m_world c) = pk @ rest" "pk = packet tb (str_bytes t @ d)"
    and "length (str_bytes t @ d) < 2 ^ 28" "mqtt_has_valid_msg_hdr [tb] 1" "mqtt_get_type [tb] = MQTT_MSG_TYPE_PUBLISH"
    "mqtt_get_qos [tb] = 0" "7 + length t < in_buffer_length c" "length t < 65536"
  defines "n \<equiv> min (in_buffer_length c) (length pk)"
  shows "\<exists>w b. strm w = drop n pk @ rest \<and> keep w = keep (m_world c) \<and> take n b = take n pk \<and> length b = in_buffer_length c
    \<and> mqtt_message_receive os 0 c = (1, c\<lparr>m_world := w, in_buffer := b, in_buffer_read_len := n, message_length := of_nat (length pk)\<rparr>)"
proof (cases "length pk \<le> in_buffer_length c")
  case True
  then have "length pk \<le> length (in_buffer c)" "length (in_buffer c) = in_buffer_length c" using assms(2) by (simp_all add: idle_def)
  moreover have "n = length pk" using True by (simp add: n_def)
  moreover obtain w where "strm w = rest" "keep w = keep (m_world c)" "mqtt_message_receive os 0 c = (1, c\<lparr>m_world := w,
      in_buffer := mem_write 0 pk (in_buffer c), in_buffer_read_len := length pk, message_length := of_nat (length pk)\<rparr>)"
    using receive_one [OF assms(1,2) assms(3) [unfolded assms(4)] assms(5,6), of 0] True
    unfolding assms(4) [symmetric] by blast
  ultimately show ?thesis
    by (intro exI [of _ w] exI [of _ "mem_write 0 pk (in_buffer c)"]) (simp add: mem_write_0)
next
  case False
  then have "n = in_buffer_length c" "length (take n pk) = in_buffer_length c" by (simp_all add: n_def)
  then show ?thesis
    using receive_long [OF assms(1-8) _ assms(9,10)] False by (metis not_less take_take min.idem)
qed

lemma publish_delivered:
  assumes "byte_stream os strm evlog" "records os strm evlog" "strm (m_world c) = drop n pk @ rest" "pk = packet tb (str_bytes t @ d)"
    and "length (str_bytes t @ d) < 2 ^ 28" "mqtt_get_qos [tb] = 0" "length t < 65536"
    and "take n (in_buffer c) = take n pk" "length (in_buffer c) = in_buffer_length c" "in_buffer_length c < 2 ^ 31"
    and "in_buffer_read_len c = n" "n = min (in_buffer_length c) (length pk)" "message_length c = of_nat (length pk)"
    and "7 + length t < in_buffer_length c" "d \<noteq> []"
  shows "\<exists>c' e es. deliver_publish os c = Some (ESP_OK, c') \<and> evlog (m_world c') = evlog (m_world c) @ e # es
    \<and> strm (m_world c') = rest \<and> concat (map (data_bytes \<circ> e_data) (e # es)) = d \<and> pieces_from 0 (int (length d)) (e # es)
    \<and> e_topic e = Some t \<and> mqtt_conn c' = mqtt_conn c"
proof -
  let ?N = "length (str_bytes t @ d)"
  define f x where "f = 1 + length (encode_len ?N)" and "x = f + 2 + length t"
  have f5: "f \<le> 5" using length_encode_len_4 [OF assms(5)] by (simp add: f_def)
  have len: "length pk = x + length d" by (simp add: assms(4) packet_def x_def f_def str_bytes_def)
  have xn: "x < n" using f5 assms(12,14,15) len by (simp add: x_def)
  have bounds: "n \<le> length (in_buffer c)" "n \<le> length pk" "length pk < 2 ^ 31"
    using assms(5,9,12) f5 len by (simp_all add: x_def str_bytes_def)
  note P = publish_prefix [OF assms(8) [unfolded assms(4)] assms(6,7) bounds(1) bounds(2) [unfolded assms(4)] assms(5),
      folded f_def, folded x_def, OF xn]
  define ev where "ev = (m_event c)\<lparr>e_msg_id := int (mqtt_get_id (in_buffer c) (n - x)), e_total_data_len := int (length d)\<rparr>"
  have "sint (of_nat (n - x) + of_nat (length pk) - of_nat n :: u32) = int (length d)"
  proof -
    have "(of_nat (n - x) + of_nat (length pk) - of_nat n :: u32) = of_nat (length d)" using xn len by (simp add: of_nat_diff)
    then show ?thesis using small_word(1) [of "length d"] len bounds(3) by (simp only:)
  qed
  then have "deliver_publish os c = post_data_event os (of_nat (n + length (drop n pk))) (Some (f + 2, length t)) x (of_nat (n - x))
      (of_nat 0) (of_nat n) (c\<lparr>m_event := ev\<rparr>)"
    using P(1,2) assms(11,13) bounds(2) by (simp add: deliver_publish_def Let_def ev_def del: of_nat_add)
  moreover have "drop n pk = drop (n - x) d"
    using xn past_prefix(2) [of "tb # encode_len ?N @ str_bytes t" x n d]
    by (simp add: assms(4) packet_def x_def f_def str_bytes_def)
  ultimately show ?thesis
    using pieces_delivered [OF assms(1,2), of "c\<lparr>m_event := ev\<rparr>" "drop n pk" rest n 0 "n - x" x "Some (f + 2, length t)"]
      assms(3,9,10,14) bounds len xn P(3,4)
    by (auto simp: ev_def)
qed

text \<open>C10: A publish message from the broker reaches the application whole, whatever the size of the input buffer.  When the
  bytes of a publish message of quality of service 0 with non-empty data arrive at an idle client whose buffer holds at
  least its header and topic, \<open>mqtt_process_receive\<close> returns \<open>ESP_OK\<close> after it has called the application with one or more data
  events: each says at which offset its piece starts and how long the whole is, the first one carries the topic, and the
  pieces put together are the data of the message.  Nothing behind the message is read, and the client is idle again.\<close>

theorem publish_reaches_application:
  assumes "byte_stream os strm evlog" "records os strm evlog" "idle c" "strm (m_world c) = packet tb (str_bytes t @ d) @ rest"
    and "tb = type_byte MQTT_MSG_TYPE_PUBLISH 0 0 retain" "length t < 65536" "d \<noteq> []" "length t + length d < 2 ^ 28 - 2"
    and "7 + length t < in_buffer_length c" "in_buffer_length c < 2 ^ 31" "0 < mm_length (mqtt_conn c)"
  shows "\<exists>c' e es. mqtt_process_receive os c = Some (ESP_OK, c') \<and> evlog (m_world c') = evlog (m_world c) @ e # es
    \<and> concat (map (data_bytes \<circ> e_data) (e # es)) = d \<and> pieces_from 0 (int (length d)) (e # es)
    \<and> e_topic e = Some t \<and> strm (m_world c') = rest \<and> in_buffer_read_len c' = 0"
proof -
  define pk where "pk = packet tb (str_bytes t @ d)"
  define n where "n = min (in_buffer_length c) (length pk)"
  have N: "length (str_bytes t @ d) < 2 ^ 28" using assms(8) by (simp add: str_bytes_def)
  note fb = first_byte [of MQTT_MSG_TYPE_PUBLISH 0 0 retain, folded assms(5)]
  have tb: "mqtt_get_type (tb # m) = MQTT_MSG_TYPE_PUBLISH" "mqtt_get_qos (tb # m) = 0" "mqtt_has_valid_msg_hdr [tb] 1" for m
    using fb [of m] fb [of "[]"] by (simp_all add: mqtt_has_valid_msg_hdr_def)
  obtain w b where r: "strm w = drop n pk @ rest" "evlog w = evlog (m_world c)" "take n b = take n pk" "length b = in_buffer_length c"
    "mqtt_message_receive os 0 c = (1, c\<lparr>m_world := w, in_buffer := b, in_buffer_read_len := n, message_length := of_nat (length pk)\<rparr>)"
    using publish_received [OF assms(1,3) assms(4) refl N tb(3,1,2) assms(9,6)] unfolding pk_def [symmetric] n_def [symmetric] by blast
  let ?c = "c\<lparr>m_world := w, in_buffer := b, in_buffer_read_len := n, message_length := of_nat (length pk)\<rparr>"
  obtain c' e es where c': "deliver_publish os ?c = Some (ESP_OK, c')" "evlog (m_world c') = evlog (m_world c) @ e # es"
    "strm (m_world c') = rest" "concat (map (data_bytes \<circ> e_data) (e # es)) = d" "pieces_from 0 (int (length d)) (e # es)"
    "e_topic e = Some t" "mqtt_conn c' = mqtt_conn c"
    using publish_delivered [OF assms(1,2), of ?c n pk rest tb t d] r assms(6,7,9,10) N tb(2) by (auto simp: pk_def n_def)
  have "0 < n" using assms(9) by (simp add: n_def pk_def packet_def)
  then have "byte_at b 0 = byte_at [tb] 0"
    using r(3) by (cases b; cases n) (auto simp: pk_def packet_def byte_at_def)
  then have "mqtt_get_type b = MQTT_MSG_TYPE_PUBLISH" "mqtt_get_qos b = 0" using first_byte_cong tb by metis+
  then have "process_message os ?c = Some (ESP_OK, c')"
    using c'(1,7) assms(11) by (simp add: process_message_def receive_publish_def message_failed_def)
  then show ?thesis
    using r(5) c' by (intro exI [of _ "c'\<lparr>in_buffer_read_len := 0\<rparr>"] exI [of _ e] exI [of _ es]) (auto simp: mqtt_process_receive_def)
qed

text \<open>A client that has sent something, with a message of 65 bytes waiting for its buffer of 32.\<close>

definition net_waiting :: "bytes \<Rightarrow> mqtt_net esp_mqtt_client" where
  "net_waiting bs = snd (the (esp_mqtt_client_publish net_os (Some (cstr ''t'')) (Some (cstr ''on'')) 2 0 0 (net_up bs)))"

theorem publish_reaches_application_witness:
  "\<exists>c' e es. mqtt_process_receive net_os (net_waiting (packet (type_byte MQTT_MSG_TYPE_PUBLISH 0 0 0)
      (str_bytes (cstr ''fan'') @ replicate 60 7) @ [0xd0, 0])) = Some (ESP_OK, c')
    \<and> n_events (m_world c') = e # es \<and> concat (map (data_bytes \<circ> e_data) (e # es)) = replicate 60 7
    \<and> pieces_from 0 60 (e # es) \<and> e_topic e = Some (cstr ''fan'') \<and> n_in (m_world c') = [0xd0, 0]"
proof -
  let ?pk = "packet (type_byte MQTT_MSG_TYPE_PUBLISH 0 0 0) (str_bytes (cstr ''fan'') @ replicate 60 7)"
  let ?c = "net_waiting (?pk @ [0xd0, 0])"
  have "idle ?c" "n_in (m_world ?c) = ?pk @ [0xd0, 0]" "in_buffer_length ?c = 32" "0 < mm_length (mqtt_conn ?c)"
    "n_events (m_world ?c) = []" "replicate 60 (7 :: u8) \<noteq> []" "length (cstr ''fan'') = 3"
    by code_simp+
  then show ?thesis
    using publish_reaches_application [OF net_stream net_records, of ?c "type_byte MQTT_MSG_TYPE_PUBLISH 0 0 0"
        "cstr ''fan''" "replicate 60 7" "[0xd0, 0]" 0]
    by auto
qed

end
