(* ===== verification/Http_Header.thy ===== *)
theory Http_Header
  imports Prelude
begin

text \<open>
  The HTTP header list and its string helpers (\<^verbatim>\<open>common/esp_http_client/lib/http_header.c\<close>,
  \<^verbatim>\<open>http_utils.c\<close>).  A header is the list of its items in the order of the linked list.  Allocation is an
  oracle: \<open>mem k\<close> says whether the \<open>k\<close>-th allocation succeeds, and \<open>hh_allocs\<close> counts them.  The helpers
  of \<^verbatim>\<open>http_utils.c\<close> check their allocations with \<open>assert\<close>, which ends the program: that is the result
  \<open>None\<close> of the functions that call them.
\<close>

subsection \<open>Characters\<close>

definition c_isspace :: "u8 \<Rightarrow> bool" where
  "c_isspace b \<longleftrightarrow> b = 32 \<or> (9 \<le> b \<and> b \<le> 13)"

definition c_tolower :: "u8 \<Rightarrow> u8" where
  "c_tolower b = (if 65 \<le> b \<and> b \<le> 90 then b + 32 else b)"

text \<open>\<open>strcasecmp (a, b) == 0\<close>\<close>

definition strcaseeq :: "bytes \<Rightarrow> bytes \<Rightarrow> bool" where
  "strcaseeq a b \<longleftrightarrow> map c_tolower a = map c_tolower b"

subsection \<open>String helpers\<close>

text \<open>A \<open>char *\<close> that may be null is a \<open>bytes option\<close>; the helpers return the value of the pointer they assign
  and the new contents.  \<open>mem_ok\<close> says whether their allocation succeeds.\<close>

definition http_utils_join_string :: "bool \<Rightarrow> bytes \<Rightarrow> int \<Rightarrow> bytes \<Rightarrow> int \<Rightarrow> bytes option option" where
  "http_utils_join_string mem_ok first_str len_first second_str len_second =
    (let a = (if len_first > 0 then take (nat len_first) first_str else c_str first_str);
         b = (if len_second > 0 then take (nat len_second) second_str else c_str second_str) in
     if length a + length b > 0 then (if mem_ok then Some (Some (a @ b)) else None) else Some None)"

definition http_utils_assign_string :: "bool \<Rightarrow> bytes option \<Rightarrow> bytes option \<Rightarrow> int \<Rightarrow> bytes option option" where
  "http_utils_assign_string mem_ok str new_str len =
    (case new_str of
       None \<Rightarrow> Some str
     | Some s \<Rightarrow>
         let l = (if len \<le> 0 then length (c_str s) else nat len) in
         if mem_ok then Some (Some (c_str (take l s))) else None)"

definition http_utils_append_string :: "bool \<Rightarrow> bytes option \<Rightarrow> bytes option \<Rightarrow> int \<Rightarrow> bytes option option" where
  "http_utils_append_string mem_ok str new_str len =
    (case new_str of
       None \<Rightarrow> Some str
     | Some s \<Rightarrow>
         let l = (if len < 0 then length (c_str s) else nat len);
             old = (case str of None \<Rightarrow> [] | Some o' \<Rightarrow> o') in
         if mem_ok then Some (Some (old @ c_str (take l s))) else None)"

text \<open>The loop over the trailing spaces, which stops at the first character.\<close>

function trim_end :: "bytes \<Rightarrow> bytes" where
  "trim_end s = (if 1 < length s \<and> c_isspace (last s) then trim_end (butlast s) else s)"
  by auto
termination by (relation "measure length") auto

declare trim_end.simps [simp del]

definition http_utils_trim_whitespace :: "bytes option \<Rightarrow> bytes option" where
  "http_utils_trim_whitespace str =
    (case str of
       None \<Rightarrow> None
     | Some s \<Rightarrow>
         let start = dropWhile c_isspace s in
         if start = [] then Some [] else Some (trim_end start))"

definition http_utils_get_string_between :: "bool \<Rightarrow> bytes \<Rightarrow> bytes \<Rightarrow> bytes \<Rightarrow> bytes option option" where
  "http_utils_get_string_between mem_ok str begin end' =
    (case strstr str begin of
       None \<Rightarrow> Some None
     | Some i \<Rightarrow>
         let found = drop (i + length begin) str in
         case strstr found end' of
           None \<Rightarrow> Some None
         | Some j \<Rightarrow> if mem_ok then Some (Some (take j found)) else None)"

text \<open>The loop \<open>for (i = 0; i < start_len; i++)\<close> compares the characters one by one.\<close>

definition http_utils_str_starts_with :: "bytes \<Rightarrow> bytes \<Rightarrow> int" where
  "http_utils_str_starts_with str start =
    (if length start > length str then - 1
     else if \<exists>i \<in> set [0..<length start]. str ! i \<noteq> start ! i then 1 else 0)"

subsection \<open>The header list\<close>

record http_header_item =
  hi_key :: bytes
  hi_value :: "bytes option"

record http_header =
  hh_items :: "http_header_item list"
  hh_allocs :: nat

datatype http_err = HTTP_OK | HTTP_NO_MEM | HTTP_NOT_FOUND | HTTP_INVALID_ARG

definition http_header_init :: "(nat \<Rightarrow> bool) \<Rightarrow> nat \<Rightarrow> http_header option" where
  "http_header_init mem k = (if mem k then Some \<lparr>hh_items = [], hh_allocs = k + 1\<rparr> else None)"

definition http_header_clean :: "http_header \<Rightarrow> http_err \<times> http_header" where
  "http_header_clean header = (HTTP_OK, header\<lparr>hh_items := []\<rparr>)"

definition http_header_destroy :: "http_header \<Rightarrow> http_err" where
  "http_header_destroy header = fst (http_header_clean header)"

definition http_header_get_item :: "http_header \<Rightarrow> bytes option \<Rightarrow> nat option" where
  "http_header_get_item header key =
    (case key of None \<Rightarrow> None | Some k \<Rightarrow> find_slot (\<lambda>item. strcaseeq (hi_key item) k) (hh_items header))"

definition http_header_get :: "http_header \<Rightarrow> bytes option \<Rightarrow> bytes option" where
  "http_header_get header key =
    (case http_header_get_item header key of
       Some i \<Rightarrow> hi_value (hh_items header ! i)
     | None \<Rightarrow> None)"

definition http_header_new_item ::
  "(nat \<Rightarrow> bool) \<Rightarrow> http_header \<Rightarrow> bytes option \<Rightarrow> bytes option \<Rightarrow> (http_err \<times> http_header) option" where
  "http_header_new_item mem header key value =
    (let k = hh_allocs header in
     if \<not> mem k then Some (HTTP_NO_MEM, header\<lparr>hh_allocs := k + 1\<rparr>)
     else
       case http_utils_assign_string (mem (k + 1)) None key 0 of
         None \<Rightarrow> None
       | Some None \<Rightarrow> Some (HTTP_NO_MEM, header\<lparr>hh_allocs := k + 1\<rparr>)
       | Some (Some key') \<Rightarrow>
          (case http_utils_assign_string (mem (k + 2)) None value 0 of
             None \<Rightarrow> None
           | Some None \<Rightarrow> Some (HTTP_NO_MEM, header\<lparr>hh_allocs := k + 2\<rparr>)
           | Some (Some value') \<Rightarrow>
               Some (HTTP_OK, header\<lparr>hh_allocs := k + 3, hh_items := hh_items header @
                 [\<lparr>hi_key = the (http_utils_trim_whitespace (Some key')),
                   hi_value = http_utils_trim_whitespace (Some value')\<rparr>]\<rparr>)))"

definition http_header_delete :: "http_header \<Rightarrow> bytes option \<Rightarrow> http_err \<times> http_header" where
  "http_header_delete header key =
    (case http_header_get_item header key of
       Some i \<Rightarrow> (HTTP_OK, header\<lparr>hh_items := take i (hh_items header) @ drop (Suc i) (hh_items header)\<rparr>)
     | None \<Rightarrow> (HTTP_NOT_FOUND, header))"

text \<open>\<open>strdup\<close> of the new value may fail, which leaves a null value.\<close>

definition http_header_set ::
  "(nat \<Rightarrow> bool) \<Rightarrow> http_header \<Rightarrow> bytes option \<Rightarrow> bytes option \<Rightarrow> (http_err \<times> http_header) option" where
  "http_header_set mem header key value =
    (case value of
       None \<Rightarrow> Some (http_header_delete header key)
     | Some v \<Rightarrow>
        (case http_header_get_item header key of
           Some i \<Rightarrow>
             let new = (if mem (hh_allocs header) then Some (c_str v) else None) in
             Some (HTTP_OK, header\<lparr>hh_allocs := hh_allocs header + 1,
               hh_items := (hh_items header)[i := (hh_items header ! i)
                 \<lparr>hi_value := http_utils_trim_whitespace new\<rparr>]\<rparr>)
         | None \<Rightarrow> http_header_new_item mem header key value))"

definition http_header_set_from_string ::
  "(nat \<Rightarrow> bool) \<Rightarrow> http_header \<Rightarrow> bytes \<Rightarrow> (http_err \<times> http_header) option" where
  "http_header_set_from_string mem header key_value_data =
    (let k = hh_allocs header; h = header\<lparr>hh_allocs := k + 1\<rparr>; p_str = c_str key_value_data in
     if \<not> mem k then Some (HTTP_NO_MEM, h)
     else if 58 \<notin> set p_str then Some (HTTP_INVALID_ARG, h)
     else
       case http_header_set mem h (Some (takeWhile (\<lambda>b. b \<noteq> 58) p_str))
              (Some (tl (dropWhile (\<lambda>b. b \<noteq> 58) p_str))) of
         None \<Rightarrow> None
       | Some (_, h) \<Rightarrow> Some (HTTP_OK, h))"

text \<open>\<open>http_header_set_format\<close>, with the text that \<open>vasprintf\<close> produces as an argument.\<close>

definition http_header_set_format ::
  "(nat \<Rightarrow> bool) \<Rightarrow> http_header \<Rightarrow> bytes option \<Rightarrow> bytes \<Rightarrow> (int \<times> http_header) option" where
  "http_header_set_format mem header key buf =
    (let k = hh_allocs header; h = header\<lparr>hh_allocs := k + 1\<rparr> in
     if \<not> mem k then Some (0, h)
     else case http_header_set mem h key (Some buf) of
            None \<Rightarrow> None
          | Some (_, h) \<Rightarrow> Some (int (length buf), h))"

definition http_header_count :: "http_header \<Rightarrow> nat" where
  "http_header_count header = length (hh_items header)"

subsection \<open>Printing\<close>

text \<open>The first loop of \<open>http_header_generate_string\<close>: \<open>(siz, idx, ret_idx)\<close> after the items from \<open>idx\<close> on.\<close>

fun size_pass :: "http_header_item list \<Rightarrow> int \<Rightarrow> int \<Rightarrow> int \<Rightarrow> int \<Rightarrow> int \<times> int \<times> int" where
  "size_pass [] index buffer_len siz idx = (siz, idx, - 1)"
| "size_pass (item # items) index buffer_len siz idx =
    (let siz = (case hi_value item of
                  Some v \<Rightarrow> if idx \<ge> index then siz + int (length (hi_key item)) + int (length v) + 4 else siz
                | None \<Rightarrow> siz) in
     if siz + 1 > buffer_len - 2 then (siz, idx + 1, idx)
     else size_pass items index buffer_len siz (idx + 1))"

definition header_line :: "bytes \<Rightarrow> bytes \<Rightarrow> bytes" where
  "header_line k v = k @ [58, 32] @ v @ [13, 10]"

text \<open>\<open>snprintf (buffer + str_len, *buffer_len - str_len, txt)\<close>: the size is unsigned; as much of the text as
  fits is stored with a terminator, and the length of the whole text is returned.\<close>

definition snprintf_at :: "bytes \<Rightarrow> int \<Rightarrow> int \<Rightarrow> bytes \<Rightarrow> bytes" where
  "snprintf_at buffer str_len buffer_len txt =
    (let size = nat ((buffer_len - str_len) mod 2 ^ 32) in
     if size = 0 then buffer else mem_write (nat str_len) (take (size - 1) txt @ [0]) buffer)"

text \<open>The second loop, over the items from \<open>idx\<close> on: the buffer and \<open>str_len\<close>.\<close>

fun print_pass :: "http_header_item list \<Rightarrow> int \<Rightarrow> int \<Rightarrow> int \<Rightarrow> int \<Rightarrow> bytes \<times> int \<Rightarrow> bytes \<times> int" where
  "print_pass [] index ret_idx buffer_len idx (buffer, str_len) = (buffer, str_len)"
| "print_pass (item # items) index ret_idx buffer_len idx (buffer, str_len) =
    print_pass items index ret_idx buffer_len (idx + 1)
      (case hi_value item of
         Some v \<Rightarrow> if idx \<ge> index \<and> idx < ret_idx
           then (snprintf_at buffer str_len buffer_len (header_line (hi_key item) v),
                 str_len + int (length (header_line (hi_key item) v)))
           else (buffer, str_len)
       | None \<Rightarrow> (buffer, str_len))"

text \<open>The result, the buffer and \<open>*buffer_len\<close>.\<close>

definition http_header_generate_string :: "http_header \<Rightarrow> int \<Rightarrow> bytes \<Rightarrow> int \<Rightarrow> int \<times> bytes \<times> int" where
  "http_header_generate_string header index buffer buffer_len =
    (case size_pass (hh_items header) index buffer_len 0 0 of (siz, idx, ret_idx) \<Rightarrow>
     if siz = 0 then (0, buffer, buffer_len)
     else
       let is_end = (ret_idx < 0);
           ret_idx = (if is_end then idx else ret_idx);
           (buffer, str_len) = print_pass (hh_items header) index ret_idx buffer_len 0 (buffer, 0);
           (buffer, str_len) = (if is_end then (snprintf_at buffer str_len buffer_len [13, 10], str_len + 2)
                                else (buffer, str_len))
       in (ret_idx, buffer, str_len))"

end
