(* ===== verification/Http_Request.thy ===== *)
theory Http_Request
  imports Http_Header
begin

text \<open>
  The sending half of the HTTP client (\<^verbatim>\<open>common/esp_http_client/esp_http_client.c\<close>): the request line, the
  headers, which are printed and sent in as many pieces as the transmit buffer needs, and the body.  The
  record \<open>http_client\<close> holds the fields of \<open>struct esp_http_client\<close> these functions use; \<open>hc_sent\<close> collects the
  bytes the transport accepted and \<open>hc_events\<close> the events passed to the application's handler.  The
  transport is a parameter: \<open>esp_transport_write env k len\<close> is the result of the \<open>k\<close>-th write.
\<close>

subsection \<open>Data\<close>

datatype http_state = HTTP_STATE_UNINIT | HTTP_STATE_INIT | HTTP_STATE_CONNECTED | HTTP_STATE_REQ_COMPLETE_HEADER
  | HTTP_STATE_REQ_COMPLETE_DATA | HTTP_STATE_RES_COMPLETE_HEADER | HTTP_STATE_RES_COMPLETE_DATA | HTTP_STATE_CLOSE

fun state_num :: "http_state \<Rightarrow> nat" where
  "state_num HTTP_STATE_UNINIT = 0"
| "state_num HTTP_STATE_INIT = 1"
| "state_num HTTP_STATE_CONNECTED = 2"
| "state_num HTTP_STATE_REQ_COMPLETE_HEADER = 3"
| "state_num HTTP_STATE_REQ_COMPLETE_DATA = 4"
| "state_num HTTP_STATE_RES_COMPLETE_HEADER = 5"
| "state_num HTTP_STATE_RES_COMPLETE_DATA = 6"
| "state_num HTTP_STATE_CLOSE = 7"

text \<open>The events with the data passed along.\<close>

datatype http_event = HTTP_EVENT_ON_CONNECTED | HTTP_EVENT_HEADERS_SENT | HTTP_EVENT_ON_HEADER bytes bytes
  | HTTP_EVENT_ON_DATA bytes | HTTP_EVENT_ON_FINISH | HTTP_EVENT_DISCONNECTED

record http_client =
  hc_headers :: http_header
  hc_buffer :: bytes
  buffer_size_tx :: int
  hc_method :: nat
  hc_path :: bytes
  hc_query :: "bytes option"
  first_line_prepared :: bool
  header_index :: int
  data_written_index :: int
  data_write_left :: int
  hc_state :: http_state
  post_data :: "bytes option"
  post_len :: int
  is_async :: bool
  has_event_handler :: bool
  hc_events :: "http_event list"
  hc_sent :: bytes
  hc_writes :: nat

record http_env =
  http_mem :: "nat \<Rightarrow> bool"
  esp_transport_write :: "nat \<Rightarrow> int \<Rightarrow> int"
  esp_transport_close :: int

text \<open>The error codes: \<open>ESP_OK\<close>, \<open>ESP_FAIL\<close>, \<open>ESP_ERR_INVALID_STATE\<close>, \<open>ESP_ERR_HTTP_WRITE_DATA\<close>.\<close>

abbreviation (input) E_OK :: int where "E_OK \<equiv> 0"
abbreviation (input) E_FAIL :: int where "E_FAIL \<equiv> - 1"
abbreviation (input) E_INVALID_STATE :: int where "E_INVALID_STATE \<equiv> 0x103"
abbreviation (input) E_HTTP_WRITE_DATA :: int where "E_HTTP_WRITE_DATA \<equiv> 0x7003"

definition HTTP_METHOD_MAPPING :: "bytes list" where
  "HTTP_METHOD_MAPPING = [cstr ''GET'', cstr ''POST'', cstr ''PUT'', cstr ''PATCH'', cstr ''DELETE'', cstr ''HEAD'',
     cstr ''NOTIFY'', cstr ''SUBSCRIBE'', cstr ''UNSUBSCRIBE'', cstr ''OPTIONS'']"

subsection \<open>Headers, method and body of the request\<close>

definition http_dispatch_event :: "http_client \<Rightarrow> http_event \<Rightarrow> http_client" where
  "http_dispatch_event c ev = (if has_event_handler c then c\<lparr>hc_events := hc_events c @ [ev]\<rparr> else c)"

definition esp_http_client_set_header ::
  "http_env \<Rightarrow> http_client \<Rightarrow> bytes option \<Rightarrow> bytes option \<Rightarrow> (http_err \<times> http_client) option" where
  "esp_http_client_set_header env c key value =
    (case http_header_set (http_mem env) (hc_headers c) key value of
       None \<Rightarrow> None
     | Some (err, h) \<Rightarrow> Some (err, c\<lparr>hc_headers := h\<rparr>))"

definition esp_http_client_get_header :: "http_client \<Rightarrow> bytes option \<Rightarrow> bytes option" where
  "esp_http_client_get_header c key = http_header_get (hc_headers c) key"

definition esp_http_client_delete_header :: "http_client \<Rightarrow> bytes option \<Rightarrow> http_err \<times> http_client" where
  "esp_http_client_delete_header c key =
    (let (err, h) = http_header_delete (hc_headers c) key in (err, c\<lparr>hc_headers := h\<rparr>))"

definition esp_http_client_set_method :: "http_client \<Rightarrow> nat \<Rightarrow> http_client" where
  "esp_http_client_set_method c method = c\<lparr>hc_method := method\<rparr>"

definition esp_http_client_set_post_field ::
  "http_env \<Rightarrow> http_client \<Rightarrow> bytes option \<Rightarrow> int \<Rightarrow> (http_err \<times> http_client) option" where
  "esp_http_client_set_post_field env c data len =
    (let c = c\<lparr>post_data := data, post_len := len\<rparr> in
     if data \<noteq> None then
       if esp_http_client_get_header c (Some (cstr ''Content-Type'')) = None
       then esp_http_client_set_header env c (Some (cstr ''Content-Type''))
              (Some (cstr ''application/x-www-form-urlencoded''))
       else Some (HTTP_OK, c)
     else esp_http_client_set_header env (c\<lparr>post_len := 0\<rparr>) (Some (cstr ''Content-Type'')) None)"

definition esp_http_client_get_post_field :: "http_client \<Rightarrow> int \<times> bytes option" where
  "esp_http_client_get_post_field c = (if post_data c \<noteq> None then (post_len c, post_data c) else (0, None))"

definition esp_http_client_close :: "http_env \<Rightarrow> http_client \<Rightarrow> int \<times> http_client" where
  "esp_http_client_close env c =
    (if state_num (hc_state c) \<ge> state_num HTTP_STATE_INIT
     then (esp_transport_close env, (http_dispatch_event c HTTP_EVENT_DISCONNECTED)\<lparr>hc_state := HTTP_STATE_INIT\<rparr>)
     else (E_OK, c))"

subsection \<open>Writing\<close>

text \<open>One \<open>esp_transport_write\<close> of \<open>len\<close> bytes at \<open>data\<close>: the result, and the client with the bytes sent.\<close>

definition transport_write :: "http_env \<Rightarrow> bytes \<Rightarrow> int \<Rightarrow> http_client \<Rightarrow> int \<times> http_client" where
  "transport_write env data len c =
    (let wret = esp_transport_write env (hc_writes c) len in
     (wret, c\<lparr>hc_writes := hc_writes c + 1, hc_sent := hc_sent c @ take (nat wret) data\<rparr>))"

function write_loop :: "http_env \<Rightarrow> bytes \<Rightarrow> int \<Rightarrow> int \<Rightarrow> http_client \<Rightarrow> int \<times> http_client" where
  "write_loop env buffer widx len c =
    (if len > 0 then
       let (wlen, c) = transport_write env (drop (nat widx) buffer) len c in
       if is_async c \<or> wlen \<le> 0 then (wlen, c)
       else write_loop env buffer (widx + wlen) (len - wlen) c
     else (widx, c))"
  by pat_completeness auto
termination by (relation "measure (\<lambda>(env, buffer, widx, len, c). nat len)") auto

declare write_loop.simps [simp del]

definition esp_http_client_write :: "http_env \<Rightarrow> http_client \<Rightarrow> bytes \<Rightarrow> int \<Rightarrow> int \<times> http_client" where
  "esp_http_client_write env c buffer len =
    (if state_num (hc_state c) < state_num HTTP_STATE_REQ_COMPLETE_HEADER then (E_FAIL, c)
     else write_loop env buffer 0 len c)"

text \<open>The request line: its length, or -1 when it does not fit.\<close>

definition print_at :: "http_client \<Rightarrow> int \<Rightarrow> bytes \<Rightarrow> http_client" where
  "print_at c pos txt = c\<lparr>hc_buffer := snprintf_at (hc_buffer c) pos (buffer_size_tx c) txt\<rparr>"

definition request_headers :: "http_env \<Rightarrow> http_client \<Rightarrow> int \<Rightarrow> http_client option" where
  "request_headers env c write_len =
    (if write_len \<ge> 0
     then map_option (\<lambda>(_, h). c\<lparr>hc_headers := h\<rparr>)
            (http_header_set_format (http_mem env) (hc_headers c) (Some (cstr ''Content-Length'')) (dec_int write_len))
     else map_option (\<lambda>(_, c). esp_http_client_set_method c 1)
            (esp_http_client_set_header env c (Some (cstr ''Transfer-Encoding'')) (Some (cstr ''chunked''))))"

definition http_client_prepare_first_line :: "http_env \<Rightarrow> http_client \<Rightarrow> int \<Rightarrow> (int \<times> http_client) option" where
  "http_client_prepare_first_line env c0 write_len =
    (case request_headers env c0 write_len of
       None \<Rightarrow> None
     | Some c \<Rightarrow>
       let txt = HTTP_METHOD_MAPPING ! hc_method c @ [32] @ hc_path c;
           first_line_len = int (length txt);
           c = print_at c 0 txt in
       if first_line_len \<ge> buffer_size_tx c then Some (- 1, c)
       else
         let q = (case hc_query c of None \<Rightarrow> [] | Some q \<Rightarrow> 63 # q);
             c = (if hc_query c \<noteq> None then print_at c first_line_len q else c);
             first_line_len = first_line_len + int (length q) in
         if first_line_len \<ge> buffer_size_tx c then Some (- 1, c)
         else
           let pr = [32] @ cstr ''HTTP/1.1'' @ [13, 10];
               c = print_at c first_line_len pr;
               first_line_len = first_line_len + int (length pr) in
           if first_line_len \<ge> buffer_size_tx c then Some (- 1, c)
           else Some (first_line_len, c))"

text \<open>The loop \<open>while (client->data_write_left > 0)\<close>; on an error the connection is closed.\<close>

function send_left :: "http_env \<Rightarrow> http_client \<Rightarrow> bool \<times> http_client" where
  "send_left env c =
    (if data_write_left c > 0 then
       let (wret, c') = transport_write env (drop (nat (data_written_index c)) (hc_buffer c)) (data_write_left c) c in
       if wret \<le> 0 then (False, snd (esp_http_client_close env c'))
       else send_left env (c'\<lparr>data_write_left := data_write_left c - wret,
                              data_written_index := data_written_index c + wret\<rparr>)
     else (True, c))"
  by pat_completeness auto
termination
  by (relation "measure (\<lambda>(env, c). nat (data_write_left c))") (auto simp: transport_write_def Let_def)

declare send_left.simps [simp del]

text \<open>One pass of the loop over the pieces of the header: \<open>None\<close> ends the loop.\<close>

definition print_headers :: "int \<Rightarrow> int \<Rightarrow> http_client \<Rightarrow> bool \<times> http_client" where
  "print_headers first_line_len wlen c =
    (let k = nat first_line_len;
         (idx, buf, wlen) = http_header_generate_string (hc_headers c) (header_index c) (drop k (hc_buffer c)) wlen;
         c = c\<lparr>header_index := idx, hc_buffer := take k (hc_buffer c) @ buf\<rparr> in
     if idx = 0 \<or> wlen \<le> 0 then (False, c)
     else
       let wlen = wlen + first_line_len in
       (True, c\<lparr>hc_buffer := poke (nat wlen) 0 (hc_buffer c), data_write_left := wlen, data_written_index := 0\<rparr>))"

lemma size_pass_result:
  assumes "size_pass items index buffer_len siz idx = (siz', idx', ret)" "idx \<ge> 0"
  shows "if ret < 0 then idx' = idx + int (length items) \<and> (siz' = siz \<or> idx' > index)
         else idx \<le> ret \<and> ret < idx + int (length items)"
  using assms
proof (induction items arbitrary: siz idx)
  case (Cons item items)
  let ?siz = "case hi_value item of
      Some v \<Rightarrow> if idx \<ge> index then siz + int (length (hi_key item)) + int (length v) + 4 else siz | None \<Rightarrow> siz"
  show ?case
  proof (cases "?siz + 1 > buffer_len - 2")
    case True
    then show ?thesis using Cons.prems by (auto simp: Let_def)
  next
    case False
    then have "size_pass items index buffer_len ?siz (idx + 1) = (siz', idx', ret)"
      using Cons.prems(1) by (simp add: Let_def)
    from Cons.IH [OF this] show ?thesis
      using Cons.prems(2) by (auto split: if_splits option.splits)
  qed
qed auto

lemma print_pass_nothing:
  "ret \<le> index \<Longrightarrow> print_pass items index ret buffer_len idx bs = bs"
proof (induction items arbitrary: idx bs)
  case (Cons item items)
  then show ?case by (cases bs) (auto split: option.splits)
next
  case Nil
  then show ?case by (cases bs) simp
qed

lemma generate_string_progress:
  assumes "http_header_generate_string h index buf bl = (idx, buf', wlen)" "idx \<noteq> 0" "wlen > 0"
  shows "index < idx \<and> idx \<le> int (length (hh_items h))"
proof -
  obtain siz i ret where sp: "size_pass (hh_items h) index bl 0 0 = (siz, i, ret)" by (metis prod.exhaust)
  note r = size_pass_result [OF sp]
  have siz: "siz \<noteq> 0" using assms(1,2) sp by (auto simp: http_header_generate_string_def)
  show ?thesis
  proof (cases "ret < 0")
    case True
    then have "idx = i" using assms(1) sp siz by (auto simp: http_header_generate_string_def Let_def split: prod.splits)
    then show ?thesis using r True siz by auto
  next
    case False
    then have "idx = ret" using assms(1) sp siz by (auto simp: http_header_generate_string_def Let_def split: prod.splits)
    moreover have "\<not> ret \<le> index"
      using assms(1,3) sp siz False by (auto simp: http_header_generate_string_def Let_def print_pass_nothing split: prod.splits)
    ultimately show ?thesis using r False by auto
  qed
qed

lemma close_keeps [simp]:
  "hc_headers (snd (esp_http_client_close env c)) = hc_headers c"
  "header_index (snd (esp_http_client_close env c)) = header_index c"
  by (simp_all add: esp_http_client_close_def http_dispatch_event_def)

lemma send_left_unfold:
  "send_left env c =
    (let n = data_write_left c; w = esp_transport_write env (hc_writes c) n;
         c' = c\<lparr>hc_writes := hc_writes c + 1, hc_sent := hc_sent c @ take (nat w) (drop (nat (data_written_index c)) (hc_buffer c))\<rparr> in
     if n \<le> 0 then (True, c)
     else if w \<le> 0 then (False, snd (esp_http_client_close env c'))
     else send_left env (c'\<lparr>data_write_left := n - w, data_written_index := data_written_index c + w\<rparr>))"
  by (subst send_left.simps) (simp add: transport_write_def Let_def)

lemma send_left_keeps:
  "send_left env c = (ok, c') \<Longrightarrow> hc_headers c' = hc_headers c \<and> header_index c' = header_index c"
proof (induction "nat (data_write_left c)" arbitrary: c rule: less_induct)
  case less
  define w where "w = esp_transport_write env (hc_writes c) (data_write_left c)"
  show ?case
  proof (cases "data_write_left c \<le> 0 \<or> w \<le> 0")
    case True
    then show ?thesis using less.prems by (subst (asm) send_left_unfold) (auto simp: Let_def w_def split: if_splits)
  next
    case False
    let ?c = "c\<lparr>hc_writes := hc_writes c + 1,
        hc_sent := hc_sent c @ take (nat w) (drop (nat (data_written_index c)) (hc_buffer c)),
        data_write_left := data_write_left c - w, data_written_index := data_written_index c + w\<rparr>"
    have "send_left env c = send_left env ?c" using False by (subst send_left_unfold) (simp add: Let_def w_def)
    then show ?thesis using less.hyps [of ?c] less.prems False by simp
  qed
qed

lemma print_headers_progress:
  assumes "print_headers fl wlen c = (True, c')"
  shows "nat (int (length (hh_items (hc_headers c'))) - header_index c')
      < nat (int (length (hh_items (hc_headers c))) - header_index c)"
proof -
  obtain idx buf wl where g: "http_header_generate_string (hc_headers c) (header_index c)
      (drop (nat fl) (hc_buffer c)) wlen = (idx, buf, wl)" by (metis prod.exhaust)
  then have "idx \<noteq> 0" "wl > 0" "hc_headers c' = hc_headers c" "header_index c' = idx"
    using assms by (auto simp: print_headers_def Let_def split: if_splits)
  then show ?thesis using generate_string_progress [OF g] by auto
qed

text \<open>The loop over the pieces: \<open>False\<close> when the transport failed.\<close>

function send_headers :: "http_env \<Rightarrow> int \<Rightarrow> int \<Rightarrow> http_client \<Rightarrow> bool \<times> http_client" where
  "send_headers env first_line_len wlen c =
    (case print_headers first_line_len wlen c of
       (False, c) \<Rightarrow> (True, c)
     | (True, c) \<Rightarrow>
        (case send_left env c of
           (False, c) \<Rightarrow> (False, c)
         | (True, c) \<Rightarrow> send_headers env 0 (buffer_size_tx c) c))"
  by pat_completeness auto
termination
proof (relation "measure (\<lambda>(env, fl, wlen, c). nat (int (length (hh_items (hc_headers c))) - header_index c))", goal_cases)
  case (2 env fl wlen c p c1 q c2)
  then have p: "print_headers fl wlen c = (True, c1)" and s: "send_left env c1 = (True, c2)" by simp_all
  show ?case using print_headers_progress [OF p] send_left_keeps [OF s] by simp
qed simp

declare send_headers.simps [simp del]

definition esp_http_client_request_send :: "http_env \<Rightarrow> http_client \<Rightarrow> int \<Rightarrow> (int \<times> http_client) option" where
  "esp_http_client_request_send env c0 write_len =
    (case (if first_line_prepared c0 then Some (0, c0)
           else case http_client_prepare_first_line env c0 write_len of
                  None \<Rightarrow> None
                | Some (n, c) \<Rightarrow> if n < 0 then Some (n, c)
                    else Some (n, c\<lparr>first_line_prepared := True, header_index := 0, data_written_index := 0,
                                   data_write_left := 0\<rparr>)) of
       None \<Rightarrow> None
     | Some (first_line_len, c) \<Rightarrow>
       if first_line_len < 0 then Some (first_line_len, c)
       else
         let (wret, c1) = (if data_write_left c > 0
               then esp_http_client_write env c (drop (nat (data_written_index c)) (hc_buffer c)) (data_write_left c)
               else (0, c)) in
         if wret < 0 then Some (E_HTTP_WRITE_DATA, c1)
         else
           let c2 = (if data_write_left c > 0
                     then c1\<lparr>data_write_left := data_write_left c1 - wret,
                             data_written_index := data_written_index c1 + wret\<rparr> else c1) in
           if data_write_left c > 0 \<and> is_async c2 \<and> data_write_left c2 > 0 then Some (E_HTTP_WRITE_DATA, c2)
           else
             (case send_headers env first_line_len (buffer_size_tx c2 - first_line_len) c2 of
                (False, c) \<Rightarrow> Some (E_HTTP_WRITE_DATA, c)
              | (True, c) \<Rightarrow>
                  Some (E_OK, (http_dispatch_event (c\<lparr>data_written_index := 0, data_write_left := post_len c\<rparr>)
                    HTTP_EVENT_HEADERS_SENT)\<lparr>hc_state := HTTP_STATE_REQ_COMPLETE_HEADER\<rparr>)))"

definition esp_http_client_send_post_data :: "http_env \<Rightarrow> http_client \<Rightarrow> int \<times> http_client" where
  "esp_http_client_send_post_data env c =
    (if hc_state c \<noteq> HTTP_STATE_REQ_COMPLETE_HEADER then (E_INVALID_STATE, c)
     else case post_data c of
       None \<Rightarrow> (E_OK, c\<lparr>hc_state := HTTP_STATE_REQ_COMPLETE_DATA\<rparr>)
     | Some d \<Rightarrow>
        if post_len c = 0 then (E_OK, c\<lparr>hc_state := HTTP_STATE_REQ_COMPLETE_DATA\<rparr>)
        else
          let (wret, c) = esp_http_client_write env c (drop (nat (data_written_index c)) d) (data_write_left c) in
          if wret < 0 then (wret, c)
          else
            let c = c\<lparr>data_write_left := data_write_left c - wret, data_written_index := data_written_index c + wret\<rparr> in
            if data_write_left c \<le> 0 then (E_OK, c\<lparr>hc_state := HTTP_STATE_REQ_COMPLETE_DATA\<rparr>)
            else (E_HTTP_WRITE_DATA, c))"

end
