(* ===== verification/Http_Table.thy ===== *)
theory Http_Table
  imports Http_Header Interfaces
begin

text \<open>
  The HTTP header list as a table from names to values: names are compared without regard to case, values
  are kept without surrounding white space.  The list provides the interface \<open>key_table\<close>.
\<close>

subsection \<open>Trimming\<close>

text \<open>The specification: white space is taken off both ends.\<close>

definition trim :: "bytes \<Rightarrow> bytes" where
  "trim s = rev (dropWhile c_isspace (rev (dropWhile c_isspace s)))"

definition trimmed :: "bytes \<Rightarrow> bool" where
  "trimmed s \<longleftrightarrow> s = [] \<or> (\<not> c_isspace (hd s) \<and> \<not> c_isspace (last s))"

lemma trim_end_props:
  "s \<noteq> [] \<Longrightarrow> \<not> c_isspace (hd s) \<Longrightarrow>
   trim_end s \<noteq> [] \<and> hd (trim_end s) = hd s \<and> \<not> c_isspace (last (trim_end s))
     \<and> (\<exists>ws. s = trim_end s @ ws \<and> (\<forall>b \<in> set ws. c_isspace b))"
proof (induction s rule: trim_end.induct)
  case (1 s)
  show ?case
  proof (cases "1 < length s \<and> c_isspace (last s)")
    case True
    then obtain b x where s: "s = b @ [x]" by (metis append_butlast_last_id list.size(3) not_less_zero)
    with True have b: "b \<noteq> []" "c_isspace x" by auto
    then have "hd b = hd s" using s by simp
    moreover have "butlast s = b" using s by simp
    ultimately have "trim_end b \<noteq> [] \<and> hd (trim_end b) = hd b \<and> \<not> c_isspace (last (trim_end b))
        \<and> (\<exists>ws. b = trim_end b @ ws \<and> (\<forall>b \<in> set ws. c_isspace b))"
      using 1(1) [OF True] 1(3) b(1) by presburger
    then obtain ws where ih: "trim_end b \<noteq> []" "hd (trim_end b) = hd s" "\<not> c_isspace (last (trim_end b))"
      "b = trim_end b @ ws" "\<forall>b \<in> set ws. c_isspace b"
      using \<open>hd b = hd s\<close> by metis
    have t: "trim_end s = trim_end b" using True s by (subst trim_end.simps) simp
    have "s = trim_end s @ (ws @ [x])" unfolding t using s ih(4) by (metis append_assoc)
    moreover have "\<forall>b \<in> set (ws @ [x]). c_isspace b" using ih(5) b(2) by simp
    ultimately show ?thesis using ih(1-3) t by metis
  next
    case False
    then have "trim_end s = s" by (subst trim_end.simps) (rule if_not_P)
    moreover have "\<not> c_isspace (last s)"
      using False 1(2,3) by (cases s) (auto split: if_splits)
    ultimately show ?thesis using 1(2) by simp
  qed
qed

text \<open>The pointer walk of \<open>http_utils_trim_whitespace\<close> implements it.\<close>

lemma trim_Some [simp]: "http_utils_trim_whitespace (Some s) = Some (trim s)"
proof (cases "dropWhile c_isspace s = []")
  case True
  show ?thesis unfolding trim_def http_utils_trim_whitespace_def Let_def option.case True by simp
next
  case False
  let ?d = "dropWhile c_isspace s"
  have hd: "\<not> c_isspace (hd ?d)" using False hd_dropWhile by blast
  obtain ws where ws: "?d = trim_end ?d @ ws" "\<forall>b \<in> set ws. c_isspace b" "trim_end ?d \<noteq> []" "\<not> c_isspace (last (trim_end ?d))"
    using trim_end_props [OF False hd] by blast
  have "dropWhile c_isspace (rev ws @ rev (trim_end ?d)) = dropWhile c_isspace (rev (trim_end ?d))"
    using ws(2) by (simp add: dropWhile_append)
  also have "\<dots> = rev (trim_end ?d)"
    using ws(3,4) by (cases "rev (trim_end ?d)") (auto simp: hd_rev [symmetric])
  finally have "trim s = trim_end ?d" unfolding trim_def by (subst ws(1)) simp
  then show ?thesis using False
    by (simp only: http_utils_trim_whitespace_def Let_def option.case if_False)
qed

lemma trim_cases:
  obtains "trim s = []" "\<forall>b \<in> set s. c_isspace b"
  | ps ws where "trim s \<noteq> []" "s = ps @ trim s @ ws" "\<forall>b \<in> set ps \<union> set ws. c_isspace b"
      "\<not> c_isspace (hd (trim s))" "\<not> c_isspace (last (trim s))"
proof (cases "dropWhile c_isspace s = []")
  case True
  have "trim s = []" unfolding trim_def True by simp
  moreover have "\<forall>b \<in> set s. c_isspace b" using True by (simp add: dropWhile_eq_Nil_conv)
  ultimately show ?thesis by (rule that(1))
next
  case False
  let ?d = "dropWhile c_isspace s"
  have t: "trim s = trim_end ?d" using False trim_Some [of s]
    by (simp only: http_utils_trim_whitespace_def Let_def option.case if_False option.inject)
  have hd: "\<not> c_isspace (hd ?d)" using False hd_dropWhile by blast
  obtain ws where ws: "?d = trim_end ?d @ ws" "\<forall>b \<in> set ws. c_isspace b"
    using trim_end_props [OF False hd] by blast
  have "s = takeWhile c_isspace s @ trim s @ ws" using ws(1) t by simp
  moreover have "\<forall>b \<in> set (takeWhile c_isspace s) \<union> set ws. c_isspace b"
    using ws(2) by (auto dest: set_takeWhileD)
  ultimately show ?thesis using that(2) trim_end_props [OF False hd] hd t by metis
qed

lemma trimmed_trim [simp]: "trimmed (trim s)"
  by (rule trim_cases [of s]) (auto simp: trimmed_def)

lemma trim_trimmed [simp]: "trimmed s \<Longrightarrow> trim s = s"
proof (rule trim_cases [of s])
  assume "trimmed s" "trim s = []" "\<forall>b \<in> set s. c_isspace b"
  then show ?thesis by (cases s) (auto simp: trimmed_def)
next
  fix ps ws
  assume a: "trimmed s" "trim s \<noteq> []" "s = ps @ trim s @ ws" "\<forall>b \<in> set ps \<union> set ws. c_isspace b"
  have "ps = []"
  proof (rule ccontr)
    assume "ps \<noteq> []"
    then have "hd s \<in> set ps" by (subst a(3)) simp
    then show False using a(1,3,4) \<open>ps \<noteq> []\<close> by (auto simp: trimmed_def)
  qed
  moreover have "ws = []"
  proof (rule ccontr)
    assume "ws \<noteq> []"
    then have "last s \<in> set ws" by (subst a(3)) simp
    then show False using a(1,3,4) \<open>ws \<noteq> []\<close> by (auto simp: trimmed_def)
  qed
  ultimately show ?thesis using a(3) by simp
qed

subsection \<open>The table\<close>

abbreviation canon :: "bytes \<Rightarrow> bytes" where "canon \<equiv> map c_tolower"

definition header_inv :: "http_header \<Rightarrow> bool" where
  "header_inv h \<longleftrightarrow> distinct (map (\<lambda>it. canon (hi_key it)) (hh_items h)) \<and> (\<forall>it \<in> set (hh_items h). hi_value it \<noteq> None)"

definition header_name :: "bytes \<Rightarrow> bool" where
  "header_name k \<longleftrightarrow> is_cstr k \<and> trimmed k"

text \<open>Setting a header with success: the call reports it, and the first of its allocations (the copy of the value, where the
  name is in the list already) did not fail.\<close>

definition header_store :: "(nat \<Rightarrow> bool) \<Rightarrow> bytes \<Rightarrow> bytes \<Rightarrow> http_header \<Rightarrow> http_header option" where
  "header_store mem k v h =
    (case http_header_set mem h (Some k) (Some v) of
       Some (HTTP_OK, h') \<Rightarrow> if mem (hh_allocs h) then Some h' else None
     | _ \<Rightarrow> None)"

lemma header_store_total:
  assumes "\<And>k. mem k"
  shows "header_store mem k v h \<noteq> None"
  using assms by (simp add: header_store_def http_header_set_def http_header_new_item_def http_utils_assign_string_def Let_def
      split: option.split)

definition as_map :: "http_header_item list \<Rightarrow> (bytes \<times> bytes option) list" where
  "as_map = map (\<lambda>it. (canon (hi_key it), hi_value it))"

lemma get_as_map:
  "http_header_get h (Some k) = (case map_of (as_map (hh_items h)) (canon k) of Some v \<Rightarrow> v | None \<Rightarrow> None)"
proof -
  have "(case find_slot (\<lambda>it. strcaseeq (hi_key it) k) its of Some i \<Rightarrow> hi_value (its ! i) | None \<Rightarrow> None)
      = (case map_of (as_map its) (canon k) of Some v \<Rightarrow> v | None \<Rightarrow> None)" for its
    by (induction its) (auto simp: as_map_def strcaseeq_def split: option.splits)
  then show ?thesis by (simp add: http_header_get_def http_header_get_item_def)
qed

lemma get_item_None:
  "http_header_get_item h (Some k) = None \<longleftrightarrow> canon k \<notin> set (map (\<lambda>it. canon (hi_key it)) (hh_items h))"
  by (force simp: http_header_get_item_def find_slot_None_iff strcaseeq_def)

lemma get_item_Some:
  assumes "http_header_get_item h (Some k) = Some i"
  shows "i < length (hh_items h)" "canon (hi_key (hh_items h ! i)) = canon k"
  using find_slot_SomeD [of _ "hh_items h" i] assms by (auto simp: http_header_get_item_def strcaseeq_def)

lemma set_as_map:
  assumes "header_name k" "header_store mem k v h = Some h'"
  shows "(if canon k \<in> fst ` set (as_map (hh_items h))
          then \<exists>i < length (hh_items h). as_map (hh_items h) ! i = (canon k, hi_value (hh_items h ! i)) \<and>
             as_map (hh_items h') = (as_map (hh_items h))[i := (canon k, Some (trim (c_str v)))]
          else as_map (hh_items h') = as_map (hh_items h) @ [(canon k, Some (trim (c_str v)))])"
proof (cases "http_header_get_item h (Some k)")
  case None
  then have "canon k \<notin> fst ` set (as_map (hh_items h))" by (auto simp: get_item_None as_map_def)
  then show ?thesis
    using assms None
    by (auto simp: header_store_def http_header_set_def http_header_new_item_def header_name_def
        http_utils_assign_string_def Let_def as_map_def c_str_take split: if_splits option.splits)
next
  case (Some i)
  note i = get_item_Some [OF Some]
  have "canon k \<in> fst ` set (as_map (hh_items h))"
    unfolding as_map_def image_set list.map_comp using nth_mem [OF i(1)] i(2) by (force simp: image_iff)
  moreover have h': "hh_items h' = (hh_items h)[i := (hh_items h ! i)\<lparr>hi_value := Some (trim (c_str v))\<rparr>]"
    using assms Some by (auto simp: header_store_def http_header_set_def Let_def split: if_splits)
  ultimately show ?thesis using i by (auto simp: as_map_def map_update)
qed

lemma map_of_update_nth:
  "distinct (map fst xs) \<Longrightarrow> i < length xs \<Longrightarrow> xs ! i = (k, w) \<Longrightarrow>
   map_of (xs[i := (k, v)]) k' = (if k' = k then Some v else map_of xs k')"
proof (induction xs arbitrary: i)
  case (Cons x xs)
  show ?case
  proof (cases i)
    case (Suc j)
    then have "k \<in> fst ` set xs" using Cons.prems nth_mem [of j xs] by force
    then have "fst x \<noteq> k" using Cons.prems(1) by auto
    with Suc Cons show ?thesis by auto
  qed (use Cons.prems in auto)
qed simp

lemma header_inv_iff:
  "header_inv h \<longleftrightarrow> distinct (map fst (as_map (hh_items h))) \<and> (\<forall>x \<in> set (as_map (hh_items h)). snd x \<noteq> None)"
  by (auto simp: header_inv_def as_map_def comp_def)

lemma lookup_header_set:
  assumes "header_inv h" "header_name k" "header_store mem k v h = Some h'"
  shows "header_inv h'"
    and "http_header_get h' (Some k') =
      (if canon k' = canon k then Some (trim (c_str v)) else http_header_get h (Some k'))"
proof -
  let ?xs = "as_map (hh_items h)"
  note d = assms(1) [unfolded header_inv_iff]
  have "header_inv h' \<and> map_of (as_map (hh_items h')) = (map_of ?xs)(canon k \<mapsto> Some (trim (c_str v)))"
  proof (cases "canon k \<in> fst ` set ?xs")
    case True
    then obtain i where i: "i < length ?xs" "?xs ! i = (canon k, hi_value (hh_items h ! i))"
      "as_map (hh_items h') = ?xs[i := (canon k, Some (trim (c_str v)))]"
      using set_as_map [OF assms(2,3)] by (auto simp: as_map_def)
    have "map fst (as_map (hh_items h')) = map fst ?xs"
      using i by (simp add: map_update) (metis fst_conv list_update_id nth_map)
    moreover have "\<forall>x \<in> set (as_map (hh_items h')). snd x \<noteq> None"
      using d i(3) by (auto dest!: set_update_subset_insert [THEN subsetD])
    ultimately show ?thesis
      using d i(3) map_of_update_nth [OF conjunct1 [OF d] i(1,2)] by (simp add: header_inv_iff fun_eq_iff)
  next
    case False
    then have x: "as_map (hh_items h') = ?xs @ [(canon k, Some (trim (c_str v)))]"
      using set_as_map [OF assms(2,3)] by simp
    moreover from False have "map_of ?xs (canon k) = None" by (simp add: map_of_eq_None_iff)
    ultimately show ?thesis
      using d False by (auto simp: header_inv_iff fun_eq_iff map_add_def split: option.splits)
  qed
  then show "header_inv h'" "http_header_get h' (Some k') =
      (if canon k' = canon k then Some (trim (c_str v)) else http_header_get h (Some k'))"
    by (auto simp: get_as_map)
qed

lemma lookup_header_delete:
  assumes "header_inv h"
  shows "header_inv (snd (http_header_delete h (Some k)))"
    and "http_header_get (snd (http_header_delete h (Some k))) (Some k') =
      (if canon k' = canon k then None else http_header_get h (Some k'))"
proof -
  let ?h = "snd (http_header_delete h (Some k))" and ?xs = "as_map (hh_items h)"
  have "header_inv ?h \<and> map_of (as_map (hh_items ?h)) = (map_of ?xs)(canon k := None)"
  proof (cases "http_header_get_item h (Some k)")
    case None
    then have "?h = h" by (simp add: http_header_delete_def)
    moreover have "map_of ?xs (canon k) = None" using None by (auto simp: get_item_None as_map_def map_of_eq_None_iff)
    ultimately show ?thesis using assms by (simp add: fun_upd_idem)
  next
    case (Some i)
    note i = get_item_Some [OF Some]
    have x: "?xs = as_map (take i (hh_items h)) @ (canon k, hi_value (hh_items h ! i)) # as_map (drop (Suc i) (hh_items h))"
      unfolding as_map_def using i by (subst id_take_nth_drop [OF i(1)]) simp
    have y: "as_map (hh_items ?h) = as_map (take i (hh_items h)) @ as_map (drop (Suc i) (hh_items h))"
      using Some by (simp add: http_header_delete_def as_map_def)
    have "distinct (map fst ?xs)" using assms by (simp add: header_inv_iff)
    then have "map_of (as_map (take i (hh_items h))) (canon k) = None" "map_of (as_map (drop (Suc i) (hh_items h))) (canon k) = None"
      by (simp_all add: x map_of_eq_None_iff)
    then have "map_of (as_map (hh_items ?h)) = (map_of ?xs)(canon k := None)"
      by (auto simp: x y fun_eq_iff map_add_def split: option.splits)
    moreover have "header_inv ?h" using assms by (auto simp: header_inv_iff x y)
    ultimately show ?thesis by simp
  qed
  then show "header_inv ?h" "http_header_get ?h (Some k') = (if canon k' = canon k then None else http_header_get h (Some k'))"
    by (auto simp: get_as_map)
qed

interpretation header_table: key_table "\<lambda>k h. http_header_get h (Some k)" "header_store mem"
    "\<lambda>k h. snd (http_header_delete h (Some k))" header_inv header_name canon "\<lambda>v. trim (c_str v)" for mem
proof (unfold_locales, goal_cases)
  case 1 then show ?case using lookup_header_set(2) by blast
next
  case 2 then show ?case using lookup_header_delete(2) by blast
next
  case 3 then show ?case using lookup_header_set(1) by blast
next
  case 4 then show ?case using lookup_header_delete(1) by blast
qed

text \<open>C28: A request finds the headers that were set: after any sequence of successful \<open>http_header_set\<close> calls
  followed by \<open>http_header_delete\<close> of one name, \<open>http_header_get\<close> returns for every other name, in whatever
  case it is written, the last value set for it with the white space at both ends taken off (what it returned before if
  it was not set), and nothing for the deleted name.  With memory for their allocations, the calls do succeed.\<close>

theorem headers_set_then_get:
  assumes "header_inv h" "\<And>k v. (k, v) \<in> set kvs \<Longrightarrow> header_name k" "header_name k" "header_name k'"
  shows "((\<forall>n. mem n) \<longrightarrow> header_table.store_all mem kvs h \<noteq> None)
    \<and> (\<forall>h'. header_table.store_all mem kvs h = Some h' \<longrightarrow>
        http_header_get h' (Some k) =
          (case map_of (rev (map (\<lambda>(k, v). (canon k, trim (c_str v))) kvs)) (canon k) of
             Some v \<Rightarrow> Some v | None \<Rightarrow> http_header_get h (Some k))
        \<and> http_header_get (snd (http_header_delete h' (Some k'))) (Some k) =
          (if canon k = canon k' then None else http_header_get h' (Some k))
        \<and> header_inv (snd (http_header_delete h' (Some k'))))"
proof -
  have vc: "map_prod canon (\<lambda>v. trim (c_str v)) = (\<lambda>(k, v). (canon k, trim (c_str v)))" by auto
  have "header_inv h'" if "header_table.store_all mem kvs h = Some h'" for h'
    using header_table.inv_store_all [OF assms(1) _ that] assms(2) by blast
  then show ?thesis
    using header_table.store_all_total [where mem = mem] header_store_total [of mem]
      header_table.lookup_store_all [OF assms(1) _ assms(3), of kvs mem] assms(2) lookup_header_delete vc by auto
qed

theorem headers_set_then_get_witness:
  "let h' = the (header_table.store_all (\<lambda>k. True) [(cstr ''Host'', cstr '' a.b''), (cstr ''HOST'', cstr ''c.d '')]
      \<lparr>hh_items = [], hh_allocs = 0\<rparr>) in
   http_header_get h' (Some (cstr ''host'')) = Some (cstr ''c.d'')
   \<and> http_header_get (snd (http_header_delete h' (Some (cstr ''hOST'')))) (Some (cstr ''host'')) = None"
proof -
  let ?kvs = "[(cstr ''Host'', cstr '' a.b''), (cstr ''HOST'', cstr ''c.d '')]" and ?h = "\<lparr>hh_items = [], hh_allocs = 0\<rparr>"
  have names: "header_name (cstr ''Host'')" "header_name (cstr ''HOST'')" "header_name (cstr ''host'')" "header_name (cstr ''hOST'')"
    by code_simp+
  have "header_inv ?h" by (simp add: header_inv_def)
  moreover have "(k, v) \<in> set ?kvs \<Longrightarrow> header_name k" for k v using names by auto
  moreover obtain h' where h': "header_table.store_all (\<lambda>k. True) ?kvs ?h = Some h'"
  proof -
    have "header_store (\<lambda>k. True) (cstr ''Host'') (cstr '' a.b'') ?h = Some
      \<lparr>hh_items = [\<lparr>hi_key = cstr ''Host'', hi_value = Some (cstr ''a.b'')\<rparr>], hh_allocs = 3\<rparr>" by code_simp
    moreover have "header_store (\<lambda>k. True) (cstr ''HOST'') (cstr ''c.d '')
      \<lparr>hh_items = [\<lparr>hi_key = cstr ''Host'', hi_value = Some (cstr ''a.b'')\<rparr>], hh_allocs = 3\<rparr> = Some
      \<lparr>hh_items = [\<lparr>hi_key = cstr ''Host'', hi_value = Some (cstr ''c.d'')\<rparr>], hh_allocs = 4\<rparr>" by code_simp
    ultimately show ?thesis using that by simp
  qed
  ultimately have "http_header_get h' (Some (cstr ''host'')) =
      (case map_of (rev (map (\<lambda>(k, v). (canon k, trim (c_str v))) ?kvs)) (canon (cstr ''host'')) of
         Some v \<Rightarrow> Some v | None \<Rightarrow> http_header_get ?h (Some (cstr ''host'')))
    \<and> http_header_get (snd (http_header_delete h' (Some (cstr ''hOST'')))) (Some (cstr ''host'')) =
      (if canon (cstr ''host'') = canon (cstr ''hOST'') then None else http_header_get h' (Some (cstr ''host'')))"
    using headers_set_then_get [OF _ _ names(3,4), of ?h ?kvs "\<lambda>k. True"] h' by blast
  moreover have "map_of (rev (map (\<lambda>(k, v). (canon k, trim (c_str v))) ?kvs)) (canon (cstr ''host'')) = Some (cstr ''c.d'')"
    "canon (cstr ''host'') = canon (cstr ''hOST'')" by code_simp+
  ultimately show ?thesis unfolding h' Let_def option.sel by simp
qed

end
