(* ===== verification/Http_Wire.thy ===== *)
theory Http_Wire
  imports Http_Request Http_Table
begin

text \<open>
  What an HTTP request looks like on the wire: however small the transmit buffer and however the transport
  splits the writes, the bytes sent are the request line, one line for each header, and an empty line.
\<close>

subsection \<open>Printing into the buffer\<close>

definition item_text :: "http_header_item \<Rightarrow> bytes" where
  "item_text it = (case hi_value it of None \<Rightarrow> [] | Some v \<Rightarrow> header_line (hi_key it) v)"

lemma snprintf_at_fits:
  assumes "0 \<le> pos" "pos + int (length txt) < bl" "bl \<le> int (length buf)" "bl < 2 ^ 32"
  shows "length (snprintf_at buf pos bl txt) = length buf"
    and "take (nat pos + length txt) (snprintf_at buf pos bl txt) = take (nat pos) buf @ txt"
proof -
  have "(bl - pos) mod 2 ^ 32 = bl - pos" using assms by (intro mod_pos_pos_trivial) auto
  then have e: "snprintf_at buf pos bl txt = mem_write (nat pos) (txt @ [0]) buf"
    using assms by (simp add: snprintf_at_def Let_def nat_less_iff)
  have le: "nat pos + length (txt @ [0]) \<le> length buf" using assms by simp
  show "length (snprintf_at buf pos bl txt) = length buf" using le by (simp add: e)
  show "take (nat pos + length txt) (snprintf_at buf pos bl txt) = take (nat pos) buf @ txt"
    using le by (simp add: e mem_write_def)
qed

text \<open>The text of the items whose index, counted from \<open>idx\<close>, is in the range from \<open>index\<close> up to \<open>ret\<close>.\<close>

fun text_between :: "http_header_item list \<Rightarrow> int \<Rightarrow> int \<Rightarrow> int \<Rightarrow> bytes" where
  "text_between [] index ret idx = []"
| "text_between (it # its) index ret idx =
     (if idx \<ge> index \<and> idx < ret then item_text it else []) @ text_between its index ret (idx + 1)"

lemma print_pass_text:
  assumes "0 \<le> pos" "pos + int (length (text_between its index ret idx)) < bl" "bl \<le> int (length buf)" "bl < 2 ^ 32"
    and "print_pass its index ret bl idx (buf, pos) = (buf', pos')"
  shows "pos' = pos + int (length (text_between its index ret idx)) \<and> length buf' = length buf
    \<and> take (nat pos') buf' = take (nat pos) buf @ text_between its index ret idx"
  using assms
proof (induction its arbitrary: idx buf pos)
  case (Cons it its)
  show ?case
  proof (cases "idx \<ge> index \<and> idx < ret \<and> hi_value it \<noteq> None")
    case True
    then obtain v where v: "hi_value it = Some v" by blast
    let ?t = "header_line (hi_key it) v"
    let ?b = "snprintf_at buf pos bl ?t"
    have t: "text_between (it # its) index ret idx = ?t @ text_between its index ret (idx + 1)"
      using True v by (simp add: item_text_def)
    have fit: "pos + int (length ?t) < bl" using Cons.prems(2) unfolding t by simp
    note f = snprintf_at_fits [OF Cons.prems(1) fit Cons.prems(3,4)]
    have "print_pass its index ret bl (idx + 1) (?b, pos + int (length ?t)) = (buf', pos')"
      using Cons.prems(5) True v by simp
    from Cons.IH [OF _ _ _ Cons.prems(4) this]
    show ?thesis using Cons.prems(1-3) t f by (auto simp: nat_add_distrib)
  next
    case False
    then have t: "text_between (it # its) index ret idx = text_between its index ret (idx + 1)"
      and p: "print_pass its index ret bl (idx + 1) (buf, pos) = (buf', pos')"
      using Cons.prems(5) by (auto simp: item_text_def split: if_splits option.splits)
    show ?thesis
      unfolding t using Cons.prems(2) by (intro Cons.IH [OF Cons.prems(1) _ Cons.prems(3,4) p]) (simp only: t)
  qed
qed simp

lemma text_between_drop:
  assumes "idx \<le> index" "index \<le> ret"
  shows "text_between its index ret idx = concat (map item_text (take (nat (ret - index)) (drop (nat (index - idx)) its)))"
  using assms
proof (induction its arbitrary: idx index)
  case (Cons it its)
  show ?case
  proof (cases "idx = index")
    case True
    have 1: "text_between its index ret (idx + 1) = text_between its (idx + 1) ret (idx + 1)"
      if "\<And>i. i \<ge> idx + 1 \<Longrightarrow> i \<ge> index" for its
    proof -
      have "j \<ge> idx + 1 \<Longrightarrow> text_between its index ret j = text_between its (idx + 1) ret j" for j
        using True by (induction its arbitrary: j) auto
      then show ?thesis by simp
    qed
    show ?thesis
    proof (cases "idx < ret")
      case t: True
      then have "nat (ret - index) = Suc (nat (ret - (idx + 1)))" using True by simp
      then show ?thesis using 1 True t Cons.IH [of "idx + 1" "idx + 1"] by simp
    next
      case f: False
      have "j \<ge> ret \<Longrightarrow> text_between its index ret j = []" for j its
        by (induction its arbitrary: j) auto
      then show ?thesis using f True Cons.prems by simp
    qed
  next
    case False
    then have "nat (index - idx) = Suc (nat (index - (idx + 1)))" using Cons.prems by simp
    then show ?thesis using False Cons.prems Cons.IH [of "idx + 1" index] by simp
  qed
qed simp

text \<open>What the first loop has found when every item has a value and the first one asked for fits.\<close>

lemma size_pass_fits:
  assumes "size_pass its index bl siz idx = (siz', idx', ret)" "\<forall>it \<in> set its. hi_value it \<noteq> None"
    and "siz + 1 \<le> bl - 2" "0 \<le> idx"
  shows "siz' = siz + int (length (text_between its index (if ret < 0 then idx' else ret + 1) idx))
    \<and> (if ret < 0 then siz' + 1 \<le> bl - 2 \<and> idx' = idx + int (length its)
       else siz + int (length (text_between its index ret idx)) + 1 \<le> bl - 2 \<and> siz' + 1 > bl - 2
         \<and> idx \<le> ret \<and> ret < idx + int (length its))"
  using assms
proof (induction its arbitrary: siz idx)
  case (Cons it its)
  obtain v where v: "hi_value it = Some v" using Cons.prems(2) by auto
  define n where "n = (if idx \<ge> index then int (length (item_text it)) else 0)"
  have n: "(case hi_value it of
      Some v \<Rightarrow> if idx \<ge> index then siz + int (length (hi_key it)) + int (length v) + 4 else siz
    | None \<Rightarrow> siz) = siz + n"
    by (simp add: n_def v item_text_def header_line_def)
  have none: "j \<ge> r \<Longrightarrow> text_between xs index r j = []" for j r and xs :: "http_header_item list"
    by (induction xs arbitrary: j) auto
  show ?case
  proof (cases "siz + n + 1 > bl - 2")
    case True
    then have "siz' = siz + n" "ret = idx" using Cons.prems(1) n by (auto simp: Let_def)
    then show ?thesis using Cons.prems(3,4) True none by (simp add: n_def)
  next
    case False
    then have sp: "size_pass its index bl (siz + n) (idx + 1) = (siz', idx', ret)"
      using Cons.prems(1) n by (simp add: Let_def)
    have ih: "siz' = siz + n + int (length (text_between its index (if ret < 0 then idx' else ret + 1) (idx + 1)))
      \<and> (if ret < 0 then siz' + 1 \<le> bl - 2 \<and> idx' = idx + 1 + int (length its)
         else siz + n + int (length (text_between its index ret (idx + 1))) + 1 \<le> bl - 2 \<and> siz' + 1 > bl - 2
           \<and> idx + 1 \<le> ret \<and> ret < idx + 1 + int (length its))"
      using Cons.prems(2,4) False by (intro Cons.IH [OF sp]) auto
    then show ?thesis by (cases "ret < 0") (auto simp: n_def)
  qed
qed simp

lemma text_between_empty: "ret \<le> index \<Longrightarrow> text_between its index ret idx = []"
  by (induction its arbitrary: idx) auto

lemma length_item_text: "hi_value it \<noteq> None \<Longrightarrow> 4 \<le> length (item_text it)"
  by (auto simp: item_text_def header_line_def)

text \<open>The piece of the header from line \<open>i\<close> up to line \<open>j\<close>, with the empty line after the last one.\<close>

definition piece :: "bytes list \<Rightarrow> nat \<Rightarrow> nat \<Rightarrow> bytes" where
  "piece ts i j = concat (take (j - i) (drop i ts)) @ (if j = length ts then [13, 10] else [])"

lemma take_drop_Cons:
  "i < j \<Longrightarrow> i < length ts \<Longrightarrow> take (j - i) (drop i ts) = ts ! i # take (j - Suc i) (drop (Suc i) ts)"
  by (simp add: Cons_nth_drop_Suc [symmetric] Suc_diff_Suc [symmetric])

lemma piece_nonempty:
  assumes "index < j" "index < length its" "hi_value (its ! index) \<noteq> None"
  shows "piece (map item_text its) index j \<noteq> []"
proof -
  let ?ts = "map item_text its"
  have "\<exists>r. piece ?ts index j = ?ts ! index @ r"
    using take_drop_Cons [of index j ?ts] assms(1,2) by (simp add: piece_def)
  moreover have "?ts ! index \<noteq> []" using assms(2,3) length_item_text by fastforce
  ultimately show ?thesis by auto
qed

lemma generate_chunk:
  fixes h index
  defines "ts \<equiv> map item_text (hh_items h)"
  assumes "\<forall>it \<in> set (hh_items h). hi_value it \<noteq> None" "index < length (hh_items h)"
    and "int (length (ts ! index)) + 3 \<le> bl" "bl \<le> int (length buf)" "bl < 2 ^ 32"
  obtains j buf' where "http_header_generate_string h (int index) buf bl =
      (int j, buf', int (length (piece ts index j)))"
    "index < j" "j \<le> length ts" "length buf' = length buf"
    "\<exists>rest. buf' = piece ts index j @ rest" "int (length (piece ts index j)) < bl"
proof -
  let ?its = "hh_items h" and ?i = "int index"
  obtain siz cnt ret where sp: "size_pass ?its ?i bl 0 0 = (siz, cnt, ret)" by (metis prod.exhaust)
  have len4: "4 \<le> length (ts ! index)"
    using assms(2,3) by (simp add: ts_def length_item_text)
  have f: "siz = int (length (text_between ?its ?i (if ret < 0 then cnt else ret + 1) 0))
    \<and> (if ret < 0 then siz + 1 \<le> bl - 2 \<and> cnt = int (length ?its)
       else int (length (text_between ?its ?i ret 0)) + 1 \<le> bl - 2 \<and> siz + 1 > bl - 2
         \<and> 0 \<le> ret \<and> ret < int (length ?its))"
    using size_pass_fits [OF sp assms(2)] assms(4) len4 by (cases "ret < 0") auto
  have tb: "text_between ?its ?i (int j) 0 = concat (take (j - index) (drop index ts))" if "index \<le> j" for j
    using text_between_drop [of 0 ?i "int j" ?its] that
    by (simp add: ts_def take_map drop_map nat_diff_distrib flip: of_nat_diff)
  have one: "concat (take (Suc index - index) (drop index ts)) = ts ! index"
    using assms(3) by (simp add: ts_def take_Suc_conv_app_nth [of 0, simplified] hd_drop_conv_nth take_Suc)
  define is_end where "is_end \<longleftrightarrow> ret < 0"
  define j where "j = nat (if is_end then cnt else ret)"
  have j: "index < j" "j \<le> length ts" "j = length ts \<longleftrightarrow> is_end" "int j = (if is_end then cnt else ret)"
  proof -
    have "index < j" if "\<not> is_end"
    proof (rule ccontr)
      assume "\<not> index < j"
      then have "ret + 1 \<le> ?i \<or> ret + 1 = int (Suc index)" using that by (auto simp: j_def is_end_def)
      then have "siz \<le> int (length (ts ! index))"
        using f that tb [of "Suc index"] one by (auto simp: is_end_def text_between_empty add.commute)
      then show False using f that assms(4) by (auto simp: is_end_def)
    qed
    then show "index < j" "j \<le> length ts" "j = length ts \<longleftrightarrow> is_end" "int j = (if is_end then cnt else ret)"
      using f assms(3) by (auto simp: j_def is_end_def ts_def)
  qed
  define body where "body = concat (take (j - index) (drop index ts))"
  have body: "text_between ?its ?i (int j) 0 = body" using tb j(1) by (simp add: body_def)
  have "siz \<noteq> 0"
  proof (cases is_end)
    case True
    have "body = ts ! index @ concat (take (j - Suc index) (drop (Suc index) ts))"
      unfolding body_def using take_drop_Cons [OF j(1), of ts] assms(3) by (simp add: ts_def)
    then show ?thesis using f True body j(4) len4 by (auto simp: is_end_def)
  next
    case False
    then show ?thesis using f assms(4) len4 by (auto simp: is_end_def)
  qed
  have fit: "0 + int (length body) < bl" "is_end \<Longrightarrow> int (length body) + 2 < bl"
    using f body j(4) by (auto simp: is_end_def split: if_splits)
  obtain b1 p1 where pp: "print_pass ?its ?i (int j) bl 0 (buf, 0) = (b1, p1)" by (metis prod.exhaust)
  have p1: "p1 = int (length body)" "length b1 = length buf" "take (length body) b1 = body"
    using print_pass_text [OF _ _ assms(5,6) pp] fit(1) body by auto
  define tl' where "tl' = (if is_end then [13, 10] else [] :: bytes)"
  define b2 where "b2 = (if is_end then snprintf_at b1 p1 bl [13, 10] else b1)"
  have b2: "length b2 = length buf" "take (length (body @ tl')) b2 = body @ tl'"
    using snprintf_at_fits [of p1 "[13, 10]" bl b1] fit(2) p1 assms(5,6) by (auto simp: b2_def tl'_def nat_add_distrib)
  have "http_header_generate_string h ?i buf bl = (int j, b2, int (length (body @ tl')))"
    using sp \<open>siz \<noteq> 0\<close> pp p1(1) j(4) by (auto simp: http_header_generate_string_def Let_def is_end_def b2_def tl'_def)
  moreover have "tl' = (if j = length ts then [13, 10] else [])" using j(3) by (simp add: tl'_def)
  moreover have "\<exists>rest. b2 = (body @ tl') @ rest" using b2(2) by (metis append_take_drop_id)
  moreover have "int (length (body @ tl')) < bl" using fit by (auto simp: tl'_def)
  ultimately show ?thesis using that [of j b2] j(1,2) b2(1) by (simp add: body_def piece_def)
qed

lemma generate_end:
  assumes "\<forall>it \<in> set (hh_items h). hi_value it \<noteq> None" "3 \<le> bl"
  shows "http_header_generate_string h (int (length (hh_items h))) buf bl = (0, buf, bl)"
proof -
  obtain siz cnt ret where sp: "size_pass (hh_items h) (int (length (hh_items h))) bl 0 0 = (siz, cnt, ret)"
    by (metis prod.exhaust)
  have "siz = 0"
    using size_pass_fits [OF sp assms(1)] assms(2) by (auto simp: text_between_empty split: if_splits)
  then show ?thesis using sp by (simp add: http_header_generate_string_def)
qed

subsection \<open>Sending\<close>

definition transport_ok :: "http_env \<Rightarrow> bool" where
  "transport_ok env \<longleftrightarrow> (\<forall>k n. 0 < n \<longrightarrow> 0 < esp_transport_write env k n \<and> esp_transport_write env k n \<le> n)"

lemma send_left_sends:
  assumes "transport_ok env" "0 \<le> data_write_left c" "0 \<le> data_written_index c"
  shows "\<exists>k i. send_left env c = (True, c\<lparr>hc_writes := k, data_write_left := 0, data_written_index := i,
    hc_sent := hc_sent c @ take (nat (data_write_left c)) (drop (nat (data_written_index c)) (hc_buffer c))\<rparr>)"
  using assms(2,3)
proof (induction "nat (data_write_left c)" arbitrary: c rule: less_induct)
  case less
  define n where "n = data_write_left c"
  define w where "w = esp_transport_write env (hc_writes c) n"
  show ?case
  proof (cases "n = 0")
    case True
    then have "send_left env c = (True, c)" by (subst send_left_unfold) (simp add: n_def Let_def)
    moreover have "c = c\<lparr>hc_writes := hc_writes c, data_write_left := 0, data_written_index := data_written_index c,
        hc_sent := hc_sent c @ take (nat (data_write_left c)) (drop (nat (data_written_index c)) (hc_buffer c))\<rparr>"
      using True by (simp add: n_def)
    ultimately show ?thesis by metis
  next
    case False
    then have n: "0 < n" "0 < w" "w \<le> n" using less.prems assms(1) by (auto simp: n_def w_def transport_ok_def)
    let ?d = "drop (nat (data_written_index c)) (hc_buffer c)"
    let ?c = "c\<lparr>hc_writes := hc_writes c + 1, hc_sent := hc_sent c @ take (nat w) ?d,
        data_write_left := n - w, data_written_index := data_written_index c + w\<rparr>"
    have step: "send_left env c = send_left env ?c"
      using n by (subst send_left_unfold) (simp add: n_def w_def Let_def)
    have "take (nat w) ?d @ take (nat (n - w)) (drop (nat (data_written_index c + w)) (hc_buffer c)) = take (nat n) ?d"
    proof -
      have "nat n = nat w + nat (n - w)" "nat (data_written_index c + w) = nat w + nat (data_written_index c)"
        using n less.prems by auto
      then show ?thesis by (simp only: take_add drop_drop)
    qed
    then show ?thesis
      using less.hyps [of ?c] n less.prems unfolding step by (auto simp: n_def)
  qed
qed

text \<open>The request as the loop over the pieces has it: \<open>F\<close> is the request line in front of the first piece.\<close>

lemma send_headers_sends:
  assumes "transport_ok env" "\<forall>it \<in> set (hh_items (hc_headers c)). hi_value it \<noteq> None"
    and "\<forall>it \<in> set (hh_items (hc_headers c)). int (length (item_text it)) + 3 \<le> buffer_size_tx c"
    and "int (length (hc_buffer c)) = buffer_size_tx c" "buffer_size_tx c < 2 ^ 32" "3 \<le> buffer_size_tx c"
    and "header_index c = int index" "index \<le> length (hh_items (hc_headers c))"
    and "index < length (hh_items (hc_headers c)) \<Longrightarrow>
      int (length (item_text (hh_items (hc_headers c) ! index))) + 3 \<le> buffer_size_tx c - int fl"
    and "index = length (hh_items (hc_headers c)) \<Longrightarrow> fl = 0"
  shows "\<exists>c'. send_headers env (int fl) (buffer_size_tx c - int fl) c = (True, c') \<and> hc_sent c' = hc_sent c @
    (if index < length (hh_items (hc_headers c))
     then take fl (hc_buffer c) @ concat (map item_text (drop index (hh_items (hc_headers c)))) @ [13, 10] else [])"
  using assms(2-)
proof (induction "length (hh_items (hc_headers c)) - index" arbitrary: c index fl rule: less_induct)
  case less
  let ?h = "hc_headers c" and ?its = "hh_items (hc_headers c)" and ?b = "hc_buffer c"
  let ?ts = "map item_text ?its"
  show ?case
  proof (cases "index < length ?its")
    case False
    then have "index = length ?its" "fl = 0" using less.prems by auto
    then have "print_headers (int fl) (buffer_size_tx c - int fl) c = (False, c\<lparr>header_index := 0, hc_buffer := ?b\<rparr>)"
      using less.prems(1,5,6) generate_end [of ?h "buffer_size_tx c" ?b] by (simp add: print_headers_def)
    then show ?thesis using False by (subst send_headers.simps) simp
  next
    case True
    have fl: "int fl \<le> buffer_size_tx c" using less.prems(8) [OF True] by linarith
    obtain j buf' where g: "http_header_generate_string ?h (int index) (drop fl ?b) (buffer_size_tx c - int fl) =
        (int j, buf', int (length (piece ?ts index j)))"
      and j: "index < j" "j \<le> length ?its" "length buf' = length (drop fl ?b)" "\<exists>rest. buf' = piece ?ts index j @ rest"
        "int (length (piece ?ts index j)) < buffer_size_tx c - int fl"
    proof (rule generate_chunk [of ?h index "buffer_size_tx c - int fl" "drop fl ?b"])
      show "int (length (?ts ! index)) + 3 \<le> buffer_size_tx c - int fl" using less.prems(8) [OF True] True by simp
    qed (use less.prems(1,3,4) True fl that in auto)
    define pc where "pc = piece ?ts index j"
    obtain rest where rest: "buf' = pc @ rest" using j(4) by (auto simp: pc_def)
    have "pc \<noteq> []" using less.prems(1) True j(1) piece_nonempty [of index j ?its] by (simp add: pc_def)
    let ?n = "fl + length pc"
    let ?buf = "(take fl ?b @ buf')[?n := 0]"
    let ?c = "c\<lparr>header_index := int j, hc_buffer := ?buf, data_write_left := int ?n, data_written_index := 0\<rparr>"
    have "?n < length (take fl ?b @ buf')" using j(3,5) fl less.prems(3) by (simp add: pc_def)
    then have w: "poke ?n 0 (take fl ?b @ buf') = ?buf" by (rule poke_inside)
    have p: "print_headers (int fl) (buffer_size_tx c - int fl) c = (True, ?c)"
      using w g [folded pc_def] \<open>pc \<noteq> []\<close> j(1) less.prems(6) by (simp add: print_headers_def Let_def nat_int_add ac_simps)
    have len: "length ?buf = length ?b" using j(3) fl less.prems(3) by simp
    have "take ?n ?buf = take fl ?b @ pc" using rest fl less.prems(3) by simp
    then obtain k i where sl: "send_left env ?c = (True, ?c\<lparr>hc_writes := k, data_write_left := 0, data_written_index := i,
        hc_sent := hc_sent c @ take fl ?b @ pc\<rparr>)"
      using send_left_sends [OF assms(1), of ?c] by (auto simp: nat_int_add)
    let ?d = "?c\<lparr>hc_writes := k, data_write_left := 0, data_written_index := i, hc_sent := hc_sent c @ take fl ?b @ pc\<rparr>"
    have hy: "length (hh_items (hc_headers ?d)) - j < length ?its - index" using j(1,2) True by simp
    have "\<exists>c'. send_headers env (int 0) (buffer_size_tx ?d - int 0) ?d = (True, c') \<and> hc_sent c' = hc_sent ?d @
      (if j < length (hh_items (hc_headers ?d))
       then take 0 (hc_buffer ?d) @ concat (map item_text (drop j (hh_items (hc_headers ?d)))) @ [13, 10] else [])"
      using less.prems(1-5) j(1,2) len by (intro less.hyps [OF hy]) simp_all
    moreover have "concat (map item_text (drop index ?its)) =
        concat (take (j - index) (drop index ?ts)) @ concat (map item_text (drop j ?its))"
      using j(1) by (simp add: drop_map [symmetric] flip: concat_append)
        (metis append_take_drop_id drop_drop le_add_diff_inverse2 less_imp_le_nat)
    ultimately show ?thesis
      using p sl True pc_def piece_def j(2) by (subst send_headers.simps) (auto split: if_splits)
  qed
qed

subsection \<open>The request line\<close>

definition request_line :: "http_client \<Rightarrow> bytes" where
  "request_line c = HTTP_METHOD_MAPPING ! hc_method c @ [32] @ hc_path c
     @ (case hc_query c of None \<Rightarrow> [] | Some q \<Rightarrow> 63 # q) @ [32] @ cstr ''HTTP/1.1'' @ [13, 10]"

lemma request_headers_keeps:
  assumes "request_headers env c n = Some c'"
  shows "hc_buffer c' = hc_buffer c" "buffer_size_tx c' = buffer_size_tx c" "hc_sent c' = hc_sent c"
  using assms by (auto simp: request_headers_def esp_http_client_set_header_def esp_http_client_set_method_def
      split: if_splits option.splits)

lemma first_line_text:
  assumes "http_client_prepare_first_line env c n = Some (k, c')" "0 \<le> k"
    and "int (length (hc_buffer c)) = buffer_size_tx c" "buffer_size_tx c < 2 ^ 32"
  obtains c1 where "request_headers env c n = Some c1" "c' = c1\<lparr>hc_buffer := hc_buffer c'\<rparr>"
    "k = int (length (request_line c'))" "k < buffer_size_tx c" "length (hc_buffer c') = length (hc_buffer c)"
    "take (nat k) (hc_buffer c') = request_line c'"
proof -
  obtain c1 where c1: "request_headers env c n = Some c1"
    using assms(1) by (auto simp: http_client_prepare_first_line_def split: option.splits)
  note keep = request_headers_keeps [OF c1]
  define a where "a = HTTP_METHOD_MAPPING ! hc_method c1 @ [32] @ hc_path c1"
  define q where "q = (case hc_query c1 of None \<Rightarrow> [] | Some q \<Rightarrow> 63 # q)"
  define p where "p = [32] @ cstr ''HTTP/1.1'' @ [13, 10 :: u8]"
  let ?n = "buffer_size_tx c"
  define b1 where "b1 = snprintf_at (hc_buffer c) 0 ?n a"
  define b2 where "b2 = (if hc_query c1 \<noteq> None then snprintf_at b1 (int (length a)) ?n q else b1)"
  define b3 where "b3 = snprintf_at b2 (int (length a) + int (length q)) ?n p"
  have fit: "int (length a) + int (length q) + int (length p) < ?n"
    and c': "c' = c1\<lparr>hc_buffer := b3\<rparr>" and k: "k = int (length a) + int (length q) + int (length p)"
    using assms(1,2) c1 keep
    by (auto simp: http_client_prepare_first_line_def Let_def print_at_def a_def q_def p_def b1_def b2_def b3_def
        split: if_splits option.splits)
  have line: "request_line c' = a @ q @ p" by (simp add: c' request_line_def a_def q_def p_def)
  note fits = snprintf_at_fits [OF _ _ _ assms(4)]
  have 1: "length b1 = length (hc_buffer c)" "take (length a) b1 = a"
    using fits [of 0 a "hc_buffer c"] fit assms(3) by (simp_all add: b1_def)
  have 2: "length b2 = length (hc_buffer c)" "take (length a + length q) b2 = a @ q"
    using fits [of "int (length a)" q b1] 1 fit assms(3) by (auto simp: b2_def q_def)
  have 3: "length b3 = length (hc_buffer c)" "take (length a + length q + length p) b3 = a @ q @ p"
    using fits [of "int (length a) + int (length q)" p b2] 2 fit assms(3) by (auto simp: b3_def nat_int_add)
  have "nat k = length a + length q + length p" unfolding k by (simp add: nat_int_add)
  with 3 show ?thesis using that [OF c1] fit k line c' keep by (simp add: add.assoc)
qed

text \<open>C27: The request on the wire: when the request line and every header line fit the transmit buffer (the
  first header line next to the request line, each of the others alone, with 3 bytes to spare) and the transport accepts data,
  \<open>esp_http_client_request_send\<close> returns and succeeds, and what it sent, in however many pieces and writes, is exactly the
  request line, one line for each header in order, and an empty line; the body may follow.\<close>

theorem request_on_wire:
  assumes "transport_ok env" "\<not> first_line_prepared c"
    and "http_client_prepare_first_line env c n = Some (k, c1)" "0 \<le> k"
    and "int (length (hc_buffer c)) = buffer_size_tx c" "buffer_size_tx c < 2 ^ 32"
    and "hh_items (hc_headers c1) = it # its" "\<forall>it \<in> set (it # its). hi_value it \<noteq> None"
    and "int (length (item_text it)) + 3 \<le> buffer_size_tx c - k"
    and "\<forall>it \<in> set its. int (length (item_text it)) + 3 \<le> buffer_size_tx c"
  shows "\<exists>c'. esp_http_client_request_send env c n = Some (0, c') \<and> hc_state c' = HTTP_STATE_REQ_COMPLETE_HEADER
    \<and> hc_sent c' = hc_sent c @ request_line c1 @ concat (map item_text (it # its)) @ [13, 10]"
proof -
  obtain c0 where c0: "request_headers env c n = Some c0" "c1 = c0\<lparr>hc_buffer := hc_buffer c1\<rparr>"
    "k = int (length (request_line c1))" "k < buffer_size_tx c" "length (hc_buffer c1) = length (hc_buffer c)"
    "take (nat k) (hc_buffer c1) = request_line c1"
    by (rule first_line_text [OF assms(3-6)])
  let ?c = "c1\<lparr>first_line_prepared := True, header_index := 0, data_written_index := 0, data_write_left := 0\<rparr>"
  have keep: "buffer_size_tx c1 = buffer_size_tx c" "hc_sent c1 = hc_sent c"
    using request_headers_keeps [OF c0(1)] by (subst c0(2), simp)+
  have "\<exists>c'. send_headers env (int (nat k)) (buffer_size_tx ?c - int (nat k)) ?c = (True, c') \<and> hc_sent c' = hc_sent ?c @
    (if 0 < length (hh_items (hc_headers ?c))
     then take (nat k) (hc_buffer ?c) @ concat (map item_text (drop 0 (hh_items (hc_headers ?c)))) @ [13, 10] else [])"
    using assms(4,5,6,7,8,9,10) c0(5) keep
    by (intro send_headers_sends [OF assms(1)]) (auto intro: order_trans [OF assms(9)])
  then obtain c' where c': "send_headers env k (buffer_size_tx c1 - k) ?c = (True, c')"
    "hc_sent c' = hc_sent c @ request_line c1 @ concat (map item_text (it # its)) @ [13, 10]"
    using assms(4,7) c0(6) keep by auto
  then show ?thesis
    using assms(2,3,4) by (auto simp: esp_http_client_request_send_def http_dispatch_event_def)
qed

definition demo_http_env :: http_env where
  "demo_http_env = \<lparr>http_mem = (\<lambda>k. True), esp_transport_write = (\<lambda>k n. if n > 7 then 7 else n), esp_transport_close = 0\<rparr>"

definition demo_client :: http_client where
  "demo_client = \<lparr>hc_headers = \<lparr>hh_items = [\<lparr>hi_key = cstr ''Host'', hi_value = Some (cstr ''h'')\<rparr>], hh_allocs = 0\<rparr>,
     hc_buffer = replicate 40 0, buffer_size_tx = 40, hc_method = 0, hc_path = cstr ''/a'', hc_query = Some (cstr ''b''),
     first_line_prepared = False, header_index = 0, data_written_index = 0, data_write_left = 0,
     hc_state = HTTP_STATE_CONNECTED, post_data = None, post_len = 0, is_async = False, has_event_handler = True,
     hc_events = [], hc_sent = [], hc_writes = 0\<rparr>"

theorem request_on_wire_witness:
  "\<exists>c'. esp_http_client_request_send demo_http_env demo_client 5 = Some (0, c') \<and> hc_sent c' =
     cstr ''GET /a?b HTTP/1.1'' @ [13, 10] @ cstr ''Host: h'' @ [13, 10] @ cstr ''Content-Length: 5'' @ [13, 10] @ [13, 10]"
proof -
  let ?its = "[\<lparr>hi_key = cstr ''Host'', hi_value = Some (cstr ''h'')\<rparr>, \<lparr>hi_key = cstr ''Content-Length'', hi_value = Some (cstr ''5'')\<rparr>]"
  let ?r = "http_client_prepare_first_line demo_http_env demo_client 5"
  have r: "fst (the ?r) = 19" "hh_items (hc_headers (snd (the ?r))) = ?its"
    "request_line (snd (the ?r)) = cstr ''GET /a?b HTTP/1.1'' @ [13, 10]"
    by code_simp+
  have "map_option (\<lambda>x. ()) ?r = Some ()" by code_simp
  then have e: "?r = Some (19, snd (the ?r))" using r(1) by (cases ?r) auto
  have "transport_ok demo_http_env" by (simp add: transport_ok_def demo_http_env_def)
  moreover have "\<not> first_line_prepared demo_client" "int (length (hc_buffer demo_client)) = buffer_size_tx demo_client"
    "buffer_size_tx demo_client = 40" "hc_sent demo_client = []" by (simp_all add: demo_client_def)
  moreover have "int (length (item_text (?its ! 0))) + 3 \<le> 40 - 19" "int (length (item_text (?its ! 1))) + 3 \<le> 40"
    "item_text (?its ! 0) = cstr ''Host: h'' @ [13, 10]" "item_text (?its ! 1) = cstr ''Content-Length: 5'' @ [13, 10]"
    by code_simp+
  ultimately show ?thesis
    using request_on_wire [of demo_http_env demo_client 5 19 "snd (the ?r)", OF _ _ e] r(2,3) by auto
qed

subsection \<open>A buffer that is too small\<close>

text \<open>C21: The condition of the previous property is needed, and the code does not report when it fails: when the first header
  line does not fit next to the request line, \<open>http_header_generate_string\<close> returns 0, which \<open>esp_http_client_request_send\<close> takes
  for the end of the headers, so that it reports success and moves to the next state with not one byte of the request sent.\<close>

theorem oversized_header_drops_request:
  assumes "\<not> first_line_prepared c"
    and "http_client_prepare_first_line env c n = Some (k, c1)" "0 \<le> k"
    and "hh_items (hc_headers c1) = it # its" "hi_value it \<noteq> None"
    and "buffer_size_tx c1 - k < int (length (item_text it)) + 3"
  shows "\<exists>c'. esp_http_client_request_send env c n = Some (0, c') \<and> hc_state c' = HTTP_STATE_REQ_COMPLETE_HEADER \<and> hc_sent c' = hc_sent c"
proof -
  let ?c = "c1\<lparr>first_line_prepared := True, header_index := 0, data_written_index := 0, data_write_left := 0\<rparr>"
  obtain v where v: "hi_value it = Some v" using assms(5) by blast
  have g: "http_header_generate_string (hc_headers ?c) 0 b (buffer_size_tx c1 - k) = (0, b, 0)" for b
    using assms(4,6) v by (auto simp: http_header_generate_string_def item_text_def header_line_def print_pass_nothing Let_def)
  then have "print_headers k (buffer_size_tx c1 - k) ?c = (False, ?c)" by (simp add: print_headers_def)
  then have h: "send_headers env k (buffer_size_tx c1 - k) ?c = (True, ?c)" by (subst send_headers.simps) simp
  have "hc_sent c1 = hc_sent c"
    using assms(2) by (auto simp: http_client_prepare_first_line_def Let_def print_at_def request_headers_keeps
        split: option.splits if_splits)
  with h show ?thesis
    using assms(1,2,3) by (simp add: esp_http_client_request_send_def http_dispatch_event_def)
qed

theorem oversized_header_drops_request_witness:
  "\<exists>c'. esp_http_client_request_send demo_http_env (demo_client\<lparr>hc_buffer := replicate 24 0, buffer_size_tx := 24\<rparr>) 5 = Some (0, c')
    \<and> hc_sent c' = []"
proof -
  let ?c = "demo_client\<lparr>hc_buffer := replicate 24 0, buffer_size_tx := 24\<rparr>"
  let ?r = "http_client_prepare_first_line demo_http_env ?c 5"
  have r: "fst (the ?r) = 19" "hh_items (hc_headers (snd (the ?r))) = [\<lparr>hi_key = cstr ''Host'', hi_value = Some (cstr ''h'')\<rparr>,
      \<lparr>hi_key = cstr ''Content-Length'', hi_value = Some (cstr ''5'')\<rparr>]" "buffer_size_tx (snd (the ?r)) = 24"
    "length (item_text \<lparr>hi_key = cstr ''Host'', hi_value = Some (cstr ''h'')\<rparr>) = 9"
    by code_simp+
  have "map_option (\<lambda>x. ()) ?r = Some ()" by code_simp
  then have e: "?r = Some (19, snd (the ?r))" using r(1) by (cases ?r) auto
  have "\<not> first_line_prepared ?c" "hc_sent ?c = []" by (simp_all add: demo_client_def)
  then show ?thesis
    using oversized_header_drops_request [of ?c demo_http_env 5 19 "snd (the ?r)", OF _ e] r(2-4) by auto
qed

text \<open>With 30 bytes, a later header line does not fit the buffer: it and the empty line are lost, with success as well.\<close>

lemma later_header_lost:
  "map_option (\<lambda>(r, c). (r, hc_sent c)) (esp_http_client_request_send demo_http_env
      (demo_client\<lparr>hc_buffer := replicate 30 0, buffer_size_tx := 30, hc_headers := \<lparr>hh_items =
         [\<lparr>hi_key = cstr ''A'', hi_value = Some (cstr ''b'')\<rparr>, \<lparr>hi_key = cstr ''C'', hi_value = Some (replicate 30 100)\<rparr>],
         hh_allocs = 0\<rparr>\<rparr>) 5)
    = Some (0, cstr ''GET /a?b HTTP/1.1'' @ [13, 10] @ cstr ''A: b'' @ [13, 10])"
  by code_simp

end
