(* ===== verification/Wifi_App.thy ===== *)
theory Wifi_App
  imports Prelude
begin

text \<open>
  Getting the device onto a network: the provisioning state machine (\<^verbatim>\<open>common/app_config/app_config.c\<close>), the
  connection to an access point (\<^verbatim>\<open>common/connec_wifi/wifi_iot.c\<close>), provisioning by SmartConfig
  (\<^verbatim>\<open>common/smart_config/smart_config.c\<close>) or by a web form on an access point of its own
  (\<^verbatim>\<open>common/init_sofap/wifi_sofAP.c\<close>, \<^verbatim>\<open>common/http_sever_sta/http_sever_sta.c\<close>).  The record \<open>app\<close> holds the static
  variables of these files, a log of the calls to the system, and the events the system is going to
  deliver.  Code that waits takes events from that list until it is woken; when the list ends, it waits
  for ever (\<open>Blocked\<close>).  A failed \<open>ESP_ERROR_CHECK\<close> and a memory error end the program (\<open>Abort\<close>).
\<close>

subsection \<open>Data\<close>

datatype 'a outcome = Done 'a | Blocked | Abort

fun bind_outcome :: "'a outcome \<Rightarrow> ('a \<Rightarrow> 'b outcome) \<Rightarrow> 'b outcome" where
  "bind_outcome (Done x) f = f x"
| "bind_outcome Blocked f = Blocked"
| "bind_outcome Abort f = Abort"

datatype provision_type = PROVISITION_SMARTCONFIG | PROVISITION_ACCESSPOIN
datatype status_connect = NORMAL | SELECTTION_MODE_CONNECT | CONNECT_WIFI | ERASE_FLASH | CONNECT_ERROR

datatype wifi_event = STA_START | STA_DISCONNECTED | GOT_IP | LOST_IP | SC_SCAN_DONE | SC_FOUND_CHANNEL
  | SC_GOT_SSID_PSWD bytes bytes | SC_SEND_ACK_DONE

datatype sys_call = Wifi_Connect | Wifi_Disconnect | Wifi_Restart bytes | Post_Wifi_Connected
  | Smartconfig_Start | Smartconfig_Stop | Softap_Start | Httpd_Start | Httpd_Stop | Resp_Chunk

text \<open>\<open>sta_mem\<close> are the arrays \<open>ssid [32]\<close> and \<open>password [64]\<close> of \<open>info_config_wifi.wifi_config.sta\<close>, which are
  neighbours in memory.\<close>

record app =
  sta_mem :: bytes
  status_connect :: status_connect
  provision_type :: provision_type
  sta :: u8
  block_init :: u8
  provisioned :: u8
  s_retry_num :: u8
  time_err :: u8
  connected_bit :: bool
  fail_bit :: bool
  my_apt :: bool
  my_spt :: bool
  info_wifi_smart :: bool
  get_infowifi_callback :: bool
  httpd_server :: bool
  events :: "wifi_event list"
  calls :: "sys_call list"

text \<open>What the ESP-IDF functions answer; \<open>flash_config\<close> is the configuration \<open>esp_wifi_get_config\<close> reads.\<close>

record idf =
  esp_netif_init_ok :: bool
  nvs_flash_init_ok :: bool
  esp_wifi_init_ok :: bool
  flash_config :: bytes
  wifi_calls_ok :: bool
  event_post_ok :: bool
  httpd_start_ok :: bool

definition call :: "sys_call list \<Rightarrow> app \<Rightarrow> app" where
  "call cs a = a\<lparr>calls := calls a @ cs\<rparr>"

text \<open>\<open>ESP_ERROR_CHECK\<close>\<close>

definition esp_error_check :: "bool \<Rightarrow> app \<Rightarrow> app outcome" where
  "esp_error_check ok a = (if ok then Done a else Abort)"

definition sample_err :: bytes where "sample_err = cstr ''ssiderr''"

definition ssid :: "app \<Rightarrow> bytes" where "ssid a = c_str (sta_mem a)"

subsection \<open>Connecting to an access point\<close>

definition event_handler :: "wifi_event \<Rightarrow> app \<Rightarrow> app" where
  "event_handler ev a =
    (case ev of
       STA_START \<Rightarrow> call [Wifi_Disconnect, Wifi_Connect] a
     | STA_DISCONNECTED \<Rightarrow>
         if s_retry_num a < time_err a
         then (call [Wifi_Connect] a)\<lparr>s_retry_num := s_retry_num a + 1\<rparr>
         else a\<lparr>fail_bit := True\<rparr>
     | GOT_IP \<Rightarrow> a\<lparr>s_retry_num := 0, connected_bit := True\<rparr>
     | LOST_IP \<Rightarrow> a\<lparr>fail_bit := True\<rparr>
     | _ \<Rightarrow> a)"

text \<open>The handler is registered for the events of the Wi-Fi driver and for \<open>IP_EVENT_STA_GOT_IP\<close>.\<close>

fun handled :: "wifi_event \<Rightarrow> bool" where
  "handled STA_START = True"
| "handled STA_DISCONNECTED = True"
| "handled GOT_IP = True"
| "handled ev = False"

text \<open>\<open>xEventGroupWaitBits\<close>: events are delivered until one of the bits is set.\<close>

fun wait_bits :: "wifi_event list \<Rightarrow> app \<Rightarrow> app outcome" where
  "wait_bits evs a =
    (if connected_bit a \<or> fail_bit a then Done (a\<lparr>events := evs\<rparr>)
     else case evs of
       [] \<Rightarrow> Blocked
     | ev # evs \<Rightarrow> wait_bits evs (if handled ev then event_handler ev a else a))"

declare wait_bits.simps [simp del]

text \<open>\<open>wifi_connect_iot\<close>: whether it returns \<open>ESP_OK\<close>.\<close>

definition wifi_connect_iot :: "idf \<Rightarrow> u8 \<Rightarrow> app \<Rightarrow> (bool \<times> app) outcome" where
  "wifi_connect_iot env time_out a =
    bind_outcome (if my_apt a then Done a else esp_error_check (esp_wifi_init_ok env) (a\<lparr>my_apt := True\<rparr>)) (\<lambda>a.
    bind_outcome (esp_error_check (wifi_calls_ok env) (call [Wifi_Restart (sta_mem a)]
        (a\<lparr>time_err := time_out, connected_bit := False, fail_bit := False\<rparr>))) (\<lambda>a.
    bind_outcome (wait_bits (events a) a) (\<lambda>a. Done (connected_bit a, a))))"

subsection \<open>SmartConfig\<close>

text \<open>The handler reports whether it set \<open>ESPTOUCH_DONE_BIT\<close>.  It stores the credentials and passes them to the
  callback \<open>info_wifi_smart\<close>, which prints them.\<close>

definition smart_event_handler :: "idf \<Rightarrow> wifi_event \<Rightarrow> app \<Rightarrow> (bool \<times> app) outcome" where
  "smart_event_handler env ev a =
    (case ev of
       STA_START \<Rightarrow> bind_outcome (esp_error_check (wifi_calls_ok env) (call [Smartconfig_Start] a)) (\<lambda>a. Done (False, a))
     | SC_GOT_SSID_PSWD s p \<Rightarrow>
         if info_wifi_smart a
         then Done (True, a\<lparr>sta_mem := take 32 (s @ replicate 32 0) @ take 64 (p @ replicate 64 0)\<rparr>)
         else Abort
     | SC_SEND_ACK_DONE \<Rightarrow> Done (True, a)
     | _ \<Rightarrow> Done (False, a))"

text \<open>The wait for \<open>ESPTOUCH_DONE_BIT\<close>.\<close>

fun smart_wait :: "idf \<Rightarrow> wifi_event list \<Rightarrow> app \<Rightarrow> app outcome" where
  "smart_wait env [] a = Blocked"
| "smart_wait env (ev # evs) a =
    bind_outcome (smart_event_handler env ev a) (\<lambda>(wake, a). if wake then Done (a\<lparr>events := evs\<rparr>) else smart_wait env evs a)"

definition smart_config_connect :: "idf \<Rightarrow> app \<Rightarrow> app outcome" where
  "smart_config_connect env a =
    bind_outcome (esp_error_check (wifi_calls_ok env) a) (\<lambda>a.
    bind_outcome (smart_wait env (events a) a) (\<lambda>a. Done (call [Smartconfig_Stop] a)))"

definition set_callback_infowifi_smart :: "app \<Rightarrow> app" where
  "set_callback_infowifi_smart a = a\<lparr>info_wifi_smart := True\<rparr>"

subsection \<open>Access point and web form\<close>

definition wifi_init_softap :: "idf \<Rightarrow> app \<Rightarrow> app outcome" where
  "wifi_init_softap env a =
    bind_outcome (if my_spt a then Done a else esp_error_check (esp_wifi_init_ok env) (a\<lparr>my_spt := True\<rparr>)) (\<lambda>a.
    esp_error_check (wifi_calls_ok env) (call [Softap_Start] a))"

definition start_wedsever_connect_sta :: "idf \<Rightarrow> app \<Rightarrow> app" where
  "start_wedsever_connect_sta env a =
    (if httpd_server a then a
     else if httpd_start_ok env then (call [Httpd_Start] a)\<lparr>httpd_server := True\<rparr>
     else call [Httpd_Stop] a)"

definition stop_wedsever_connect_sta :: "app \<Rightarrow> app" where
  "stop_wedsever_connect_sta a = call [Httpd_Stop] a"

definition http_set_callback_infowifi :: "app \<Rightarrow> app" where
  "http_set_callback_infowifi a = a\<lparr>get_infowifi_callback := True\<rparr>"

text \<open>\<open>strncpy\<close> with the length of the source: no terminator is written.\<close>

definition set_callback_wifiinfo :: "bytes \<Rightarrow> bytes \<Rightarrow> app \<Rightarrow> app" where
  "set_callback_wifiinfo s p a = a\<lparr>sta_mem := mem_write 32 p (mem_write 0 s (sta_mem a))\<rparr>"

text \<open>\<open>strtok\<close> on \<open>&\<close>: the next token and the text behind its delimiter.\<close>

definition strtok_amp :: "bytes \<Rightarrow> (bytes \<times> bytes) option" where
  "strtok_amp s =
    (let s = dropWhile (\<lambda>b. b = 38) s in
     if s = [] then None
     else Some (takeWhile (\<lambda>b. b \<noteq> 38) s, case dropWhile (\<lambda>b. b \<noteq> 38) s of [] \<Rightarrow> [] | _ # rest \<Rightarrow> rest))"

lemma strtok_shrinks:
  assumes "strtok_amp s = Some (tok, rest)"
  shows "length rest < length s"
proof -
  let ?s = "dropWhile (\<lambda>b. b = 38) s"
  define d where "d = dropWhile (\<lambda>b. b \<noteq> 38) ?s"
  have ne: "?s \<noteq> []" and rest: "rest = (case d of [] \<Rightarrow> [] | _ # r \<Rightarrow> r)"
    using assms by (auto simp: strtok_amp_def Let_def d_def split: if_splits)
  have len: "length ?s \<le> length s" "length d \<le> length ?s"
    unfolding d_def by (rule length_dropWhile_le)+
  show ?thesis
  proof (cases d)
    case Nil
    moreover have "0 < length ?s" using ne by (rule length_greater_0_conv [THEN iffD2])
    ultimately show ?thesis using rest len(1) by auto
  next
    case (Cons x r)
    then show ?thesis using rest len by simp
  qed
qed

text \<open>\<open>token + 5\<close>, which is behind the token's terminator when the token has only four characters.\<close>

definition behind_five :: "bytes \<Rightarrow> bytes \<Rightarrow> bytes" where
  "behind_five token rest = (if length token \<ge> 5 then drop 5 token else rest)"

text \<open>The loop over the fields of the form: the strings in the buffers \<open>ssid\<close> and \<open>pass\<close> of 50 bytes, or \<open>None\<close>
  when \<open>strcpy\<close> runs over the end of one of them.\<close>

function parse_form :: "bytes \<Rightarrow> bytes \<Rightarrow> bytes \<Rightarrow> (bytes \<times> bytes) option" where
  "parse_form s ss pw =
    (case strtok_amp s of
       None \<Rightarrow> Some (ss, pw)
     | Some (token, rest) \<Rightarrow>
         let v = behind_five token rest in
         if strstr token (cstr ''ssid'') \<noteq> None
         then (if length v < 50 then parse_form rest v pw else None)
         else if strstr token (cstr ''pass'') \<noteq> None
         then (if length v < 50 then parse_form rest ss v else None)
         else parse_form rest ss pw)"
  by pat_completeness auto
termination by (relation "measure (\<lambda>(s, ss, pw). length s)") (auto dest: strtok_shrinks)

declare parse_form.simps [simp del]

text \<open>\<open>get_infowifi_handler\<close>: \<open>ok1\<close> to \<open>ok3\<close> are the three allocations, \<open>junk\<close> is what follows the received bytes in the
  request buffer, \<open>ssid0\<close> and \<open>pass0\<close> what the other two buffers contain when they are allocated.\<close>

definition get_infowifi_handler ::
  "bool \<Rightarrow> bool \<Rightarrow> bool \<Rightarrow> bytes \<Rightarrow> bytes \<Rightarrow> bytes \<Rightarrow> bytes \<Rightarrow> app \<Rightarrow> (bool \<times> app) outcome" where
  "get_infowifi_handler ok1 ok2 ok3 received junk ssid0 pass0 a =
    (if \<not> ok1 \<or> \<not> ok2 \<or> \<not> ok3 then Done (False, a)
     else case parse_form (c_str (received @ junk)) ssid0 pass0 of
       None \<Rightarrow> Abort
     | Some (ss, pw) \<Rightarrow>
         if \<not> get_infowifi_callback a then Abort
         else Done (True, call [Resp_Chunk] (set_callback_wifiinfo ss pw a)))"

text \<open>\<open>http_404_error_handler\<close>: the message and whether the connection is kept.\<close>

definition http_404_error_handler :: "bytes \<Rightarrow> bytes \<times> bool" where
  "http_404_error_handler uri =
    (if uri = cstr ''/start'' then (cstr ''/start URI is not available'', True) else (cstr ''Some 404 error message'', False))"

subsection \<open>The provisioning state machine\<close>

definition connect_wifi :: "idf \<Rightarrow> app \<Rightarrow> app outcome" where
  "connect_wifi env a =
    bind_outcome (wifi_connect_iot env 3 a) (\<lambda>(ok, a).
      if ok then bind_outcome (esp_error_check (event_post_ok env) (call [Post_Wifi_Connected] a))
                   (\<lambda>a. Done (a\<lparr>status_connect := NORMAL\<rparr>))
      else Done (a\<lparr>sta_mem := mem_write 0 (sample_err @ [0]) (sta_mem a),
                   status_connect := SELECTTION_MODE_CONNECT, sta := 1\<rparr>))"

definition wifi_init :: "idf \<Rightarrow> app \<Rightarrow> app outcome" where
  "wifi_init env a =
    bind_outcome (esp_error_check (esp_netif_init_ok env \<and> nvs_flash_init_ok env) a) (\<lambda>a.
      Done (if esp_wifi_init_ok env then a\<lparr>sta_mem := flash_config env, sta := 1\<rparr> else a))"

definition is_provisioned :: "idf \<Rightarrow> app \<Rightarrow> app outcome" where
  "is_provisioned env a =
    bind_outcome (if block_init a = 1 then wifi_init env (a\<lparr>block_init := 0\<rparr>) else Done a) (\<lambda>a.
      Done (a\<lparr>provisioned := (if byte_at (sta_mem a) 0 = 0 \<or> ssid a = sample_err then 1 else 0)\<rparr>))"

definition app_config :: "idf \<Rightarrow> app \<Rightarrow> app outcome" where
  "app_config env a =
    bind_outcome (is_provisioned env a) (\<lambda>a.
      if provisioned a = 1 then
        if provision_type a = PROVISITION_SMARTCONFIG \<and> sta a = 1
        then smart_config_connect env (set_callback_infowifi_smart (a\<lparr>sta := 0\<rparr>))
        else if provision_type a = PROVISITION_ACCESSPOIN \<and> sta a = 1
        then bind_outcome (wifi_init_softap env (a\<lparr>sta := 0\<rparr>)) (\<lambda>a.
               Done (http_set_callback_infowifi (start_wedsever_connect_sta env a)))
        else Done a
      else Done (a\<lparr>status_connect := CONNECT_WIFI\<rparr>))"

definition handle_connect_wifi :: "idf \<Rightarrow> app \<Rightarrow> app outcome" where
  "handle_connect_wifi env a =
    (case status_connect a of
       NORMAL \<Rightarrow> Done a
     | SELECTTION_MODE_CONNECT \<Rightarrow> app_config env a
     | CONNECT_WIFI \<Rightarrow> connect_wifi env a
     | ERASE_FLASH \<Rightarrow> Done a
     | CONNECT_ERROR \<Rightarrow> Done a)"

definition app_config_init :: "app \<Rightarrow> app" where
  "app_config_init a = a\<lparr>provision_type := PROVISITION_SMARTCONFIG, status_connect := SELECTTION_MODE_CONNECT, sta := 1, block_init := 1\<rparr>"

text \<open>\<open>handler_task\<close> of \<^verbatim>\<open>main/blynk.c\<close>: \<open>n\<close> passes of its loop.\<close>

fun handler_task :: "idf \<Rightarrow> nat \<Rightarrow> app \<Rightarrow> app outcome" where
  "handler_task env 0 a = Done a"
| "handler_task env (Suc n) a = bind_outcome (handle_connect_wifi env a) (handler_task env n)"

end
