(* ===== verification/App_Main.thy ===== *)
theory App_Main
  imports Wifi_App
begin

text \<open>
  The application (\<^verbatim>\<open>main/blynk.c\<close>) with its modules for MQTT (\<^verbatim>\<open>common/mqtt_app/mqtt_app.c\<close>), outputs
  (\<^verbatim>\<open>common/output_iot/output_iot.c\<close>) and push buttons (\<^verbatim>\<open>common/input_iot/input_iot.c\<close>).  The record \<open>board\<close> logs
  what the application does to the pins, the event loop, the MQTT client and the task list.
\<close>

subsection \<open>Data\<close>

datatype dev_event = MQTT_DEV_EVENT_CONNECTED | MQTT_DEV_EVENT_DISCONNECT | MQTT_DEV_EVENT_DATA | MQTT_DEV_EVENT_SUBSCRIBED

datatype ota_event = OTADRIVE_EVENT_START_CHECK | OTADRIVE_EVENT_UPDATE_AVAILABLE | OTADRIVE_EVENT_NOUPDATE_AVAILABLE
  | OTADRIVE_EVENT_START_UPDATE | OTADRIVE_EVENT_FINISH_UPDATE | OTADRIVE_EVENT_UPDATE_FAILED | OTADRIVE_EVENT_START_STORAGE_UPDATE
  | OTADRIVE_EVENT_FINISH_STORAGE_UPDATE | OTADRIVE_EVENT_STORAGE_UPDATE_FAILED | OTADRIVE_EVENT_FIRMWARE_UPDATE_PROGRESS
  | OTADRIVE_EVENT_STORAGE_UPDATE_PROGRESS | OTADRIVE_EVENT_PENDING_REBOOT | WIFI_CONNECTTED | WIFI_DISCONNECTTED

text \<open>The event of the MQTT client.  \<open>e_topic\<close> and \<open>e_data\<close> are the memory from the pointers \<open>topic\<close> and \<open>data\<close> on, which
  goes on behind the lengths.\<close>

datatype mqtt_event_id = MQTT_EVENT_ERROR | MQTT_EVENT_CONNECTED | MQTT_EVENT_DISCONNECTED | MQTT_EVENT_SUBSCRIBED
  | MQTT_EVENT_UNSUBSCRIBED | MQTT_EVENT_PUBLISHED | MQTT_EVENT_DATA | MQTT_EVENT_BEFORE_CONNECT | MQTT_EVENT_DELETED

record mqtt_event =
  e_id :: mqtt_event_id
  e_topic :: bytes
  e_topic_len :: nat
  e_data :: bytes
  e_data_len :: nat

datatype task = Otadrive_Task | Handler_Task

text \<open>The C type \<open>int\<close>; \<open>sint\<close> reads it.\<close>

type_synonym i32 = "32 word"

record board =
  levels :: "(nat \<times> i32) list"
  outputs :: "nat list"
  posted :: "dev_event list"
  subscriptions :: "(bytes \<times> nat) list"
  publications :: "(bytes \<times> bytes \<times> nat \<times> nat) list"
  tasks :: "task list"
  mqtt_started :: bool
  data_callback :: bool
  ota_handler :: bool
  dev_handler :: bool
  wifi :: app

abbreviation (input) GPIO_NUM_2 :: nat where "GPIO_NUM_2 \<equiv> 2"

subsection \<open>Outputs\<close>

definition output_io_creat :: "nat \<Rightarrow> board \<Rightarrow> board" where
  "output_io_creat gpio_num b = b\<lparr>outputs := outputs b @ [gpio_num]\<rparr>"

definition output_io_set_level :: "nat \<Rightarrow> i32 \<Rightarrow> board \<Rightarrow> board" where
  "output_io_set_level gpio_num level b = b\<lparr>levels := levels b @ [(gpio_num, level)]\<rparr>"

text \<open>\<open>old_level\<close> is what \<open>gpio_get_level\<close> returns.\<close>

definition output_io_toggle :: "i32 \<Rightarrow> nat \<Rightarrow> board \<Rightarrow> board" where
  "output_io_toggle old_level gpio_num b = b\<lparr>levels := levels b @ [(gpio_num, 1 - old_level)]\<rparr>"

definition output_io_blink :: "nat \<Rightarrow> board \<Rightarrow> board" where
  "output_io_blink gpio_num b = b\<lparr>levels := levels b @ [(gpio_num, 0), (gpio_num, 1)]\<rparr>"

definition blink_app :: "i32 \<Rightarrow> board \<Rightarrow> board" where
  "blink_app old_level b = output_io_toggle old_level GPIO_NUM_2 b"

subsection \<open>MQTT\<close>

definition app_mqtt_publish :: "bytes \<Rightarrow> bytes \<Rightarrow> board \<Rightarrow> board" where
  "app_mqtt_publish topic data b = b\<lparr>publications := publications b @ [(topic, data, 0, 1)]\<rparr>"

definition app_mqtt_subscribe :: "bytes \<Rightarrow> board \<Rightarrow> board" where
  "app_mqtt_subscribe topic b = b\<lparr>subscriptions := subscriptions b @ [(topic, 1)]\<rparr>"

definition mqtt_data_set_callback :: "board \<Rightarrow> board" where
  "mqtt_data_set_callback b = b\<lparr>data_callback := True\<rparr>"

definition mqtt_app_init :: "board \<Rightarrow> board" where
  "mqtt_app_init b = b\<lparr>mqtt_started := True\<rparr>"

text \<open>\<open>atoi\<close>: white space, a sign and digits.  A number outside the range of \<open>int\<close> gives the nearest bound, as \<open>strtol\<close> does,
  which the C library of the device calls (\<open>long\<close> and \<open>int\<close> have 32 bits).\<close>

fun digits_value :: "int \<Rightarrow> bytes \<Rightarrow> int" where
  "digits_value acc [] = acc"
| "digits_value acc (c # s) = (if 48 \<le> c \<and> c \<le> 57 then digits_value (10 * acc + (uint c - 48)) s else acc)"

definition clamp_int :: "int \<Rightarrow> int" where
  "clamp_int v = max (- (2 ^ 31)) (min (2 ^ 31 - 1) v)"

definition atoi :: "bytes \<Rightarrow> i32" where
  "atoi s =
    (let s = dropWhile (\<lambda>c. c = 32 \<or> (9 \<le> c \<and> c \<le> 13)) s in
     word_of_int (clamp_int (case s of
       [] \<Rightarrow> 0
     | c # r \<Rightarrow> if c = 45 then - digits_value 0 r else if c = 43 then digits_value 0 r else digits_value 0 s)))"

definition url_data :: "nat \<Rightarrow> bytes \<Rightarrow> nat \<Rightarrow> bytes \<Rightarrow> board \<Rightarrow> board" where
  "url_data length_topic topic len url b =
    (if strncmp_eq length_topic topic (cstr ''downlink/ds/vw'') then output_io_set_level GPIO_NUM_2 (atoi url) b else b)"

text \<open>The handler of the MQTT client's events; a call of \<open>data_callback\<close> while it is null ends the program.\<close>

definition mqtt_event_handler :: "mqtt_event \<Rightarrow> board \<Rightarrow> board outcome" where
  "mqtt_event_handler ev b =
    (case e_id ev of
       MQTT_EVENT_CONNECTED \<Rightarrow> Done (b\<lparr>posted := posted b @ [MQTT_DEV_EVENT_CONNECTED]\<rparr>)
     | MQTT_EVENT_DISCONNECTED \<Rightarrow> Done (b\<lparr>posted := posted b @ [MQTT_DEV_EVENT_DISCONNECT]\<rparr>)
     | MQTT_EVENT_SUBSCRIBED \<Rightarrow> Done (b\<lparr>posted := posted b @ [MQTT_DEV_EVENT_SUBSCRIBED]\<rparr>)
     | MQTT_EVENT_DATA \<Rightarrow>
         let b = b\<lparr>posted := posted b @ [MQTT_DEV_EVENT_DATA]\<rparr> in
         if data_callback b then Done (url_data (e_topic_len ev) (e_topic ev) (e_data_len ev) (e_data ev) b) else Abort
     | _ \<Rightarrow> Done b)"

subsection \<open>The application\<close>

definition mqtt_even :: "dev_event \<Rightarrow> board \<Rightarrow> board" where
  "mqtt_even ev b =
    (case ev of
       MQTT_DEV_EVENT_CONNECTED \<Rightarrow> app_mqtt_subscribe (cstr ''downlink/ds/vw'') (app_mqtt_subscribe (cstr ''downlink/ds/VP_ADC'') b)
     | _ \<Rightarrow> b)"

definition otadrive_event_handler :: "ota_event \<Rightarrow> board \<Rightarrow> board" where
  "otadrive_event_handler ev b =
    (case ev of
       WIFI_CONNECTTED \<Rightarrow> mqtt_app_init (b\<lparr>tasks := tasks b @ [Otadrive_Task]\<rparr>)
     | _ \<Rightarrow> b)"

text \<open>The event loop hands a posted event to the handler registered for its base.\<close>

definition dispatch_dev :: "board \<Rightarrow> board" where
  "dispatch_dev b =
    (case posted b of
       [] \<Rightarrow> b
     | ev # evs \<Rightarrow> let b = b\<lparr>posted := evs\<rparr> in if dev_handler b then mqtt_even ev b else b)"

definition app_main :: "bool \<Rightarrow> board \<Rightarrow> board outcome" where
  "app_main loop_ok b =
    (let b = output_io_creat GPIO_NUM_2 b in
     if \<not> loop_ok then Abort
     else
       let b = b\<lparr>ota_handler := True, dev_handler := True\<rparr>;
           b = b\<lparr>wifi := app_config_init (wifi b)\<rparr>;
           b = mqtt_data_set_callback b in
       Done (b\<lparr>tasks := tasks b @ [Handler_Task]\<rparr>))"

subsection \<open>Push buttons\<close>

record button =
  press_start :: u32
  press_stop :: u32
  buttonPressDuration :: u32
  btn_x :: int
  timer_running :: bool
  pin_setup :: "(nat \<times> nat) list"
  input_callback :: bool
  input_callback_status :: bool
  presses :: "(nat \<times> u32) list"
  statuses :: "int list"

definition vTimerCallback :: "u32 \<Rightarrow> button \<Rightarrow> button outcome" where
  "vTimerCallback ulCount s =
    (if ulCount = 0
     then (if input_callback_status s then Done (s\<lparr>statuses := statuses s @ [1], btn_x := 0\<rparr>) else Abort)
     else Done s)"

text \<open>The interrupt handler reads the pin twice; \<open>l1\<close> and \<open>l2\<close> are the levels and \<open>tick\<close> the tick count.\<close>

definition gpio_input_handler :: "nat \<Rightarrow> int \<Rightarrow> int \<Rightarrow> u32 \<Rightarrow> button \<Rightarrow> button outcome" where
  "gpio_input_handler gpio_num l1 l2 tick s =
    (let s = (if l1 = 1 then s\<lparr>timer_running := True, press_start := tick\<rparr>
              else if l2 = 0 then s\<lparr>btn_x := 0, timer_running := False, press_stop := tick,
                                  buttonPressDuration := tick - press_start s\<rparr>
              else s) in
     if input_callback s then Done (s\<lparr>presses := presses s @ [(gpio_num, buttonPressDuration s)]\<rparr>) else Abort)"

definition input_io_creat :: "nat \<Rightarrow> nat \<Rightarrow> button \<Rightarrow> button" where
  "input_io_creat gpio_num edge s = s\<lparr>pin_setup := pin_setup s @ [(gpio_num, edge)], timer_running := False\<rparr>"

definition input_set_callback :: "button \<Rightarrow> button" where
  "input_set_callback s = s\<lparr>input_callback := True\<rparr>"

definition input_set_callback_status :: "button \<Rightarrow> button" where
  "input_set_callback_status s = s\<lparr>input_callback_status := True\<rparr>"

end
