(* ===== verification/Http_Response.thy ===== *)
theory Http_Response
  imports Http_Request "HOL-Library.Monad_Syntax"
begin

text \<open>
  The receiving half of the HTTP client (\<^verbatim>\<open>common/esp_http_client/esp_http_client.c\<close>): the callbacks of the response
  parser, reading the headers and reading the body.

  The parser \<open>http_parser\<close>, the transport and the heap are outside the tree: they are the fields of the record
  \<open>http_net\<close>.  A run of the parser over some bytes is the list of the callbacks it makes, in order, and the state it is left
  in; a callback is a value of \<open>parser_event\<close>.  The flag passed to the parser tells it that the answer of
  \<open>on_headers_complete\<close> is 1, which means that no body follows.  The state \<open>http\<close> is \<open>struct esp_http_client\<close>: \<open>h_req\<close> holds the fields
  of the sending half, \<open>h_res\<close> is the member \<open>response\<close>.  The pointers \<open>raw_data\<close> and \<open>output_ptr\<close> are offsets into the receive
  buffer and into the buffer of the caller, which is \<open>user_buf\<close> while it is being filled.  Results are inside \<open>option\<close>: \<open>None\<close> when
  the device stops because an allocation of the string helpers failed, or when a loop does not end.
\<close>

subsection \<open>Data\<close>

datatype parser_event = On_message_begin | On_url bytes | On_status bytes | On_header_field bytes | On_header_value bytes
  | On_headers_complete int int u64 | On_body nat nat | On_message_complete | On_chunk_complete

record http_response =
  res_data :: bytes
  res_len :: int
  raw_data :: nat
  raw_len :: int
  output_ptr :: "nat option"
  status_code :: int
  content_length :: int
  data_offset :: int
  data_process :: int
  is_chunked :: bool

datatype http_auth_type = HTTP_AUTH_TYPE_NONE | HTTP_AUTH_TYPE_BASIC | HTTP_AUTH_TYPE_DIGEST

record http_auth_data =
  a_method :: "bytes option"
  a_algorithm :: "bytes option"
  a_uri :: "bytes option"
  a_realm :: "bytes option"
  a_nonce :: "bytes option"
  a_qop :: "bytes option"
  a_opaque :: "bytes option"
  a_cnonce :: u64
  a_nc :: int

record ('p, 'w) http =
  h_req :: http_client
  h_res :: http_response
  h_parser :: 'p
  is_chunk_complete :: bool
  current_header_key :: "bytes option"
  current_header_value :: "bytes option"
  location :: "bytes option"
  auth_header :: "bytes option"
  user_buf :: bytes
  buffer_size_rx :: int
  timeout_ms :: int
  redirect_counter :: int
  max_redirection_count :: int
  disable_auto_redirect :: bool
  process_again :: bool
  h_scheme :: "bytes option"
  h_host :: "bytes option"
  h_port :: int
  h_username :: "bytes option"
  h_password :: "bytes option"
  auth_type :: http_auth_type
  auth_data :: "http_auth_data option"
  h_errno :: int
  h_allocs :: nat
  h_world :: 'w

text \<open>The fields found by \<open>http_parser_parse_url\<close>, each with its offset and length.\<close>

record parsed_url =
  uf_schema :: "nat \<times> nat"
  uf_host :: "nat \<times> nat"
  uf_port :: "nat \<times> nat"
  uf_path :: "nat \<times> nat"
  uf_query :: "nat \<times> nat"
  uf_userinfo :: "nat \<times> nat"

text \<open>\<open>transport_read net timeout n w\<close> gives the result, the bytes stored, the new value of \<open>errno\<close> if it is set, and the world.\<close>

record ('p, 'w) http_net =
  request_env :: http_env
  write_errno :: "nat \<Rightarrow> int"
  http_parser_init :: 'p
  http_parser_execute :: "bool \<Rightarrow> 'p \<Rightarrow> bytes \<Rightarrow> parser_event list \<times> 'p"
  http_should_keep_alive :: "'p \<Rightarrow> bool"
  http_parser_parse_url :: "bytes \<Rightarrow> parsed_url option"
  transport_read :: "int \<Rightarrow> int \<Rightarrow> 'w \<Rightarrow> int \<times> bytes \<times> int option \<times> 'w"
  transport_for :: "bytes option \<Rightarrow> bool"
  transport_connect :: "bytes option \<Rightarrow> int \<Rightarrow> int \<Rightarrow> 'w \<Rightarrow> int \<times> 'w"
  transport_connect_async :: "bytes option \<Rightarrow> int \<Rightarrow> int \<Rightarrow> 'w \<Rightarrow> int \<times> 'w"
  string_mem :: "nat \<Rightarrow> bool"
  MD5 :: "bytes \<Rightarrow> bytes"
  base64_encode :: "bytes \<Rightarrow> bytes"
  esp_random :: "'w \<Rightarrow> u32 \<times> 'w"

abbreviation (input) EAGAIN :: int where "EAGAIN \<equiv> 11"
abbreviation (input) ENOTCONN :: int where "ENOTCONN \<equiv> 128"
abbreviation (input) ESP_TLS_ERR_SSL_WANT_READ :: int where "ESP_TLS_ERR_SSL_WANT_READ \<equiv> - 0x6900"
abbreviation (input) HTTP_METHOD_HEAD :: nat where "HTTP_METHOD_HEAD \<equiv> 5"

abbreviation h_state :: "('p, 'w) http \<Rightarrow> http_state" where "h_state c \<equiv> hc_state (h_req c)"

definition set_res :: "(http_response \<Rightarrow> http_response) \<Rightarrow> ('p, 'w) http \<Rightarrow> ('p, 'w) http" where
  "set_res f c = c\<lparr>h_res := f (h_res c)\<rparr>"

definition set_http_state :: "http_state \<Rightarrow> ('p, 'w) http \<Rightarrow> ('p, 'w) http" where
  "set_http_state st c = c\<lparr>h_req := (h_req c)\<lparr>hc_state := st\<rparr>\<rparr>"

definition dispatch :: "http_event \<Rightarrow> ('p, 'w) http \<Rightarrow> ('p, 'w) http" where
  "dispatch ev c = c\<lparr>h_req := http_dispatch_event (h_req c) ev\<rparr>"

subsection \<open>The callbacks of the parser\<close>

definition append_client_string :: "('p, 'w) http_net \<Rightarrow> bytes option \<Rightarrow> bytes \<Rightarrow> ('p, 'w) http \<Rightarrow> (bytes option \<times> ('p, 'w) http) option" where
  "append_client_string net str at c =
    map_option (\<lambda>s. (s, c\<lparr>h_allocs := h_allocs c + 1\<rparr>))
      (http_utils_append_string (string_mem net (h_allocs c)) str (Some at) (int (length at)))"

definition http_on_message_begin :: "('p, 'w) http \<Rightarrow> ('p, 'w) http" where
  "http_on_message_begin c = (set_res (\<lambda>r. r\<lparr>is_chunked := False\<rparr>) c)\<lparr>is_chunk_complete := False\<rparr>"

definition http_on_header_event :: "('p, 'w) http \<Rightarrow> ('p, 'w) http" where
  "http_on_header_event c =
    (case (current_header_key c, current_header_value c) of
       (Some k, Some v) \<Rightarrow> (dispatch (HTTP_EVENT_ON_HEADER k v) c)\<lparr>current_header_key := None, current_header_value := None\<rparr>
     | _ \<Rightarrow> c)"

definition http_on_header_field :: "('p, 'w) http_net \<Rightarrow> bytes \<Rightarrow> ('p, 'w) http \<Rightarrow> ('p, 'w) http option" where
  "http_on_header_field net at c =
    (let c = http_on_header_event c in
     map_option (\<lambda>(s, c). c\<lparr>current_header_key := s\<rparr>) (append_client_string net (current_header_key c) at c))"

text \<open>\<open>memcmp (at, "chunked", length) == 0\<close> looks at as many characters as the value has; the terminator of the constant is
  the eighth, and a value has no such character.\<close>

definition memcmp_chunked :: "bytes \<Rightarrow> bool" where
  "memcmp_chunked at \<longleftrightarrow> at = take (length at) (cstr ''chunked'')"

definition http_on_header_value :: "('p, 'w) http_net \<Rightarrow> bytes \<Rightarrow> ('p, 'w) http \<Rightarrow> ('p, 'w) http option" where
  "http_on_header_value net at c =
    (case current_header_key c of
       None \<Rightarrow> Some c
     | Some key \<Rightarrow>
       do { c \<leftarrow> (if strcaseeq key (cstr ''Location'')
                 then map_option (\<lambda>(s, c). c\<lparr>location := s\<rparr>) (append_client_string net (location c) at c)
                 else if strcaseeq key (cstr ''Transfer-Encoding'') \<and> memcmp_chunked at
                 then Some (set_res (\<lambda>r. r\<lparr>is_chunked := True\<rparr>) c)
                 else if strcaseeq key (cstr ''WWW-Authenticate'')
                 then map_option (\<lambda>(s, c). c\<lparr>auth_header := s\<rparr>) (append_client_string net (auth_header c) at c)
                 else Some c);
            map_option (\<lambda>(s, c). c\<lparr>current_header_value := s\<rparr>) (append_client_string net (current_header_value c) at c) })"

text \<open>The content length of the parser has 64 bits, that of the client is an \<open>int\<close>.\<close>

definition http_on_headers_complete :: "int \<Rightarrow> int \<Rightarrow> u64 \<Rightarrow> ('p, 'w) http \<Rightarrow> ('p, 'w) http" where
  "http_on_headers_complete status nread len c =
    set_http_state HTTP_STATE_RES_COMPLETE_HEADER
      (set_res (\<lambda>r. r\<lparr>status_code := status, data_offset := nread, content_length := sint (ucast len :: u32), data_process := 0\<rparr>)
        (http_on_header_event c))"

definition http_on_body :: "nat \<Rightarrow> nat \<Rightarrow> ('p, 'w) http \<Rightarrow> ('p, 'w) http" where
  "http_on_body pos len c =
    (let d = take len (drop pos (res_data (h_res c)));
         c = set_res (\<lambda>r. r\<lparr>raw_data := pos\<rparr>) c;
         c = (case output_ptr (h_res c) of
                None \<Rightarrow> c
              | Some out \<Rightarrow> (set_res (\<lambda>r. r\<lparr>output_ptr := Some (out + len)\<rparr>) c)\<lparr>user_buf := mem_write out d (user_buf c)\<rparr>)
     in dispatch (HTTP_EVENT_ON_DATA d)
          (set_res (\<lambda>r. r\<lparr>data_process := data_process r + int len, raw_len := raw_len r + int len\<rparr>) c))"

definition http_on_message_complete :: "('p, 'w) http \<Rightarrow> ('p, 'w) http" where
  "http_on_message_complete c = c\<lparr>is_chunk_complete := True\<rparr>"

fun callback :: "('p, 'w) http_net \<Rightarrow> parser_event \<Rightarrow> ('p, 'w) http \<Rightarrow> ('p, 'w) http option" where
  "callback net On_message_begin c = Some (http_on_message_begin c)"
| "callback net (On_url at) c = Some c"
| "callback net (On_status at) c = Some c"
| "callback net (On_header_field at) c = http_on_header_field net at c"
| "callback net (On_header_value at) c = http_on_header_value net at c"
| "callback net (On_headers_complete status nread len) c = Some (http_on_headers_complete status nread len c)"
| "callback net (On_body pos len) c = Some (http_on_body pos len c)"
| "callback net On_message_complete c = Some (http_on_message_complete c)"
| "callback net On_chunk_complete c = Some c"

fun callbacks :: "('p, 'w) http_net \<Rightarrow> parser_event list \<Rightarrow> ('p, 'w) http \<Rightarrow> ('p, 'w) http option" where
  "callbacks net [] c = Some c"
| "callbacks net (ev # evs) c = do { c \<leftarrow> callback net ev c; callbacks net evs c }"

text \<open>\<open>http_parser_execute\<close> on the first \<open>n\<close> bytes of the receive buffer.\<close>

definition run_parser :: "('p, 'w) http_net \<Rightarrow> nat \<Rightarrow> ('p, 'w) http \<Rightarrow> ('p, 'w) http option" where
  "run_parser net n c =
    (let (evs, p) = http_parser_execute net (hc_method (h_req c) = HTTP_METHOD_HEAD) (h_parser c) (take n (res_data (h_res c)))
     in callbacks net evs (c\<lparr>h_parser := p\<rparr>))"

subsection \<open>Reading\<close>

definition read_transport :: "('p, 'w) http_net \<Rightarrow> int \<Rightarrow> ('p, 'w) http \<Rightarrow> int \<times> ('p, 'w) http" where
  "read_transport net n c =
    (let (r, bs, e, w) = transport_read net (timeout_ms c) n (h_world c);
         c = set_res (\<lambda>x. x\<lparr>res_data := mem_write 0 (take (nat r) bs) (res_data x)\<rparr>) c
     in (r, c\<lparr>h_errno := (case e of None \<Rightarrow> h_errno c | Some e \<Rightarrow> e), h_world := w\<rparr>))"

definition esp_http_client_get_data :: "('p, 'w) http_net \<Rightarrow> ('p, 'w) http \<Rightarrow> (int \<times> ('p, 'w) http) option" where
  "esp_http_client_get_data net c =
    (if state_num (h_state c) < state_num HTTP_STATE_RES_COMPLETE_HEADER then Some (- 1, c)
     else if hc_method (h_req c) = HTTP_METHOD_HEAD then Some (0, c)
     else
       let (rlen, c) = read_transport net (buffer_size_rx c) c in
       if rlen \<ge> 0 then map_option (\<lambda>c. (rlen, c)) (run_parser net (nat rlen) c) else Some (rlen, c))"

definition esp_http_client_is_complete_data_received :: "('p, 'w) http \<Rightarrow> bool" where
  "esp_http_client_is_complete_data_received c \<longleftrightarrow>
    (if is_chunked (h_res c) then is_chunk_complete c else data_process (h_res c) = content_length (h_res c))"

definition is_data_remain :: "('p, 'w) http \<Rightarrow> bool" where
  "is_data_remain c \<longleftrightarrow>
    (if is_chunked (h_res c) then \<not> is_chunk_complete c else data_process (h_res c) < content_length (h_res c))"

text \<open>The end of the loop when the transport has no data: \<open>ridx\<close> bytes have been read before.\<close>

definition read_stopped :: "('p, 'w) http_net \<Rightarrow> int \<Rightarrow> int \<Rightarrow> ('p, 'w) http \<Rightarrow> (int \<times> ('p, 'w) http) option" where
  "read_stopped net rlen ridx c =
    do { c \<leftarrow> (if rlen = - 1 \<and> h_errno c = ENOTCONN \<and> is_chunked (h_res c) then run_parser net 0 c else Some c);
         Some (if rlen = ESP_TLS_ERR_SSL_WANT_READ \<or> h_errno c = EAGAIN then (ridx, c)
               else if rlen < 0 \<and> ridx = 0 \<and> \<not> esp_http_client_is_complete_data_received c then (- 1, c)
               else (ridx, c)) }"

partial_function (option) read_loop ::
  "('p, 'w) http_net \<Rightarrow> int \<Rightarrow> int \<Rightarrow> ('p, 'w) http \<Rightarrow> (int \<times> ('p, 'w) http) option" where
  [code]: "read_loop net need_read ridx c =
    (if need_read > 0 \<and> is_data_remain c then
       let (rlen, c) = read_transport net (min need_read (buffer_size_rx c)) (c\<lparr>h_errno := 0\<rparr>) in
       if rlen \<le> 0 then read_stopped net rlen ridx c
       else do { c \<leftarrow> run_parser net (nat rlen) (set_res (\<lambda>r. r\<lparr>output_ptr := Some (nat ridx)\<rparr>) c);
                 read_loop net (need_read - raw_len (h_res c)) (ridx + raw_len (h_res c))
                   (set_res (\<lambda>r. r\<lparr>raw_len := 0, output_ptr := None\<rparr>) c) }
     else Some (ridx, c))"

text \<open>The part of the body that came with the headers is handed out first.  The result is the length, the contents of the
  caller's buffer and the client.\<close>

definition take_raw :: "int \<Rightarrow> ('p, 'w) http \<Rightarrow> int \<times> ('p, 'w) http" where
  "take_raw len c =
    (let r = h_res c in
     if raw_len r \<noteq> 0 then
       let k = min (raw_len r) len in
       (k, (set_res (\<lambda>r. r\<lparr>raw_len := raw_len r - k, raw_data := raw_data r + nat k\<rparr>) c)
             \<lparr>user_buf := mem_write 0 (take (nat k) (drop (raw_data r) (res_data r))) (user_buf c)\<rparr>)
     else (0, c))"

definition esp_http_client_read ::
  "('p, 'w) http_net \<Rightarrow> bytes \<Rightarrow> nat \<Rightarrow> ('p, 'w) http \<Rightarrow> (int \<times> bytes \<times> ('p, 'w) http) option" where
  "esp_http_client_read net buffer len c =
    (let (ridx, c) = take_raw (int len) (c\<lparr>user_buf := buffer\<rparr>) in
     map_option (\<lambda>(r, c). (r, user_buf c, c)) (read_loop net (int len - ridx) ridx c))"

partial_function (option) read_response_loop ::
  "('p, 'w) http_net \<Rightarrow> bytes \<Rightarrow> nat \<Rightarrow> nat \<Rightarrow> ('p, 'w) http \<Rightarrow> (int \<times> bytes \<times> ('p, 'w) http) option" where
  [code]: "read_response_loop net buffer read_len len c =
    (if read_len < len then
       do { (data_read, b, c) \<leftarrow> esp_http_client_read net (drop read_len buffer) (len - read_len) c;
            if data_read \<le> 0 then Some (int read_len, take read_len buffer @ b, c)
            else read_response_loop net (take read_len buffer @ b) (read_len + nat data_read) len c }
     else Some (int read_len, buffer, c))"

definition esp_http_client_read_response ::
  "('p, 'w) http_net \<Rightarrow> bytes \<Rightarrow> nat \<Rightarrow> ('p, 'w) http \<Rightarrow> (int \<times> bytes \<times> ('p, 'w) http) option" where
  "esp_http_client_read_response net buffer len c = read_response_loop net buffer 0 len c"

text \<open>The loop of \<open>esp_http_client_fetch_headers\<close>: \<open>False\<close> when the transport has no data.\<close>

partial_function (option) fetch_loop :: "('p, 'w) http_net \<Rightarrow> ('p, 'w) http \<Rightarrow> (bool \<times> ('p, 'w) http) option" where
  [code]: "fetch_loop net c =
    (if state_num (h_state c) < state_num HTTP_STATE_RES_COMPLETE_HEADER then
       let (n, c) = read_transport net (buffer_size_rx c) c; c = set_res (\<lambda>r. r\<lparr>res_len := n\<rparr>) c in
       if n \<le> 0 then Some (False, c)
       else do { c \<leftarrow> run_parser net (nat n) c; fetch_loop net c }
     else Some (True, c))"

definition esp_http_client_fetch_headers :: "('p, 'w) http_net \<Rightarrow> ('p, 'w) http \<Rightarrow> (int \<times> ('p, 'w) http) option" where
  "esp_http_client_fetch_headers net c =
    (if state_num (h_state c) < state_num HTTP_STATE_REQ_COMPLETE_HEADER then Some (- 1, c)
     else
       do { (ok, c) \<leftarrow> fetch_loop net (set_res (\<lambda>r. r\<lparr>status_code := - 1\<rparr>) (set_http_state HTTP_STATE_REQ_COMPLETE_DATA c));
            Some (if \<not> ok then (- 1, c)
                  else if content_length (h_res c) \<le> 0 then (0, set_res (\<lambda>r. r\<lparr>is_chunked := True\<rparr>) c)
                  else (content_length (h_res c), c)) })"

definition esp_http_client_get_status_code :: "('p, 'w) http \<Rightarrow> int" where
  "esp_http_client_get_status_code c = status_code (h_res c)"

definition esp_http_client_get_content_length :: "('p, 'w) http \<Rightarrow> int" where
  "esp_http_client_get_content_length c = content_length (h_res c)"

definition esp_http_client_is_chunked_response :: "('p, 'w) http \<Rightarrow> bool" where
  "esp_http_client_is_chunked_response c = is_chunked (h_res c)"

end
