(* ===== verification/Http_Perform.thy ===== *)
theory Http_Perform
  imports Http_Response
begin

text \<open>
  A whole exchange of the HTTP client (\<^verbatim>\<open>common/esp_http_client/esp_http_client.c\<close>): the URL, the connection, authentication
  (with \<^verbatim>\<open>lib/http_auth.c\<close>), redirection, and \<open>esp_http_client_perform\<close>, which goes through all states of the client.  As in
  \<^verbatim>\<open>Http_Response\<close>, \<open>None\<close> means that the device stops or that a loop does not end.  The configuration is that of
  \<^verbatim>\<open>sdkconfig\<close>: HTTPS is enabled, basic authentication is not.
\<close>

abbreviation (input) ESP_ERR_NO_MEM :: int where "ESP_ERR_NO_MEM \<equiv> 0x101"
abbreviation (input) ESP_ERR_INVALID_ARG :: int where "ESP_ERR_INVALID_ARG \<equiv> 0x102"
abbreviation (input) ESP_ERR_INVALID_STATE :: int where "ESP_ERR_INVALID_STATE \<equiv> 0x103"
abbreviation (input) ESP_ERR_HTTP_MAX_REDIRECT :: int where "ESP_ERR_HTTP_MAX_REDIRECT \<equiv> 0x7001"
abbreviation (input) ESP_ERR_HTTP_CONNECT :: int where "ESP_ERR_HTTP_CONNECT \<equiv> 0x7002"
abbreviation (input) ESP_ERR_HTTP_FETCH_HEADER :: int where "ESP_ERR_HTTP_FETCH_HEADER \<equiv> 0x7004"
abbreviation (input) ESP_ERR_HTTP_INVALID_TRANSPORT :: int where "ESP_ERR_HTTP_INVALID_TRANSPORT \<equiv> 0x7005"
abbreviation (input) ESP_ERR_HTTP_CONNECTING :: int where "ESP_ERR_HTTP_CONNECTING \<equiv> 0x7006"
abbreviation (input) ESP_ERR_HTTP_EAGAIN :: int where "ESP_ERR_HTTP_EAGAIN \<equiv> 0x7007"

subsection \<open>Authentication\<close>

text \<open>\<open>printf\<close> with \<^verbatim>\<open>%02x\<close>, \<^verbatim>\<open>%08x\<close>, \<^verbatim>\<open>%016llx\<close> of a number of that many digits at most, and with \<^verbatim>\<open>%s\<close> of a pointer that may be null.\<close>

definition hex_digits :: "nat \<Rightarrow> nat \<Rightarrow> bytes" where
  "hex_digits k n = map (\<lambda>i. cstr ''0123456789abcdef'' ! (n div 16 ^ (k - 1 - i) mod 16)) [0..<k]"

definition fmt_s :: "bytes option \<Rightarrow> bytes" where
  "fmt_s s = (case s of None \<Rightarrow> cstr ''(null)'' | Some t \<Rightarrow> t)"

definition quoted :: "bytes \<Rightarrow> bytes" where
  "quoted s = [34] @ s @ [34]"

text \<open>The number in front counts the allocations.  Without memory \<open>vasprintf\<close> leaves the pointer \<open>buf\<close> uninitialised.\<close>

definition md5_printf :: "('p, 'w) http_net \<Rightarrow> nat \<Rightarrow> bytes \<Rightarrow> (nat \<times> bytes) option" where
  "md5_printf net k txt =
    (if string_mem net k then Some (k + 1, concat (map (\<lambda>b. hex_digits 2 (unat b)) (take 16 (MD5 net txt)))) else None)"

definition digest_response :: "('p, 'w) http_net \<Rightarrow> nat \<Rightarrow> bytes \<Rightarrow> bytes \<Rightarrow> bytes \<Rightarrow> bytes \<Rightarrow> bytes \<Rightarrow> http_auth_data \<Rightarrow> (nat \<times> bytes) option" where
  "digest_response net k u p nonce uri realm ad =
    do { (k, ha1) \<leftarrow> md5_printf net k (u @ [58] @ realm @ [58] @ p);
         algorithm \<leftarrow> a_algorithm ad;
         (k, ha1) \<leftarrow> (if strcaseeq algorithm (cstr ''md5-sess'')
                      then md5_printf net k (ha1 @ [58] @ nonce @ [58] @ hex_digits 16 (unat (a_cnonce ad)))
                      else Some (k, ha1));
         (k, ha2) \<leftarrow> md5_printf net k (fmt_s (a_method ad) @ [58] @ uri);
         (case a_qop ad of
            None \<Rightarrow> md5_printf net k (ha1 @ [58] @ nonce @ [58] @ ha2)
          | Some qop \<Rightarrow>
              do { (k, ha2) \<leftarrow> (if strcaseeq qop (cstr ''auth-int'') then md5_printf net k (ha2 @ [58] @ cstr ''entity'') else Some (k, ha2));
                   md5_printf net k (ha1 @ [58] @ nonce @ [58] @ hex_digits 8 (nat (a_nc ad mod 2 ^ 32)) @ [58]
                     @ hex_digits 16 (unat (a_cnonce ad)) @ [58] @ qop @ [58] @ ha2) }) }"

definition digest_header :: "bytes \<Rightarrow> bytes \<Rightarrow> bytes \<Rightarrow> bytes \<Rightarrow> bytes \<Rightarrow> http_auth_data \<Rightarrow> bytes" where
  "digest_header u realm nonce uri digest ad =
    cstr ''Digest username='' @ quoted u @ cstr '', realm='' @ quoted realm @ cstr '', nonce='' @ quoted nonce
      @ cstr '', uri='' @ quoted uri @ cstr '', algorithm='' @ quoted (cstr ''MD5'') @ cstr '', response='' @ quoted digest
      @ cstr '', qop='' @ fmt_s (a_qop ad) @ cstr '', nc='' @ hex_digits 8 (nat (a_nc ad mod 2 ^ 32))
      @ cstr '', cnonce='' @ quoted (hex_digits 16 (unat (a_cnonce ad)))"

text \<open>The result is the number of allocations and the string, null when something is missing or the heap is full.\<close>

definition http_auth_digest ::
  "('p, 'w) http_net \<Rightarrow> nat \<Rightarrow> bytes option \<Rightarrow> bytes option \<Rightarrow> http_auth_data \<Rightarrow> (nat \<times> bytes option) option" where
  "http_auth_digest net k username password ad =
    (case (username, password, a_nonce ad, a_uri ad, a_realm ad) of
       (Some u, Some p, Some nonce, Some uri, Some realm) \<Rightarrow>
         if \<not> string_mem net k then Some (k + 1, None)
         else if \<not> string_mem net (k + 1) then Some (k + 2, None)
         else if \<not> string_mem net (k + 2) then Some (k + 3, None)
         else
           do { (k, digest) \<leftarrow> digest_response net (k + 3) u p nonce uri realm ad;
                let auth_str = (if string_mem net k then Some (digest_header u realm nonce uri digest ad) else None) in
                Some (case a_opaque ad of
                    None \<Rightarrow> (k + 1, auth_str)
                  | Some opq \<Rightarrow>
                      (k + 2, if string_mem net (k + 1) then Some (fmt_s auth_str @ cstr '', opaque='' @ quoted opq) else None)) }
     | _ \<Rightarrow> Some (k, None))"

definition http_auth_basic :: "('p, 'w) http_net \<Rightarrow> nat \<Rightarrow> bytes option \<Rightarrow> bytes option \<Rightarrow> nat \<times> bytes option" where
  "http_auth_basic net k username password =
    (if \<not> string_mem net k then (k + 1, None)
     else if \<not> string_mem net (k + 1) then (k + 2, None)
     else (k + 2, Some (cstr ''Basic '' @ base64_encode net (fmt_s username @ [58] @ fmt_s password))))"

subsection \<open>Helpers on the client\<close>

text \<open>The functions of the sending half act on \<open>h_req\<close>; a write may set \<open>errno\<close>.\<close>

definition with_request :: "('p, 'w) http_net \<Rightarrow> http_client \<Rightarrow> ('p, 'w) http \<Rightarrow> ('p, 'w) http" where
  "with_request net r c =
    c\<lparr>h_req := r, h_errno := (if hc_writes r > hc_writes (h_req c) then write_errno net (hc_writes r - 1) else h_errno c)\<rparr>"

definition close_client :: "('p, 'w) http_net \<Rightarrow> ('p, 'w) http \<Rightarrow> ('p, 'w) http" where
  "close_client net c = c\<lparr>h_req := snd (esp_http_client_close (request_env net) (h_req c))\<rparr>"

definition set_client_header :: "('p, 'w) http_net \<Rightarrow> bytes \<Rightarrow> bytes option \<Rightarrow> ('p, 'w) http \<Rightarrow> (http_err \<times> ('p, 'w) http) option" where
  "set_client_header net key val c =
    map_option (\<lambda>(e, r). (e, c\<lparr>h_req := r\<rparr>)) (esp_http_client_set_header (request_env net) (h_req c) (Some key) val)"

text \<open>\<open>http_utils_assign_string\<close> of a non-null string: the device stops when there is no memory.\<close>

definition assign_string :: "('p, 'w) http_net \<Rightarrow> bytes \<Rightarrow> ('p, 'w) http \<Rightarrow> (bytes \<times> ('p, 'w) http) option" where
  "assign_string net s c = (if string_mem net (h_allocs c) then Some (s, c\<lparr>h_allocs := h_allocs c + 1\<rparr>) else None)"

subsection \<open>The URL\<close>

text \<open>\<open>strtol\<close> on the digits of the port.\<close>

definition port_number :: "bytes \<Rightarrow> int" where
  "port_number s = int (fold (\<lambda>d n. 10 * n + (unat d - 48)) (takeWhile (\<lambda>d. 48 \<le> d \<and> d \<le> 57) s) 0)"

definition url_field :: "bytes \<Rightarrow> nat \<times> nat \<Rightarrow> bytes" where
  "url_field url f = take (snd f) (drop (fst f) url)"

text \<open>The host: the copy of the old one is null when there is no memory; a new host closes the connection.\<close>

definition set_url_host :: "('p, 'w) http_net \<Rightarrow> bytes \<Rightarrow> parsed_url \<Rightarrow> ('p, 'w) http \<Rightarrow> (bool \<times> ('p, 'w) http) option" where
  "set_url_host net url purl c =
    (let old_host = (if string_mem net (h_allocs c) then h_host c else None);
         c = (if h_host c \<noteq> None then c\<lparr>h_allocs := h_allocs c + 1\<rparr> else c) in
     do { c \<leftarrow> (if snd (uf_host purl) > 0
               then map_option (\<lambda>(s, c). c\<lparr>h_host := Some s\<rparr>) (assign_string net (url_field url (uf_host purl)) c)
               else Some c);
          (case (old_host, h_host c) of
             (Some old, Some new) \<Rightarrow>
               if \<not> strcaseeq old new then
                 do { (e, c) \<leftarrow> set_client_header net (cstr ''Host'') (Some new) c;
                      Some (if e \<noteq> HTTP_OK then (False, c) else (True, close_client net c)) }
               else Some (True, c)
           | _ \<Rightarrow> Some (True, c)) })"

definition set_url_port :: "('p, 'w) http_net \<Rightarrow> bytes \<Rightarrow> parsed_url \<Rightarrow> ('p, 'w) http \<Rightarrow> ('p, 'w) http option" where
  "set_url_port net url purl c =
    (let old_port = h_port c in
     do { c \<leftarrow> (if snd (uf_schema purl) > 0 then
                 do { (s, c) \<leftarrow> assign_string net (url_field url (uf_schema purl)) c;
                      Some (if strcaseeq s (cstr ''http'') then c\<lparr>h_scheme := Some s, h_port := 80\<rparr>
                            else if strcaseeq s (cstr ''https'') then c\<lparr>h_scheme := Some s, h_port := 443\<rparr>
                            else c\<lparr>h_scheme := Some s\<rparr>) }
               else Some c);
          let c = (if snd (uf_port purl) > 0 then c\<lparr>h_port := port_number (drop (fst (uf_port purl)) url)\<rparr> else c) in
          Some (if old_port \<noteq> h_port c then close_client net c else c) })"

definition set_url_user :: "('p, 'w) http_net \<Rightarrow> bytes \<Rightarrow> parsed_url \<Rightarrow> ('p, 'w) http \<Rightarrow> ('p, 'w) http option" where
  "set_url_user net url purl c =
    (if snd (uf_userinfo purl) > 0 then
       do { (user_info, c) \<leftarrow> assign_string net (url_field url (uf_userinfo purl)) c;
            let username = takeWhile (\<lambda>b. b \<noteq> 58) user_info in
            do { c \<leftarrow> (if 58 \<in> set user_info
                      then map_option (\<lambda>(s, c). c\<lparr>h_password := Some s\<rparr>) (assign_string net (drop (length username + 1) user_info) c)
                      else Some c);
                 map_option (\<lambda>(s, c). c\<lparr>h_username := Some s\<rparr>) (assign_string net username c) } }
     else Some c)"

definition set_url_path :: "('p, 'w) http_net \<Rightarrow> bytes \<Rightarrow> parsed_url \<Rightarrow> ('p, 'w) http \<Rightarrow> ('p, 'w) http option" where
  "set_url_path net url purl c =
    do { (path, c) \<leftarrow> assign_string net (if snd (uf_path purl) > 0 then url_field url (uf_path purl) else cstr ''/'') c;
         let c = c\<lparr>h_req := (h_req c)\<lparr>hc_path := path\<rparr>\<rparr> in
         if snd (uf_query purl) > 0
         then map_option (\<lambda>(q, c). c\<lparr>h_req := (h_req c)\<lparr>hc_query := Some q\<rparr>\<rparr>) (assign_string net (url_field url (uf_query purl)) c)
         else Some (c\<lparr>h_req := (h_req c)\<lparr>hc_query := None\<rparr>\<rparr>) }"

definition esp_http_client_set_url :: "('p, 'w) http_net \<Rightarrow> bytes option \<Rightarrow> ('p, 'w) http \<Rightarrow> (int \<times> ('p, 'w) http) option" where
  "esp_http_client_set_url net url c =
    (case url of
       None \<Rightarrow> Some (ESP_ERR_INVALID_ARG, c)
     | Some url \<Rightarrow>
       (case http_parser_parse_url net url of
          None \<Rightarrow> Some (ESP_ERR_INVALID_ARG, c)
        | Some purl \<Rightarrow>
          do { (ok, c) \<leftarrow> set_url_host net url purl c;
               if \<not> ok then Some (ESP_ERR_NO_MEM, c)
               else
                 do { c \<leftarrow> set_url_port net url purl c;
                      c \<leftarrow> set_url_user net url purl c;
                      c \<leftarrow> set_url_path net url purl c;
                      Some (0, c) } }))"

definition esp_http_client_set_redirection :: "('p, 'w) http_net \<Rightarrow> ('p, 'w) http \<Rightarrow> (int \<times> ('p, 'w) http) option" where
  "esp_http_client_set_redirection net c =
    (if location c = None then Some (ESP_ERR_INVALID_ARG, c) else esp_http_client_set_url net (location c) c)"

definition esp_http_client_get_url :: "bytes \<Rightarrow> int \<Rightarrow> ('p, 'w) http \<Rightarrow> int \<times> bytes" where
  "esp_http_client_get_url url len c =
    (case (h_host c, h_scheme c) of
       (Some h, Some s) \<Rightarrow> (0, snprintf_at url 0 len (s @ cstr ''://'' @ h @ hc_path (h_req c)))
     | _ \<Rightarrow> (- 1, url))"

subsection \<open>The response code\<close>

definition no_auth_data :: http_auth_data where
  "no_auth_data = \<lparr>a_method = None, a_algorithm = None, a_uri = None, a_realm = None, a_nonce = None, a_qop = None,
     a_opaque = None, a_cnonce = 0, a_nc = 0\<rparr>"

definition clear_auth_data :: "('p, 'w) http \<Rightarrow> int \<times> ('p, 'w) http" where
  "clear_auth_data c = (if auth_data c = None then (- 1, c) else (0, c\<lparr>auth_data := Some no_auth_data\<rparr>))"

text \<open>One of the fields of the header: the device stops when there is no memory.\<close>

definition auth_field :: "('p, 'w) http_net \<Rightarrow> bytes \<Rightarrow> string \<Rightarrow> bytes \<Rightarrow> ('p, 'w) http \<Rightarrow> (bytes option \<times> ('p, 'w) http) option" where
  "auth_field net hdr start stop c =
    map_option (\<lambda>s. (s, c\<lparr>h_allocs := h_allocs c + 1\<rparr>))
      (http_utils_get_string_between (string_mem net (h_allocs c)) hdr (cstr start) stop)"

text \<open>The device stops when there is no structure to write to.\<close>

definition read_auth_data :: "('p, 'w) http_net \<Rightarrow> bytes \<Rightarrow> ('p, 'w) http \<Rightarrow> ('p, 'w) http option" where
  "read_auth_data net hdr c =
    (let meth = (if string_mem net (h_allocs c) then Some (HTTP_METHOD_MAPPING ! hc_method (h_req c)) else None);
         c = c\<lparr>h_allocs := h_allocs c + 1\<rparr> in
     do { ad \<leftarrow> auth_data c;
          (realm, c) \<leftarrow> auth_field net hdr ''realm=\"'' [34] c;
          (algorithm, c) \<leftarrow> auth_field net hdr ''algorithm='' [44] c;
          (qop, c) \<leftarrow> auth_field net hdr ''qop=\"'' [34] c;
          (nonce, c) \<leftarrow> auth_field net hdr ''nonce=\"'' [34] c;
          (opq, c) \<leftarrow> auth_field net hdr ''opaque=\"'' [34] c;
          Some (c\<lparr>auth_data := Some (ad\<lparr>a_method := meth, a_nc := 1, a_realm := realm, a_algorithm := algorithm,
                    a_qop := qop, a_nonce := nonce, a_opaque := opq\<rparr>), process_again := True\<rparr>) })"

definition esp_http_client_add_auth :: "('p, 'w) http_net \<Rightarrow> ('p, 'w) http \<Rightarrow> ('p, 'w) http option" where
  "esp_http_client_add_auth net c =
    (if h_state c \<noteq> HTTP_STATE_RES_COMPLETE_HEADER then Some c
     else case auth_header c of
       None \<Rightarrow> Some (c\<lparr>auth_type := HTTP_AUTH_TYPE_NONE\<rparr>)
     | Some hdr0 \<Rightarrow>
       let hdr = the (http_utils_trim_whitespace (Some hdr0));
           c = c\<lparr>auth_header := Some hdr, redirect_counter := redirect_counter c + 1\<rparr> in
       if http_utils_str_starts_with hdr (cstr ''Digest'') = 0
       then read_auth_data net hdr (snd (clear_auth_data (c\<lparr>auth_type := HTTP_AUTH_TYPE_DIGEST\<rparr>)))
       else Some (c\<lparr>auth_type := HTTP_AUTH_TYPE_NONE\<rparr>))"

definition esp_http_check_response :: "('p, 'w) http_net \<Rightarrow> ('p, 'w) http \<Rightarrow> (int \<times> ('p, 'w) http) option" where
  "esp_http_check_response net c =
    (let code = status_code (h_res c) in
     if 200 \<le> code \<and> code < 300 then Some (0, c)
     else if redirect_counter c \<ge> max_redirection_count c \<or> disable_auto_redirect c then Some (ESP_ERR_HTTP_MAX_REDIRECT, c)
     else if code = 301 \<or> code = 302 \<or> code = 307 then
       do { (_, c) \<leftarrow> esp_http_client_set_redirection net c;
            Some (0, c\<lparr>redirect_counter := redirect_counter c + 1, process_again := True\<rparr>) }
     else if code = 401 then map_option (\<lambda>c. (0, c)) (esp_http_client_add_auth net c)
     else Some (0, c))"

subsection \<open>Connecting\<close>

definition auth_response :: "('p, 'w) http_net \<Rightarrow> ('p, 'w) http \<Rightarrow> (bytes option \<times> ('p, 'w) http) option" where
  "auth_response net c =
    (case (auth_type c, auth_data c) of
       (HTTP_AUTH_TYPE_BASIC, _) \<Rightarrow>
         let (k, s) = http_auth_basic net (h_allocs c) (h_username c) (h_password c) in Some (s, c\<lparr>h_allocs := k\<rparr>)
     | (HTTP_AUTH_TYPE_DIGEST, Some ad) \<Rightarrow>
         let (r1, w) = esp_random net (h_world c); (r2, w) = esp_random net w;
             ad = ad\<lparr>a_uri := Some (hc_path (h_req c)), a_cnonce := push_bit 32 (ucast r1) + ucast r2\<rparr> in
         do { (k, s) \<leftarrow> http_auth_digest net (h_allocs c) (h_username c) (h_password c) ad;
              Some (s, c\<lparr>h_allocs := k, h_world := w, auth_data := Some (ad\<lparr>a_nc := a_nc ad + 1\<rparr>)\<rparr>) }
     | _ \<Rightarrow> Some (None, c))"

definition esp_http_client_prepare :: "('p, 'w) http_net \<Rightarrow> ('p, 'w) http \<Rightarrow> ('p, 'w) http option" where
  "esp_http_client_prepare net c0 =
    (let c = set_res (\<lambda>r. r\<lparr>data_process := 0\<rparr>)
               (c0\<lparr>process_again := False, h_req := (h_req c0)\<lparr>first_line_prepared := False\<rparr>, h_parser := http_parser_init net\<rparr>) in
     if h_username c = None then Some c
     else
       do { (s, c) \<leftarrow> auth_response net c;
            if s = None then Some c
            else map_option snd (set_client_header net (cstr ''Authorization'') s c) })"

definition esp_http_client_connect :: "('p, 'w) http_net \<Rightarrow> ('p, 'w) http \<Rightarrow> (int \<times> ('p, 'w) http) option" where
  "esp_http_client_connect net c =
    (if h_state c = HTTP_STATE_UNINIT then Some (ESP_ERR_INVALID_STATE, c)
     else
       do { c \<leftarrow> esp_http_client_prepare net c;
            if state_num (h_state c) < state_num HTTP_STATE_CONNECTED then
              if \<not> transport_for net (h_scheme c) then Some (ESP_ERR_HTTP_INVALID_TRANSPORT, c)
              else
                let (ret, w) = (if is_async (h_req c) then transport_connect_async net else transport_connect net)
                                 (h_host c) (h_port c) (timeout_ms c) (h_world c);
                    c = c\<lparr>h_world := w\<rparr> in
                if \<not> is_async (h_req c) \<and> ret < 0 then Some (ESP_ERR_HTTP_CONNECT, c)
                else if is_async (h_req c) \<and> ret = - 1 then
                  Some (if strcaseeq (fmt_s (h_scheme c)) (cstr ''http'') then ESP_ERR_INVALID_ARG else ESP_ERR_HTTP_CONNECT, c)
                else if is_async (h_req c) \<and> ret = 0 then Some (ESP_ERR_HTTP_CONNECTING, c)
                else Some (0, dispatch HTTP_EVENT_ON_CONNECTED (set_http_state HTTP_STATE_CONNECTED c))
            else Some (0, c) })"

definition request_send :: "('p, 'w) http_net \<Rightarrow> int \<Rightarrow> ('p, 'w) http \<Rightarrow> (int \<times> ('p, 'w) http) option" where
  "request_send net write_len c =
    map_option (\<lambda>(e, r). (e, with_request net r c)) (esp_http_client_request_send (request_env net) (h_req c) write_len)"

definition esp_http_client_open :: "('p, 'w) http_net \<Rightarrow> int \<Rightarrow> ('p, 'w) http \<Rightarrow> (int \<times> ('p, 'w) http) option" where
  "esp_http_client_open net write_len c =
    do { (err, c) \<leftarrow> esp_http_client_connect net (c\<lparr>h_req := (h_req c)\<lparr>post_len := write_len\<rparr>\<rparr>);
         if err \<noteq> 0 then Some (err, c) else request_send net write_len c }"

subsection \<open>The whole exchange\<close>

text \<open>The two loops that take in the body: \<open>True\<close> when the client is asynchronous and has to be called again.\<close>

definition body_missing :: "bool \<Rightarrow> ('p, 'w) http \<Rightarrow> bool" where
  "body_missing chunked c \<longleftrightarrow>
    (if chunked then is_chunked (h_res c) \<and> \<not> is_chunk_complete c else data_process (h_res c) < content_length (h_res c))"

partial_function (option) body_loop :: "('p, 'w) http_net \<Rightarrow> bool \<Rightarrow> ('p, 'w) http \<Rightarrow> (bool \<times> ('p, 'w) http) option" where
  [code]: "body_loop net chunked c =
    (if body_missing chunked c then
       do { (n, c) \<leftarrow> esp_http_client_get_data net c;
            if n \<le> 0 then Some (is_async (h_req c) \<and> h_errno c = EAGAIN, c) else body_loop net chunked c }
     else Some (False, c))"

text \<open>Each stage falls through to the next; \<open>Some err\<close> returns from \<open>esp_http_client_perform\<close>, \<open>None\<close> leaves the \<open>switch\<close>.\<close>

definition again :: "int \<Rightarrow> ('p, 'w) http \<Rightarrow> int option \<times> ('p, 'w) http" where
  "again err c = (Some (if is_async (h_req c) \<and> h_errno c = EAGAIN then ESP_ERR_HTTP_EAGAIN else err), c)"

definition finish_response :: "('p, 'w) http_net \<Rightarrow> ('p, 'w) http \<Rightarrow> ('p, 'w) http" where
  "finish_response net c =
    (let c = set_res (\<lambda>r. r\<lparr>raw_len := 0\<rparr>) (dispatch HTTP_EVENT_ON_FINISH c) in
     if \<not> http_should_keep_alive net (h_parser c) then close_client net c
     else if state_num (h_state c) > state_num HTTP_STATE_CONNECTED
     then c\<lparr>h_req := (h_req c)\<lparr>hc_state := HTTP_STATE_CONNECTED, first_line_prepared := False\<rparr>\<rparr>
     else c)"

definition stage_response :: "('p, 'w) http_net \<Rightarrow> ('p, 'w) http \<Rightarrow> (int option \<times> ('p, 'w) http) option" where
  "stage_response net c =
    do { (err, c) \<leftarrow> esp_http_check_response net c;
         if err \<noteq> 0 then Some (Some err, c)
         else
           do { (eagain, c) \<leftarrow> body_loop net True c;
                if eagain then Some (Some ESP_ERR_HTTP_EAGAIN, c)
                else
                  do { (eagain, c) \<leftarrow> body_loop net False c;
                       Some (if eagain then (Some ESP_ERR_HTTP_EAGAIN, c) else (None, finish_response net c)) } } }"

definition stage_fetch :: "('p, 'w) http_net \<Rightarrow> ('p, 'w) http \<Rightarrow> (int option \<times> ('p, 'w) http) option" where
  "stage_fetch net c =
    do { (n, c) \<leftarrow> esp_http_client_fetch_headers net c;
         if n < 0 then Some (again ESP_ERR_HTTP_FETCH_HEADER c) else stage_response net c }"

definition stage_data :: "('p, 'w) http_net \<Rightarrow> ('p, 'w) http \<Rightarrow> (int option \<times> ('p, 'w) http) option" where
  "stage_data net c =
    (let (err, r) = esp_http_client_send_post_data (request_env net) (h_req c); c = with_request net r c in
     if err \<noteq> 0 then Some (again err c) else stage_fetch net c)"

definition stage_send :: "('p, 'w) http_net \<Rightarrow> ('p, 'w) http \<Rightarrow> (int option \<times> ('p, 'w) http) option" where
  "stage_send net c =
    do { (err, c) \<leftarrow> request_send net (post_len (h_req c)) c;
         if err \<noteq> 0 then Some (again err c) else stage_data net c }"

definition stage_connect :: "('p, 'w) http_net \<Rightarrow> ('p, 'w) http \<Rightarrow> (int option \<times> ('p, 'w) http) option" where
  "stage_connect net c =
    do { (err, c) \<leftarrow> esp_http_client_connect net c;
         if err \<noteq> 0
         then Some (Some (if is_async (h_req c) \<and> err = ESP_ERR_HTTP_CONNECTING then ESP_ERR_HTTP_EAGAIN else err), c)
         else stage_send net c }"

definition perform_pass :: "('p, 'w) http_net \<Rightarrow> ('p, 'w) http \<Rightarrow> (int option \<times> ('p, 'w) http) option" where
  "perform_pass net c =
    (case h_state c of
       HTTP_STATE_INIT \<Rightarrow> stage_connect net c
     | HTTP_STATE_CONNECTED \<Rightarrow> stage_send net c
     | HTTP_STATE_REQ_COMPLETE_HEADER \<Rightarrow> stage_data net c
     | HTTP_STATE_REQ_COMPLETE_DATA \<Rightarrow> stage_fetch net c
     | HTTP_STATE_RES_COMPLETE_HEADER \<Rightarrow> stage_response net c
     | _ \<Rightarrow> Some (None, c))"

partial_function (option) esp_http_client_perform :: "('p, 'w) http_net \<Rightarrow> ('p, 'w) http \<Rightarrow> (int \<times> ('p, 'w) http) option" where
  [code]: "esp_http_client_perform net c =
    do { c \<leftarrow> (if process_again c then esp_http_client_prepare net c else Some c);
         (r, c) \<leftarrow> perform_pass net c;
         (case r of
            Some err \<Rightarrow> Some (err, c)
          | None \<Rightarrow> if process_again c then esp_http_client_perform net c else Some (0, c)) }"

end
