(* ===== verification/Http_Init.thy ===== *)
theory Http_Init
  imports Http_Perform
begin

text \<open>
  Creating and configuring an HTTP client (\<^verbatim>\<open>common/esp_http_client/esp_http_client.c\<close>): \<open>esp_http_client_init\<close>, \<open>_set_config\<close>, the
  credentials and \<open>esp_http_client_cleanup\<close>.  The allocation of the structure and the creation of the transports
  are one condition of the environment (\<open>ready\<close>); certificates and keep-alive settings are handed to the transports and have no
  effect on the client.  \<open>strdup\<close> of a string that is there gives null when the heap is full.
\<close>

record http_config =
  cfg_url :: "bytes option"
  cfg_host :: "bytes option"
  cfg_port :: int
  cfg_username :: "bytes option"
  cfg_password :: "bytes option"
  cfg_auth_type :: http_auth_type
  cfg_path :: "bytes option"
  cfg_query :: "bytes option"
  cfg_cert_pem :: "bytes option"
  cfg_user_agent :: "bytes option"
  cfg_method :: nat
  cfg_timeout_ms :: int
  cfg_disable_auto_redirect :: bool
  cfg_max_redirection_count :: int
  cfg_event_handler :: bool
  cfg_transport_ssl :: bool
  cfg_buffer_size :: int
  cfg_buffer_size_tx :: int
  cfg_is_async :: bool

abbreviation (input) DEFAULT_HTTP_BUF_SIZE :: int where "DEFAULT_HTTP_BUF_SIZE \<equiv> 512"
abbreviation (input) DEFAULT_MAX_REDIRECT :: int where "DEFAULT_MAX_REDIRECT \<equiv> 10"
abbreviation (input) DEFAULT_TIMEOUT_MS :: int where "DEFAULT_TIMEOUT_MS \<equiv> 5000"
abbreviation (input) DEFAULT_HTTP_USER_AGENT :: bytes where "DEFAULT_HTTP_USER_AGENT \<equiv> cstr ''ESP32 HTTP Client/1.0''"

subsection \<open>Credentials\<close>

definition strdup :: "('p, 'w) http_net \<Rightarrow> bytes option \<Rightarrow> ('p, 'w) http \<Rightarrow> bytes option \<times> ('p, 'w) http" where
  "strdup net s c = (if string_mem net (h_allocs c) then s else None, c\<lparr>h_allocs := h_allocs c + 1\<rparr>)"

text \<open>The getters store the value where the caller asks for it (\<open>value\<close>); a null client or a null place is refused.\<close>

definition esp_http_client_get_username :: "('p, 'w) http option \<Rightarrow> bool \<Rightarrow> int \<times> bytes option option" where
  "esp_http_client_get_username client value =
    (case client of
       None \<Rightarrow> (ESP_ERR_INVALID_ARG, None)
     | Some c \<Rightarrow> if \<not> value then (ESP_ERR_INVALID_ARG, None) else (0, Some (h_username c)))"

definition esp_http_client_set_username :: "('p, 'w) http_net \<Rightarrow> bytes option \<Rightarrow> ('p, 'w) http option \<Rightarrow> int \<times> ('p, 'w) http option" where
  "esp_http_client_set_username net username client =
    (case client of
       None \<Rightarrow> (ESP_ERR_INVALID_ARG, None)
     | Some c \<Rightarrow>
       let (s, c) = (if username = None then (None, c) else strdup net username c) in (0, Some (c\<lparr>h_username := s\<rparr>)))"

definition esp_http_client_get_password :: "('p, 'w) http option \<Rightarrow> bool \<Rightarrow> int \<times> bytes option option" where
  "esp_http_client_get_password client value =
    (case client of
       None \<Rightarrow> (ESP_ERR_INVALID_ARG, None)
     | Some c \<Rightarrow> if \<not> value then (ESP_ERR_INVALID_ARG, None) else (0, Some (h_password c)))"

definition esp_http_client_set_password :: "('p, 'w) http_net \<Rightarrow> bytes option \<Rightarrow> ('p, 'w) http option \<Rightarrow> int \<times> ('p, 'w) http option" where
  "esp_http_client_set_password net password client =
    (case client of
       None \<Rightarrow> (ESP_ERR_INVALID_ARG, None)
     | Some c \<Rightarrow>
       let (s, c) = (if password = None then (None, c) else strdup net password c) in (0, Some (c\<lparr>h_password := s\<rparr>)))"

definition esp_http_client_set_authtype :: "http_auth_type \<Rightarrow> ('p, 'w) http option \<Rightarrow> int \<times> ('p, 'w) http option" where
  "esp_http_client_set_authtype t client =
    (case client of None \<Rightarrow> (ESP_ERR_INVALID_ARG, None) | Some c \<Rightarrow> (0, Some (c\<lparr>auth_type := t\<rparr>)))"

definition esp_http_client_get_transport_type :: "('p, 'w) http \<Rightarrow> nat" where
  "esp_http_client_get_transport_type c =
    (if strcaseeq (fmt_s (h_scheme c)) (cstr ''https'') then 2
     else if strcaseeq (fmt_s (h_scheme c)) (cstr ''http'') then 1 else 0)"

subsection \<open>The configuration\<close>

text \<open>A string of the configuration is copied when it is there; \<open>False\<close> when the copy failed.\<close>

definition copy_option ::
  "('p, 'w) http_net \<Rightarrow> bytes option \<Rightarrow> (bytes option \<Rightarrow> ('p, 'w) http \<Rightarrow> ('p, 'w) http) \<Rightarrow> ('p, 'w) http \<Rightarrow> bool \<times> ('p, 'w) http" where
  "copy_option net s store c =
    (if s = None then (True, c) else let (t, c) = strdup net s c in (t \<noteq> None, store t c))"

text \<open>All of the structure \<open>connection_info\<close> is released and zeroed.\<close>

definition clear_connection_info :: "('p, 'w) http \<Rightarrow> ('p, 'w) http" where
  "clear_connection_info c =
    c\<lparr>h_req := (h_req c)\<lparr>hc_path := [], hc_query := None, hc_method := 0\<rparr>, h_host := None, h_username := None, h_password := None,
       h_scheme := None, h_port := 0, auth_type := HTTP_AUTH_TYPE_NONE\<rparr>"

definition plain_settings :: "http_config \<Rightarrow> ('p, 'w) http \<Rightarrow> ('p, 'w) http" where
  "plain_settings cfg c =
    c\<lparr>h_req := (h_req c)\<lparr>hc_method := cfg_method cfg, has_event_handler := cfg_event_handler cfg,
         buffer_size_tx := (if cfg_buffer_size_tx cfg = 0 then DEFAULT_HTTP_BUF_SIZE else cfg_buffer_size_tx cfg)\<rparr>,
       h_port := cfg_port cfg, auth_type := cfg_auth_type cfg, timeout_ms := cfg_timeout_ms cfg,
       max_redirection_count := (if cfg_max_redirection_count cfg = 0 then DEFAULT_MAX_REDIRECT else cfg_max_redirection_count cfg),
       buffer_size_rx := (if cfg_buffer_size cfg = 0 then DEFAULT_HTTP_BUF_SIZE else cfg_buffer_size cfg),
       disable_auto_redirect := cfg_disable_auto_redirect cfg\<rparr>"

definition copied_settings :: "('p, 'w) http_net \<Rightarrow> http_config \<Rightarrow> ('p, 'w) http \<Rightarrow> bool \<times> ('p, 'w) http" where
  "copied_settings net cfg c =
    (let (path, c) = strdup net (Some (case cfg_path cfg of None \<Rightarrow> cstr ''/'' | Some p \<Rightarrow> p)) c in
     case path of
       None \<Rightarrow> (False, c)
     | Some p \<Rightarrow>
       let (ok, c) = copy_option net (cfg_host cfg) (\<lambda>s c. c\<lparr>h_host := s\<rparr>) (c\<lparr>h_req := (h_req c)\<lparr>hc_path := p\<rparr>\<rparr>) in
       if \<not> ok then (False, clear_connection_info c)
       else let (ok, c) = copy_option net (cfg_query cfg) (\<lambda>s c. c\<lparr>h_req := (h_req c)\<lparr>hc_query := s\<rparr>\<rparr>) c in
       if \<not> ok then (False, clear_connection_info c)
       else let (ok, c) = copy_option net (cfg_username cfg) (\<lambda>s c. c\<lparr>h_username := s\<rparr>) c in
       if \<not> ok then (False, clear_connection_info c)
       else let (ok, c) = copy_option net (cfg_password cfg) (\<lambda>s c. c\<lparr>h_password := s\<rparr>) c in
       (ok, if ok then c else clear_connection_info c))"

definition set_config :: "('p, 'w) http_net \<Rightarrow> http_config \<Rightarrow> ('p, 'w) http \<Rightarrow> (bool \<times> ('p, 'w) http) option" where
  "set_config net cfg c =
    (let (ok, c) = copied_settings net cfg (plain_settings cfg c) in
     if \<not> ok then Some (False, c)
     else
       do { (s, c) \<leftarrow> assign_string net (if cfg_transport_ssl cfg then cstr ''https'' else cstr ''http'') c;
            let c = c\<lparr>h_scheme := Some s,
                      h_port := (if h_port c = 0 then if cfg_transport_ssl cfg then 443 else 80 else h_port c),
                      timeout_ms := (if timeout_ms c = 0 then DEFAULT_TIMEOUT_MS else timeout_ms c),
                      h_req := (h_req c)\<lparr>is_async := is_async (h_req c) \<or> cfg_is_async cfg\<rparr>\<rparr> in
            Some (True, c) })"

subsection \<open>Creating a client\<close>

text \<open>The structure as \<open>calloc\<close> gives it, with the empty list of headers; the parser is initialised before every request.\<close>

definition blank_client :: "('p, 'w) http_net \<Rightarrow> http_header \<Rightarrow> 'w \<Rightarrow> ('p, 'w) http" where
  "blank_client net hdr w =
    \<lparr>h_req = \<lparr>hc_headers = hdr, hc_buffer = [], buffer_size_tx = 0, hc_method = 0, hc_path = [], hc_query = None,
       first_line_prepared = False, header_index = 0, data_written_index = 0, data_write_left = 0, hc_state = HTTP_STATE_UNINIT,
       post_data = None, post_len = 0, is_async = False, has_event_handler = False, hc_events = [], hc_sent = [], hc_writes = 0\<rparr>,
     h_res = \<lparr>res_data = [], res_len = 0, raw_data = 0, raw_len = 0, output_ptr = None, status_code = 0, content_length = 0,
       data_offset = 0, data_process = 0, is_chunked = False\<rparr>,
     h_parser = http_parser_init net, is_chunk_complete = False, current_header_key = None, current_header_value = None,
     location = None, auth_header = None, user_buf = [], buffer_size_rx = 0, timeout_ms = 0, redirect_counter = 0,
     max_redirection_count = 0, disable_auto_redirect = False, process_again = False, h_scheme = None, h_host = None, h_port = 0,
     h_username = None, h_password = None, auth_type = HTTP_AUTH_TYPE_NONE, auth_data = Some no_auth_data,
     h_errno = 0, h_allocs = 0, h_world = w\<rparr>"

text \<open>The headers that every request has; \<open>False\<close> when one cannot be set.\<close>

definition default_headers :: "('p, 'w) http_net \<Rightarrow> bytes \<Rightarrow> ('p, 'w) http \<Rightarrow> (bool \<times> ('p, 'w) http) option" where
  "default_headers net user_agent c =
    do { (e, c) \<leftarrow> set_client_header net (cstr ''User-Agent'') (Some user_agent) c;
         if e \<noteq> HTTP_OK then Some (False, c)
         else do { (e, c) \<leftarrow> set_client_header net (cstr ''Host'') (h_host c) c; Some (e = HTTP_OK, c) } }"

text \<open>The buffers \<open>tx\<close> and \<open>rx\<close> are what \<open>malloc\<close> gives, null when it fails.  The result is null when something fails.\<close>

definition esp_http_client_init ::
  "('p, 'w) http_net \<Rightarrow> bool \<Rightarrow> (int \<Rightarrow> bytes option) \<Rightarrow> http_config \<Rightarrow> 'w \<Rightarrow> ('p, 'w) http option option" where
  "esp_http_client_init net ready malloc cfg w =
    (case http_header_init (http_mem (request_env net)) 0 of
       None \<Rightarrow> Some None
     | Some hdr \<Rightarrow>
       if \<not> ready then Some None
       else
         do { (ok, c) \<leftarrow> set_config net cfg (blank_client net hdr w);
              if \<not> ok then Some None
              else
                (case (malloc (buffer_size_tx (h_req c)), malloc (buffer_size_rx c)) of
                   (Some tx, Some rx) \<Rightarrow>
                     let c = set_res (\<lambda>r. r\<lparr>res_data := rx\<rparr>) (c\<lparr>h_req := (h_req c)\<lparr>hc_buffer := tx\<rparr>\<rparr>);
                         user_agent = (case cfg_user_agent cfg of None \<Rightarrow> DEFAULT_HTTP_USER_AGENT | Some u \<Rightarrow> u) in
                     do { (ok, c) \<leftarrow>
                            (if cfg_host cfg \<noteq> None \<and> cfg_path cfg \<noteq> None then default_headers net user_agent c
                             else if cfg_url cfg \<noteq> None then
                               do { (e, c) \<leftarrow> esp_http_client_set_url net (cfg_url cfg) c;
                                    if e \<noteq> 0 then Some (False, c) else default_headers net user_agent c }
                             else Some (False, c));
                          Some (if ok then Some (set_http_state HTTP_STATE_INIT c) else None) }
                 | _ \<Rightarrow> Some None) })"

text \<open>Nothing of the client is left; the events of the closing are.\<close>

definition esp_http_client_cleanup :: "('p, 'w) http_net \<Rightarrow> ('p, 'w) http option \<Rightarrow> int \<times> http_event list" where
  "esp_http_client_cleanup net client =
    (case client of None \<Rightarrow> (- 1, []) | Some c \<Rightarrow> (0, hc_events (h_req (close_client net c))))"

end
