(* ===== verification/Ota_Ops.thy ===== *)
theory Ota_Ops
  imports Prelude "HOL-Library.Monad_Syntax"
begin

text \<open>
  Writing a firmware image and choosing the one to boot (\<^verbatim>\<open>common/app_update/esp_ota_ops.c\<close>).

  The flash with its partition table, the functions of the boot loader library and the heap are outside the tree:
  they are the fields of the record \<open>ota_env\<close>, those with an effect acting on the component \<open>ota_world\<close> of the state.
  Every function returns its result with the state inside \<open>option\<close>; \<open>None\<close> means that the device stops in
  \<open>assert\<close> or \<open>abort\<close>, or, for the search of the next sequence number, that the loop does not end.
  The configuration is that of \<^verbatim>\<open>sdkconfig\<close>: no rollback monitoring, no anti-rollback versions, target ESP32.
\<close>

subsection \<open>Data\<close>

datatype esp_error = E_OK | E_FAIL | ESP_ERR_INVALID_ARG | ESP_ERR_NO_MEM | ESP_ERR_NOT_FOUND | ESP_ERR_INVALID_STATE
  | ESP_ERR_NOT_SUPPORTED | ESP_ERR_OTA_PARTITION_CONFLICT | ESP_ERR_OTA_VALIDATE_FAILED | ESP_ERR_OTA_ROLLBACK_FAILED
  | ESP_ERR_HTTPS_OTA_IN_PROGRESS | ESP_ERR_OTHER int

text \<open>A partition of the table; two of them are the same object when all fields agree.\<close>

record esp_partition =
  p_type :: nat
  p_subtype :: nat
  p_address :: nat
  p_size :: nat

abbreviation (input) ESP_PARTITION_TYPE_APP :: nat where "ESP_PARTITION_TYPE_APP \<equiv> 0"
abbreviation (input) ESP_PARTITION_TYPE_DATA :: nat where "ESP_PARTITION_TYPE_DATA \<equiv> 1"
abbreviation (input) SUBTYPE_APP_FACTORY :: nat where "SUBTYPE_APP_FACTORY \<equiv> 0"
abbreviation (input) SUBTYPE_APP_OTA_MIN :: nat where "SUBTYPE_APP_OTA_MIN \<equiv> 0x10"
abbreviation (input) SUBTYPE_APP_OTA_MAX :: nat where "SUBTYPE_APP_OTA_MAX \<equiv> 0x20"
abbreviation (input) SUBTYPE_APP_TEST :: nat where "SUBTYPE_APP_TEST \<equiv> 0x20"
abbreviation (input) SUBTYPE_DATA_OTA :: nat where "SUBTYPE_DATA_OTA \<equiv> 0"
abbreviation (input) SPI_FLASH_SEC_SIZE :: nat where "SPI_FLASH_SEC_SIZE \<equiv> 4096"
abbreviation (input) OTA_SIZE_UNKNOWN :: u32 where "OTA_SIZE_UNKNOWN \<equiv> 0xffffffff"
abbreviation (input) ESP_IMAGE_HEADER_MAGIC :: u8 where "ESP_IMAGE_HEADER_MAGIC \<equiv> 0xE9"
abbreviation (input) ESP_OTA_IMG_VALID :: u32 where "ESP_OTA_IMG_VALID \<equiv> 2"
abbreviation (input) ESP_OTA_IMG_INVALID :: u32 where "ESP_OTA_IMG_INVALID \<equiv> 3"
abbreviation (input) ESP_OTA_IMG_ABORTED :: u32 where "ESP_OTA_IMG_ABORTED \<equiv> 4"
abbreviation (input) ESP_OTA_IMG_UNDEFINED :: u32 where "ESP_OTA_IMG_UNDEFINED \<equiv> 0xffffffff"

text \<open>One of the two records of the partition \<open>otadata\<close>.\<close>

record ota_select_entry =
  ota_seq :: u32
  seq_label :: bytes
  ota_state :: u32
  ota_crc :: u32

text \<open>An update in progress.  Sizes are natural numbers: a write beyond the end of the partition fails, so they stay below
  \<open>2 ^ 32\<close>.\<close>

record ota_ops_entry =
  o_handle :: u32
  o_part :: esp_partition
  erased_size :: nat
  wrote_size :: nat
  partial_bytes :: nat
  partial_data :: bytes

record 'w ota =
  s_ota_ops_entries :: "ota_ops_entry list"
  s_ota_ops_last_handle :: u32
  curr_partition :: "esp_partition option"
  ota_world :: 'w

text \<open>\<open>partition_mmap\<close> gives the mapped memory as a function of the offset; \<open>select_bytes\<close> and \<open>select_of\<close> are the layout of
  \<open>esp_ota_select_entry_t\<close> in memory, 32 bytes.\<close>

record 'w ota_env =
  partition_find_first :: "nat \<Rightarrow> nat \<Rightarrow> esp_partition option"
  app_partitions :: "esp_partition list"
  partition_verify :: "esp_partition \<Rightarrow> esp_partition option"
  partition_erase_range :: "esp_partition \<Rightarrow> nat \<Rightarrow> nat \<Rightarrow> 'w \<Rightarrow> esp_error \<times> 'w"
  partition_write :: "esp_partition \<Rightarrow> nat \<Rightarrow> bytes \<Rightarrow> 'w \<Rightarrow> esp_error \<times> 'w"
  partition_read :: "esp_partition \<Rightarrow> nat \<Rightarrow> nat \<Rightarrow> 'w \<Rightarrow> esp_error \<times> bytes"
  partition_mmap :: "esp_partition \<Rightarrow> 'w \<Rightarrow> (nat \<Rightarrow> u8) option"
  select_bytes :: "ota_select_entry \<Rightarrow> bytes"
  select_of :: "bytes \<Rightarrow> ota_select_entry"
  ota_select_crc :: "ota_select_entry \<Rightarrow> u32"
  ota_select_invalid :: "ota_select_entry \<Rightarrow> bool"
  ota_select_valid :: "ota_select_entry \<Rightarrow> bool"
  get_active_otadata :: "ota_select_entry \<times> ota_select_entry \<Rightarrow> nat option"
  select_otadata :: "ota_select_entry \<times> ota_select_entry \<Rightarrow> bool \<times> bool \<Rightarrow> bool \<Rightarrow> nat option"
  image_verify :: "esp_partition \<Rightarrow> 'w \<Rightarrow> bool"
  code_address :: nat
  flash_encryption :: bool
  ota_calloc :: "'w \<Rightarrow> bool \<times> 'w"

subsection \<open>Partitions\<close>

definition SUB_TYPE_ID :: "nat \<Rightarrow> nat" where
  "SUB_TYPE_ID i = i mod 16"

definition is_ota_partition :: "esp_partition \<Rightarrow> bool" where
  "is_ota_partition p \<longleftrightarrow> p_type p = ESP_PARTITION_TYPE_APP
     \<and> SUBTYPE_APP_OTA_MIN \<le> p_subtype p \<and> p_subtype p < SUBTYPE_APP_OTA_MAX"

definition find_app :: "'w ota_env \<Rightarrow> nat \<Rightarrow> esp_partition option" where
  "find_app env sub = partition_find_first env ESP_PARTITION_TYPE_APP sub"

definition find_otadata :: "'w ota_env \<Rightarrow> esp_partition option" where
  "find_otadata env = partition_find_first env ESP_PARTITION_TYPE_DATA SUBTYPE_DATA_OTA"

definition entry_at :: "'w ota_env \<Rightarrow> (nat \<Rightarrow> u8) \<Rightarrow> nat \<Rightarrow> ota_select_entry" where
  "entry_at env m off = select_of env (map m [off..<off + 32])"

definition read_otadata :: "'w ota_env \<Rightarrow> 'w ota \<Rightarrow> (esp_partition \<times> ota_select_entry \<times> ota_select_entry) option" where
  "read_otadata env s =
    do { p \<leftarrow> find_otadata env;
         m \<leftarrow> partition_mmap env p (ota_world s);
         Some (p, entry_at env m 0, entry_at env m SPI_FLASH_SEC_SIZE) }"

definition image_validate :: "'w ota_env \<Rightarrow> esp_partition \<Rightarrow> 'w ota \<Rightarrow> esp_error" where
  "image_validate env p s = (if image_verify env p (ota_world s) then E_OK else ESP_ERR_OTA_VALIDATE_FAILED)"

definition set_new_state_otadata :: u32 where
  "set_new_state_otadata = ESP_OTA_IMG_UNDEFINED"

text \<open>Counting the OTA partitions; a seventeenth one fails the assertion.\<close>

fun count_from :: "'w ota_env \<Rightarrow> nat \<Rightarrow> nat \<Rightarrow> nat option" where
  "count_from env n 0 = (if find_app env (SUBTYPE_APP_OTA_MIN + n) = None then Some n else None)"
| "count_from env n (Suc k) =
    (if find_app env (SUBTYPE_APP_OTA_MIN + n) = None then Some n else count_from env (Suc n) k)"

definition get_ota_partition_count :: "'w ota_env \<Rightarrow> nat option" where
  "get_ota_partition_count env = count_from env 0 16"

definition esp_ota_get_running_partition :: "'w ota_env \<Rightarrow> 'w ota \<Rightarrow> (esp_partition \<times> 'w ota) option" where
  "esp_ota_get_running_partition env s =
    (case curr_partition s of
       Some p \<Rightarrow> Some (p, s)
     | None \<Rightarrow>
        (case find (\<lambda>p. p_address p \<le> code_address env \<and> code_address env < p_address p + p_size p) (app_partitions env) of
           Some p \<Rightarrow> Some (p, s\<lparr>curr_partition := Some p\<rparr>)
         | None \<Rightarrow> None))"

text \<open>The loop over the OTA subtypes: the first partition found, whether the start was seen, the subtypes left.\<close>

fun next_update_loop ::
  "'w ota_env \<Rightarrow> esp_partition \<Rightarrow> esp_partition option \<Rightarrow> bool \<Rightarrow> nat list \<Rightarrow> esp_partition option" where
  "next_update_loop env start default_ota next_is_result [] = default_ota"
| "next_update_loop env start default_ota next_is_result (t # ts) =
    (case find_app env t of
       None \<Rightarrow> next_update_loop env start default_ota next_is_result ts
     | Some p \<Rightarrow>
         let default_ota = (if default_ota = None then Some p else default_ota) in
         if p = start then next_update_loop env start default_ota True ts
         else if next_is_result then Some p
         else next_update_loop env start default_ota next_is_result ts)"

definition esp_ota_get_next_update_partition ::
  "'w ota_env \<Rightarrow> esp_partition option \<Rightarrow> 'w ota \<Rightarrow> (esp_partition option \<times> 'w ota) option" where
  "esp_ota_get_next_update_partition env start_from s =
    do { (start, s) \<leftarrow> (case start_from of
            None \<Rightarrow> esp_ota_get_running_partition env s
          | Some p \<Rightarrow> map_option (\<lambda>p. (p, s)) (partition_verify env p));
         Some (next_update_loop env start None False [SUBTYPE_APP_OTA_MIN..<SUBTYPE_APP_OTA_MAX], s) }"

subsection \<open>Writing an image\<close>

text \<open>The size of the area that is erased for an image of a known size: whole sectors.\<close>

definition aligned_erase_size :: "u32 \<Rightarrow> nat" where
  "aligned_erase_size image_size = unat ((image_size + 4095) AND NOT 4095)"

definition esp_ota_begin ::
  "'w ota_env \<Rightarrow> esp_partition option \<Rightarrow> u32 \<Rightarrow> 'w ota \<Rightarrow> ((esp_error \<times> u32 option) \<times> 'w ota) option" where
  "esp_ota_begin env part image_size s =
    (case part of
       None \<Rightarrow> Some ((ESP_ERR_INVALID_ARG, None), s)
     | Some p0 \<Rightarrow>
       (case partition_verify env p0 of
          None \<Rightarrow> Some ((ESP_ERR_NOT_FOUND, None), s)
        | Some p \<Rightarrow>
          if \<not> is_ota_partition p then Some ((ESP_ERR_INVALID_ARG, None), s)
          else do {
            (running, s) \<leftarrow> esp_ota_get_running_partition env s;
            if p = running then Some ((ESP_ERR_OTA_PARTITION_CONFLICT, None), s)
            else
              let all = (image_size = 0 \<or> image_size = OTA_SIZE_UNKNOWN);
                  (ret, w) = partition_erase_range env p 0 (if all then p_size p else aligned_erase_size image_size) (ota_world s);
                  s = s\<lparr>ota_world := w\<rparr> in
              if ret \<noteq> E_OK then Some ((ret, None), s)
              else
                let (mem, w) = ota_calloc env (ota_world s); s = s\<lparr>ota_world := w\<rparr> in
                if \<not> mem then Some ((ESP_ERR_NO_MEM, None), s)
                else
                  let h = s_ota_ops_last_handle s + 1;
                      e = \<lparr>o_handle = h, o_part = p, erased_size = (if all then p_size p else unat image_size),
                           wrote_size = 0, partial_bytes = 0, partial_data = replicate 16 0\<rparr>
                  in Some ((E_OK, Some h), s\<lparr>s_ota_ops_entries := e # s_ota_ops_entries s, s_ota_ops_last_handle := h\<rparr>) }))"

definition find_entry :: "u32 \<Rightarrow> 'w ota \<Rightarrow> ota_ops_entry option" where
  "find_entry h s = find (\<lambda>it. o_handle it = h) (s_ota_ops_entries s)"

text \<open>An entry is changed in place: the first one with the handle.\<close>

fun set_entry :: "ota_ops_entry \<Rightarrow> ota_ops_entry list \<Rightarrow> ota_ops_entry list" where
  "set_entry e [] = []"
| "set_entry e (x # xs) = (if o_handle x = o_handle e then e # xs else x # set_entry e xs)"

definition put_entry :: "ota_ops_entry \<Rightarrow> 'w ota \<Rightarrow> 'w ota" where
  "put_entry e s = s\<lparr>s_ota_ops_entries := set_entry e (s_ota_ops_entries s)\<rparr>"

definition flash_write :: "'w ota_env \<Rightarrow> ota_ops_entry \<Rightarrow> bytes \<Rightarrow> 'w ota \<Rightarrow> esp_error \<times> 'w ota" where
  "flash_write env it d s =
    (let (ret, w) = partition_write env (o_part it) (wrote_size it) d (ota_world s);
         it = (if ret = E_OK then it\<lparr>wrote_size := wrote_size it + length d\<rparr> else it)
     in (ret, put_entry it (s\<lparr>ota_world := w\<rparr>)))"

text \<open>With flash encryption: whole blocks of 16 bytes only, the rest is kept for the next call.\<close>

definition keep_tail :: "ota_ops_entry \<Rightarrow> bytes \<Rightarrow> ota_ops_entry \<times> bytes" where
  "keep_tail it d =
    (let pb = length d mod 16; n = length d - pb in
     (it\<lparr>partial_bytes := pb, partial_data := (if pb \<noteq> 0 then mem_write 0 (drop n d) (partial_data it) else partial_data it)\<rparr>,
      take n d))"

definition write_blocks :: "'w ota_env \<Rightarrow> ota_ops_entry \<Rightarrow> bytes \<Rightarrow> 'w ota \<Rightarrow> esp_error \<times> 'w ota" where
  "write_blocks env it d s = (let (it, d) = keep_tail it d in flash_write env it d s)"

definition write_encrypted :: "'w ota_env \<Rightarrow> ota_ops_entry \<Rightarrow> bytes \<Rightarrow> 'w ota \<Rightarrow> esp_error \<times> 'w ota" where
  "write_encrypted env it d s =
    (if partial_bytes it = 0 then write_blocks env it d s
     else
       let copy_len = min (16 - partial_bytes it) (length d);
           it = it\<lparr>partial_data := mem_write (partial_bytes it) (take copy_len d) (partial_data it),
                   partial_bytes := partial_bytes it + copy_len\<rparr> in
       if partial_bytes it \<noteq> 16 then (E_OK, put_entry it s)
       else
         let (ret, w) = partition_write env (o_part it) (wrote_size it) (partial_data it) (ota_world s);
             s = s\<lparr>ota_world := w\<rparr> in
         if ret \<noteq> E_OK then (ret, put_entry it s)
         else write_blocks env (it\<lparr>partial_bytes := 0, partial_data := replicate 16 0xFF, wrote_size := wrote_size it + 16\<rparr>)
                (drop copy_len d) s)"

definition esp_ota_write :: "'w ota_env \<Rightarrow> u32 \<Rightarrow> bytes option \<Rightarrow> 'w ota \<Rightarrow> (esp_error \<times> 'w ota) option" where
  "esp_ota_write env h data s =
    (case data of
       None \<Rightarrow> Some (ESP_ERR_INVALID_ARG, s)
     | Some d \<Rightarrow>
       (case find_entry h s of
          None \<Rightarrow> Some (ESP_ERR_INVALID_ARG, s)
        | Some it \<Rightarrow>
          if erased_size it = 0 then None
          else if wrote_size it = 0 \<and> partial_bytes it = 0 \<and> d \<noteq> [] \<and> hd d \<noteq> ESP_IMAGE_HEADER_MAGIC
          then Some (ESP_ERR_OTA_VALIDATE_FAILED, s)
          else Some (if flash_encryption env then write_encrypted env it d s else flash_write env it d s)))"

definition esp_ota_write_with_offset ::
  "'w ota_env \<Rightarrow> u32 \<Rightarrow> bytes option \<Rightarrow> nat \<Rightarrow> 'w ota \<Rightarrow> (esp_error \<times> 'w ota) option" where
  "esp_ota_write_with_offset env h data offset s =
    (case data of
       None \<Rightarrow> Some (ESP_ERR_INVALID_ARG, s)
     | Some d \<Rightarrow>
       (case find_entry h s of
          None \<Rightarrow> Some (ESP_ERR_INVALID_ARG, s)
        | Some it \<Rightarrow>
          if erased_size it = 0 then None
          else if flash_encryption env \<and> length d mod 16 \<noteq> 0 then Some (ESP_ERR_INVALID_ARG, s)
          else
            let (ret, w) = partition_write env (o_part it) offset d (ota_world s);
                it = (if ret = E_OK then it\<lparr>wrote_size := wrote_size it + length d\<rparr> else it)
            in Some (ret, put_entry it (s\<lparr>ota_world := w\<rparr>))))"

fun remove_entry :: "u32 \<Rightarrow> ota_ops_entry list \<Rightarrow> ota_ops_entry list" where
  "remove_entry h [] = []"
| "remove_entry h (x # xs) = (if o_handle x = h then xs else x # remove_entry h xs)"

definition esp_ota_end :: "'w ota_env \<Rightarrow> u32 \<Rightarrow> 'w ota \<Rightarrow> esp_error \<times> 'w ota" where
  "esp_ota_end env h s =
    (case find_entry h s of
       None \<Rightarrow> (ESP_ERR_NOT_FOUND, s)
     | Some it \<Rightarrow>
       let cleanup = (\<lambda>ret s. (ret, s\<lparr>s_ota_ops_entries := remove_entry h (s_ota_ops_entries s)\<rparr>));
           verify = (\<lambda>s. cleanup (if image_verify env (o_part it) (ota_world s) then E_OK else ESP_ERR_OTA_VALIDATE_FAILED) s) in
       if erased_size it = 0 \<or> wrote_size it = 0 then cleanup ESP_ERR_INVALID_ARG s
       else if partial_bytes it > 0 then
         let (ret, w) = partition_write env (o_part it) (wrote_size it) (partial_data it) (ota_world s); s = s\<lparr>ota_world := w\<rparr> in
         if ret \<noteq> E_OK then cleanup ESP_ERR_INVALID_STATE s else verify s
       else verify s)"

subsection \<open>Choosing the image to boot\<close>

definition set_otadata :: "nat \<Rightarrow> ota_select_entry \<Rightarrow> ota_select_entry \<times> ota_select_entry \<Rightarrow> ota_select_entry \<times> ota_select_entry" where
  "set_otadata i e two = (if i = 0 then (e, snd two) else (fst two, e))"

definition otadata_at :: "ota_select_entry \<times> ota_select_entry \<Rightarrow> nat \<Rightarrow> ota_select_entry" where
  "otadata_at two i = (if i = 0 then fst two else snd two)"

definition rewrite_ota_seq ::
  "'w ota_env \<Rightarrow> ota_select_entry \<times> ota_select_entry \<Rightarrow> u32 \<Rightarrow> nat \<Rightarrow> esp_partition \<Rightarrow> 'w ota \<Rightarrow> esp_error \<times> 'w ota" where
  "rewrite_ota_seq env two seq sec_id p s =
    (if sec_id > 1 then (ESP_ERR_INVALID_ARG, s)
     else
       let e = (otadata_at two sec_id)\<lparr>ota_seq := seq\<rparr>;
           e = e\<lparr>ota_crc := ota_select_crc env e\<rparr>;
           (ret, w) = partition_erase_range env p (sec_id * SPI_FLASH_SEC_SIZE) SPI_FLASH_SEC_SIZE (ota_world s) in
       if ret \<noteq> E_OK then (ret, s\<lparr>ota_world := w\<rparr>)
       else let (ret, w) = partition_write env p (SPI_FLASH_SEC_SIZE * sec_id) (select_bytes env e) w in (ret, s\<lparr>ota_world := w\<rparr>))"

text \<open>The next sequence number that stands for the wanted slot, in 32-bit arithmetic.\<close>

partial_function (option) next_seq :: "u32 \<Rightarrow> u32 \<Rightarrow> u32 \<Rightarrow> u32 \<Rightarrow> u32 option" where
  [code]: "next_seq seq base count i =
    (if seq > base + i * count then next_seq seq base count (i + 1) else Some (base + i * count))"

definition esp_rewrite_ota_data :: "'w ota_env \<Rightarrow> nat \<Rightarrow> 'w ota \<Rightarrow> (esp_error \<times> 'w ota) option" where
  "esp_rewrite_ota_data env subtype s =
    (case read_otadata env s of
       None \<Rightarrow> Some (ESP_ERR_NOT_FOUND, s)
     | Some (p, two) \<Rightarrow>
       do { count \<leftarrow> get_ota_partition_count env;
            if SUB_TYPE_ID subtype \<ge> count then Some (ESP_ERR_INVALID_ARG, s)
            else
              (case get_active_otadata env two of
                 Some active \<Rightarrow>
                   do { seq \<leftarrow> next_seq (ota_seq (otadata_at two active))
                                 (of_nat ((SUB_TYPE_ID subtype + 1) mod count)) (of_nat count) 0;
                        let next = 1 - active;
                            two = set_otadata next ((otadata_at two next)\<lparr>ota_state := set_new_state_otadata\<rparr>) two in
                        Some (rewrite_ota_seq env two seq next p s) }
               | None \<Rightarrow>
                   let two = set_otadata 0 ((otadata_at two 0)\<lparr>ota_state := set_new_state_otadata\<rparr>) two in
                   Some (rewrite_ota_seq env two (of_nat (SUB_TYPE_ID subtype + 1)) 0 p s)) })"

definition esp_ota_set_boot_partition ::
  "'w ota_env \<Rightarrow> esp_partition option \<Rightarrow> 'w ota \<Rightarrow> (esp_error \<times> 'w ota) option" where
  "esp_ota_set_boot_partition env part s =
    (case part of
       None \<Rightarrow> Some (ESP_ERR_INVALID_ARG, s)
     | Some p \<Rightarrow>
       if image_validate env p s \<noteq> E_OK then Some (ESP_ERR_OTA_VALIDATE_FAILED, s)
       else if p_type p = ESP_PARTITION_TYPE_APP then
         if p_subtype p = SUBTYPE_APP_FACTORY then
           (case find_otadata env of
              Some q \<Rightarrow> let (ret, w) = partition_erase_range env q 0 (p_size q) (ota_world s) in Some (ret, s\<lparr>ota_world := w\<rparr>)
            | None \<Rightarrow> Some (ESP_ERR_NOT_FOUND, s))
         else esp_rewrite_ota_data env (p_subtype p) s
       else Some (ESP_ERR_INVALID_ARG, s))"

fun first_app :: "'w ota_env \<Rightarrow> nat list \<Rightarrow> esp_partition option" where
  "first_app env [] = None"
| "first_app env (t # ts) = (case find_app env t of Some p \<Rightarrow> Some p | None \<Rightarrow> first_app env ts)"

definition find_default_boot_partition :: "'w ota_env \<Rightarrow> esp_partition option" where
  "find_default_boot_partition env =
    first_app env (SUBTYPE_APP_FACTORY # [SUBTYPE_APP_OTA_MIN..<SUBTYPE_APP_OTA_MAX] @ [SUBTYPE_APP_TEST])"

text \<open>The slot a sequence number stands for: the difference is one of 32-bit numbers.\<close>

definition seq_slot :: "u32 \<Rightarrow> nat \<Rightarrow> nat" where
  "seq_slot seq count = unat (seq - 1) mod count"

definition esp_ota_get_boot_partition :: "'w ota_env \<Rightarrow> 'w ota \<Rightarrow> esp_partition option option" where
  "esp_ota_get_boot_partition env s =
    (case read_otadata env s of
       None \<Rightarrow> Some None
     | Some (p, two) \<Rightarrow>
       do { count \<leftarrow> get_ota_partition_count env;
            Some (if (ota_select_invalid env (fst two) \<and> ota_select_invalid env (snd two)) \<or> count = 0
                  then find_default_boot_partition env
                  else (case get_active_otadata env two of
                          Some active \<Rightarrow> find_app env (SUBTYPE_APP_OTA_MIN + seq_slot (ota_seq (otadata_at two active)) count)
                        | None \<Rightarrow> find_default_boot_partition env)) })"

subsection \<open>Descriptions and rollback\<close>

text \<open>The description follows the image header and the first segment header, 32 bytes; \<open>magic_word\<close> are its first four.\<close>

definition esp_ota_get_partition_description ::
  "'w ota_env \<Rightarrow> esp_partition option \<Rightarrow> bool \<Rightarrow> 'w ota \<Rightarrow> esp_error \<times> bytes option" where
  "esp_ota_get_partition_description env part out s =
    (case part of
       None \<Rightarrow> (ESP_ERR_INVALID_ARG, None)
     | Some p \<Rightarrow>
       if \<not> out then (ESP_ERR_INVALID_ARG, None)
       else if p_type p \<noteq> ESP_PARTITION_TYPE_APP then (ESP_ERR_NOT_SUPPORTED, None)
       else let (err, d) = partition_read env p 32 256 (ota_world s) in
         if err \<noteq> E_OK then (err, Some d)
         else if take 4 d \<noteq> [0x32, 0x54, 0xcd, 0xab] then (ESP_ERR_NOT_FOUND, Some d) else (E_OK, Some d))"

definition esp_ota_check_rollback_is_possible :: "'w ota_env \<Rightarrow> 'w ota \<Rightarrow> bool option" where
  "esp_ota_check_rollback_is_possible env s =
    (case read_otadata env s of
       None \<Rightarrow> Some False
     | Some (p, two) \<Rightarrow>
       do { count \<leftarrow> get_ota_partition_count env;
            if count = 0 then Some False
            else
              let valid = (ota_select_valid env (fst two), ota_select_valid env (snd two)) in
              (case select_otadata env two valid True of
                 None \<Rightarrow> Some False
               | Some active \<Rightarrow>
                 let other = 1 - active;
                     bootable = (\<lambda>sub. case find_app env sub of None \<Rightarrow> False | Some p \<Rightarrow> image_validate env p s = E_OK) in
                 Some (if (if other = 0 then fst valid else snd valid)
                       then bootable (SUBTYPE_APP_OTA_MIN + seq_slot (ota_seq (otadata_at two other)) count)
                       else bootable SUBTYPE_APP_FACTORY)) })"

text \<open>Confirming or rejecting the running image.  After a successful rejection the device restarts, which is the
  second component of the result.\<close>

definition esp_ota_current_ota_is_workable :: "'w ota_env \<Rightarrow> bool \<Rightarrow> 'w ota \<Rightarrow> (esp_error \<times> bool \<times> 'w ota) option" where
  "esp_ota_current_ota_is_workable env valid s =
    (case read_otadata env s of
       None \<Rightarrow> Some (ESP_ERR_NOT_FOUND, False, s)
     | Some (p, two) \<Rightarrow>
       (case get_active_otadata env two of
          None \<Rightarrow> Some (E_FAIL, False, s)
        | Some active \<Rightarrow>
          do { count \<leftarrow> get_ota_partition_count env;
               let e = otadata_at two active;
                   rewrite = (\<lambda>st. rewrite_ota_seq env (set_otadata active (e\<lparr>ota_state := st\<rparr>) two) (ota_seq e) active p s) in
               if count = 0 then Some (E_FAIL, False, s)
               else if valid \<and> ota_state e \<noteq> ESP_OTA_IMG_VALID then
                 let (err, s) = rewrite ESP_OTA_IMG_VALID in Some (err, False, s)
               else if \<not> valid then
                 do { possible \<leftarrow> esp_ota_check_rollback_is_possible env s;
                      if \<not> possible then Some (ESP_ERR_OTA_ROLLBACK_FAILED, False, s)
                      else let (err, s) = rewrite ESP_OTA_IMG_INVALID in
                        Some (if err \<noteq> E_OK then (err, False, s) else (E_OK, True, s)) }
               else Some (E_OK, False, s) }))"

definition esp_ota_mark_app_valid_cancel_rollback :: "'w ota_env \<Rightarrow> 'w ota \<Rightarrow> (esp_error \<times> bool \<times> 'w ota) option" where
  "esp_ota_mark_app_valid_cancel_rollback env s = esp_ota_current_ota_is_workable env True s"

definition esp_ota_mark_app_invalid_rollback_and_reboot :: "'w ota_env \<Rightarrow> 'w ota \<Rightarrow> (esp_error \<times> bool \<times> 'w ota) option" where
  "esp_ota_mark_app_invalid_rollback_and_reboot env s = esp_ota_current_ota_is_workable env False s"

definition check_invalid_otadata :: "'w ota_env \<Rightarrow> ota_select_entry \<Rightarrow> bool" where
  "check_invalid_otadata env e \<longleftrightarrow> ota_seq e \<noteq> 0xffffffff \<and> ota_crc e = ota_select_crc env e
     \<and> (ota_state e = ESP_OTA_IMG_INVALID \<or> ota_state e = ESP_OTA_IMG_ABORTED)"

definition get_last_invalid_otadata :: "'w ota_env \<Rightarrow> ota_select_entry \<times> ota_select_entry \<Rightarrow> nat option" where
  "get_last_invalid_otadata env two =
    select_otadata env two (check_invalid_otadata env (fst two), check_invalid_otadata env (snd two)) False"

definition esp_ota_get_last_invalid_partition :: "'w ota_env \<Rightarrow> 'w ota \<Rightarrow> esp_partition option option" where
  "esp_ota_get_last_invalid_partition env s =
    (case read_otadata env s of
       None \<Rightarrow> Some None
     | Some (p, two) \<Rightarrow>
       do { count \<leftarrow> get_ota_partition_count env;
            Some (case get_last_invalid_otadata env two of
                None \<Rightarrow> None
              | Some i \<Rightarrow>
                if count = 0 then None
                else (case find_app env (SUBTYPE_APP_OTA_MIN + seq_slot (ota_seq (otadata_at two i)) count) of
                    None \<Rightarrow> None
                  | Some q \<Rightarrow> if image_validate env q s \<noteq> E_OK then None else Some q)) })"

definition esp_ota_get_state_partition :: "'w ota_env \<Rightarrow> esp_partition option \<Rightarrow> 'w ota \<Rightarrow> (esp_error + u32) option" where
  "esp_ota_get_state_partition env part s =
    (case part of
       None \<Rightarrow> Some (Inl ESP_ERR_INVALID_ARG)
     | Some p \<Rightarrow>
       if \<not> is_ota_partition p then Some (Inl ESP_ERR_NOT_SUPPORTED)
       else do {
         count \<leftarrow> get_ota_partition_count env;
         Some (case read_otadata env s of
             None \<Rightarrow> Inl ESP_ERR_NOT_FOUND
           | Some (q, two) \<Rightarrow>
             if count = 0 then Inl ESP_ERR_NOT_FOUND
             else (case find (\<lambda>e. seq_slot (ota_seq e) count = p_subtype p - SUBTYPE_APP_OTA_MIN
                               \<and> ota_crc e = ota_select_crc env e) [fst two, snd two] of
                 None \<Rightarrow> Inl ESP_ERR_NOT_FOUND
               | Some e \<Rightarrow> Inr (ota_state e))) })"

definition esp_ota_erase_last_boot_app_partition :: "'w ota_env \<Rightarrow> 'w ota \<Rightarrow> (esp_error \<times> 'w ota) option" where
  "esp_ota_erase_last_boot_app_partition env s =
    (case read_otadata env s of
       None \<Rightarrow> Some (E_FAIL, s)
     | Some (od, two) \<Rightarrow>
       do { count \<leftarrow> get_ota_partition_count env;
            case get_active_otadata env two of
              None \<Rightarrow> Some (E_FAIL, s)
            | Some active \<Rightarrow>
              let other = 1 - active; e = otadata_at two other in
              if count = 0 then Some (E_FAIL, s)
              else if ota_seq e = 0xffffffff \<or> ota_crc e \<noteq> ota_select_crc env e then Some (E_FAIL, s)
              else
                (case find_app env (SUBTYPE_APP_OTA_MIN + seq_slot (ota_seq e) count) of
                   None \<Rightarrow> Some (E_FAIL, s)
                 | Some q \<Rightarrow>
                   do { (running, s) \<leftarrow> esp_ota_get_running_partition env s;
                        if q = running then Some (E_FAIL, s)
                        else
                          let (err, w) = partition_erase_range env q 0 (p_size q) (ota_world s); s = s\<lparr>ota_world := w\<rparr> in
                          if err \<noteq> E_OK then Some (err, s)
                          else let (err, w) = partition_erase_range env od (other * SPI_FLASH_SEC_SIZE) SPI_FLASH_SEC_SIZE (ota_world s)
                            in Some (err, s\<lparr>ota_world := w\<rparr>) }) })"

end
