(* ===== verification/Https_Ota.thy ===== *)
theory Https_Ota
  imports Http_Init Ota_Ops
begin

text \<open>
  The firmware update over HTTP (\<^verbatim>\<open>common/esp_https_ota/src/esp_https_ota.c\<close>), on top of the HTTP client and the OTA operations.
  The record \<open>https_ota\<close> is the handle; the state of the flash and of the running updates is the \<open>ota\<close> of \<^verbatim>\<open>Ota_Ops\<close>.  The
  record \<open>update_env\<close> joins the environments of both, with the answers of the heap.  \<open>None\<close> means that the device stops or that a
  loop does not end.  The configuration is that of \<^verbatim>\<open>sdkconfig\<close>: plain HTTP is not allowed.
\<close>

subsection \<open>Data\<close>

datatype https_ota_state = ESP_HTTPS_OTA_INIT | ESP_HTTPS_OTA_BEGIN | ESP_HTTPS_OTA_IN_PROGRESS | ESP_HTTPS_OTA_SUCCESS

record ('p, 'w) https_ota =
  update_handle :: u32
  update_partition :: "esp_partition option"
  ota_client :: "('p, 'w) http"
  ota_upgrade_buf :: bytes
  binary_file_len :: int
  ho_state :: https_ota_state

record ('p, 'w, 'f) update_env =
  u_net :: "('p, 'w) http_net"
  u_ota :: "'f ota_env"
  u_ready :: bool
  u_malloc :: "int \<Rightarrow> bytes option"
  u_calloc :: bool

abbreviation (input) IMAGE_HEADER_SIZE :: int where "IMAGE_HEADER_SIZE \<equiv> 289"

text \<open>The codes of the HTTP client as errors of the update.\<close>

definition err_of :: "int \<Rightarrow> esp_error" where
  "err_of e = (if e = 0 then E_OK else if e = - 1 then E_FAIL else if e = 0x101 then ESP_ERR_NO_MEM
     else if e = 0x102 then ESP_ERR_INVALID_ARG else ESP_ERR_OTHER e)"

subsection \<open>Connecting\<close>

definition process_again_code :: "int \<Rightarrow> bool" where
  "process_again_code status = (status = 301 \<or> status = 302 \<or> status = 307 \<or> status = 401)"

text \<open>The rest of a response that leads to another request is read and dropped.\<close>

partial_function (option) drain_response :: "('p, 'w) http_net \<Rightarrow> ('p, 'w) http \<Rightarrow> ('p, 'w) http option" where
  [code]: "drain_response net c =
    do { (data_read, _, c) \<leftarrow> esp_http_client_read net (replicate 289 0) 289 c;
         if data_read \<le> 0 then Some c else drain_response net c }"

definition http_handle_response_code :: "('p, 'w) http_net \<Rightarrow> int \<Rightarrow> ('p, 'w) http \<Rightarrow> (int \<times> ('p, 'w) http) option" where
  "http_handle_response_code net status c =
    do { (err, c) \<leftarrow> (if status = 301 \<or> status = 302 \<or> status = 307 then esp_http_client_set_redirection net c
                     else if status = 401 then map_option (\<lambda>c. (0, c)) (esp_http_client_add_auth net c)
                     else Some (0, c));
         if err \<noteq> 0 then Some (err, c)
         else if process_again_code status then map_option (\<lambda>c. (0, c)) (drain_response net c)
         else Some (0, c) }"

partial_function (option) http_connect :: "('p, 'w) http_net \<Rightarrow> ('p, 'w) http \<Rightarrow> (int \<times> ('p, 'w) http) option" where
  [code]: "http_connect net c =
    do { (err, c) \<leftarrow> esp_http_client_open net 0 c;
         if err \<noteq> 0 then Some (err, c)
         else
           do { (header_ret, c) \<leftarrow> esp_http_client_fetch_headers net c;
                if header_ret < 0 then Some (header_ret, c)
                else
                  let status = esp_http_client_get_status_code c in
                  do { (err, c) \<leftarrow> http_handle_response_code net status c;
                       if err \<noteq> 0 then Some (err, c)
                       else if process_again_code status then http_connect net c
                       else Some (0, c) } } }"

subsection \<open>The steps of an update\<close>

text \<open>The size of the buffer: the comparison is one of unsigned numbers.\<close>

definition alloc_size :: "http_config \<Rightarrow> int" where
  "alloc_size cfg = (if cfg_buffer_size cfg mod 2 ^ 32 > IMAGE_HEADER_SIZE then cfg_buffer_size cfg else IMAGE_HEADER_SIZE)"

text \<open>The result is the error with the handle, null when there is an error.\<close>

definition esp_https_ota_begin ::
  "('p, 'w, 'f) update_env \<Rightarrow> http_config option \<Rightarrow> 'w \<Rightarrow> 'f ota \<Rightarrow> ((esp_error \<times> ('p, 'w) https_ota option) \<times> 'f ota) option" where
  "esp_https_ota_begin env config w s =
    (case config of
       None \<Rightarrow> Some ((ESP_ERR_INVALID_ARG, None), s)
     | Some cfg \<Rightarrow>
       if cfg_cert_pem cfg = None then Some ((ESP_ERR_INVALID_ARG, None), s)
       else if \<not> u_calloc env then Some ((ESP_ERR_NO_MEM, None), s)
       else
         do { client \<leftarrow> esp_http_client_init (u_net env) (u_ready env) (u_malloc env) cfg w;
              case client of
                None \<Rightarrow> Some ((E_FAIL, None), s)
              | Some c \<Rightarrow>
                do { (err, c) \<leftarrow> http_connect (u_net env) c;
                     if err \<noteq> 0 then Some ((err_of err, None), s)
                     else
                       do { (part, s) \<leftarrow> esp_ota_get_next_update_partition (u_ota env) None s;
                            if part = None then Some ((E_FAIL, None), s)
                            else
                              Some (case u_malloc env (alloc_size cfg) of
                                  None \<Rightarrow> ((ESP_ERR_NO_MEM, None), s)
                                | Some buf \<Rightarrow>
                                  ((E_OK, Some \<lparr>update_handle = 0, update_partition = part, ota_client = c, ota_upgrade_buf = buf,
                                      binary_file_len = 0, ho_state = ESP_HTTPS_OTA_BEGIN\<rparr>), s)) } } })"

definition ota_write :: "('p, 'w, 'f) update_env \<Rightarrow> bytes \<Rightarrow> ('p, 'w) https_ota \<Rightarrow> 'f ota
    \<Rightarrow> (esp_error \<times> ('p, 'w) https_ota \<times> 'f ota) option" where
  "ota_write env buf hdl s =
    do { (err, s) \<leftarrow> esp_ota_write (u_ota env) (update_handle hdl) (Some buf) s;
         Some (if err \<noteq> E_OK then (err, hdl, s)
               else (ESP_ERR_HTTPS_OTA_IN_PROGRESS, hdl\<lparr>binary_file_len := binary_file_len hdl + int (length buf)\<rparr>, s)) }"

definition esp_https_ota_is_complete_data_received :: "('p, 'w) https_ota \<Rightarrow> bool" where
  "esp_https_ota_is_complete_data_received hdl = esp_http_client_is_complete_data_received (ota_client hdl)"

text \<open>\<open>errno\<close> after a closed connection: \<open>ENOTCONN\<close>, \<open>ECONNRESET\<close>, \<open>ECONNABORTED\<close>.\<close>

definition conn_closed :: "('p, 'w) http \<Rightarrow> bool" where
  "conn_closed c \<longleftrightarrow> h_errno c = 128 \<or> h_errno c = 104 \<or> h_errno c = 113"

text \<open>\<open>esp_http_client_read\<close> into the buffer of the handle, from the position \<open>pos\<close> on.\<close>

definition read_image :: "('p, 'w, 'f) update_env \<Rightarrow> nat \<Rightarrow> nat \<Rightarrow> ('p, 'w) https_ota \<Rightarrow> (int \<times> ('p, 'w) https_ota) option" where
  "read_image env pos len hdl =
    do { (n, b, c) \<leftarrow> esp_http_client_read (u_net env) (drop pos (ota_upgrade_buf hdl)) len (ota_client hdl);
         Some (n, hdl\<lparr>ota_client := c, ota_upgrade_buf := take pos (ota_upgrade_buf hdl) @ b\<rparr>) }"

text \<open>The loop that reads the image headers: the number of bytes still missing and of those read.\<close>

partial_function (option) desc_loop ::
  "('p, 'w, 'f) update_env \<Rightarrow> int \<Rightarrow> int \<Rightarrow> ('p, 'w) https_ota \<Rightarrow> (int \<times> int \<times> ('p, 'w) https_ota) option" where
  [code]: "desc_loop env data_read_size bytes_read hdl =
    (if data_read_size > 0 \<and> \<not> esp_https_ota_is_complete_data_received hdl then
       do { (data_read, hdl) \<leftarrow> read_image env (nat bytes_read) (nat data_read_size) hdl;
            if conn_closed (ota_client hdl) \<or> data_read < 0 then Some (data_read_size, bytes_read, hdl)
            else desc_loop env (data_read_size - data_read) (bytes_read + data_read) hdl }
     else Some (data_read_size, bytes_read, hdl))"

definition esp_https_ota_get_img_desc ::
  "('p, 'w, 'f) update_env \<Rightarrow> ('p, 'w) https_ota \<Rightarrow> (esp_error \<times> bytes \<times> ('p, 'w) https_ota) option" where
  "esp_https_ota_get_img_desc env hdl =
    (if ho_state hdl = ESP_HTTPS_OTA_INIT then Some (E_FAIL, [], hdl)
     else
       do { (data_read_size, bytes_read, hdl) \<leftarrow> desc_loop env IMAGE_HEADER_SIZE 0 hdl;
            Some (if data_read_size > 0 then (E_FAIL, [], hdl)
                  else (E_OK, take 256 (drop 32 (ota_upgrade_buf hdl)), hdl\<lparr>binary_file_len := bytes_read\<rparr>)) })"

definition perform_in_progress ::
  "('p, 'w, 'f) update_env \<Rightarrow> ('p, 'w) https_ota \<Rightarrow> 'f ota \<Rightarrow> (esp_error \<times> ('p, 'w) https_ota \<times> 'f ota) option" where
  "perform_in_progress env hdl s =
    do { (data_read, hdl) \<leftarrow> read_image env 0 (length (ota_upgrade_buf hdl)) hdl;
         if data_read = 0 then
           Some (if \<not> esp_https_ota_is_complete_data_received hdl
                 then (if conn_closed (ota_client hdl) then E_FAIL else ESP_ERR_HTTPS_OTA_IN_PROGRESS, hdl, s)
                 else (E_OK, hdl\<lparr>ho_state := ESP_HTTPS_OTA_SUCCESS\<rparr>, s))
         else if data_read > 0 then ota_write env (take (nat data_read) (ota_upgrade_buf hdl)) hdl s
         else Some (E_FAIL, hdl, s) }"

definition esp_https_ota_perform ::
  "('p, 'w, 'f) update_env \<Rightarrow> ('p, 'w) https_ota \<Rightarrow> 'f ota \<Rightarrow> (esp_error \<times> ('p, 'w) https_ota \<times> 'f ota) option" where
  "esp_https_ota_perform env hdl s =
    (case ho_state hdl of
       ESP_HTTPS_OTA_INIT \<Rightarrow> Some (E_FAIL, hdl, s)
     | ESP_HTTPS_OTA_BEGIN \<Rightarrow>
         do { ((err, h), s) \<leftarrow> esp_ota_begin (u_ota env) (update_partition hdl) OTA_SIZE_UNKNOWN s;
              if err \<noteq> E_OK then Some (err, hdl, s)
              else
                let hdl = hdl\<lparr>update_handle := the h, ho_state := ESP_HTTPS_OTA_IN_PROGRESS\<rparr> in
                if binary_file_len hdl \<noteq> 0
                then ota_write env (take (nat (binary_file_len hdl)) (ota_upgrade_buf hdl)) hdl s
                else perform_in_progress env hdl s }
     | ESP_HTTPS_OTA_IN_PROGRESS \<Rightarrow> perform_in_progress env hdl s
     | ESP_HTTPS_OTA_SUCCESS \<Rightarrow> Some (E_FAIL, hdl, s))"

text \<open>The error of \<open>esp_ota_set_boot_partition\<close> goes to a variable of the inner block.\<close>

definition esp_https_ota_finish ::
  "('p, 'w, 'f) update_env \<Rightarrow> ('p, 'w) https_ota option \<Rightarrow> 'f ota \<Rightarrow> (esp_error \<times> 'f ota) option" where
  "esp_https_ota_finish env handle s =
    (case handle of
       None \<Rightarrow> Some (ESP_ERR_INVALID_ARG, s)
     | Some hdl \<Rightarrow>
       if ho_state hdl = ESP_HTTPS_OTA_INIT then Some (E_FAIL, s)
       else
         let (err, s) = (if ho_state hdl = ESP_HTTPS_OTA_BEGIN then (E_OK, s) else esp_ota_end (u_ota env) (update_handle hdl) s) in
         if err = E_OK \<and> ho_state hdl = ESP_HTTPS_OTA_SUCCESS
         then do { (_, s) \<leftarrow> esp_ota_set_boot_partition (u_ota env) (update_partition hdl) s; Some (err, s) }
         else Some (err, s))"

definition esp_https_ota_get_image_len_read :: "('p, 'w) https_ota option \<Rightarrow> int" where
  "esp_https_ota_get_image_len_read handle =
    (case handle of
       None \<Rightarrow> - 1
     | Some hdl \<Rightarrow> if ho_state hdl = ESP_HTTPS_OTA_INIT \<or> ho_state hdl = ESP_HTTPS_OTA_BEGIN then - 1 else binary_file_len hdl)"

partial_function (option) update_loop ::
  "('p, 'w, 'f) update_env \<Rightarrow> ('p, 'w) https_ota \<Rightarrow> 'f ota \<Rightarrow> (esp_error \<times> ('p, 'w) https_ota \<times> 'f ota) option" where
  [code]: "update_loop env hdl s =
    do { (err, hdl, s) \<leftarrow> esp_https_ota_perform env hdl s;
         if err = ESP_ERR_HTTPS_OTA_IN_PROGRESS then update_loop env hdl s else Some (err, hdl, s) }"

definition finish_update ::
  "('p, 'w, 'f) update_env \<Rightarrow> ('p, 'w) https_ota \<Rightarrow> 'f ota \<Rightarrow> (esp_error \<times> 'f ota) option" where
  "finish_update env hdl s =
    do { (err, hdl, s) \<leftarrow> update_loop env hdl s;
         (finish_err, s) \<leftarrow> esp_https_ota_finish env (Some hdl) s;
         Some (if err \<noteq> E_OK then err else finish_err, s) }"

definition esp_https_ota ::
  "('p, 'w, 'f) update_env \<Rightarrow> http_config option \<Rightarrow> 'w \<Rightarrow> 'f ota \<Rightarrow> (esp_error \<times> 'f ota) option" where
  "esp_https_ota env config w s =
    (if config = None then Some (ESP_ERR_INVALID_ARG, s)
     else
       do { ((err, handle), s) \<leftarrow> esp_https_ota_begin env config w s;
            case handle of None \<Rightarrow> Some (E_FAIL, s) | Some hdl \<Rightarrow> finish_update env hdl s })"

end
