(* ===== verification/Otadrive.thy ===== *)
theory Otadrive
  imports App_Main Https_Ota "HOL-Library.Signed_Division"
begin

text \<open>
  The client of the update service (\<^verbatim>\<open>common/ota_driver/otadrive_esp.c\<close>) and the task of the main program that runs it
  (\<^verbatim>\<open>otadrive_test\<close> in \<^verbatim>\<open>main/blynk.c\<close>), on the models of the HTTP client and of the update over HTTPS.

  The record \<open>otadrive\<close> holds the static variables of the module: the session, the global HTTP client of the version check, the mutex
  (\<open>None\<close> before it is created, otherwise whether it is taken) and the events that were posted.  Strings in the arrays of the session are
  given without their terminators.  Time, the heap, the event loop and the network are the record \<open>otadrive_env\<close>; the \<open>n\<close>-th connection acts on
  the world \<open>o_world n\<close>.  Results are inside \<open>option\<close>: \<open>None\<close> when the device stops (a failed \<open>ESP_ERROR_CHECK\<close>, a null pointer, a division by
  zero, a \<open>strcpy\<close> past the end of its array) or when a loop does not end.  A restart of the device is a value of the result.
\<close>

subsection \<open>Data\<close>

record otadrive_session =
  apiKey :: bytes
  current_version :: bytes
  serial :: bytes
  serverurl :: bytes
  useMd5 :: bool
  useHTTPS :: bool
  hdr_ver :: bytes

record otadrive_result =
  r_code :: int
  available_version :: bytes
  available_size :: int

record ('p, 'w) otadrive =
  session :: otadrive_session
  od_client :: "('p, 'w) http option"
  size_unknown :: bool
  fw_size :: int
  otadrv_lock :: "bool option"
  od_events :: "(ota_event \<times> int option) list"
  od_readings :: nat
  od_conns :: nat

record ('p, 'w, 'f) otadrive_env =
  o_update :: "('p, 'w, 'f) update_env"
  esp_timer_get_time :: "nat \<Rightarrow> int"
  o_mutex :: bool
  o_mac :: u64
  o_post :: "nat \<Rightarrow> bool"
  o_world :: "nat \<Rightarrow> 'w"

abbreviation (input) CONFIG_OTADRIVE_URL :: bytes where "CONFIG_OTADRIVE_URL \<equiv> cstr ''otadrive.com/deviceapi''"
abbreviation (input) CONFIG_OTADRIVE_URL_LEN :: nat where "CONFIG_OTADRIVE_URL_LEN \<equiv> 160"
abbreviation (input) CONFIG_OTADRIVE_VER_LEN :: nat where "CONFIG_OTADRIVE_VER_LEN \<equiv> 32"
abbreviation (input) OTADRIVE_NoFirmwareExists :: int where "OTADRIVE_NoFirmwareExists \<equiv> 404"
abbreviation (input) OTADRIVE_NewFirmwareExists :: int where "OTADRIVE_NewFirmwareExists \<equiv> 200"

definition OTADRIVE_CERT :: bytes where
  "OTADRIVE_CERT = concat (map (\<lambda>l. cstr l @ [10]) [
    ''-----BEGIN CERTIFICATE-----'',
    ''MIIDuzCCAqOgAwIBAgIDBETAMA0GCSqGSIb3DQEBBQUAMH4xCzAJBgNVBAYTAlBM'',
    ''MSIwIAYDVQQKExlVbml6ZXRvIFRlY2hub2xvZ2llcyBTLkEuMScwJQYDVQQLEx5D'',
    ''ZXJ0dW0gQ2VydGlmaWNhdGlvbiBBdXRob3JpdHkxIjAgBgNVBAMTGUNlcnR1bSBU'',
    ''cnVzdGVkIE5ldHdvcmsgQ0EwHhcNMDgxMDIyMTIwNzM3WhcNMjkxMjMxMTIwNzM3'',
    ''WjB+MQswCQYDVQQGEwJQTDEiMCAGA1UEChMZVW5pemV0byBUZWNobm9sb2dpZXMg'',
    ''Uy5BLjEnMCUGA1UECxMeQ2VydHVtIENlcnRpZmljYXRpb24gQXV0aG9yaXR5MSIw'',
    ''IAYDVQQDExlDZXJ0dW0gVHJ1c3RlZCBOZXR3b3JrIENBMIIBIjANBgkqhkiG9w0B'',
    ''AQEFAAOCAQ8AMIIBCgKCAQEA4/t9o3K6wvDJFIf1awFO4W5AB7ptJ11/91sts1rH'',
    ''UV+rpDKmYYe2bg+G0jACl/jXaVehGDldamR5xgFZrDwxSjh80gTSSyjoIF87B6LM'',
    ''TXPb865Px1bVWqeWifrzq2jUI4ZZJ88JJ7ysbnKDHDBy3+Ci6dLhdHUZvSqeexVU'',
    ''BBvXQzmtVSjF4hq79MDkrjhJM8x2hZ85RdKknvISjFH4fOQtf/WsX+sWn7Et0brM'',
    ''kUJ3TCXJkDhv2/DM+44el1k+1WBO5gUo7Ul5E0u6SNsv+XLTOcr+H9g0cvW0QM8x'',
    ''AcPs3hEtF10fuFDRXhmnad4HMyjKUJX5p1TLVIZQRan5SQIDAQABo0IwQDAPBgNV'',
    ''HRMBAf8EBTADAQH/MB0GA1UdDgQWBBQIds3LB/8k9sXN7buQvOKEN0Z19zAOBgNV'',
    ''HQ8BAf8EBAMCAQYwDQYJKoZIhvcNAQEFBQADggEBAKaorSLOAT2mo/9i0Eidi15y'',
    ''sHhE49wcrwn9I0j6vSrEuVUEtRCjjSfeC4Jj0O7eDDd5QVsisrCaQVymcODU0HfL'',
    ''I9MA4GxWL+FpDQ3Zqr8hgVDZBqWo/5U30Kr+4rP1mS1FhIrlQgnXdAIv94nYmem8'',
    ''J9RHjboNRhx3zxSkHLmkMcScKHQDNP8zGSal6Q10tz6XxnboJ5ajZt3hrvJBW8qY'',
    ''VoNzcOSGGtIxQbovvi0TWnZvTuhOgQ4/WwMioBK+ZlgRSssDxLQqKi2WF+A5VLxI'',
    ''03YnnZotBqbJ7DnSq9ufmgsnAjUpsUCV5/nonFWIGUbWtzT1fs45mtk48VH3Tyw=''])
    @ cstr ''-----END CERTIFICATE-----''"

definition zero_result :: otadrive_result where
  "zero_result = \<lparr>r_code = 0, available_version = replicate CONFIG_OTADRIVE_VER_LEN 0, available_size = 0\<rparr>"

text \<open>\<open>strncpy\<close> of \<open>n\<close> bytes into an array: the text is cut or filled up with zeros.\<close>

definition strncpy_bytes :: "nat \<Rightarrow> bytes \<Rightarrow> bytes" where
  "strncpy_bytes n s = take n (c_str s @ replicate n 0)"

subsection \<open>The event loop, the mutex and the clock\<close>

definition post_event :: "('p, 'w, 'f) otadrive_env \<Rightarrow> ota_event \<Rightarrow> int option \<Rightarrow> ('p, 'w) otadrive \<Rightarrow> ('p, 'w) otadrive option" where
  "post_event env ev data d =
    (if o_post env (length (od_events d)) then Some (d\<lparr>od_events := od_events d @ [(ev, data)]\<rparr>) else None)"

definition take_lock :: "('p, 'w) otadrive \<Rightarrow> (bool \<times> ('p, 'w) otadrive) option" where
  "take_lock d =
    (case otadrv_lock d of
       None \<Rightarrow> None
     | Some taken \<Rightarrow> Some (if taken then (False, d) else (True, d\<lparr>otadrv_lock := Some True\<rparr>)))"

definition give_lock :: "('p, 'w) otadrive \<Rightarrow> ('p, 'w) otadrive" where
  "give_lock d = d\<lparr>otadrv_lock := Some False\<rparr>"

definition read_timer :: "('p, 'w, 'f) otadrive_env \<Rightarrow> ('p, 'w) otadrive \<Rightarrow> int \<times> ('p, 'w) otadrive" where
  "read_timer env d = (esp_timer_get_time env (od_readings d), d\<lparr>od_readings := od_readings d + 1\<rparr>)"

subsection \<open>The session\<close>

text \<open>\<^verbatim>\<open>%llx\<close>.\<close>

definition hex_text :: "u64 \<Rightarrow> bytes" where
  "hex_text n = (if n = 0 then [48] else dropWhile (\<lambda>b. b = 48) (hex_digits 16 (unat n)))"

text \<open>The address of the literal \<open>CONFIG_OTADRIVE_URL\<close> is what \<open>useHTTPS\<close> is set to: always true.\<close>

definition new_session :: "u64 \<Rightarrow> bytes \<Rightarrow> bytes \<Rightarrow> otadrive_session" where
  "new_session mac key ver =
    \<lparr>apiKey = key, current_version = ver, serial = hex_text mac,
     serverurl = take (CONFIG_OTADRIVE_URL_LEN - 1) (cstr ''https://'' @ CONFIG_OTADRIVE_URL),
     useMd5 = True, useHTTPS = True, hdr_ver = replicate CONFIG_OTADRIVE_VER_LEN 0\<rparr>"

definition otadrive_setInfo :: "('p, 'w, 'f) otadrive_env \<Rightarrow> bytes \<Rightarrow> bytes \<Rightarrow> ('p, 'w) otadrive \<Rightarrow> ('p, 'w) otadrive option" where
  "otadrive_setInfo env key ver d =
    (let d = (if otadrv_lock d = None \<and> o_mutex env then d\<lparr>otadrv_lock := Some False\<rparr> else d) in
     do { (ok, d) \<leftarrow> take_lock d;
          if \<not> ok then Some d
          else if length key \<ge> 40 \<or> length ver \<ge> 24 then None
          else Some (give_lock (d\<lparr>session := new_session (o_mac env) key ver\<rparr>)) })"

definition otadrive_currentversion :: "('p, 'w) otadrive \<Rightarrow> bytes" where
  "otadrive_currentversion d = current_version (session d)"

text \<open>The handler of the HTTP client's events remembers the version the service announces.\<close>

fun otadrive_http_event :: "http_event \<Rightarrow> otadrive_session \<Rightarrow> otadrive_session" where
  "otadrive_http_event (HTTP_EVENT_ON_HEADER key value) s =
    (if strcaseeq (take 20 key) (cstr ''X-Version'') then s\<lparr>hdr_ver := strncpy_bytes CONFIG_OTADRIVE_VER_LEN value\<rparr> else s)"
| "otadrive_http_event _ s = s"

text \<open>The events of a client from the \<open>k\<close>-th on.\<close>

definition handle_events :: "nat \<Rightarrow> ('p, 'w) http \<Rightarrow> ('p, 'w) otadrive \<Rightarrow> ('p, 'w) otadrive" where
  "handle_events k c d = d\<lparr>session := fold otadrive_http_event (drop k (hc_events (h_req c))) (session d)\<rparr>"

definition update_url :: "otadrive_session \<Rightarrow> bytes" where
  "update_url s = take (CONFIG_OTADRIVE_URL_LEN - 1)
     (serverurl s @ cstr ''/update?k='' @ apiKey s @ cstr ''&v='' @ current_version s @ cstr ''&s='' @ serial s)"

text \<open>A configuration with its fields zero but for the URL and the certificate.\<close>

definition plain_config :: "bytes \<Rightarrow> bytes option \<Rightarrow> http_config" where
  "plain_config url cert =
    \<lparr>cfg_url = Some url, cfg_host = None, cfg_port = 0, cfg_username = None, cfg_password = None, cfg_auth_type = HTTP_AUTH_TYPE_NONE,
     cfg_path = None, cfg_query = None, cfg_cert_pem = cert, cfg_user_agent = None, cfg_method = 0, cfg_timeout_ms = 0,
     cfg_disable_auto_redirect = False, cfg_max_redirection_count = 0, cfg_event_handler = False, cfg_transport_ssl = False,
     cfg_buffer_size = 0, cfg_buffer_size_tx = 0, cfg_is_async = False\<rparr>"

subsection \<open>Asking for a new version\<close>

definition info_config :: "otadrive_session \<Rightarrow> http_config" where
  "info_config s = (plain_config (update_url s) (Some OTADRIVE_CERT))\<lparr>cfg_method := HTTP_METHOD_HEAD, cfg_event_handler := True\<rparr>"

definition info_result :: "('p, 'w) http \<Rightarrow> otadrive_session \<Rightarrow> otadrive_result" where
  "info_result c s =
    (let code = esp_http_client_get_status_code c in
     if code = 200 then
       \<lparr>r_code = code, available_version = strncpy_bytes (CONFIG_OTADRIVE_VER_LEN - 1) (hdr_ver s) @ [0],
        available_size = esp_http_client_get_content_length c\<rparr>
     else if code = 304 \<or> code = 401 \<or> code = 404 then zero_result\<lparr>r_code := code\<rparr>
     else zero_result\<lparr>r_code := OTADRIVE_NoFirmwareExists\<rparr>)"

definition otadrive_updateFirmwareInfo ::
  "('p, 'w, 'f) otadrive_env \<Rightarrow> ('p, 'w) otadrive \<Rightarrow> (otadrive_result \<times> ('p, 'w) otadrive) option" where
  "otadrive_updateFirmwareInfo env d =
    do { (ok, d) \<leftarrow> take_lock d;
         if \<not> ok then Some (zero_result, d)
         else
           do { d \<leftarrow> post_event env OTADRIVE_EVENT_START_CHECK None d;
                let net = u_net (o_update env) in
                do { client \<leftarrow> esp_http_client_init net (u_ready (o_update env)) (u_malloc (o_update env)) (info_config (session d)) (o_world env (od_conns d));
                     c \<leftarrow> client;
                     (err, c) \<leftarrow> esp_http_client_perform net c;
                     (_, c) \<leftarrow> (if err = 0 then esp_http_client_fetch_headers net c else Some (err, c));
                     let d = handle_events 0 c (d\<lparr>od_conns := od_conns d + 1\<rparr>) in
                     Some (if err = 0 then info_result c (session d) else zero_result,
                           give_lock (d\<lparr>od_client := Some (close_client net c)\<rparr>)) } } }"

subsection \<open>Downloading it\<close>

definition validate_image_header :: "'f ota_env \<Rightarrow> 'f ota \<Rightarrow> (esp_error \<times> 'f ota) option" where
  "validate_image_header env s =
    do { (_, s) \<leftarrow> esp_ota_get_running_partition env s;
         (update, s) \<leftarrow> esp_ota_get_next_update_partition env None s;
         if update = None then None else Some (E_OK, s) }"

definition firmware_config :: "otadrive_session \<Rightarrow> http_config" where
  "firmware_config s = (plain_config (update_url s) (Some OTADRIVE_CERT))
     \<lparr>cfg_buffer_size := 4096, cfg_buffer_size_tx := 4096, cfg_timeout_ms := 30000\<rparr>"

text \<open>The size of the firmware is asked for once, over the client of the version check.\<close>

definition ask_size :: "('p, 'w, 'f) otadrive_env \<Rightarrow> ('p, 'w) otadrive \<Rightarrow> ('p, 'w) otadrive option" where
  "ask_size env d =
    (case od_client d of
       None \<Rightarrow> Some d
     | Some c0 \<Rightarrow>
       if \<not> size_unknown d then Some d
       else
         do { (_, c) \<leftarrow> esp_http_client_open (u_net (o_update env)) 1024 c0;
              (n, c) \<leftarrow> esp_http_client_fetch_headers (u_net (o_update env)) c;
              Some (handle_events (length (hc_events (h_req c0))) c (d\<lparr>size_unknown := False, fw_size := n, od_client := Some c\<rparr>)) })"

text \<open>\<open>uint8_t progress = dl * 100 / size\<close> with 32-bit integers; a product outside their range (more than 21 MB) wraps round.  A size
  of 0 ends the program.\<close>

definition progress_of :: "int \<Rightarrow> int \<Rightarrow> u8 option" where
  "progress_of dl n = (if n = 0 then None else Some (word_of_int (sint (word_of_int (dl * 100) :: 32 word) sdiv n)))"

text \<open>The body of the loop after a step that is in progress: \<open>None\<close> inside the result gives up.\<close>

definition after_step ::
  "('p, 'w, 'f) otadrive_env \<Rightarrow> int \<Rightarrow> int \<Rightarrow> int \<Rightarrow> int \<Rightarrow> int \<Rightarrow> ('p, 'w) otadrive \<Rightarrow> ((int \<times> int \<times> int) option \<times> ('p, 'w) otadrive) option"
where
  "after_step env dl t_break last_dl prev_progress fail_count d =
    do { d \<leftarrow> ask_size env d;
         let stuck = (last_dl \<noteq> - 1 \<and> dl = last_dl) in
         if stuck \<and> fail_count + 1 = 5 then Some (None, d)
         else
           let (t_break, fail_count, d) =
                 (if stuck then (t_break, fail_count + 1, d)
                  else let (now, d) = read_timer env d in (now + 1000 * 1000 * 120, 0, d)) in
           do { progress \<leftarrow> progress_of dl (fw_size d);
                d \<leftarrow> (if uint progress \<noteq> prev_progress
                     then post_event env OTADRIVE_EVENT_FIRMWARE_UPDATE_PROGRESS (Some (uint progress)) d else Some d);
                Some (Some (t_break, uint progress, fail_count), d) } }"

text \<open>The loop: the result of the step that ended it, or \<open>None\<close> when it gave up.\<close>

partial_function (option) download_loop ::
  "('p, 'w, 'f) otadrive_env \<Rightarrow> int \<Rightarrow> int \<Rightarrow> int \<Rightarrow> int \<Rightarrow> ('p, 'w) https_ota \<Rightarrow> ('p, 'w) otadrive \<Rightarrow> 'f ota
    \<Rightarrow> (esp_error option \<times> ('p, 'w) https_ota \<times> ('p, 'w) otadrive \<times> 'f ota) option" where
  [code]: "download_loop env t_break last_dl prev_progress fail_count hdl d s =
    (let (now, d) = read_timer env d in
     if now > t_break then Some (None, hdl, d, s)
     else
       do { (err, hdl, s) \<leftarrow> esp_https_ota_perform (o_update env) hdl s;
            if err \<noteq> ESP_ERR_HTTPS_OTA_IN_PROGRESS then Some (Some err, hdl, d, s)
            else
              let dl = esp_https_ota_get_image_len_read (Some hdl) in
              do { (next, d) \<leftarrow> after_step env dl t_break last_dl prev_progress fail_count d;
                   case next of
                     None \<Rightarrow> Some (None, hdl, d, s)
                   | Some (t_break, progress, fail_count) \<Rightarrow> download_loop env t_break dl progress fail_count hdl d s } })"

definition ota_failed ::
  "('p, 'w, 'f) otadrive_env \<Rightarrow> ('p, 'w) otadrive \<Rightarrow> 'f ota \<Rightarrow> (bool \<times> otadrive_result \<times> ('p, 'w) otadrive \<times> 'f ota) option" where
  "ota_failed env d s =
    do { d \<leftarrow> post_event env OTADRIVE_EVENT_UPDATE_FAILED None d; Some (False, zero_result, give_lock d, s) }"

text \<open>After the loop: an incomplete image is left as it is, a complete one is finished.\<close>

definition conclude ::
  "('p, 'w, 'f) otadrive_env \<Rightarrow> esp_error \<Rightarrow> ('p, 'w) https_ota \<Rightarrow> ('p, 'w) otadrive \<Rightarrow> 'f ota
    \<Rightarrow> (bool \<times> otadrive_result \<times> ('p, 'w) otadrive \<times> 'f ota) option" where
  "conclude env err hdl d s =
    (if \<not> esp_https_ota_is_complete_data_received hdl then ota_failed env d s
     else
       do { (finish_err, s) \<leftarrow> esp_https_ota_finish (o_update env) (Some hdl) s;
            if err = E_OK \<and> finish_err = E_OK then
              do { d \<leftarrow> post_event env OTADRIVE_EVENT_FINISH_UPDATE None d;
                   d \<leftarrow> post_event env OTADRIVE_EVENT_PENDING_REBOOT None d;
                   Some (True, zero_result, d, s) }
            else ota_failed env d s })"

text \<open>The first component of the result: the device restarts.\<close>

definition otadrive_updateFirmware ::
  "('p, 'w, 'f) otadrive_env \<Rightarrow> ('p, 'w) otadrive \<Rightarrow> 'f ota \<Rightarrow> (bool \<times> otadrive_result \<times> ('p, 'w) otadrive \<times> 'f ota) option" where
  "otadrive_updateFirmware env d s =
    (let (now, d) = read_timer env d; t_break = now + 1000 * 1000 * 30 in
     do { (ok, d) \<leftarrow> take_lock d;
          if \<not> ok then Some (False, zero_result, d, s)
          else
            do { ((err, handle), s) \<leftarrow> esp_https_ota_begin (o_update env) (Some (firmware_config (session d))) (o_world env (od_conns d)) s;
                 let d = d\<lparr>od_conns := od_conns d + 1\<rparr> in
                 if err \<noteq> E_OK then ota_failed env d s
                 else
                   do { hdl \<leftarrow> handle;
                        (err, _, hdl) \<leftarrow> esp_https_ota_get_img_desc (o_update env) hdl;
                        if err \<noteq> E_OK then ota_failed env d s
                        else
                          do { (err, s) \<leftarrow> validate_image_header (u_ota (o_update env)) s;
                               if err \<noteq> E_OK then ota_failed env d s
                               else
                                 do { (ended, hdl, d, s) \<leftarrow> download_loop env t_break (- 1) (- 1) 0 hdl d s;
                                      case ended of None \<Rightarrow> ota_failed env d s | Some err \<Rightarrow> conclude env err hdl d s } } } } })"

subsection \<open>The handler for data partitions\<close>

text \<open>The handler that stores a response in a data partition, with its static variables \<open>output_pos\<close> and \<open>last_progress\<close>; no code of the tree
  registers it.  \<open>percent\<close> is the quotient computed with floating point numbers.\<close>

record storage =
  output_pos :: nat
  last_progress :: int

definition http_event_storage_handler ::
  "('p, 'w, 'f) otadrive_env \<Rightarrow> (nat \<Rightarrow> nat \<Rightarrow> int) \<Rightarrow> esp_partition \<Rightarrow> bool \<Rightarrow> http_event \<Rightarrow> storage \<times> ('p, 'w) otadrive \<times> 'f
    \<Rightarrow> (storage \<times> ('p, 'w) otadrive \<times> 'f) option" where
  "http_event_storage_handler env percent part chunked ev st =
    (case (ev, st) of
       (HTTP_EVENT_ON_CONNECTED, (t, d, w)) \<Rightarrow> Some (\<lparr>output_pos = 0, last_progress = 0\<rparr>, d, w)
     | (HTTP_EVENT_ON_DATA data, (t, d, w)) \<Rightarrow>
         if chunked then Some st
         else
           let (ret, w) = (if output_pos t = 0 then partition_erase_range (u_ota (o_update env)) part 0 (p_size part) w else (E_OK, w)) in
           if ret \<noteq> E_OK then None
           else
             let (ret, w) = partition_write (u_ota (o_update env)) part (output_pos t) data w in
             if ret \<noteq> E_OK then None
             else
               let t = t\<lparr>output_pos := output_pos t + length data\<rparr>; progress = percent (output_pos t) (p_size part) in
               if progress mod 5 = 0 \<and> progress \<noteq> last_progress t
               then do { d \<leftarrow> post_event env OTADRIVE_EVENT_STORAGE_UPDATE_PROGRESS (Some progress) d;
                         Some (t\<lparr>last_progress := progress\<rparr>, d, w) }
               else Some (t, d, w)
     | _ \<Rightarrow> Some st)"

subsection \<open>The rest of the interface\<close>

definition otadrive_rollback :: esp_error where
  "otadrive_rollback = E_FAIL"

definition otadrive_get_event_str :: "ota_event \<Rightarrow> string" where
  "otadrive_get_event_str ev =
    (case ev of
       OTADRIVE_EVENT_START_CHECK \<Rightarrow> ''OTADRIVE_EVENT_START_CHECK''
     | OTADRIVE_EVENT_UPDATE_AVAILABLE \<Rightarrow> ''OTADRIVE_EVENT_UPDATE_AVAILABLE''
     | OTADRIVE_EVENT_NOUPDATE_AVAILABLE \<Rightarrow> ''OTADRIVE_EVENT_NOUPDATE_AVAILABLE''
     | OTADRIVE_EVENT_START_UPDATE \<Rightarrow> ''OTADRIVE_EVENT_START_UPDATE''
     | OTADRIVE_EVENT_FINISH_UPDATE \<Rightarrow> ''OTADRIVE_EVENT_FINISH_UPDATE''
     | OTADRIVE_EVENT_UPDATE_FAILED \<Rightarrow> ''OTADRIVE_EVENT_UPDATE_FAILED''
     | OTADRIVE_EVENT_START_STORAGE_UPDATE \<Rightarrow> ''OTADRIVE_EVENT_START_STORAGE_UPDATE''
     | OTADRIVE_EVENT_FINISH_STORAGE_UPDATE \<Rightarrow> ''OTADRIVE_EVENT_FINISH_STORAGE_UPDATE''
     | OTADRIVE_EVENT_STORAGE_UPDATE_FAILED \<Rightarrow> ''OTADRIVE_EVENT_STORAGE_UPDATE_FAILED''
     | OTADRIVE_EVENT_FIRMWARE_UPDATE_PROGRESS \<Rightarrow> ''OTADRIVE_EVENT_FIRMWARE_UPDATE_PROGRESS''
     | OTADRIVE_EVENT_STORAGE_UPDATE_PROGRESS \<Rightarrow> ''OTADRIVE_EVENT_STORAGE_UPDATE_PROGRESS''
     | OTADRIVE_EVENT_PENDING_REBOOT \<Rightarrow> ''OTADRIVE_EVENT_PENDING_REBOOT''
     | WIFI_CONNECTTED \<Rightarrow> ''WIFI OTA CONNECTTED''
     | WIFI_DISCONNECTTED \<Rightarrow> ''WIFI OTA DISCONNECTED'')"

text \<open>The time stamp is a local variable that starts at 0 in every call.\<close>

definition otadrive_timeTick :: "('p, 'w, 'f) otadrive_env \<Rightarrow> ('p, 'w) otadrive \<Rightarrow> bool \<times> ('p, 'w) otadrive" where
  "otadrive_timeTick env d =
    (let (now, d) = read_timer env d in if now > 0 then (True, snd (read_timer env d)) else (False, d))"

subsection \<open>The task\<close>

abbreviation (input) OTADRIVE_APIKEY :: bytes where "OTADRIVE_APIKEY \<equiv> cstr ''da260e55-0566-4581-85e7-22d8b9b3483b''"
abbreviation (input) APP_VERSION :: bytes where "APP_VERSION \<equiv> cstr ''v@1.6''"

text \<open>One pass of the loop in \<open>otadrive_test\<close>.\<close>

definition otadrive_pass ::
  "('p, 'w, 'f) otadrive_env \<Rightarrow> ('p, 'w) otadrive \<Rightarrow> 'f ota \<Rightarrow> (bool \<times> ('p, 'w) otadrive \<times> 'f ota) option" where
  "otadrive_pass env d s =
    do { (r, d) \<leftarrow> otadrive_updateFirmwareInfo env d;
         if r_code r = OTADRIVE_NewFirmwareExists
         then do { (restarted, _, d, s) \<leftarrow> otadrive_updateFirmware env d s; Some (restarted, d, s) }
         else Some (False, d, s) }"

text \<open>The task: \<open>otadrive_test env d s restarted d' s'\<close> when some number of passes leads to \<open>d'\<close> and \<open>s'\<close>, the last of which restarted the
  device or not.\<close>

inductive otadrive_test ::
  "('p, 'w, 'f) otadrive_env \<Rightarrow> ('p, 'w) otadrive \<Rightarrow> 'f ota \<Rightarrow> bool \<Rightarrow> ('p, 'w) otadrive \<Rightarrow> 'f ota \<Rightarrow> bool" for env d s
where
  start: "otadrive_setInfo env OTADRIVE_APIKEY APP_VERSION d = Some d' \<Longrightarrow> otadrive_test env d s False d' s"
| pass: "otadrive_test env d s False d1 s1 \<Longrightarrow> otadrive_pass env d1 s1 = Some (restarted, d2, s2) \<Longrightarrow> otadrive_test env d s restarted d2 s2"

end
