(* ===== verification/Http_Env.thy ===== *)
theory Http_Env
  imports Http_Response
begin

text \<open>
  A concrete environment for the HTTP client: a transport that delivers a given string in reads of at most five bytes, and
  a small parser of responses with a content length.  The hypotheses on outside code hold in it, and the
  witnesses run in it.
\<close>

subsection \<open>A parser\<close>

datatype mini_parser = Mini_head bytes | Mini_body nat

text \<open>The end of the head: the bytes up to and including an empty line, and what follows.\<close>

definition ends_head :: "bytes \<Rightarrow> bool" where
  "ends_head xs \<longleftrightarrow> drop (length xs - 4) xs = [13, 10, 13, 10]"

fun split_head :: "bytes \<Rightarrow> bytes \<Rightarrow> (bytes \<times> bytes) option" where
  "split_head acc [] = None"
| "split_head acc (b # bs) = (if ends_head (acc @ [b]) then Some (acc @ [b], bs) else split_head (acc @ [b]) bs)"

definition digits_value :: "bytes \<Rightarrow> nat" where
  "digits_value ds = fold (\<lambda>d n. 10 * n + (unat d - 48)) (takeWhile (\<lambda>d. 48 \<le> d \<and> d \<le> 57) ds) 0"

text \<open>The status follows \<open>HTTP/1.1\<close> and a space.\<close>

definition head_status :: "bytes \<Rightarrow> int" where
  "head_status xs = int (digits_value (drop 9 xs))"

definition head_length :: "bytes \<Rightarrow> nat" where
  "head_length xs =
    (case strstr xs (cstr ''Content-Length: '') of None \<Rightarrow> 0 | Some i \<Rightarrow> digits_value (drop (i + 16) xs))"

definition body_part :: "nat \<Rightarrow> nat \<Rightarrow> nat \<Rightarrow> parser_event list \<times> mini_parser" where
  "body_part pos len left =
    (let k = min len left in
     ((if k = 0 then [] else [On_body pos k]) @ (if k = left then [On_message_complete] else []), Mini_body (left - k)))"

fun mini_execute :: "mini_parser \<Rightarrow> bytes \<Rightarrow> parser_event list \<times> mini_parser" where
  "mini_execute (Mini_head acc) d =
    (let first = (if acc = [] then [On_message_begin] else []) in
     case split_head acc d of
       None \<Rightarrow> (first, Mini_head (acc @ d))
     | Some (h, b) \<Rightarrow>
        let n = head_length h; (evs, p) = body_part (length d - length b) (length b) n in
        (first @ On_headers_complete (head_status h) (int (length h)) (of_nat n) # evs, p))"
| "mini_execute (Mini_body k) d = body_part 0 (length d) k"

subsection \<open>A transport\<close>

definition piece_read :: "int \<Rightarrow> int \<Rightarrow> bytes \<Rightarrow> int \<times> bytes \<times> int option \<times> bytes" where
  "piece_read t n w = (let k = min (min 5 (nat n)) (length w) in (int k, take k w, None, drop k w))"

definition mini_net :: "(mini_parser, bytes) http_net" where
  "mini_net = \<lparr>request_env = \<lparr>http_mem = (\<lambda>k. True), esp_transport_write = (\<lambda>k n. if n > 7 then 7 else n), esp_transport_close = 0\<rparr>,
     write_errno = (\<lambda>k. 0), http_parser_init = Mini_head [], http_parser_execute = (\<lambda>hd p d. mini_execute p d),
     http_should_keep_alive = (\<lambda>p. False), http_parser_parse_url = (\<lambda>u. None), transport_read = piece_read,
     transport_for = (\<lambda>s. True), transport_connect = (\<lambda>h p t w. (0, w)), transport_connect_async = (\<lambda>h p t w. (1, w)),
     string_mem = (\<lambda>k. True), MD5 = (\<lambda>d. replicate 16 0), base64_encode = (\<lambda>d. d), esp_random = (\<lambda>w. (7, w))\<rparr>"

definition mini_request :: "http_state \<Rightarrow> http_client" where
  "mini_request st = \<lparr>hc_headers = \<lparr>hh_items = [\<lparr>hi_key = cstr ''Host'', hi_value = Some (cstr ''h'')\<rparr>], hh_allocs = 0\<rparr>,
     hc_buffer = replicate 40 0, buffer_size_tx = 40, hc_method = 0, hc_path = cstr ''/a'', hc_query = None,
     first_line_prepared = False, header_index = 0, data_written_index = 0, data_write_left = 0,
     hc_state = st, post_data = None, post_len = 0, is_async = False, has_event_handler = True,
     hc_events = [], hc_sent = [], hc_writes = 0\<rparr>"

text \<open>A client with a receive buffer of 16 bytes, connected to a transport that will deliver the bytes \<open>w\<close>.\<close>

definition mini_client :: "http_state \<Rightarrow> bytes \<Rightarrow> (mini_parser, bytes) http" where
  "mini_client st w = \<lparr>h_req = mini_request st,
     h_res = \<lparr>res_data = replicate 16 0, res_len = 0, raw_data = 0, raw_len = 0, output_ptr = None, status_code = 0,
       content_length = 0, data_offset = 0, data_process = 0, is_chunked = False\<rparr>,
     h_parser = Mini_head [], is_chunk_complete = False, current_header_key = None, current_header_value = None, location = None,
     auth_header = None, user_buf = [], buffer_size_rx = 16, timeout_ms = 5000, redirect_counter = 0, max_redirection_count = 10,
     disable_auto_redirect = False, process_again = False, h_scheme = Some (cstr ''http''), h_host = Some (cstr ''h''), h_port = 80,
     h_username = None, h_password = None, auth_type = HTTP_AUTH_TYPE_NONE, auth_data = None, h_errno = 0, h_allocs = 0, h_world = w\<rparr>"

definition mini_head :: bytes where
  "mini_head = cstr ''HTTP/1.1 200 OK'' @ [13, 10] @ cstr ''Content-Length: 12'' @ [13, 10, 13, 10]"

end
