(* ===== verification/Http_Read.thy ===== *)
theory Http_Read
  imports Http_Env
begin

text \<open>
  Reading a response: however the transport cuts the response into reads, the headers are found and the body is handed
  out completely and in order.  What is relied on of the transport (\<open>delivers\<close>) and of the parser (\<open>parses\<close>) is documented
  behaviour of theirs; \<^verbatim>\<open>Http_Env\<close> shows that it can hold.
\<close>

subsection \<open>What the transport and the parser do\<close>

text \<open>The transport has the bytes \<open>inp w\<close> still to deliver; a read gets some of them.\<close>

definition delivers :: "('p, 'w) http_net \<Rightarrow> ('w \<Rightarrow> bytes) \<Rightarrow> bool" where
  "delivers net inp \<longleftrightarrow> (\<forall>t m w. 0 < m \<and> inp w \<noteq> [] \<longrightarrow>
    (\<exists>k e w'. transport_read net t (int m) w = (int k, take k (inp w), e, w') \<and> 0 < k \<and> k \<le> m \<and> k \<le> length (inp w)
       \<and> inp w' = drop k (inp w)))"

fun head_event :: "parser_event \<Rightarrow> bool" where
  "head_event (On_headers_complete status nread len) = False"
| "head_event (On_body pos len) = False"
| "head_event On_message_complete = False"
| "head_event _ = True"

text \<open>The parser is \<open>http_parser\<close> on a response with a \<open>Content-Length\<close>, where it reports the body bytes of one call in one piece; responses
  in chunks, of which one call may report several, are not described.\<close>

text \<open>The end of a message whose body is announced with its length: a part of the body, and the end when it is the last.\<close>

definition body_events :: "nat \<Rightarrow> nat \<Rightarrow> nat \<Rightarrow> parser_event list" where
  "body_events pos len left = (if len = 0 then [] else [On_body pos len]) @ (if len = left then [On_message_complete] else [])"

text \<open>\<open>in_head p b h\<close>: the parser is inside the head, \<open>h\<close> is the rest of it, and \<open>b\<close> tells whether the message has begun;
  \<open>in_body p k\<close>: \<open>k\<close> bytes of the body are to come.  The head ends with the status and the length of the body.\<close>

definition parses ::
  "('p, 'w) http_net \<Rightarrow> ('p \<Rightarrow> bool \<Rightarrow> bytes \<Rightarrow> bool) \<Rightarrow> ('p \<Rightarrow> nat \<Rightarrow> bool) \<Rightarrow> int \<Rightarrow> nat \<Rightarrow> bool" where
  "parses net in_head in_body st n \<longleftrightarrow>
    (\<forall>p b h h'. in_head p b (h @ h') \<and> h \<noteq> [] \<and> h' \<noteq> [] \<longrightarrow>
       (\<exists>evs p'. http_parser_execute net False p h = (evs, p') \<and> list_all head_event evs \<and> (b \<or> On_message_begin \<in> set evs)
          \<and> in_head p' True h')) \<and>
    (\<forall>p b h d. in_head p b h \<and> h \<noteq> [] \<and> length d \<le> n \<longrightarrow>
       (\<exists>evs nread p'. http_parser_execute net False p (h @ d) =
            (evs @ On_headers_complete st nread (of_nat n) # body_events (length h) (length d) n, p')
          \<and> list_all head_event evs \<and> (b \<or> On_message_begin \<in> set evs) \<and> in_body p' (n - length d))) \<and>
    (\<forall>p k d. in_body p k \<and> d \<noteq> [] \<and> length d \<le> k \<longrightarrow>
       (\<exists>p'. http_parser_execute net False p d = (body_events 0 (length d) k, p') \<and> in_body p' (k - length d)))"

lemma parses_head:
  assumes "parses net in_head in_body st n" "in_head p b (h @ h')" "h \<noteq> []" "h' \<noteq> []"
  obtains evs p' where "http_parser_execute net False p h = (evs, p')" "list_all head_event evs"
    "b \<or> On_message_begin \<in> set evs" "in_head p' True h'"
  using assms unfolding parses_def by meson

lemma parses_end:
  assumes "parses net in_head in_body st n" "in_head p b h" "h \<noteq> []" "length d \<le> n"
  obtains evs nread p' where "http_parser_execute net False p (h @ d) =
      (evs @ On_headers_complete st nread (of_nat n) # body_events (length h) (length d) n, p')"
    "list_all head_event evs" "b \<or> On_message_begin \<in> set evs" "in_body p' (n - length d)"
  using assms unfolding parses_def by meson

lemma parses_body:
  assumes "parses net in_head in_body st n" "in_body p k" "d \<noteq> []" "length d \<le> k"
  obtains p' where "http_parser_execute net False p d = (body_events 0 (length d) k, p')" "in_body p' (k - length d)"
  using assms unfolding parses_def by meson

subsection \<open>The callbacks\<close>

lemma set_res_simps [simp]:
  "h_res (set_res f c) = f (h_res c)" "h_req (set_res f c) = h_req c" "h_parser (set_res f c) = h_parser c"
  "is_chunk_complete (set_res f c) = is_chunk_complete c" "user_buf (set_res f c) = user_buf c"
  "buffer_size_rx (set_res f c) = buffer_size_rx c" "h_world (set_res f c) = h_world c" "timeout_ms (set_res f c) = timeout_ms c"
  "current_header_key (set_res f c) = current_header_key c" "current_header_value (set_res f c) = current_header_value c"
  "h_allocs (set_res f c) = h_allocs c" "location (set_res f c) = location c" "auth_header (set_res f c) = auth_header c"
  "h_errno (set_res f c) = h_errno c"
  by (simp_all add: set_res_def)

lemma dispatch_simps [simp]:
  "h_res (dispatch ev c) = h_res c" "h_parser (dispatch ev c) = h_parser c" "is_chunk_complete (dispatch ev c) = is_chunk_complete c"
  "user_buf (dispatch ev c) = user_buf c" "buffer_size_rx (dispatch ev c) = buffer_size_rx c" "h_world (dispatch ev c) = h_world c"
  "hc_state (h_req (dispatch ev c)) = hc_state (h_req c)" "hc_method (h_req (dispatch ev c)) = hc_method (h_req c)"
  by (simp_all add: dispatch_def http_dispatch_event_def)

lemma callbacks_append: "callbacks net (xs @ ys) c = do { c \<leftarrow> callbacks net xs c; callbacks net ys c }"
  by (induction xs arbitrary: c) (auto split: option.splits bind_splits)

text \<open>The data the application's event handler has been given so far, and what stays the same during a response.\<close>

fun event_data :: "http_event \<Rightarrow> bytes" where
  "event_data (HTTP_EVENT_ON_DATA d) = d"
| "event_data _ = []"

definition data_seen :: "('p, 'w) http \<Rightarrow> bytes" where
  "data_seen c = concat (map event_data (hc_events (h_req c)))"

definition same_mode :: "('p, 'w) http \<Rightarrow> ('p, 'w) http \<Rightarrow> bool" where
  "same_mode c c' \<longleftrightarrow> is_async (h_req c') = is_async (h_req c) \<and> has_event_handler (h_req c') = has_event_handler (h_req c)
    \<and> process_again c' = process_again c"

lemma same_mode_refl [simp]: "same_mode c c" by (simp add: same_mode_def)

lemma same_mode_trans: "same_mode c c' \<Longrightarrow> same_mode c' c'' \<Longrightarrow> same_mode c c''" by (simp add: same_mode_def)

lemma seen_simps [simp]:
  "data_seen (set_res f c) = data_seen c"
  "data_seen (dispatch ev c) = data_seen c @ (if has_event_handler (h_req c) then event_data ev else [])"
  "is_async (h_req (dispatch ev c)) = is_async (h_req c)" "has_event_handler (h_req (dispatch ev c)) = has_event_handler (h_req c)"
  "process_again (dispatch ev c) = process_again c" "process_again (set_res f c) = process_again c"
  by (auto simp: data_seen_def set_res_def dispatch_def http_dispatch_event_def)

text \<open>What a callback inside the head leaves alone.\<close>

definition same_io :: "('p, 'w) http \<Rightarrow> ('p, 'w) http \<Rightarrow> bool" where
  "same_io c c' \<longleftrightarrow> h_parser c' = h_parser c \<and> user_buf c' = user_buf c \<and> buffer_size_rx c' = buffer_size_rx c
    \<and> h_world c' = h_world c \<and> hc_state (h_req c') = hc_state (h_req c) \<and> hc_method (h_req c') = hc_method (h_req c)
    \<and> res_data (h_res c') = res_data (h_res c) \<and> raw_data (h_res c') = raw_data (h_res c)
    \<and> raw_len (h_res c') = raw_len (h_res c) \<and> output_ptr (h_res c') = output_ptr (h_res c)
    \<and> same_mode c c' \<and> data_seen c' = data_seen c"

lemma same_io_refl [simp]: "same_io c c" by (simp add: same_io_def)

lemma same_io_trans: "same_io c c' \<Longrightarrow> same_io c' c'' \<Longrightarrow> same_io c c''" by (auto simp: same_io_def intro: same_mode_trans)

lemma header_event_io: "same_io c (http_on_header_event c) \<and> is_chunk_complete (http_on_header_event c) = is_chunk_complete c"
  by (auto simp: http_on_header_event_def same_io_def same_mode_def data_seen_def dispatch_def http_dispatch_event_def split: option.splits)

lemma append_client_string_io:
  assumes "\<forall>k. string_mem net k"
  shows "\<exists>s. append_client_string net str at c = Some (s, c\<lparr>h_allocs := h_allocs c + 1\<rparr>)"
  using assms by (auto simp: append_client_string_def http_utils_append_string_def Let_def)

lemma callback_head:
  assumes "\<forall>k. string_mem net k" "head_event ev"
  shows "\<exists>c'. callback net ev c = Some c' \<and> same_io c c'
    \<and> is_chunk_complete c' = (is_chunk_complete c \<and> ev \<noteq> On_message_begin)"
proof (cases ev)
  case (On_header_field at)
  obtain s where "append_client_string net (current_header_key (http_on_header_event c)) at (http_on_header_event c)
      = Some (s, (http_on_header_event c)\<lparr>h_allocs := h_allocs (http_on_header_event c) + 1\<rparr>)"
    using append_client_string_io [OF assms(1)] by blast
  then show ?thesis using On_header_field header_event_io [of c]
    by (auto simp: http_on_header_field_def Let_def same_io_def same_mode_def data_seen_def)
next
  case (On_header_value at)
  have app: "\<exists>s. append_client_string net str at c' = Some (s, c'\<lparr>h_allocs := h_allocs c' + 1\<rparr>)" for str c'
    by (rule append_client_string_io [OF assms(1)])
  show ?thesis
  proof (cases "current_header_key c")
    case None
    then show ?thesis using On_header_value by (simp add: http_on_header_value_def)
  next
    case (Some key)
    obtain s1 s2 where s: "append_client_string net (location c) at c = Some (s1, c\<lparr>h_allocs := h_allocs c + 1\<rparr>)"
      "append_client_string net (auth_header c) at c = Some (s2, c\<lparr>h_allocs := h_allocs c + 1\<rparr>)" using app by metis
    define c1 where "c1 = (if strcaseeq key (cstr ''Location'') then c\<lparr>h_allocs := h_allocs c + 1, location := s1\<rparr>
      else if strcaseeq key (cstr ''Transfer-Encoding'') \<and> memcmp_chunked at then set_res (\<lambda>r. r\<lparr>is_chunked := True\<rparr>) c
      else if strcaseeq key (cstr ''WWW-Authenticate'') then c\<lparr>h_allocs := h_allocs c + 1, auth_header := s2\<rparr> else c)"
    obtain s3 where "append_client_string net (current_header_value c1) at c1 = Some (s3, c1\<lparr>h_allocs := h_allocs c1 + 1\<rparr>)"
      using app by metis
    then have "callback net ev c = Some (c1\<lparr>h_allocs := h_allocs c1 + 1, current_header_value := s3\<rparr>)"
      using s Some On_header_value by (auto simp: http_on_header_value_def c1_def)
    moreover have "same_io c c1" "is_chunk_complete c1 = is_chunk_complete c" by (auto simp: c1_def same_io_def same_mode_def data_seen_def)
    ultimately show ?thesis using On_header_value by (auto simp: same_io_def same_mode_def data_seen_def)
  qed
qed (use assms(2) in \<open>auto simp: same_io_def same_mode_def data_seen_def http_on_message_begin_def\<close>)

lemma callbacks_head:
  assumes "\<forall>k. string_mem net k" "list_all head_event evs"
  shows "\<exists>c'. callbacks net evs c = Some c' \<and> same_io c c'
    \<and> is_chunk_complete c' = (is_chunk_complete c \<and> On_message_begin \<notin> set evs)"
  using assms(2)
proof (induction evs arbitrary: c)
  case (Cons ev evs)
  obtain c1 where c1: "callback net ev c = Some c1" "same_io c c1"
    "is_chunk_complete c1 = (is_chunk_complete c \<and> ev \<noteq> On_message_begin)"
    using callback_head [OF assms(1), of ev c] Cons.prems by auto
  obtain c2 where "callbacks net evs c1 = Some c2" "same_io c1 c2"
    "is_chunk_complete c2 = (is_chunk_complete c1 \<and> On_message_begin \<notin> set evs)"
    using Cons.IH [of c1] Cons.prems by auto
  then show ?case using c1 by (auto intro: same_io_trans)
qed simp

subsection \<open>The body\<close>

text \<open>The client after the headers of a response with \<open>n\<close> bytes of body: \<open>raw\<close> has been parsed and waits in the receive
  buffer, \<open>rest\<close> is still to be delivered by the transport.\<close>

definition body_state ::
  "('w \<Rightarrow> bytes) \<Rightarrow> ('p \<Rightarrow> nat \<Rightarrow> bool) \<Rightarrow> nat \<Rightarrow> bytes \<Rightarrow> bytes \<Rightarrow> ('p, 'w) http \<Rightarrow> bool" where
  "body_state inp in_body n raw rest c \<longleftrightarrow>
    in_body (h_parser c) (length rest) \<and> inp (h_world c) = rest
    \<and> content_length (h_res c) = int n \<and> data_process (h_res c) = int n - int (length rest)
    \<and> is_chunk_complete c = (rest = [])
    \<and> 0 < buffer_size_rx c \<and> buffer_size_rx c = int (length (res_data (h_res c)))
    \<and> output_ptr (h_res c) = None \<and> hc_method (h_req c) \<noteq> 5 \<and> hc_state (h_req c) = HTTP_STATE_RES_COMPLETE_HEADER
    \<and> raw_len (h_res c) = int (length raw) \<and> take (length raw) (drop (raw_data (h_res c)) (res_data (h_res c))) = raw"

lemma body_stateD:
  assumes "body_state inp in_body n raw rest c"
  shows "in_body (h_parser c) (length rest)" "inp (h_world c) = rest" "content_length (h_res c) = int n"
    "data_process (h_res c) = int n - int (length rest)" "is_chunk_complete c = (rest = [])"
    "0 < buffer_size_rx c" "buffer_size_rx c = int (length (res_data (h_res c)))" "output_ptr (h_res c) = None"
    "hc_method (h_req c) \<noteq> 5" "hc_state (h_req c) = HTTP_STATE_RES_COMPLETE_HEADER"
    "raw_len (h_res c) = int (length raw)" "take (length raw) (drop (raw_data (h_res c)) (res_data (h_res c))) = raw"
  using assms unfolding body_state_def by - (elim conjE, assumption)+

lemma body_remain:
  assumes "body_state inp in_body n raw rest c"
  shows "is_data_remain c = (rest \<noteq> [])" "esp_http_client_is_complete_data_received c = (rest = [])"
  using body_stateD [OF assms] by (auto simp: is_data_remain_def esp_http_client_is_complete_data_received_def)

text \<open>The events of the body on a client whose receive buffer holds the bytes.\<close>

definition after_body :: "nat \<Rightarrow> nat \<Rightarrow> nat \<Rightarrow> ('p, 'w) http \<Rightarrow> ('p, 'w) http" where
  "after_body pos len left c =
    (let c = (if len = 0 then c else http_on_body pos len c) in if len = left then c\<lparr>is_chunk_complete := True\<rparr> else c)"

lemma callbacks_body: "callbacks net (body_events pos len left) c = Some (after_body pos len left c)"
  by (auto simp: body_events_def after_body_def Let_def http_on_message_complete_def)

lemma after_body_simps [simp]:
  "h_parser (after_body pos len left c) = h_parser c" "h_world (after_body pos len left c) = h_world c"
  "buffer_size_rx (after_body pos len left c) = buffer_size_rx c"
  "hc_state (h_req (after_body pos len left c)) = hc_state (h_req c)"
  "hc_method (h_req (after_body pos len left c)) = hc_method (h_req c)"
  "is_chunk_complete (after_body pos len left c) = (is_chunk_complete c \<or> len = left)"
  "res_data (h_res (after_body pos len left c)) = res_data (h_res c)"
  "content_length (h_res (after_body pos len left c)) = content_length (h_res c)"
  "data_process (h_res (after_body pos len left c)) = data_process (h_res c) + int len"
  "raw_len (h_res (after_body pos len left c)) = raw_len (h_res c) + int len"
  by (auto simp: after_body_def http_on_body_def Let_def split: option.splits)

lemma after_body_seen:
  "same_mode c (after_body pos len left c)"
  "data_seen (after_body pos len left c) =
    data_seen c @ (if has_event_handler (h_req c) then take len (drop pos (res_data (h_res c))) else [])"
  by (auto simp: after_body_def http_on_body_def Let_def same_mode_def data_seen_def dispatch_def http_dispatch_event_def set_res_def
      split: option.splits)

lemma after_body_output:
  "0 < len \<Longrightarrow> raw_data (h_res (after_body pos len left c)) = pos"
  "output_ptr (h_res (after_body pos len left c)) = map_option (\<lambda>out. out + len) (output_ptr (h_res c))"
  "output_ptr (h_res c) = None \<Longrightarrow> user_buf (after_body pos len left c) = user_buf c"
  "output_ptr (h_res c) = Some out \<Longrightarrow>
    user_buf (after_body pos len left c) = mem_write out (take len (drop pos (res_data (h_res c)))) (user_buf c)"
  by (auto simp: after_body_def http_on_body_def Let_def split: option.splits)

lemma read_transport_delivers:
  assumes "delivers net inp" "0 < m" "m \<le> length (res_data (h_res c))" "inp (h_world c) \<noteq> []"
  obtains k e w where "read_transport net (int m) c = (int k, (set_res (\<lambda>r. r\<lparr>res_data := mem_write 0 (take k (inp (h_world c))) (res_data r)\<rparr>) c)
      \<lparr>h_errno := e, h_world := w\<rparr>)" "0 < k" "k \<le> m" "k \<le> length (inp (h_world c))" "inp w = drop k (inp (h_world c))"
proof -
  obtain k e w where r: "transport_read net (timeout_ms c) (int m) (h_world c) = (int k, take k (inp (h_world c)), e, w)"
    "0 < k" "k \<le> m" "k \<le> length (inp (h_world c))" "inp w = drop k (inp (h_world c))"
    using assms(1,2,4) unfolding delivers_def by blast
  show ?thesis
    by (rule that [of k w "case e of None \<Rightarrow> h_errno c | Some e \<Rightarrow> e", OF _ r(2-5)])
      (simp add: read_transport_def r(1) Let_def cong: option.case_cong)
qed

lemma run_body:
  assumes "parses net in_head in_body st n" "in_body (h_parser c) k" "hc_method (h_req c) \<noteq> 5"
    and "0 < len" "len \<le> k" "len \<le> length (res_data (h_res c))"
  obtains p where "run_parser net len c = Some (after_body 0 len k (c\<lparr>h_parser := p\<rparr>))" "in_body p (k - len)"
proof -
  let ?d = "take len (res_data (h_res c))"
  have d: "?d \<noteq> []" "length ?d = len" using assms(4,6) by auto
  then obtain p where "http_parser_execute net False (h_parser c) ?d = (body_events 0 len k, p)" "in_body p (k - len)"
    using parses_body [OF assms(1,2) d(1)] assms(5) by auto
  then show ?thesis using that assms(3) by (simp add: run_parser_def callbacks_body)
qed

text \<open>One turn of the loop: some of the rest arrives and is put into the caller's buffer.\<close>

lemma read_loop_step:
  assumes "delivers net inp" "parses net in_head in_body st n" "body_state inp in_body n [] rest c"
    and "rest \<noteq> []" "0 < need" "ridx + need \<le> length (user_buf c)"
  obtains k c' where "0 < k" "k \<le> need" "k \<le> length rest"
    "read_loop net (int need) (int ridx) c = read_loop net (int (need - k)) (int (ridx + k)) c'"
    "body_state inp in_body n [] (drop k rest) c'" "user_buf c' = mem_write ridx (take k rest) (user_buf c)"
proof -
  note b = body_stateD [OF assms(3)]
  let ?m = "min need (length (res_data (h_res c)))"
  let ?c0 = "c\<lparr>h_errno := 0\<rparr>"
  have m: "0 < ?m" "?m \<le> length (res_data (h_res ?c0))" "min (int need) (buffer_size_rx c) = int ?m" using assms(5) b(6,7) by auto
  have w0: "inp (h_world ?c0) = rest" using b(2) by simp
  obtain k e w where rt: "read_transport net (int ?m) ?c0 = (int k, (set_res (\<lambda>r. r\<lparr>res_data := mem_write 0 (take k rest) (res_data r)\<rparr>) ?c0)
      \<lparr>h_errno := e, h_world := w\<rparr>)" "0 < k" "k \<le> ?m" "k \<le> length rest" "inp w = drop k rest"
    by (rule read_transport_delivers [OF assms(1) m(1,2), unfolded w0, OF assms(4)])
  define c1 where "c1 = set_res (\<lambda>r. r\<lparr>output_ptr := Some ridx\<rparr>)
    ((set_res (\<lambda>r. r\<lparr>res_data := mem_write 0 (take k rest) (res_data r)\<rparr>) ?c0)\<lparr>h_errno := e, h_world := w\<rparr>)"
  have c1: "h_parser c1 = h_parser c" "h_req c1 = h_req c" "length (res_data (h_res c1)) = length (res_data (h_res c))"
    "take k (res_data (h_res c1)) = take k rest" using rt(3,4) by (simp_all add: c1_def mem_write_0)
  obtain p where p: "run_parser net k c1 = Some (after_body 0 k (length rest) (c1\<lparr>h_parser := p\<rparr>))" "in_body p (length rest - k)"
  proof (rule run_body [OF assms(2), of c1 "length rest" k])
    show "in_body (h_parser c1) (length rest)" "hc_method (h_req c1) \<noteq> 5" using b(1,9) c1 by simp_all
    show "0 < k" "k \<le> length rest" "k \<le> length (res_data (h_res c1))" using rt(2-4) c1(3) by simp_all
  qed
  define c2 where "c2 = after_body 0 k (length rest) (c1\<lparr>h_parser := p\<rparr>)"
  define c' where "c' = set_res (\<lambda>r. r\<lparr>raw_len := 0, output_ptr := None\<rparr>) c2"
  have raw: "raw_len (h_res c2) = int k" using b(11) by (simp add: c2_def c1_def)
  have "read_loop net (int need) (int ridx) c = read_loop net (int (need - k)) (int (ridx + k)) c'"
    using assms(5) rt body_remain(1) [OF assms(3)] assms(4) m p raw
    by (subst read_loop.simps) (simp add: c1_def [symmetric] c2_def [symmetric] c'_def of_nat_diff)
  moreover have "body_state inp in_body n [] (drop k rest) c'"
    using b p(2) rt(2-5) by (auto simp: body_state_def c'_def c2_def c1_def)
  moreover have "user_buf c' = mem_write ridx (take k rest) (user_buf c)"
    using c1(4) after_body_output(4) [of "c1\<lparr>h_parser := p\<rparr>" ridx] by (simp add: c'_def c2_def) (simp add: c1_def)
  ultimately show ?thesis using that rt(2-4) by simp
qed

lemma read_loop_body:
  assumes "delivers net inp" "parses net in_head in_body st n" "body_state inp in_body n [] rest c"
    and "ridx + need \<le> length (user_buf c)"
  shows "\<exists>c'. read_loop net (int need) (int ridx) c = Some (int (ridx + min need (length rest)), c')
    \<and> body_state inp in_body n [] (drop need rest) c' \<and> length (user_buf c') = length (user_buf c)
    \<and> take (ridx + min need (length rest)) (user_buf c') = take ridx (user_buf c) @ take need rest"
  using assms(3,4)
proof (induction "length rest" arbitrary: rest c ridx need rule: less_induct)
  case less
  show ?case
  proof (cases "need = 0 \<or> rest = []")
    case True
    then show ?thesis using less.prems body_remain(1) [OF less.prems(1)] by (subst read_loop.simps) auto
  next
    case False
    obtain k c' where k: "0 < k" "k \<le> need" "k \<le> length rest"
      "read_loop net (int need) (int ridx) c = read_loop net (int (need - k)) (int (ridx + k)) c'"
      "body_state inp in_body n [] (drop k rest) c'" "user_buf c' = mem_write ridx (take k rest) (user_buf c)"
      using read_loop_step [OF assms(1,2) less.prems(1) _ _ less.prems(2)] False by auto
    have len: "length (user_buf c') = length (user_buf c)" using k less.prems(2) by simp
    have pre: "take (ridx + k) (user_buf c') = take ridx (user_buf c) @ take k rest"
      using k(2,3,6) less.prems(2) take_mem_write_same [of ridx "take k rest" "user_buf c"] by simp
    have sum: "ridx + k + min (need - k) (length (drop k rest)) = ridx + min need (length rest)"
      "take (need - k) (drop k rest) = drop k (take need rest)" "take k (take need rest) = take k rest"
      using k(1-3) by (auto simp: drop_take)
    have "length (drop k rest) < length rest" "ridx + k + (need - k) \<le> length (user_buf c')"
      using k(1-3) len less.prems(2) by simp_all
    from less.hyps [OF this(1) k(5) this(2)] obtain c'' where
      "read_loop net (int (need - k)) (int (ridx + k)) c' = Some (int (ridx + min need (length rest)), c'')"
      "body_state inp in_body n [] (drop (need - k) (drop k rest)) c''" "length (user_buf c'') = length (user_buf c')"
      "take (ridx + min need (length rest)) (user_buf c'') = take (ridx + k) (user_buf c') @ take (need - k) (drop k rest)"
      unfolding sum(1) by blast
    then show ?thesis using k(2,4) len pre sum append_take_drop_id [of k "take need rest"] by auto
  qed
qed

text \<open>A call of \<open>esp_http_client_read\<close> returns the next bytes of the body, as many as there are and the caller wants.\<close>

lemma read_body:
  assumes "delivers net inp" "parses net in_head in_body st n" "body_state inp in_body n raw rest c" "len \<le> length buffer"
  obtains b c' where "esp_http_client_read net buffer len c = Some (int (min len (length (raw @ rest))), b, c')"
    "length b = length buffer" "take (min len (length (raw @ rest))) b = take len (raw @ rest)"
    "body_state inp in_body n (drop len raw) (drop (len - length raw) rest) c'"
proof -
  note b = body_stateD [OF assms(3)]
  define j where "j = min len (length raw)"
  have fit: "raw_data (h_res c) + length raw \<le> length (res_data (h_res c)) \<or> raw = []"
    using b(12) by (cases raw) (auto dest!: arg_cong [where f = length])
  define c1 where "c1 = snd (take_raw (int len) (c\<lparr>user_buf := buffer\<rparr>))"
  have t: "take_raw (int len) (c\<lparr>user_buf := buffer\<rparr>) = (int j, c1)"
    using b(11) by (auto simp: c1_def take_raw_def Let_def j_def)
  have tj: "take j (drop (raw_data (h_res c)) (res_data (h_res c))) = take j raw"
    using b(12) by (metis j_def min.commute take_take take_all_iff min.cobounded2 min_def)
  have nj: "nat (min (int (length raw)) (int len)) = j" by (simp add: j_def)
  have "user_buf c1 = mem_write 0 (take j raw) buffer" using tj b(11) nj by (cases "raw = []") (auto simp: c1_def take_raw_def Let_def)
  then have ub: "length (user_buf c1) = length buffer" "take j (user_buf c1) = take j raw"
    using assms(4) by (auto simp: mem_write_0 j_def)
  have "take (length raw - j) (drop (raw_data (h_res c) + j) (res_data (h_res c))) = drop j raw"
    using b(12) by (metis add.commute drop_drop drop_take)
  then have b1: "body_state inp in_body n (drop j raw) rest c1"
    using b by (auto simp: body_state_def c1_def take_raw_def Let_def j_def min_def)
  define need where "need = len - j"
  have need: "int len - int j = int need" "j + need \<le> length (user_buf c1)" using ub assms(4) by (auto simp: need_def j_def)
  obtain c' where c': "read_loop net (int need) (int j) c1 = Some (int (j + min need (length rest)), c')"
    "body_state inp in_body n (drop j raw) (drop need rest) c'" "length (user_buf c') = length buffer"
    "take (j + min need (length rest)) (user_buf c') = take j raw @ take need rest"
  proof (cases "need = 0")
    case True
    then have "read_loop net (int need) (int j) c1 = Some (int j, c1)" by (subst read_loop.simps) simp
    then show ?thesis using that [of c1] True b1 ub by simp
  next
    case False
    then have "drop j raw = []" by (auto simp: need_def j_def)
    then show ?thesis using that read_loop_body [OF assms(1,2) _ need(2)] b1 ub by fastforce
  qed
  have n: "j + min need (length rest) = min len (length (raw @ rest))" "take j raw @ take need rest = take len (raw @ rest)"
    "drop j raw = drop len raw" "drop need rest = drop (len - length raw) rest"
    by (auto simp: need_def j_def min_def)
  show ?thesis
    by (rule that [of "user_buf c'" c']) (use c' need t n in \<open>simp_all add: esp_http_client_read_def\<close>)
qed

lemma read_response_body:
  assumes "delivers net inp" "parses net in_head in_body st n" "body_state inp in_body n raw rest c" "len \<le> length buffer"
  obtains b c' where "esp_http_client_read_response net buffer len c = Some (int (min len (length (raw @ rest))), b, c')"
    "length b = length buffer" "take (min len (length (raw @ rest))) b = take len (raw @ rest)"
    "body_state inp in_body n (drop len raw) (drop (len - length raw) rest) c'"
proof -
  let ?k = "min len (length (raw @ rest))"
  obtain b c1 where r: "esp_http_client_read net buffer len c = Some (int ?k, b, c1)"
    "length b = length buffer" "take ?k b = take len (raw @ rest)"
    "body_state inp in_body n (drop len raw) (drop (len - length raw) rest) c1" by (rule read_body [OF assms])
  consider "len = 0" | "0 < len" "\<not> (0 < ?k \<and> ?k < len)" | "0 < ?k \<and> ?k < len" by linarith
  then show ?thesis
  proof cases
    case 1
    then have "esp_http_client_read_response net buffer len c = Some (0, buffer, c)"
      by (subst esp_http_client_read_response_def, subst read_response_loop.simps) simp
    then show ?thesis using that [of buffer c] 1 assms(3) by simp
  next
    case False: 2
    then have "esp_http_client_read_response net buffer len c = Some (int ?k, b, c1)"
      using r(1,2) assms(4) by (subst esp_http_client_read_response_def, subst read_response_loop.simps, subst read_response_loop.simps)
        (auto simp: min_def split: if_splits)
    then show ?thesis using that r by blast
  next
    case True: 3
    then have e: "drop len raw = []" "drop (len - length raw) rest = []" "len - ?k \<le> length (drop ?k b)"
      using assms(4) r(2) by auto
    obtain b2 c2 where r2: "esp_http_client_read net (drop ?k b) (len - ?k) c1 = Some (0, b2, c2)" "length b2 = length (drop ?k b)"
      "body_state inp in_body n [] [] c2"
      by (rule read_body [OF assms(1,2) r(4) e(3), unfolded e(1,2)]) simp
    have "esp_http_client_read_response net buffer len c = Some (int ?k, take ?k b @ b2, c2)"
      using True r r2 by (subst esp_http_client_read_response_def, subst read_response_loop.simps, subst read_response_loop.simps)
        (simp add: min_def split: if_splits)
    then show ?thesis using that [of "take ?k b @ b2" c2] r2 r(2,3) e True assms(4) by (simp add: min_def)
  qed
qed

subsection \<open>The headers\<close>

definition head_state ::
  "('w \<Rightarrow> bytes) \<Rightarrow> ('p \<Rightarrow> bool \<Rightarrow> bytes \<Rightarrow> bool) \<Rightarrow> bytes \<Rightarrow> bytes \<Rightarrow> ('p, 'w) http \<Rightarrow> bool" where
  "head_state inp in_head h bd c \<longleftrightarrow>
    (\<exists>b. in_head (h_parser c) b h \<and> (b \<longrightarrow> \<not> is_chunk_complete c)) \<and> h \<noteq> [] \<and> inp (h_world c) = h @ bd
    \<and> 0 < buffer_size_rx c \<and> buffer_size_rx c = int (length (res_data (h_res c)))
    \<and> output_ptr (h_res c) = None \<and> hc_method (h_req c) \<noteq> 5 \<and> raw_len (h_res c) = 0"

lemma head_stateD:
  assumes "head_state inp in_head h bd c"
  shows "\<exists>b. in_head (h_parser c) b h \<and> (b \<longrightarrow> \<not> is_chunk_complete c)" "h \<noteq> []" "inp (h_world c) = h @ bd"
    "0 < buffer_size_rx c" "buffer_size_rx c = int (length (res_data (h_res c)))" "output_ptr (h_res c) = None"
    "hc_method (h_req c) \<noteq> 5" "raw_len (h_res c) = 0"
  using assms unfolding head_state_def by - (elim conjE, assumption)+

lemma content_length_int: "n < 2 ^ 31 \<Longrightarrow> sint (ucast (of_nat n :: u64) :: u32) = int n"
  by (simp add: unsigned_of_nat take_bit_nat_eq_self signed_of_nat signed_take_bit_int_eq_self)

lemma headers_complete_simps [simp]:
  "h_parser (http_on_headers_complete st nread len c) = h_parser c" "h_world (http_on_headers_complete st nread len c) = h_world c"
  "buffer_size_rx (http_on_headers_complete st nread len c) = buffer_size_rx c"
  "is_chunk_complete (http_on_headers_complete st nread len c) = is_chunk_complete c"
  "hc_state (h_req (http_on_headers_complete st nread len c)) = HTTP_STATE_RES_COMPLETE_HEADER"
  "hc_method (h_req (http_on_headers_complete st nread len c)) = hc_method (h_req c)"
  "res_data (h_res (http_on_headers_complete st nread len c)) = res_data (h_res c)"
  "raw_len (h_res (http_on_headers_complete st nread len c)) = raw_len (h_res c)"
  "output_ptr (h_res (http_on_headers_complete st nread len c)) = output_ptr (h_res c)"
  "content_length (h_res (http_on_headers_complete st nread len c)) = sint (ucast len :: u32)"
  "data_process (h_res (http_on_headers_complete st nread len c)) = 0"
  "status_code (h_res (http_on_headers_complete st nread len c)) = st"
  using header_event_io [of c]
  by (simp_all add: http_on_headers_complete_def set_http_state_def same_io_def)

lemma after_body_status [simp]: "status_code (h_res (after_body pos len left c)) = status_code (h_res c)"
  by (auto simp: after_body_def http_on_body_def Let_def split: option.splits)

text \<open>The bytes that complete the head, with the first part \<open>d\<close> of the body.\<close>

lemma run_head_end:
  assumes "parses net in_head in_body st n" "\<forall>k. string_mem net k" "head_state inp in_head h bd c"
    and "inp w = drop (length d) bd" "d = take (length d) bd" "length bd = n" "0 < n" "n < 2 ^ 31"
    and "length (h @ d) \<le> length (res_data (h_res c))"
  shows "\<exists>c'. run_parser net (length (h @ d))
        (set_res (\<lambda>r. r\<lparr>res_data := mem_write 0 (h @ d) (res_data r), res_len := l\<rparr>) (c\<lparr>h_errno := e, h_world := w\<rparr>)) = Some c'
    \<and> body_state inp in_body n d (drop (length d) bd) c' \<and> status_code (h_res c') = st
    \<and> same_mode c c' \<and> (has_event_handler (h_req c) \<longrightarrow> data_seen c' = data_seen c @ d)"
proof -
  let ?c1 = "set_res (\<lambda>r. r\<lparr>res_data := mem_write 0 (h @ d) (res_data r), res_len := l\<rparr>) (c\<lparr>h_errno := e, h_world := w\<rparr>)"
  note hs = head_stateD(2,4-8) [OF assms(3)]
  obtain b where b: "in_head (h_parser c) b h" "b \<longrightarrow> \<not> is_chunk_complete c" using head_stateD(1) [OF assms(3)] by blast
  have dn: "length d \<le> n" using assms(5,6) by (metis length_take min.cobounded1)
  obtain evs nread p' where ex: "http_parser_execute net False (h_parser c) (h @ d) =
      (evs @ On_headers_complete st nread (of_nat n) # body_events (length h) (length d) n, p')"
    "list_all head_event evs" "b \<or> On_message_begin \<in> set evs" "in_body p' (n - length d)"
    by (rule parses_end [OF assms(1) b(1) hs(1) dn])
  obtain c2 where c2: "callbacks net evs (?c1\<lparr>h_parser := p'\<rparr>) = Some c2" "same_io (?c1\<lparr>h_parser := p'\<rparr>) c2"
    "is_chunk_complete c2 = (is_chunk_complete c \<and> On_message_begin \<notin> set evs)"
    using callbacks_head [OF assms(2) ex(2), of "?c1\<lparr>h_parser := p'\<rparr>"] by auto
  define c' where "c' = after_body (length h) (length d) n (http_on_headers_complete st nread (of_nat n) c2)"
  have dat: "res_data (h_res c2) = mem_write 0 (h @ d) (res_data (h_res c))" using c2(2) by (simp add: same_io_def)
  have buf: "take (length (h @ d)) (res_data (h_res ?c1)) = h @ d" by (simp add: mem_write_0)
  have "run_parser net (length (h @ d)) ?c1 = Some c'"
    using ex(1) c2(1) hs(5) buf by (simp add: run_parser_def callbacks_append callbacks_body c'_def)
  moreover have "body_state inp in_body n d (drop (length d) bd) c'"
  proof -
    have "take (length d) (drop (raw_data (h_res c')) (res_data (h_res c'))) = d"
    proof (cases "d = []")
      case False
      then have "raw_data (h_res c') = length h" by (simp add: c'_def after_body_output(1))
      then show ?thesis using dat by (simp add: c'_def mem_write_0)
    qed simp
    moreover have "\<not> is_chunk_complete c2" using c2(3) b(2) ex(3) by auto
    moreover have "(length d = n) = (drop (length d) bd = [])" using dn assms(6) by auto
    ultimately show ?thesis
      using c2(2) ex(4) hs assms(4,6-9) content_length_int [OF assms(8)] dat dn
      by (simp add: body_state_def c'_def same_io_def after_body_output(2) of_nat_diff)
  qed
  moreover have "status_code (h_res c') = st" by (simp add: c'_def)
  moreover have hc: "same_mode c2 (http_on_headers_complete st nread (of_nat n) c2)"
    "data_seen (http_on_headers_complete st nread (of_nat n) c2) = data_seen c2"
    using header_event_io [of c2]
    by (auto simp: http_on_headers_complete_def set_http_state_def same_io_def same_mode_def data_seen_def)
  moreover have "same_mode c c2" "data_seen c2 = data_seen c" using c2(2) by (auto simp: same_io_def same_mode_def data_seen_def)
  moreover have "take (length d) (drop (length h) (res_data (h_res c2))) = d" using dat by (simp add: mem_write_0)
  ultimately show ?thesis
    using after_body_seen [where c = "http_on_headers_complete st nread (of_nat n) c2" and pos = "length h" and len = "length d" and left = n]
    by (auto simp: c'_def same_mode_def)
qed

lemma run_head_more:
  assumes "parses net in_head in_body st n" "\<forall>k. string_mem net k" "head_state inp in_head (h @ h') bd c"
    and "inp w = h' @ bd" "h \<noteq> []" "h' \<noteq> []" "length h \<le> length (res_data (h_res c))"
  shows "\<exists>c'. run_parser net (length h)
        (set_res (\<lambda>r. r\<lparr>res_data := mem_write 0 h (res_data r), res_len := l\<rparr>) (c\<lparr>h_errno := e, h_world := w\<rparr>)) = Some c'
    \<and> head_state inp in_head h' bd c' \<and> h_state c' = h_state c \<and> same_mode c c' \<and> data_seen c' = data_seen c"
proof -
  let ?c1 = "set_res (\<lambda>r. r\<lparr>res_data := mem_write 0 h (res_data r), res_len := l\<rparr>) (c\<lparr>h_errno := e, h_world := w\<rparr>)"
  note hs = head_stateD(4-8) [OF assms(3)]
  obtain b where b: "in_head (h_parser c) b (h @ h')" "b \<longrightarrow> \<not> is_chunk_complete c" using head_stateD(1) [OF assms(3)] by blast
  obtain evs p' where ex: "http_parser_execute net False (h_parser c) h = (evs, p')" "list_all head_event evs"
    "b \<or> On_message_begin \<in> set evs" "in_head p' True h'"
    by (rule parses_head [OF assms(1) b(1) assms(5,6)])
  obtain c2 where c2: "callbacks net evs (?c1\<lparr>h_parser := p'\<rparr>) = Some c2" "same_io (?c1\<lparr>h_parser := p'\<rparr>) c2"
    "is_chunk_complete c2 = (is_chunk_complete c \<and> On_message_begin \<notin> set evs)"
    using callbacks_head [OF assms(2) ex(2), of "?c1\<lparr>h_parser := p'\<rparr>"] by auto
  have "run_parser net (length h) ?c1 = Some c2" using ex(1) c2(1) hs(4) by (simp add: run_parser_def mem_write_0)
  moreover have "\<not> is_chunk_complete c2" using c2(3) b(2) ex(3) by auto
  moreover have "same_mode c c2" "data_seen c2 = data_seen c" using c2(2) by (auto simp: same_io_def same_mode_def data_seen_def)
  ultimately show ?thesis using c2(2) ex(4) hs assms(4,6,7) by (auto simp: head_state_def same_io_def intro!: exI [of _ True])
qed

lemma fetch_loop_head:
  assumes "delivers net inp" "parses net in_head in_body st n" "\<forall>k. string_mem net k" "length bd = n" "0 < n" "n < 2 ^ 31"
    and "head_state inp in_head h bd c" "h_state c = HTTP_STATE_REQ_COMPLETE_DATA"
  shows "\<exists>d c'. fetch_loop net c = Some (True, c') \<and> body_state inp in_body n d (drop (length d) bd) c' \<and> d = take (length d) bd
    \<and> status_code (h_res c') = st \<and> same_mode c c' \<and> (has_event_handler (h_req c) \<longrightarrow> data_seen c' = data_seen c @ d)"
  using assms(7,8)
proof (induction "length h" arbitrary: h c rule: less_induct)
  case less
  note hs = head_stateD [OF less.prems(1)]
  let ?m = "length (res_data (h_res c))"
  have m: "0 < ?m" "inp (h_world c) \<noteq> []" using hs(2-5) by auto
  obtain k e w where rt: "read_transport net (int ?m) c = (int k, (set_res (\<lambda>r. r\<lparr>res_data := mem_write 0 (take k (h @ bd)) (res_data r)\<rparr>) c)
      \<lparr>h_errno := e, h_world := w\<rparr>)" "0 < k" "k \<le> ?m" "k \<le> length (h @ bd)" "inp w = drop k (h @ bd)"
    by (rule read_transport_delivers [OF assms(1) m(1) order.refl m(2), unfolded hs(3)])
  let ?c1 = "set_res (\<lambda>r. r\<lparr>res_data := mem_write 0 (take k (h @ bd)) (res_data r), res_len := int k\<rparr>) (c\<lparr>h_errno := e, h_world := w\<rparr>)"
  have step: "fetch_loop net c = do { c \<leftarrow> run_parser net k ?c1; fetch_loop net c }"
    using rt(1,2) hs(5) less.prems(2) by (subst fetch_loop.simps) (simp add: set_res_def)
  show ?case
  proof (cases "k < length h")
    case True
    let ?h = "take k h" and ?h' = "drop k h"
    obtain c' where "run_parser net k ?c1 = Some c'" "head_state inp in_head ?h' bd c'" "h_state c' = h_state c"
      "same_mode c c'" "data_seen c' = data_seen c"
      using run_head_more [OF assms(2,3), of inp ?h ?h' bd c w "int k" e] less.prems(1) rt True hs(2) by (auto simp: min_def)
    moreover have "length ?h' < length h" using True rt(2) by simp
    moreover from calculation less.hyps [of ?h' c'] obtain d c'' where "fetch_loop net c' = Some (True, c'')"
      "body_state inp in_body n d (drop (length d) bd) c''" "d = take (length d) bd" "status_code (h_res c'') = st" "same_mode c' c''"
      "has_event_handler (h_req c') \<longrightarrow> data_seen c'' = data_seen c' @ d"
      using less.prems(2) by auto
    ultimately show ?thesis using step by (auto simp: same_mode_def)
  next
    case False
    define d where "d = take (k - length h) bd"
    have d: "take k (h @ bd) = h @ d" "length (h @ d) = k" "d = take (length d) bd" "inp w = drop (length d) bd"
      using False rt(4,5) by (auto simp: d_def)
    obtain c' where "run_parser net k ?c1 = Some c'" "body_state inp in_body n d (drop (length d) bd) c'" "status_code (h_res c') = st"
      "same_mode c c'" "has_event_handler (h_req c) \<longrightarrow> data_seen c' = data_seen c @ d"
      using run_head_end [OF assms(2,3) less.prems(1) d(4,3) assms(4-6), of "int k" e] rt(3) d(1,2) by auto
    moreover from this have "fetch_loop net c' = Some (True, c')"
      using body_stateD(10) by (subst fetch_loop.simps) fastforce
    ultimately show ?thesis using step d(3) by auto
  qed
qed

lemma fetch_headers_body:
  assumes "delivers net inp" "parses net in_head in_body st n" "\<forall>k. string_mem net k" "length bd = n" "0 < n" "n < 2 ^ 31"
    and "head_state inp in_head h bd c" "h_state c = HTTP_STATE_REQ_COMPLETE_HEADER \<or> h_state c = HTTP_STATE_REQ_COMPLETE_DATA"
  obtains d c1 where "esp_http_client_fetch_headers net c = Some (int n, c1)" "body_state inp in_body n d (drop (length d) bd) c1"
    "d = take (length d) bd" "status_code (h_res c1) = st" "same_mode c c1"
    "has_event_handler (h_req c) \<longrightarrow> data_seen c1 = data_seen c @ d"
proof -
  let ?c = "set_res (\<lambda>r. r\<lparr>status_code := - 1\<rparr>) (set_http_state HTTP_STATE_REQ_COMPLETE_DATA c)"
  have hs: "head_state inp in_head h bd ?c" using assms(7) by (auto simp: head_state_def set_http_state_def)
  have c: "same_mode c ?c" "data_seen ?c = data_seen c" "h_state ?c = HTTP_STATE_REQ_COMPLETE_DATA"
    by (simp_all add: same_mode_def data_seen_def set_http_state_def)
  obtain d c1 where f: "fetch_loop net ?c = Some (True, c1)" "body_state inp in_body n d (drop (length d) bd) c1" "d = take (length d) bd"
    "status_code (h_res c1) = st" "same_mode ?c c1" "has_event_handler (h_req ?c) \<longrightarrow> data_seen c1 = data_seen ?c @ d"
    using fetch_loop_head [OF assms(1-6) hs c(3)] by blast
  have "esp_http_client_fetch_headers net c = Some (int n, c1)"
    using assms(5,8) f(1) body_stateD(3) [OF f(2)] by (auto simp: esp_http_client_fetch_headers_def)
  then show ?thesis using that f(2-6) c(1,2) by (auto simp: same_mode_def)
qed

text \<open>C39: A response whose length is announced is read completely.  Once the request is sent, \<open>esp_http_client_fetch_headers\<close> returns the length of the body and
  makes the status available, and \<open>esp_http_client_read_response\<close> then returns as much of the body as the caller's buffer holds, byte for
  byte, however the transport cuts the response into reads and however small the receive buffer is, and with or
  without part of the body arriving together with the headers; when the buffer holds the whole body, the response is known to be complete.
  The parser hands the body bytes of one call over in one piece (\<^theory_text>\<open>parses\<close>), as \<open>http_parser\<close> does for a body of announced length;
  chunked bodies, where one call may report several pieces, are outside, and \<open>http_on_body\<close> does go wrong on them.\<close>

theorem response_read_completely:
  assumes "delivers net inp" "parses net in_head in_body st n" "\<forall>k. string_mem net k" "length bd = n" "0 < n" "n < 2 ^ 31"
    and "head_state inp in_head h bd c" "h_state c = HTTP_STATE_REQ_COMPLETE_HEADER \<or> h_state c = HTTP_STATE_REQ_COMPLETE_DATA"
    and "len \<le> length buffer"
  shows "\<exists>c1 b c2. esp_http_client_fetch_headers net c = Some (int n, c1) \<and> esp_http_client_get_status_code c1 = st
    \<and> esp_http_client_read_response net buffer len c1 = Some (int (min len n), b, c2)
    \<and> take (min len n) b = take len bd \<and> (n \<le> len \<longrightarrow> esp_http_client_is_complete_data_received c2)"
proof -
  obtain d c1 where fetch: "esp_http_client_fetch_headers net c = Some (int n, c1)" and f: "body_state inp in_body n d (drop (length d) bd) c1"
    "d = take (length d) bd" "status_code (h_res c1) = st" by (rule fetch_headers_body [OF assms(1-8)])
  have bd: "d @ drop (length d) bd = bd" using f(2) by (metis append_take_drop_id)
  obtain b c2 where r: "esp_http_client_read_response net buffer len c1 = Some (int (min len n), b, c2)" "length b = length buffer"
    "take (min len n) b = take len bd" "body_state inp in_body n (drop len d) (drop (len - length d) (drop (length d) bd)) c2"
    by (rule read_response_body [OF assms(1,2) f(1) assms(9), unfolded bd assms(4)])
  have "n \<le> len \<longrightarrow> drop (len - length d) (drop (length d) bd) = []" using assms(4) by auto
  with r fetch f(3) body_remain(2) [OF r(4)] show ?thesis by (auto simp: esp_http_client_get_status_code_def)
qed

subsection \<open>On the concrete parser and transport\<close>

lemma mini_delivers: "delivers mini_net id"
  by (auto simp: delivers_def mini_net_def piece_read_def Let_def neq_Nil_conv intro!: exI)

text \<open>A head that ends with its first empty line is found.\<close>

definition is_head :: "bytes \<Rightarrow> bool" where
  "is_head H \<longleftrightarrow> ends_head H \<and> list_all (\<lambda>k. \<not> ends_head (take k H)) [0..<length H]"

lemma split_head_more:
  assumes "is_head H" "acc @ h @ h' = H" "h' \<noteq> []"
  shows "split_head acc h = None"
  using assms(2)
proof (induction h arbitrary: acc)
  case (Cons b h)
  then have "acc @ [b] = take (Suc (length acc)) H" "Suc (length acc) < length H" using assms(3) by auto
  then have "\<not> ends_head (acc @ [b])" using assms(1) by (auto simp: is_head_def list_all_iff)
  then show ?case using Cons.IH [of "acc @ [b]"] Cons.prems by simp
qed simp

lemma split_head_end:
  assumes "is_head H" "acc @ h = H" "h \<noteq> []"
  shows "split_head acc (h @ d) = Some (H, d)"
  using assms(2,3)
proof (induction h arbitrary: acc)
  case (Cons b h)
  show ?case
  proof (cases "h = []")
    case True
    then show ?thesis using Cons.prems assms(1) by (simp add: is_head_def)
  next
    case False
    then have "acc @ [b] = take (Suc (length acc)) H" "Suc (length acc) < length H" using Cons.prems by auto
    then have "\<not> ends_head (acc @ [b])" using assms(1) by (auto simp: is_head_def list_all_iff)
    then show ?thesis using Cons.IH [of "acc @ [b]"] Cons.prems False by simp
  qed
qed simp

definition mini_in_head :: "bytes \<Rightarrow> mini_parser \<Rightarrow> bool \<Rightarrow> bytes \<Rightarrow> bool" where
  "mini_in_head H p b h \<longleftrightarrow> (\<exists>acc. p = Mini_head acc \<and> acc @ h = H \<and> b = (acc \<noteq> []))"

lemma mini_parses:
  assumes "is_head H" "head_status H = st" "head_length H = n"
  shows "parses mini_net (mini_in_head H) (\<lambda>p k. p = Mini_body k) st n"
  unfolding parses_def
proof (intro conjI allI impI)
  fix p b h h' assume "mini_in_head H p b (h @ h') \<and> h \<noteq> [] \<and> h' \<noteq> []"
  then show "\<exists>evs p'. http_parser_execute mini_net False p h = (evs, p') \<and> list_all head_event evs \<and> (b \<or> On_message_begin \<in> set evs)
      \<and> mini_in_head H p' True h'"
    using split_head_more [OF assms(1)] by (auto simp: mini_in_head_def mini_net_def)
next
  fix p b h and d :: bytes assume a: "mini_in_head H p b h \<and> h \<noteq> [] \<and> length d \<le> n"
  then obtain acc where acc: "p = Mini_head acc" "acc @ h = H" "b = (acc \<noteq> [])" by (auto simp: mini_in_head_def)
  have "split_head acc (h @ d) = Some (H, d)" using split_head_end [OF assms(1) acc(2)] a by blast
  then show "\<exists>evs nread p'. http_parser_execute mini_net False p (h @ d) =
      (evs @ On_headers_complete st nread (of_nat n) # body_events (length h) (length d) n, p')
      \<and> list_all head_event evs \<and> (b \<or> On_message_begin \<in> set evs) \<and> p' = Mini_body (n - length d)"
    using a acc(1,3) assms(2,3) by (auto simp: mini_net_def body_part_def body_events_def min_def Let_def intro!: exI [of _ "if acc = [] then [On_message_begin] else []"])
next
  fix p k and d :: bytes assume "p = Mini_body k \<and> d \<noteq> [] \<and> length d \<le> k"
  then show "\<exists>p'. http_parser_execute mini_net False p d = (body_events 0 (length d) k, p') \<and> p' = Mini_body (k - length d)"
    by (auto simp: mini_net_def body_part_def body_events_def min_def Let_def)
qed

lemma mini_head_state:
  "H \<noteq> [] \<Longrightarrow> head_state id (mini_in_head H) H bd (mini_client st (H @ bd))"
  by (auto simp: head_state_def mini_in_head_def mini_client_def mini_request_def)

theorem response_read_completely_witness:
  "\<exists>c1 b c2. esp_http_client_fetch_headers mini_net (mini_client HTTP_STATE_REQ_COMPLETE_DATA (mini_head @ cstr ''Hello, world'')) = Some (12, c1)
    \<and> esp_http_client_get_status_code c1 = 200
    \<and> esp_http_client_read_response mini_net (replicate 20 0) 20 c1 = Some (12, b, c2) \<and> take 12 b = cstr ''Hello, world''"
proof -
  have h: "is_head mini_head" "head_status mini_head = 200" "head_length mini_head = 12" "mini_head \<noteq> []" by code_simp+
  have "h_state (mini_client HTTP_STATE_REQ_COMPLETE_DATA w) = HTTP_STATE_REQ_COMPLETE_DATA" for w
    by (simp add: mini_client_def mini_request_def)
  moreover have "length (cstr ''Hello, world'') = 12" "take 20 (cstr ''Hello, world'') = cstr ''Hello, world''" by code_simp+
  moreover have "\<forall>k. string_mem mini_net k" by (simp add: mini_net_def)
  ultimately show ?thesis
    using response_read_completely [OF mini_delivers mini_parses [OF h(1-3)] _ _ _ _ mini_head_state [OF h(4)], of "cstr ''Hello, world''"
        HTTP_STATE_REQ_COMPLETE_DATA 20 "replicate 20 0"] by auto
qed

end
