(* ===== verification/Http_Exchange.thy ===== *)
theory Http_Exchange
  imports Http_Perform Http_Read
begin

text \<open>
  A whole exchange: \<open>esp_http_client_perform\<close> hands the body of a successful response to the application's event handler,
  complete and in order, whatever the sizes of the reads.
\<close>

subsection \<open>Taking in the body\<close>

text \<open>As \<open>body_state\<close>, without the part kept in the receive buffer.\<close>

definition body_flow :: "('w \<Rightarrow> bytes) \<Rightarrow> ('p \<Rightarrow> nat \<Rightarrow> bool) \<Rightarrow> nat \<Rightarrow> bytes \<Rightarrow> ('p, 'w) http \<Rightarrow> bool" where
  "body_flow inp in_body n rest c \<longleftrightarrow>
    in_body (h_parser c) (length rest) \<and> inp (h_world c) = rest
    \<and> content_length (h_res c) = int n \<and> data_process (h_res c) = int n - int (length rest)
    \<and> is_chunk_complete c = (rest = [])
    \<and> 0 < buffer_size_rx c \<and> buffer_size_rx c = int (length (res_data (h_res c)))
    \<and> output_ptr (h_res c) = None \<and> hc_method (h_req c) \<noteq> 5 \<and> hc_state (h_req c) = HTTP_STATE_RES_COMPLETE_HEADER"

lemma body_flowD:
  assumes "body_flow inp in_body n rest c"
  shows "in_body (h_parser c) (length rest)" "inp (h_world c) = rest" "content_length (h_res c) = int n"
    "data_process (h_res c) = int n - int (length rest)" "is_chunk_complete c = (rest = [])"
    "0 < buffer_size_rx c" "buffer_size_rx c = int (length (res_data (h_res c)))" "output_ptr (h_res c) = None"
    "hc_method (h_req c) \<noteq> 5" "hc_state (h_req c) = HTTP_STATE_RES_COMPLETE_HEADER"
  using assms unfolding body_flow_def by - (elim conjE, assumption)+

lemma body_state_flow: "body_state inp in_body n raw rest c \<Longrightarrow> body_flow inp in_body n rest c"
  by (auto simp: body_state_def body_flow_def)

lemma body_missing_flow:
  "body_flow inp in_body n rest c \<Longrightarrow> body_missing b c = ((b \<longrightarrow> is_chunked (h_res c)) \<and> rest \<noteq> [])"
  using body_flowD [of inp in_body n rest c] by (auto simp: body_missing_def)

lemma get_data_step:
  assumes "delivers net inp" "parses net in_head in_body st n" "body_flow inp in_body n rest c" "rest \<noteq> []"
  obtains k c' where "0 < k" "esp_http_client_get_data net c = Some (int k, c')" "body_flow inp in_body n (drop k rest) c'"
    "same_mode c c'" "status_code (h_res c') = status_code (h_res c)"
    "has_event_handler (h_req c) \<Longrightarrow> data_seen c' = data_seen c @ take k rest"
proof -
  note b = body_flowD [OF assms(3)]
  let ?m = "length (res_data (h_res c))"
  have m: "0 < ?m" "inp (h_world c) \<noteq> []" using b(2,6,7) assms(4) by auto
  obtain k e w where rt: "read_transport net (int ?m) c = (int k, (set_res (\<lambda>r. r\<lparr>res_data := mem_write 0 (take k rest) (res_data r)\<rparr>) c)
      \<lparr>h_errno := e, h_world := w\<rparr>)" "0 < k" "k \<le> ?m" "k \<le> length rest" "inp w = drop k rest"
    by (rule read_transport_delivers [OF assms(1) m(1) order.refl m(2), unfolded b(2)])
  define c1 where "c1 = (set_res (\<lambda>r. r\<lparr>res_data := mem_write 0 (take k rest) (res_data r)\<rparr>) c)\<lparr>h_errno := e, h_world := w\<rparr>"
  have c1: "h_parser c1 = h_parser c" "h_req c1 = h_req c" "length (res_data (h_res c1)) = ?m" "take k (res_data (h_res c1)) = take k rest"
    "process_again c1 = process_again c" "data_seen c1 = data_seen c"
    using rt(3,4) by (simp_all add: c1_def mem_write_0 data_seen_def)
  obtain p where p: "run_parser net k c1 = Some (after_body 0 k (length rest) (c1\<lparr>h_parser := p\<rparr>))" "in_body p (length rest - k)"
  proof (rule run_body [OF assms(2), of c1 "length rest" k])
    show "in_body (h_parser c1) (length rest)" "hc_method (h_req c1) \<noteq> 5" using b(1,9) c1 by simp_all
    show "0 < k" "k \<le> length rest" "k \<le> length (res_data (h_res c1))" using rt(2-4) c1(3) by simp_all
  qed
  define c' where "c' = after_body 0 k (length rest) (c1\<lparr>h_parser := p\<rparr>)"
  show ?thesis
  proof (rule that [of k c'])
    show "esp_http_client_get_data net c = Some (int k, c')"
      using rt(1,2) b(7,9,10) p(1) by (simp add: esp_http_client_get_data_def c1_def [symmetric] c'_def)
    show "body_flow inp in_body n (drop k rest) c'"
      using b p(2) rt(2-5) by (auto simp: body_flow_def c'_def c1_def after_body_output(2))
    show "same_mode c c'" using after_body_seen(1) [of "c1\<lparr>h_parser := p\<rparr>"] c1(2,5) by (simp add: same_mode_def c'_def)
    show "status_code (h_res c') = status_code (h_res c)" by (simp add: c'_def c1_def)
    show "data_seen c' = data_seen c @ take k rest" if "has_event_handler (h_req c)"
      using after_body_seen(2) [where c = "c1\<lparr>h_parser := p\<rparr>" and pos = 0 and len = k] c1(2,4,6) that by (simp add: c'_def data_seen_def)
  qed (rule rt(2))
qed

lemma body_loop_flow:
  assumes "delivers net inp" "parses net in_head in_body st n" "body_flow inp in_body n rest c" "has_event_handler (h_req c)"
  obtains j c' where "body_loop net b c = Some (False, c')" "body_flow inp in_body n (drop j rest) c'" "same_mode c c'"
    "status_code (h_res c') = status_code (h_res c)" "data_seen c' = data_seen c @ take j rest" "\<not> b \<longrightarrow> drop j rest = []"
  using assms(3,4)
proof (induction "length rest" arbitrary: rest c thesis rule: less_induct)
  case less
  show ?case
  proof (cases "body_missing b c")
    case False
    then have "body_loop net b c = Some (False, c)" by (subst body_loop.simps) simp
    then show ?thesis using less.prems(1) [of c 0] less.prems(2) False body_missing_flow [OF less.prems(2), of b] by auto
  next
    case True
    then have ne: "rest \<noteq> []" using body_missing_flow [OF less.prems(2)] by blast
    obtain k c1 where k: "0 < k" "esp_http_client_get_data net c = Some (int k, c1)" "body_flow inp in_body n (drop k rest) c1"
      "same_mode c c1" "status_code (h_res c1) = status_code (h_res c)" "data_seen c1 = data_seen c @ take k rest"
      using get_data_step [OF assms(1,2) less.prems(2) ne] less.prems(3) by metis
    have lt: "length (drop k rest) < length rest" using k(1) ne by simp
    have hd: "has_event_handler (h_req c1)" using k(4) less.prems(3) by (simp add: same_mode_def)
    obtain j c' where j: "body_loop net b c1 = Some (False, c')" "body_flow inp in_body n (drop j (drop k rest)) c'" "same_mode c1 c'"
      "status_code (h_res c') = status_code (h_res c1)" "data_seen c' = data_seen c1 @ take j (drop k rest)" "\<not> b \<longrightarrow> drop j (drop k rest) = []"
      by (rule less.hyps [OF lt _ k(3) hd])
    have "body_loop net b c = Some (False, c')" using True k(1,2) j(1) by (subst body_loop.simps) simp
    moreover have "take k rest @ take j (drop k rest) = take (j + k) rest" by (simp add: take_add [symmetric] add.commute)
    ultimately show ?thesis
      using less.prems(1) [of c' "j + k"] j k(4-6) by (auto simp: same_mode_def)
  qed
qed

subsection \<open>The exchange\<close>

lemma finish_response_keeps:
  "data_seen (finish_response net c) = data_seen c" "h_res (finish_response net c) = (h_res c)\<lparr>raw_len := 0\<rparr>"
  "process_again (finish_response net c) = process_again c"
  "has_event_handler (h_req c) \<Longrightarrow> HTTP_EVENT_ON_FINISH \<in> set (hc_events (h_req (finish_response net c)))"
  by (auto simp: finish_response_def Let_def close_client_def esp_http_client_close_def http_dispatch_event_def dispatch_def data_seen_def
      set_res_def)

lemma connect_no_repeat:
  assumes "esp_http_client_connect net c = Some (e, c1)" "h_state c \<noteq> HTTP_STATE_UNINIT"
  shows "\<not> process_again c1"
proof -
  obtain c0 where c0: "esp_http_client_prepare net c = Some c0" using assms by (auto simp: esp_http_client_connect_def bind_eq_Some_conv)
  have "\<not> process_again c0"
    using c0 by (auto simp: esp_http_client_prepare_def Let_def bind_eq_Some_conv set_client_header_def auth_response_def
        split: if_splits prod.splits http_auth_type.splits option.splits)
  then show ?thesis using assms c0
    by (auto simp: esp_http_client_connect_def Let_def dispatch_def set_http_state_def split: if_splits prod.splits)
qed

lemma stage_fetch_delivers:
  assumes "delivers net inp" "parses net in_head in_body st n" "\<forall>k. string_mem net k" "length bd = n" "0 < n" "n < 2 ^ 31"
    and "head_state inp in_head h bd c" "h_state c = HTTP_STATE_REQ_COMPLETE_HEADER \<or> h_state c = HTTP_STATE_REQ_COMPLETE_DATA"
    and "200 \<le> st" "st < 300" "has_event_handler (h_req c)"
  obtains c' where "stage_fetch net c = Some (None, c')" "data_seen c' = data_seen c @ bd" "status_code (h_res c') = st"
    "process_again c' = process_again c" "HTTP_EVENT_ON_FINISH \<in> set (hc_events (h_req c'))"
    "esp_http_client_is_complete_data_received c'"
proof -
  obtain d c1 where fetch: "esp_http_client_fetch_headers net c = Some (int n, c1)" and f: "body_state inp in_body n d (drop (length d) bd) c1"
    "d = take (length d) bd" "status_code (h_res c1) = st" "same_mode c c1" "data_seen c1 = data_seen c @ d"
    by (rule fetch_headers_body [OF assms(1-8)]) (use assms(11) in blast)
  have hd: "has_event_handler (h_req c1)" using f(4) assms(11) by (simp add: same_mode_def)
  obtain j c2 where l1: "body_loop net True c1 = Some (False, c2)" "body_flow inp in_body n (drop j (drop (length d) bd)) c2" "same_mode c1 c2"
    "status_code (h_res c2) = status_code (h_res c1)" "data_seen c2 = data_seen c1 @ take j (drop (length d) bd)"
    by (rule body_loop_flow [OF assms(1,2) body_state_flow [OF f(1)] hd, of True])
  have hd2: "has_event_handler (h_req c2)" using l1(3) hd by (simp add: same_mode_def)
  obtain i c3 where l2: "body_loop net False c2 = Some (False, c3)" "body_flow inp in_body n (drop i (drop j (drop (length d) bd))) c3"
    "same_mode c2 c3" "status_code (h_res c3) = status_code (h_res c2)" "data_seen c3 = data_seen c2 @ take i (drop j (drop (length d) bd))"
    "drop i (drop j (drop (length d) bd)) = []"
    using body_loop_flow [OF assms(1,2) l1(2) hd2, of False] by metis
  have all: "d @ take j (drop (length d) bd) @ take i (drop j (drop (length d) bd)) = bd"
    using f(2) l2(6) append_take_drop_id by (metis append_Nil2)
  show ?thesis
  proof (rule that [of "finish_response net c3"])
    show "stage_fetch net c = Some (None, finish_response net c3)"
      using fetch f(3) l1(1) l2(1) assms(9,10) by (simp add: stage_fetch_def stage_response_def esp_http_check_response_def Let_def)
    show "data_seen (finish_response net c3) = data_seen c @ bd" using f(5) l1(5) l2(5) all by (simp add: finish_response_keeps)
    show "status_code (h_res (finish_response net c3)) = st" using f(3) l1(4) l2(4) by (simp add: finish_response_keeps)
    show "process_again (finish_response net c3) = process_again c"
      using f(4) l1(3) l2(3) by (simp add: finish_response_keeps same_mode_def)
    show "HTTP_EVENT_ON_FINISH \<in> set (hc_events (h_req (finish_response net c3)))"
      using l2(3) hd2 by (intro finish_response_keeps(4)) (simp add: same_mode_def)
    show "esp_http_client_is_complete_data_received (finish_response net c3)"
      using body_flowD [OF l2(2)] l2(6)
      by (auto simp: esp_http_client_is_complete_data_received_def finish_response_def Let_def close_client_def set_res_def dispatch_def)
  qed
qed

text \<open>C40: An exchange delivers the whole body.  When \<open>esp_http_client_perform\<close> has connected and sent the request, and the server answers
  with a success status and a body of the announced length, then it returns \<open>ESP_OK\<close>, and the data events of the application's handler are,
  put together, exactly the body, followed by the event that the exchange is finished; this holds for every way the transport
  cuts the response into reads and every size of the receive buffer.\<close>

theorem perform_delivers_body:
  assumes "delivers net inp" "parses net in_head in_body st n" "\<forall>k. string_mem net k" "length bd = n" "0 < n" "n < 2 ^ 31"
    and "h_state c = HTTP_STATE_INIT" "\<not> process_again c"
    and "esp_http_client_connect net c = Some (0, c1)" "request_send net (post_len (h_req c1)) c1 = Some (0, c2)"
    and "esp_http_client_send_post_data (request_env net) (h_req c2) = (0, r)" "c3 = with_request net r c2"
    and "head_state inp in_head h bd c3" "200 \<le> st" "st < 300" "has_event_handler (h_req c3)"
  shows "\<exists>c'. esp_http_client_perform net c = Some (0, c') \<and> data_seen c' = data_seen c3 @ bd
    \<and> esp_http_client_get_status_code c' = st \<and> esp_http_client_is_complete_data_received c'
    \<and> HTTP_EVENT_ON_FINISH \<in> set (hc_events (h_req c'))"
proof -
  have "h_state c2 = HTTP_STATE_REQ_COMPLETE_HEADER" using assms(11) by (auto simp: esp_http_client_send_post_data_def split: if_splits)
  then have st: "h_state c3 = HTTP_STATE_REQ_COMPLETE_DATA"
    using assms(11,12) by (auto simp: esp_http_client_send_post_data_def with_request_def Let_def split: if_splits option.splits prod.splits)
  obtain c' where c': "stage_fetch net c3 = Some (None, c')" "data_seen c' = data_seen c3 @ bd" "status_code (h_res c') = st"
    "process_again c' = process_again c3" "HTTP_EVENT_ON_FINISH \<in> set (hc_events (h_req c'))" "esp_http_client_is_complete_data_received c'"
    by (rule stage_fetch_delivers [OF assms(1-6,13) _ assms(14-16)]) (use st in simp_all)
  have "\<not> process_again c1" using connect_no_repeat [OF assms(9)] assms(7) by simp
  then have "\<not> process_again c3" using assms(10,12) by (auto simp: request_send_def with_request_def)
  moreover have "perform_pass net c = Some (None, c')"
    using assms(7,9-12) c'(1) by (simp add: perform_pass_def stage_connect_def stage_send_def stage_data_def)
  ultimately have "esp_http_client_perform net c = Some (0, c')"
    using assms(8) c'(4) by (subst esp_http_client_perform.simps) simp
  then show ?thesis using c' by (auto simp: esp_http_client_get_status_code_def)
qed

text \<open>On the concrete transport: a request without body, answered in reads of five bytes.\<close>

definition mini_world :: bytes where
  "mini_world = mini_head @ cstr ''Hello, world''"

definition mini_connected :: "(mini_parser, bytes) http" where
  "mini_connected = snd (the (esp_http_client_connect mini_net (mini_client HTTP_STATE_INIT mini_world)))"

definition mini_sent :: "(mini_parser, bytes) http" where
  "mini_sent = snd (the (request_send mini_net 0 mini_connected))"

lemma mini_exchange:
  "esp_http_client_connect mini_net (mini_client HTTP_STATE_INIT mini_world) = Some (0, mini_connected)"
  "request_send mini_net (post_len (h_req mini_connected)) mini_connected = Some (0, mini_sent)"
proof -
  have "map_option fst (esp_http_client_connect mini_net (mini_client HTTP_STATE_INIT mini_world)) = Some 0" by code_simp
  then show "esp_http_client_connect mini_net (mini_client HTTP_STATE_INIT mini_world) = Some (0, mini_connected)"
    by (auto simp: mini_connected_def)
  have "map_option fst (request_send mini_net 0 mini_connected) = Some 0" "post_len (h_req mini_connected) = 0" by code_simp+
  then show "request_send mini_net (post_len (h_req mini_connected)) mini_connected = Some (0, mini_sent)"
    by (auto simp: mini_sent_def)
qed

theorem perform_delivers_body_witness:
  "\<exists>c'. esp_http_client_perform mini_net (mini_client HTTP_STATE_INIT mini_world) = Some (0, c') \<and> data_seen c' = cstr ''Hello, world''
    \<and> esp_http_client_get_status_code c' = 200"
proof -
  let ?r = "snd (esp_http_client_send_post_data (request_env mini_net) (h_req mini_sent))"
  let ?c3 = "with_request mini_net ?r mini_sent"
  have h: "is_head mini_head" "head_status mini_head = 200" "head_length mini_head = 12" "mini_head \<noteq> []" by code_simp+
  have "fst (esp_http_client_send_post_data (request_env mini_net) (h_req mini_sent)) = 0" by code_simp
  then have sent: "esp_http_client_send_post_data (request_env mini_net) (h_req mini_sent) = (0, ?r)" by (metis prod.collapse)
  have "h_parser ?c3 = Mini_head []" "\<not> is_chunk_complete ?c3" "h_world ?c3 = mini_world" "buffer_size_rx ?c3 = 16"
    "res_data (h_res ?c3) = replicate 16 0" "output_ptr (h_res ?c3) = None" "hc_method (h_req ?c3) = 0" "raw_len (h_res ?c3) = 0"
    by code_simp+
  then have hs: "head_state id (mini_in_head mini_head) mini_head (cstr ''Hello, world'') ?c3"
    using h(4) by (auto simp: head_state_def mini_in_head_def mini_world_def)
  have ev: "has_event_handler (h_req ?c3)" "data_seen ?c3 = []" by code_simp+
  have c: "h_state (mini_client HTTP_STATE_INIT mini_world) = HTTP_STATE_INIT" "\<not> process_again (mini_client HTTP_STATE_INIT mini_world)"
    by (simp_all add: mini_client_def mini_request_def)
  have "length (cstr ''Hello, world'') = 12" by code_simp
  moreover have "\<forall>k. string_mem mini_net k" by (simp add: mini_net_def)
  ultimately show ?thesis
    using perform_delivers_body [OF mini_delivers mini_parses [OF h(1-3)] _ _ _ _ c mini_exchange sent refl hs] ev by auto
qed

end
