(* ===== verification/Ota_Env.thy ===== *)
theory Ota_Env
  imports Ota_Ops "HOL-Library.Code_Target_Nat"
begin

text \<open>
  A concrete flash for the update: the partition table of the project (\<^verbatim>\<open>partitions.csv\<close>), cells that are erased or
  hold a byte and whose bits a write can only clear, and the boot loader's rules for the two records.  The
  hypotheses on outside code hold in it, and the witnesses of the update's properties run in it.
\<close>

text \<open>The flash as the list of the operations made on it, the latest one first.\<close>

datatype nor_op = Nor_Erase esp_partition nat nat | Nor_Write esp_partition nat bytes

type_synonym nor_flash = "nor_op list"

definition nor_cell :: "u8 option \<Rightarrow> u8 \<Rightarrow> u8" where
  "nor_cell old b = (case old of None \<Rightarrow> b | Some a \<Rightarrow> a AND b)"

fun nor_at :: "nor_flash \<Rightarrow> esp_partition \<Rightarrow> nat \<Rightarrow> u8 option" where
  "nor_at [] p i = None"
| "nor_at (Nor_Erase q off n # f) p i = (if q = p \<and> off \<le> i \<and> i < off + n then None else nor_at f p i)"
| "nor_at (Nor_Write q off d # f) p i =
    (if q = p \<and> off \<le> i \<and> i < off + length d then Some (nor_cell (nor_at f p i) (d ! (i - off))) else nor_at f p i)"

definition otadata_part :: esp_partition where
  "otadata_part = \<lparr>p_type = 1, p_subtype = 0, p_address = 0xd000, p_size = 0x2000\<rparr>"

definition ota_0 :: esp_partition where
  "ota_0 = \<lparr>p_type = 0, p_subtype = 0x10, p_address = 0x20000, p_size = 0x160000\<rparr>"

definition ota_1 :: esp_partition where
  "ota_1 = \<lparr>p_type = 0, p_subtype = 0x11, p_address = 0x180000, p_size = 0x160000\<rparr>"

definition part_table :: "esp_partition list" where
  "part_table = [otadata_part, ota_0, ota_1]"

definition nor_erase :: "esp_partition \<Rightarrow> nat \<Rightarrow> nat \<Rightarrow> nor_flash \<Rightarrow> esp_error \<times> nor_flash" where
  "nor_erase p off n f = (if off + n \<le> p_size p then (E_OK, Nor_Erase p off n # f) else (ESP_ERR_INVALID_ARG, f))"

definition nor_write :: "esp_partition \<Rightarrow> nat \<Rightarrow> bytes \<Rightarrow> nor_flash \<Rightarrow> esp_error \<times> nor_flash" where
  "nor_write p off d f = (if off + length d \<le> p_size p then (E_OK, Nor_Write p off d # f) else (ESP_ERR_INVALID_ARG, f))"

definition nor_view :: "esp_partition \<Rightarrow> nor_flash \<Rightarrow> nat \<Rightarrow> u8" where
  "nor_view p f i = (case nor_at f p i of None \<Rightarrow> 0xFF | Some b \<Rightarrow> b)"

definition le32 :: "u32 \<Rightarrow> bytes" where
  "le32 x = (let n = unat x in map of_nat [n, n div 256, n div 256 div 256, n div 256 div 256 div 256])"

lemma length_le32: "length (le32 x) = 4"
  by (simp add: le32_def Let_def)

definition of_le32 :: "bytes \<Rightarrow> u32" where
  "of_le32 b = of_nat (unat (b ! 0) + 256 * (unat (b ! 1) + 256 * (unat (b ! 2) + 256 * unat (b ! 3))))"

lemma of_le32_append: "of_le32 (le32 x @ tail) = x"
proof -
  define n where "n = unat x"
  have "n < 256 * (256 * (256 * 256))" using unsigned_less [of x] by (simp add: n_def)
  then have "n div 256 div 256 div 256 < 256" by (intro less_mult_imp_div_less) simp
  then have "n mod 256 + 256 * (n div 256 mod 256 + 256 * (n div 256 div 256 mod 256 + 256 * (n div 256 div 256 div 256 mod 256))) = n"
    by simp
  then have "of_le32 (le32 x @ tail) = of_nat n"
    by (simp add: of_le32_def le32_def Let_def unat_of_nat n_def [symmetric] del: of_nat_add of_nat_mult)
  then show ?thesis by (simp add: n_def)
qed

lemma of_le32_le32: "of_le32 (le32 x) = x"
  using of_le32_append [of x "[]"] by simp

definition nor_select_bytes :: "ota_select_entry \<Rightarrow> bytes" where
  "nor_select_bytes e = le32 (ota_seq e) @ seq_label e @ le32 (ota_state e) @ le32 (ota_crc e)"

definition nor_select_of :: "bytes \<Rightarrow> ota_select_entry" where
  "nor_select_of b = \<lparr>ota_seq = of_le32 b, seq_label = take 20 (drop 4 b @ replicate 20 0),
     ota_state = of_le32 (drop 24 b), ota_crc = of_le32 (drop 28 b)\<rparr>"

definition nor_crc :: "ota_select_entry \<Rightarrow> u32" where
  "nor_crc e = 0x4321 XOR ota_seq e"

definition nor_invalid :: "ota_select_entry \<Rightarrow> bool" where
  "nor_invalid e \<longleftrightarrow> ota_seq e = 0xffffffff \<or> ota_state e = ESP_OTA_IMG_INVALID \<or> ota_state e = ESP_OTA_IMG_ABORTED"

definition nor_valid :: "ota_select_entry \<Rightarrow> bool" where
  "nor_valid e \<longleftrightarrow> \<not> nor_invalid e \<and> ota_crc e = nor_crc e"

definition nor_select :: "ota_select_entry \<times> ota_select_entry \<Rightarrow> bool \<times> bool \<Rightarrow> bool \<Rightarrow> nat option" where
  "nor_select two v mx =
    (if fst v \<and> snd v then Some (if (ota_seq (fst two) > ota_seq (snd two)) = mx then 0 else 1)
     else if fst v then Some 0 else if snd v then Some 1 else None)"

text \<open>The running program lies in \<open>ota_0\<close>; \<open>enc\<close> says whether the flash is encrypted.\<close>

definition nor_env :: "bool \<Rightarrow> nor_flash ota_env" where
  "nor_env enc = \<lparr>partition_find_first = (\<lambda>t st. find (\<lambda>p. p_type p = t \<and> p_subtype p = st) part_table),
     app_partitions = [ota_0, ota_1], partition_verify = (\<lambda>p. if p \<in> set part_table then Some p else None),
     partition_erase_range = nor_erase, partition_write = nor_write,
     partition_read = (\<lambda>p off n f. (E_OK, map (nor_view p f) [off..<off + n])),
     partition_mmap = (\<lambda>p f. Some (nor_view p f)), select_bytes = nor_select_bytes, select_of = nor_select_of,
     ota_select_crc = nor_crc, ota_select_invalid = nor_invalid, ota_select_valid = nor_valid,
     get_active_otadata = (\<lambda>two. nor_select two (nor_valid (fst two), nor_valid (snd two)) True), select_otadata = nor_select,
     image_verify = (\<lambda>p f. nor_at f p 0 = Some 0xE9), code_address = 0x20100, flash_encryption = enc, ota_calloc = (\<lambda>f. (True, f))\<rparr>"

definition nor_start :: "nor_flash ota" where
  "nor_start = \<lparr>s_ota_ops_entries = [], s_ota_ops_last_handle = 0, curr_partition = None,
     ota_world = [Nor_Write ota_0 0 [0xE9]]\<rparr>"

end
