(* ===== verification/Ota_Image.thy ===== *)
theory Ota_Image
  imports Ota_Env
begin

text \<open>
  What an update leaves in the flash: the image that was handed over in pieces, at the start of the partition, and
  nothing anywhere else.
\<close>

subsection \<open>The flash\<close>

text \<open>\<open>fl w p i\<close> is the cell at offset \<open>i\<close> of a partition: \<open>None\<close> when it is erased, otherwise the byte written.  What is
  relied on: erasing and writing touch their range only, an erase that succeeds leaves erased cells, a write that
  succeeds lies inside the partition and stores its bytes in cells that were erased (into other cells it may store
  anything), and the heap has nothing to do with the flash.\<close>

type_synonym 'w cells = "'w \<Rightarrow> esp_partition \<Rightarrow> nat \<Rightarrow> u8 option"

definition only_range :: "'w cells \<Rightarrow> esp_partition \<Rightarrow> nat \<Rightarrow> nat \<Rightarrow> 'w \<Rightarrow> 'w \<Rightarrow> bool" where
  "only_range fl p off n w w' \<longleftrightarrow> (\<forall>q i. q \<noteq> p \<or> i < off \<or> off + n \<le> i \<longrightarrow> fl w' q i = fl w q i)"

definition flash_ok :: "'w ota_env \<Rightarrow> 'w cells \<Rightarrow> bool" where
  "flash_ok env fl \<longleftrightarrow>
    (\<forall>p off n w r w'. partition_erase_range env p off n w = (r, w') \<longrightarrow>
       only_range fl p off n w w' \<and> (r = E_OK \<longrightarrow> (\<forall>i. off \<le> i \<and> i < off + n \<longrightarrow> fl w' p i = None)))
  \<and> (\<forall>p off d w r w'. partition_write env p off d w = (r, w') \<longrightarrow>
       only_range fl p off (length d) w w'
       \<and> (r = E_OK \<longrightarrow> off + length d \<le> p_size p
           \<and> ((\<forall>k < length d. fl w p (off + k) = None) \<longrightarrow> (\<forall>k < length d. fl w' p (off + k) = Some (d ! k)))))
  \<and> (\<forall>w. fl (snd (ota_calloc env w)) = fl w)"

definition holds :: "'w cells \<Rightarrow> 'w \<Rightarrow> esp_partition \<Rightarrow> bytes \<Rightarrow> bool" where
  "holds fl w p bs \<longleftrightarrow> (\<forall>i < length bs. fl w p i = Some (bs ! i))"

definition blank :: "'w cells \<Rightarrow> 'w \<Rightarrow> esp_partition \<Rightarrow> nat \<Rightarrow> nat \<Rightarrow> bool" where
  "blank fl w p a n \<longleftrightarrow> (\<forall>i. a \<le> i \<and> i < n \<longrightarrow> fl w p i = None)"

text \<open>The other partitions are as before.\<close>

definition others_kept :: "'w cells \<Rightarrow> esp_partition \<Rightarrow> 'w \<Rightarrow> 'w \<Rightarrow> bool" where
  "others_kept fl p w w' \<longleftrightarrow> (\<forall>q. q \<noteq> p \<longrightarrow> fl w' q = fl w q)"

lemma others_kept_trans: "others_kept fl p w w' \<Longrightarrow> others_kept fl p w' w'' \<Longrightarrow> others_kept fl p w w''"
  by (simp add: others_kept_def)

lemma others_kept_refl [simp]: "others_kept fl p w w"
  by (simp add: others_kept_def)

lemma only_range_others: "only_range fl p off n w w' \<Longrightarrow> others_kept fl p w w'"
  by (auto simp: only_range_def others_kept_def)

lemma flash_okD:
  assumes "flash_ok env fl"
  shows "partition_erase_range env p off n w = (r, w') \<Longrightarrow> only_range fl p off n w w'"
    "partition_erase_range env p off n w = (E_OK, w') \<Longrightarrow> blank fl w' p off (off + n)"
    "partition_write env p off d w = (r, w') \<Longrightarrow> only_range fl p off (length d) w w'"
    "partition_write env p off d w = (E_OK, w') \<Longrightarrow> off + length d \<le> p_size p"
    "partition_write env p off d w = (E_OK, w') \<Longrightarrow> blank fl w p off (off + length d) \<Longrightarrow> k < length d \<Longrightarrow> fl w' p (off + k) = Some (d ! k)"
proof -
  note er = conjunct1 [OF assms [unfolded flash_ok_def], rule_format]
  note wr = conjunct1 [OF conjunct2 [OF assms [unfolded flash_ok_def]], rule_format]
  show "partition_erase_range env p off n w = (r, w') \<Longrightarrow> only_range fl p off n w w'" using er by blast
  show "partition_erase_range env p off n w = (E_OK, w') \<Longrightarrow> blank fl w' p off (off + n)" using er by (auto simp: blank_def)
  show "partition_write env p off d w = (r, w') \<Longrightarrow> only_range fl p off (length d) w w'" using wr by blast
  show "partition_write env p off d w = (E_OK, w') \<Longrightarrow> off + length d \<le> p_size p" using wr by blast
  show "fl w' p (off + k) = Some (d ! k)" if "partition_write env p off d w = (E_OK, w')" "blank fl w p off (off + length d)" "k < length d"
  proof -
    have "\<forall>k < length d. fl w p (off + k) = None" using that(2) by (simp add: blank_def)
    then show ?thesis using wr [OF that(1)] that(3) by blast
  qed
qed

lemma append_cells:
  assumes "flash_ok env fl" "partition_write env p (length bs) d w = (E_OK, w')" "holds fl w p bs" "blank fl w p (length bs) n"
    and "length bs + length d \<le> n"
  shows "holds fl w' p (bs @ d)" "blank fl w' p (length (bs @ d)) n" "others_kept fl p w w'"
proof -
  from assms(1,2) have r: "only_range fl p (length bs) (length d) w w'"
    and wr: "(\<forall>k < length d. fl w p (length bs + k) = None) \<longrightarrow> (\<forall>k < length d. fl w' p (length bs + k) = Some (d ! k))"
    unfolding flash_ok_def by blast+
  have "\<forall>k < length d. fl w' p (length bs + k) = Some (d ! k)"
    using wr assms(4,5) by (simp add: blank_def)
  then have "fl w' p i = Some (d ! (i - length bs))" if "length bs \<le> i" "i < length bs + length d" for i
    using that by (metis le_add_diff_inverse less_diff_conv2 add.commute)
  then show "holds fl w' p (bs @ d)"
    using r assms(3) by (auto simp: holds_def only_range_def nth_append)
  show "blank fl w' p (length (bs @ d)) n" using r assms(4) by (auto simp: blank_def only_range_def)
  show "others_kept fl p w w'" by (rule only_range_others [OF r])
qed

subsection \<open>An update in progress\<close>

text \<open>The entry \<open>it\<close> has taken the bytes \<open>img\<close>: all but the last few are in the flash, these in its buffer.  \<open>n\<close> is the size
  of the area that was erased.\<close>

definition taken :: "'w ota_env \<Rightarrow> 'w cells \<Rightarrow> nat \<Rightarrow> esp_partition \<Rightarrow> bytes \<Rightarrow> ota_ops_entry \<Rightarrow> 'w \<Rightarrow> bool" where
  "taken env fl n p img it w \<longleftrightarrow> o_part it = p \<and> 0 < erased_size it \<and> length (partial_data it) = 16 \<and> partial_bytes it < 16
    \<and> (flash_encryption env \<longrightarrow> wrote_size it mod 16 = 0) \<and> (\<not> flash_encryption env \<longrightarrow> partial_bytes it = 0)
    \<and> (\<exists>bs. img = bs @ take (partial_bytes it) (partial_data it) \<and> length bs = wrote_size it
        \<and> holds fl w p bs \<and> blank fl w p (wrote_size it) n)"

text \<open>Whether all of a write of \<open>k\<close> bytes at \<open>a\<close> goes to erased cells.\<close>

definition fits :: "nat \<Rightarrow> esp_partition \<Rightarrow> nat \<Rightarrow> bool" where
  "fits n p len \<longleftrightarrow> n = p_size p \<or> (len \<le> n \<and> n mod 16 = 0)"

lemma find_put: "find_entry h s = Some it \<Longrightarrow> o_handle it' = h \<Longrightarrow> find_entry h (put_entry it' s) = Some it'"
proof -
  have "find (\<lambda>x. o_handle x = h) xs = Some it \<Longrightarrow> o_handle it' = h \<Longrightarrow> find (\<lambda>x. o_handle x = h) (set_entry it' xs) = Some it'" for xs
    by (induction xs) (auto split: if_splits)
  then show "find_entry h s = Some it \<Longrightarrow> o_handle it' = h \<Longrightarrow> find_entry h (put_entry it' s) = Some it'"
    by (simp add: find_entry_def put_entry_def)
qed

lemma find_entry_world [simp]: "find_entry h (s\<lparr>ota_world := w\<rparr>) = find_entry h s"
  by (simp add: find_entry_def)

lemma ota_world_put [simp]: "ota_world (put_entry it s) = ota_world s"
  by (simp add: put_entry_def)

lemma find_entry_handle: "find_entry h s = Some it \<Longrightarrow> o_handle it = h"
  by (auto simp: find_entry_def find_Some_iff)

text \<open>A write of whole blocks with an empty buffer.\<close>

lemma flash_write_taken:
  assumes "flash_ok env fl" "flash_write env it d s = (E_OK, s')" "find_entry h s = Some it0" "o_handle it = h"
    and "taken env fl n p img (it\<lparr>partial_bytes := 0\<rparr>) (ota_world s)" "fits n p (length img + length d)"
    and "flash_encryption env \<longrightarrow> length d mod 16 = 0"
  shows "\<exists>it'. find_entry h s' = Some it' \<and> partial_data it' = partial_data it \<and> partial_bytes it' = partial_bytes it
    \<and> taken env fl n p (img @ d) (it'\<lparr>partial_bytes := 0\<rparr>) (ota_world s')
    \<and> others_kept fl p (ota_world s) (ota_world s')"
proof -
  let ?it = "it\<lparr>wrote_size := wrote_size it + length d\<rparr>"
  obtain w where w: "partition_write env p (wrote_size it) d (ota_world s) = (E_OK, w)" "s' = put_entry ?it (s\<lparr>ota_world := w\<rparr>)"
    using assms(2,5) by (auto simp: flash_write_def taken_def split: prod.splits if_splits)
  have b: "length img = wrote_size it" "holds fl (ota_world s) p img" "blank fl (ota_world s) p (wrote_size it) n"
    using assms(5) by (auto simp: taken_def)
  have "wrote_size it + length d \<le> p_size p" using assms(1) w(1) unfolding flash_ok_def by blast
  then have "length img + length d \<le> n" using assms(6) b(1) by (auto simp: fits_def)
  then have a: "holds fl w p (img @ d)" "blank fl w p (length (img @ d)) n" "others_kept fl p (ota_world s) w"
    using append_cells [OF assms(1), of p img d "ota_world s" w n] w(1) b by auto
  have "find_entry h s' = Some ?it" unfolding w(2) using assms(3,4) by (intro find_put) simp_all
  moreover have "flash_encryption env \<longrightarrow> (wrote_size it + length d) mod 16 = 0"
    using assms(5,7) by (auto simp: taken_def mod_add_eq [symmetric])
  ultimately show ?thesis
    using a assms(5) b(1) w(2) by (intro exI [of _ ?it]) (auto simp: taken_def split: if_splits)
qed

lemma write_blocks_taken:
  assumes "flash_ok env fl" "write_blocks env it d s = (E_OK, s')" "find_entry h s = Some it0" "o_handle it = h"
    and "taken env fl n p img (it\<lparr>partial_bytes := 0\<rparr>) (ota_world s)" "fits n p (length img + length d)" "flash_encryption env"
  shows "\<exists>it'. find_entry h s' = Some it' \<and> taken env fl n p (img @ d) it' (ota_world s')
    \<and> others_kept fl p (ota_world s) (ota_world s')"
proof -
  define pb m where "pb = length d mod 16" and "m = length d - pb"
  define it1 where "it1 = it\<lparr>partial_bytes := pb, partial_data := (if pb \<noteq> 0 then mem_write 0 (drop m d) (partial_data it) else partial_data it)\<rparr>"
  have pb: "pb < 16" "pb \<le> length d" "m mod 16 = 0" "m \<le> length d"
    by (simp_all add: pb_def m_def minus_mod_eq_mult_div)
  have l: "length (drop m d) = pb" using pb(2) by (simp add: m_def)
  have wr: "flash_write env it1 (take m d) s = (E_OK, s')"
    using assms(2) unfolding write_blocks_def keep_tail_def Let_def it1_def pb_def m_def by (simp only: prod.case)
  have t1: "taken env fl n p img (it1\<lparr>partial_bytes := 0\<rparr>) (ota_world s)"
    using assms(5) l pb(1) by (simp add: taken_def it1_def)
  have "fits n p (length img + length (take m d))" using assms(6) by (auto simp: fits_def)
  moreover have "flash_encryption env \<longrightarrow> length (take m d) mod 16 = 0" using pb(3,4) by simp
  moreover have "o_handle it1 = h" using assms(4) by (simp add: it1_def)
  ultimately obtain it' where it': "find_entry h s' = Some it'" "partial_data it' = partial_data it1" "partial_bytes it' = partial_bytes it1"
    "taken env fl n p (img @ take m d) (it'\<lparr>partial_bytes := 0\<rparr>) (ota_world s')" "others_kept fl p (ota_world s) (ota_world s')"
    using flash_write_taken [OF assms(1) wr assms(3) _ t1] by auto
  have pd: "take (partial_bytes it') (partial_data it') = drop m d" "partial_bytes it' = pb"
    using it'(2,3) l by (auto simp: it1_def mem_write_0)
  have bs: "length (img @ take m d) = wrote_size it'" "holds fl (ota_world s') p (img @ take m d)" "blank fl (ota_world s') p (wrote_size it') n"
    using it'(4) by (auto simp: taken_def)
  have "taken env fl n p (img @ d) it' (ota_world s')"
    unfolding taken_def
    using it'(4) assms(7) pb(1) pd bs by (intro conjI exI [of _ "img @ take m d"]) (simp_all add: taken_def)
  then show ?thesis using it'(1,5) by blast
qed

lemma write_encrypted_taken:
  assumes "flash_ok env fl" "write_encrypted env it d s = (E_OK, s')" "find_entry h s = Some it"
    and "taken env fl n p img it (ota_world s)" "fits n p (length img + length d)" "flash_encryption env"
  shows "\<exists>it'. find_entry h s' = Some it' \<and> taken env fl n p (img @ d) it' (ota_world s')
    \<and> others_kept fl p (ota_world s) (ota_world s')"
proof (cases "partial_bytes it = 0")
  case True
  then have "it\<lparr>partial_bytes := 0\<rparr> = it" "write_blocks env it d s = (E_OK, s')" using assms(2) by (simp_all add: write_encrypted_def)
  then show ?thesis using write_blocks_taken [OF assms(1) _ assms(3) find_entry_handle [OF assms(3)]] assms(4-6) by simp
next
  case False
  let ?pb = "partial_bytes it" and ?pd = "partial_data it"
  define k where "k = min (16 - ?pb) (length d)"
  define it1 where "it1 = it\<lparr>partial_data := mem_write ?pb (take k d) ?pd, partial_bytes := ?pb + k\<rparr>"
  obtain bs where bs: "img = bs @ take ?pb ?pd" "length bs = wrote_size it" "holds fl (ota_world s) p bs"
    "blank fl (ota_world s) p (wrote_size it) n"
    using assms(4) by (auto simp: taken_def)
  have l: "length ?pd = 16" "?pb < 16" "wrote_size it mod 16 = 0" "o_part it = p" "0 < erased_size it"
    using assms(4,6) by (auto simp: taken_def)
  have k: "?pb + k \<le> 16" "length (take k d) = k" using l(2) by (simp_all add: k_def)
  have pd: "take (?pb + k) (partial_data it1) = take ?pb ?pd @ take k d" "length (partial_data it1) = 16"
    using l(1,2) take_mem_write_same [of ?pb "take k d" ?pd] k by (simp_all add: it1_def)
  have h: "o_handle it = h" by (rule find_entry_handle [OF assms(3)])
  show ?thesis
  proof (cases "?pb + k = 16")
    case False
    then have "k = length d" "s' = put_entry it1 s"
      using assms(2) \<open>?pb \<noteq> 0\<close> l(2) by (auto simp: write_encrypted_def Let_def it1_def k_def min_def split: if_splits)
    moreover from this have "taken env fl n p (img @ d) it1 (ota_world s)"
      using bs l False pd assms(6) unfolding taken_def
      by (intro conjI exI [of _ bs]) (auto simp: it1_def k_def min_def split: if_splits)
    moreover have "find_entry h (put_entry it1 s) = Some it1" using assms(3) h by (intro find_put) (simp_all add: it1_def)
    ultimately show ?thesis by auto
  next
    case True
    define it2 where "it2 = it1\<lparr>partial_bytes := 0, partial_data := replicate 16 0xFF, wrote_size := wrote_size it1 + 16\<rparr>"
    obtain w where w: "partition_write env p (wrote_size it) (partial_data it1) (ota_world s) = (E_OK, w)"
      "write_blocks env it2 (drop k d) (s\<lparr>ota_world := w\<rparr>) = (E_OK, s')"
      using assms(2) \<open>?pb \<noteq> 0\<close> True l(4)
      by (auto simp: write_encrypted_def Let_def it1_def it2_def k_def split: prod.splits if_splits)
    have full: "bs @ partial_data it1 = img @ take k d" using bs(1) pd True by simp
    have len: "length bs + 16 = length img + k" using bs(1) l(1,2) True by simp
    have "k \<le> length d" by (simp add: k_def)
    have "wrote_size it + 16 \<le> p_size p"
      using assms(1) w(1) pd(2) unfolding flash_ok_def by fastforce
    then have "length bs + length (partial_data it1) \<le> n"
      using assms(5) bs(2) len pd(2) \<open>k \<le> length d\<close> by (auto simp: fits_def)
    then have a: "holds fl w p (img @ take k d)" "blank fl w p (length (img @ take k d)) n" "others_kept fl p (ota_world s) w"
      using append_cells [OF assms(1), of p bs "partial_data it1" "ota_world s" w n] w(1) bs full by auto
    have "(wrote_size it + 16) mod 16 = 0" using l(3) by simp
    then have "(length img + k) mod 16 = 0" using len bs(2) by metis
    then have "taken env fl n p (img @ take k d) (it2\<lparr>partial_bytes := 0\<rparr>) (ota_world (s\<lparr>ota_world := w\<rparr>))"
      using a l len bs(2) \<open>k \<le> length d\<close> assms(6) by (simp add: taken_def it2_def it1_def)
    moreover have "fits n p (length (img @ take k d) + length (drop k d))" using assms(5) \<open>k \<le> length d\<close> by (simp add: fits_def)
    moreover have "o_handle it2 = h" using h by (simp add: it2_def it1_def)
    ultimately obtain it' where "find_entry h s' = Some it'" "taken env fl n p ((img @ take k d) @ drop k d) it' (ota_world s')"
      "others_kept fl p w (ota_world s')"
      using write_blocks_taken [OF assms(1) w(2), of h it n p "img @ take k d"] assms(3,6) by auto
    then show ?thesis using others_kept_trans [OF a(3)] by auto
  qed
qed

lemma esp_ota_write_taken:
  assumes "flash_ok env fl" "esp_ota_write env h (Some d) s = Some (E_OK, s')" "find_entry h s = Some it"
    and "taken env fl n p img it (ota_world s)" "fits n p (length img + length d)"
  shows "\<exists>it'. find_entry h s' = Some it' \<and> taken env fl n p (img @ d) it' (ota_world s')
    \<and> others_kept fl p (ota_world s) (ota_world s') \<and> (img = [] \<and> d \<noteq> [] \<longrightarrow> hd d = 0xE9)"
proof -
  have "wrote_size it = 0 \<and> partial_bytes it = 0" if "img = []" using assms(4) that by (auto simp: taken_def)
  then have magic: "img = [] \<and> d \<noteq> [] \<longrightarrow> hd d = 0xE9"
    using assms(2,3) by (auto simp: esp_ota_write_def split: if_splits)
  show ?thesis
  proof (cases "flash_encryption env")
    case True
    then have "write_encrypted env it d s = (E_OK, s')" using assms(2,3) by (auto simp: esp_ota_write_def split: if_splits)
    from write_encrypted_taken [OF assms(1) this assms(3-5) True] magic show ?thesis by blast
  next
    case False
    then have pb: "it\<lparr>partial_bytes := 0\<rparr> = it" "partial_bytes it = 0" using assms(4) by (simp_all add: taken_def)
    have "flash_write env it d s = (E_OK, s')" using assms(2,3) False by (auto simp: esp_ota_write_def split: if_splits)
    from flash_write_taken [OF assms(1) this assms(3) find_entry_handle [OF assms(3)], unfolded pb, OF assms(4,5)] False
    obtain it' where "find_entry h s' = Some it'" "partial_bytes it' = 0" "taken env fl n p (img @ d) (it'\<lparr>partial_bytes := 0\<rparr>) (ota_world s')"
      "others_kept fl p (ota_world s) (ota_world s')" by auto
    moreover from this(2) have "it'\<lparr>partial_bytes := 0\<rparr> = it'" by simp
    ultimately show ?thesis using magic by auto
  qed
qed

subsection \<open>From begin to end\<close>

text \<open>The image handed over piece by piece, up to the first error.\<close>

fun write_all :: "'w ota_env \<Rightarrow> u32 \<Rightarrow> bytes list \<Rightarrow> 'w ota \<Rightarrow> (esp_error \<times> 'w ota) option" where
  "write_all env h [] s = Some (E_OK, s)"
| "write_all env h (d # ds) s =
    do { (r, s) \<leftarrow> esp_ota_write env h (Some d) s; if r = E_OK then write_all env h ds s else Some (r, s) }"

lemma write_all_taken:
  assumes "flash_ok env fl"
  shows "write_all env h ds s = Some (E_OK, s') \<Longrightarrow> find_entry h s = Some it \<Longrightarrow> taken env fl n p img it (ota_world s) \<Longrightarrow>
    fits n p (length img + length (concat ds)) \<Longrightarrow>
    \<exists>it'. find_entry h s' = Some it' \<and> taken env fl n p (img @ concat ds) it' (ota_world s')
    \<and> others_kept fl p (ota_world s) (ota_world s') \<and> (img = [] \<and> concat ds \<noteq> [] \<longrightarrow> hd (concat ds) = 0xE9)"
proof (induction ds arbitrary: s img it)
  case (Cons d ds)
  from Cons.prems(1) obtain s1 where s1: "esp_ota_write env h (Some d) s = Some (E_OK, s1)" "write_all env h ds s1 = Some (E_OK, s')"
    by (auto simp: Option.bind_eq_Some_conv split: if_splits)
  have "fits n p (length img + length d)" using Cons.prems(4) by (auto simp: fits_def)
  from esp_ota_write_taken [OF assms s1(1) Cons.prems(2,3) this] obtain it1 where
    it1: "find_entry h s1 = Some it1" "taken env fl n p (img @ d) it1 (ota_world s1)" "others_kept fl p (ota_world s) (ota_world s1)"
      "img = [] \<and> d \<noteq> [] \<longrightarrow> hd d = 0xE9" by blast
  have "fits n p (length (img @ d) + length (concat ds))" using Cons.prems(4) by (auto simp: fits_def)
  from Cons.IH [OF s1(2) it1(1,2) this] obtain it' where it': "find_entry h s' = Some it'"
    "taken env fl n p (img @ concat (d # ds)) it' (ota_world s')" "others_kept fl p (ota_world s1) (ota_world s')"
    "img @ d = [] \<and> concat ds \<noteq> [] \<longrightarrow> hd (concat ds) = 0xE9" by auto
  moreover have "img = [] \<and> concat (d # ds) \<noteq> [] \<longrightarrow> hd (concat (d # ds)) = 0xE9"
    using it1(4) it'(4) by (cases "d = []") simp_all
  ultimately show ?case using others_kept_trans [OF it1(3) it'(3)] by blast
qed auto

text \<open>The area \<open>esp_ota_begin\<close> erases.\<close>

definition erased_area :: "esp_partition \<Rightarrow> u32 \<Rightarrow> nat" where
  "erased_area p image_size =
    (if image_size = 0 \<or> image_size = OTA_SIZE_UNKNOWN then p_size p else aligned_erase_size image_size)"

lemma running_world: "esp_ota_get_running_partition env s = Some (p, s') \<Longrightarrow> ota_world s' = ota_world s"
  by (auto simp: esp_ota_get_running_partition_def split: option.splits)

lemma begin_taken:
  assumes "flash_ok env fl" "esp_ota_begin env (Some p) sz s = Some ((E_OK, Some h), s')" "partition_verify env p = Some p" "0 < p_size p"
  shows "\<exists>it r s0. find_entry h s' = Some it \<and> taken env fl (erased_area p sz) p [] it (ota_world s')
    \<and> others_kept fl p (ota_world s) (ota_world s') \<and> is_ota_partition p
    \<and> esp_ota_get_running_partition env s = Some (r, s0) \<and> r \<noteq> p"
proof -
  obtain r s0 where r: "esp_ota_get_running_partition env s = Some (r, s0)" "p \<noteq> r" "is_ota_partition p"
    using assms(2,3) by (auto simp: esp_ota_begin_def Option.bind_eq_Some_conv split: if_splits)
  obtain ret w1 where w1: "partition_erase_range env p 0 (erased_area p sz) (ota_world s0) = (ret, w1)" by fastforce
  obtain m w2 where w2: "ota_calloc env w1 = (m, w2)" by fastforce
  have ok: "ret = E_OK" "m"
    using assms(2,3) r w1 w2 by (auto simp: esp_ota_begin_def erased_area_def Let_def split: if_splits)
  let ?e = "\<lparr>o_handle = s_ota_ops_last_handle s0 + 1, o_part = p,
    erased_size = (if sz = 0 \<or> sz = OTA_SIZE_UNKNOWN then p_size p else unat sz),
    wrote_size = 0, partial_bytes = 0, partial_data = replicate 16 0\<rparr> :: ota_ops_entry"
  have s': "find_entry h s' = Some ?e" "ota_world s' = w2"
    using assms(2,3) r w1 w2 ok by (auto simp: esp_ota_begin_def erased_area_def Let_def find_entry_def split: if_splits)
  have "only_range fl p 0 (erased_area p sz) (ota_world s) w1" "blank fl w1 p 0 (erased_area p sz)" "fl w2 = fl w1"
    using assms(1) w1 w2 ok running_world [OF r(1)] unfolding flash_ok_def blank_def
    by (metis add_0 snd_conv)+
  then have "others_kept fl p (ota_world s) w2" "blank fl w2 p 0 (erased_area p sz)"
    using only_range_others [of fl p 0 _ "ota_world s" w1] by (auto simp: others_kept_def blank_def)
  moreover have "0 < erased_size ?e" using assms(4) by (simp add: unat_gt_0)
  ultimately show ?thesis
    using s' r by (intro exI [of _ ?e] exI [of _ r] exI [of _ s0]) (simp add: taken_def holds_def)
qed

lemma aligned_16: "aligned_erase_size sz mod 16 = 0"
proof -
  let ?w = "(sz + 4095) AND NOT 4095 :: u32"
  have "?w AND 15 = 0"
  proof (rule bit_word_eqI)
    fix i assume "i < LENGTH(32)"
    have "bit (15 :: u32) i \<Longrightarrow> bit (4095 :: u32) i"
      using bit_mask_iff [of 4 i, where 'a = "32 word"] bit_mask_iff [of 12 i, where 'a = "32 word"]
      by (simp add: mask_eq_exp_minus_1)
    then show "bit (?w AND 15) i = bit 0 i" by (auto simp: bit_simps)
  qed
  moreover have "x AND 15 = x mod 16" for x :: u32
  proof -
    have "x AND 15 = take_bit 4 x" by (simp add: take_bit_eq_mask mask_eq_exp_minus_1)
    then show ?thesis by (simp add: take_bit_eq_mod)
  qed
  ultimately have "?w mod 16 = 0" by (simp only:)
  then have "unat ?w mod unat (16 :: u32) = 0" unfolding unat_mod [symmetric] by (simp only: unsigned_0)
  then show ?thesis by (simp add: aligned_erase_size_def)
qed

text \<open>The end: the last bytes are written, padded to a block, and the image is verified.\<close>

lemma end_taken:
  assumes "flash_ok env fl" "esp_ota_end env h s = (E_OK, s')" "find_entry h s = Some it"
    and "taken env fl n p img it (ota_world s)" "fits n p (length img)"
  shows "holds fl (ota_world s') p img" "others_kept fl p (ota_world s) (ota_world s')" "image_verify env p (ota_world s')" "img \<noteq> []"
proof -
  let ?pd = "partial_data it" and ?pb = "partial_bytes it"
  obtain bs where bs: "img = bs @ take ?pb ?pd" "length bs = wrote_size it" "holds fl (ota_world s) p bs"
    "blank fl (ota_world s) p (wrote_size it) n"
    using assms(4) by (auto simp: taken_def)
  have l: "length ?pd = 16" "?pb < 16" "o_part it = p" "?pb > 0 \<longrightarrow> wrote_size it mod 16 = 0"
    using assms(4) by (auto simp: taken_def)
  have wr: "wrote_size it \<noteq> 0" using assms(2,3) by (auto simp: esp_ota_end_def Let_def split: if_splits prod.splits)
  then show "img \<noteq> []" using bs(1,2) by auto
  have "holds fl (ota_world s') p img \<and> others_kept fl p (ota_world s) (ota_world s') \<and> image_verify env p (ota_world s')"
  proof (cases "?pb = 0")
    case True
    then have "ota_world s' = ota_world s" "image_verify env p (ota_world s)"
      using assms(2,3) l(3) by (auto simp: esp_ota_end_def Let_def split: if_splits)
    then show ?thesis using True bs by simp
  next
    case False
    then obtain w where w: "partition_write env p (length bs) ?pd (ota_world s) = (E_OK, w)" "ota_world s' = w" "image_verify env p w"
      using assms(2,3) l(3) bs(2) by (auto simp: esp_ota_end_def Let_def split: if_splits prod.splits)
    have "length bs + 16 \<le> p_size p" using assms(1) w(1) l(1) unfolding flash_ok_def by fastforce
    moreover have "length bs + 16 \<le> n" if "length img \<le> n" "n mod 16 = 0"
    proof -
      have "length bs < n" "length bs mod 16 = 0" using that(1) False bs(1,2) l by auto
      with that(2) show ?thesis by (auto simp: mod_eq_0_iff_dvd elim!: dvdE)
    qed
    ultimately have "length bs + length ?pd \<le> n" using assms(5) l(1) by (auto simp: fits_def)
    from append_cells [OF assms(1) w(1) bs(3) bs(4) [folded bs(2)] this]
    have "holds fl w p (bs @ ?pd)" "others_kept fl p (ota_world s) w" by auto
    moreover from this(1) have "holds fl w p img" unfolding bs(1) by (auto simp: holds_def nth_append)
    ultimately show ?thesis using w by simp
  qed
  then show "holds fl (ota_world s') p img" "others_kept fl p (ota_world s) (ota_world s')" "image_verify env p (ota_world s')" by auto
qed

text \<open>C35: An update stores exactly the image it was given.  When \<open>esp_ota_begin\<close>, any number of calls of \<open>esp_ota_write\<close> with
  pieces of any size, and \<open>esp_ota_end\<close> all succeed, with or without flash encryption, then the partition starts
  with the pieces put together, the image was verified and starts with the magic byte, the partition is an OTA
  partition other than the running one, and no other partition has changed.\<close>

theorem ota_stores_image:
  assumes "flash_ok env fl" "partition_verify env p = Some p" "0 < p_size p"
    and "esp_ota_begin env (Some p) sz s = Some ((E_OK, Some h), s1)"
    and "write_all env h ds s1 = Some (E_OK, s2)"
    and "esp_ota_end env h s2 = (E_OK, s3)"
    and "sz = 0 \<or> sz = OTA_SIZE_UNKNOWN \<or> length (concat ds) \<le> aligned_erase_size sz"
  shows "holds fl (ota_world s3) p (concat ds) \<and> image_verify env p (ota_world s3) \<and> hd (concat ds) = 0xE9
    \<and> (\<forall>q. q \<noteq> p \<longrightarrow> fl (ota_world s3) q = fl (ota_world s) q)
    \<and> is_ota_partition p \<and> map_option fst (esp_ota_get_running_partition env s) \<noteq> Some p"
proof -
  obtain it r s0 where b: "find_entry h s1 = Some it" "taken env fl (erased_area p sz) p [] it (ota_world s1)"
    "others_kept fl p (ota_world s) (ota_world s1)" "is_ota_partition p" "esp_ota_get_running_partition env s = Some (r, s0)" "r \<noteq> p"
    using begin_taken [OF assms(1,4,2,3)] by blast
  have f: "fits (erased_area p sz) p (length (concat ds))" using assms(7) aligned_16 by (auto simp: fits_def erased_area_def)
  then obtain it' where w: "find_entry h s2 = Some it'" "taken env fl (erased_area p sz) p (concat ds) it' (ota_world s2)"
    "others_kept fl p (ota_world s1) (ota_world s2)" "concat ds \<noteq> [] \<longrightarrow> hd (concat ds) = 0xE9"
    using write_all_taken [OF assms(1,5) b(1,2)] by auto
  note e = end_taken [OF assms(1,6) w(1,2) f]
  have "others_kept fl p (ota_world s) (ota_world s3)" using b(3) w(3) e(2) by (blast intro: others_kept_trans)
  then show ?thesis using e w(4) b(4-6) by (simp add: others_kept_def)
qed

lemma nor_flash_ok: "flash_ok (nor_env enc) nor_at"
  by (auto simp: flash_ok_def nor_env_def nor_erase_def nor_write_def nor_cell_def only_range_def)

text \<open>An image of 40 bytes in pieces of 5 and 35, on an encrypted flash.\<close>

theorem ota_stores_image_witness:
  "\<exists>s3 :: nor_flash ota. holds nor_at (ota_world s3) ota_1 (0xE9 # replicate 39 7) \<and> image_verify (nor_env True) ota_1 (ota_world s3)
    \<and> nor_at (ota_world s3) ota_0 = nor_at (ota_world nor_start) ota_0"
proof -
  let ?ds = "[0xE9 # replicate 4 7, replicate 35 7] :: bytes list"
  define b where "b = esp_ota_begin (nor_env True) (Some ota_1) 0xffffffff nor_start"
  define s1 where "s1 = snd (the b)"
  define w where "w = write_all (nor_env True) 1 ?ds s1"
  define s2 where "s2 = snd (the w)"
  define e where "e = esp_ota_end (nor_env True) 1 s2"
  have "map_option fst b = Some (E_OK, Some 1)" "map_option fst w = Some E_OK" "fst e = E_OK"
    unfolding e_def s2_def w_def s1_def b_def by code_simp+
  then have ok: "b = Some ((E_OK, Some 1), s1)" "w = Some (E_OK, s2)" "e = (E_OK, snd e)"
    by (auto simp: s1_def s2_def prod_eq_iff)
  have c: "partition_verify (nor_env True) ota_1 = Some ota_1" "0 < p_size ota_1" "ota_0 \<noteq> ota_1"
    "concat ?ds = 0xE9 # replicate 39 7" by code_simp+
  from ota_stores_image [OF nor_flash_ok c(1,2) ok [unfolded b_def w_def e_def], folded e_def] c(3,4)
  show ?thesis by auto
qed

end
