(* ===== verification/Ota_Boot.thy ===== *)
theory Ota_Boot
  imports Ota_Image
begin

text \<open>
  Which image the device boots: the record that is written selects the wanted partition, the record in force stays
  untouched until then, and a rejected image gives way to a verified one.
\<close>

subsection \<open>The boot loader library\<close>

text \<open>What is relied on: the layout of a record in memory is faithful, its checksum covers the sequence number, a record
  is invalid when it is blank or marked so, valid when its checksum is right, and the active record is a valid
  one with the largest sequence number.  The partition \<open>od\<close> of the records can always be mapped.\<close>

definition boot_ok :: "'w ota_env \<Rightarrow> 'w cells \<Rightarrow> esp_partition \<Rightarrow> bool" where
  "boot_ok env fl od \<longleftrightarrow> find_otadata env = Some od \<and> 8192 \<le> p_size od
  \<and> (\<forall>e. length (seq_label e) = 20 \<longrightarrow> length (select_bytes env e) = 32 \<and> select_of env (select_bytes env e) = e)
  \<and> (\<forall>bs. length (seq_label (select_of env bs)) = 20)
  \<and> (\<forall>e e'. ota_seq e = ota_seq e' \<longrightarrow> ota_select_crc env e = ota_select_crc env e')
  \<and> (\<forall>e. ota_select_invalid env e \<longleftrightarrow>
        ota_seq e = 0xffffffff \<or> ota_state e = ESP_OTA_IMG_INVALID \<or> ota_state e = ESP_OTA_IMG_ABORTED)
  \<and> (\<forall>e. ota_select_valid env e \<longleftrightarrow> \<not> ota_select_invalid env e \<and> ota_crc e = ota_select_crc env e)
  \<and> (\<forall>two i. get_active_otadata env two = Some i \<longrightarrow> i < 2 \<and> ota_select_valid env (otadata_at two i)
        \<and> (\<forall>j < 2. ota_select_valid env (otadata_at two j) \<longrightarrow> ota_seq (otadata_at two j) \<le> ota_seq (otadata_at two i)))
  \<and> (\<forall>two. get_active_otadata env two = None \<longrightarrow> (\<forall>j < 2. \<not> ota_select_valid env (otadata_at two j)))
  \<and> (\<forall>two. select_otadata env two (ota_select_valid env (fst two), ota_select_valid env (snd two)) True = get_active_otadata env two)
  \<and> (\<forall>w. \<exists>m. partition_mmap env od w = Some m
        \<and> (\<forall>i < p_size od. m i = (case fl w od i of None \<Rightarrow> 0xFF | Some b \<Rightarrow> b)))"

lemma boot_okD:
  assumes "boot_ok env fl od"
  shows "find_otadata env = Some od" "8192 \<le> p_size od" "length (seq_label (select_of env bs)) = 20"
    "ota_seq e = ota_seq e' \<Longrightarrow> ota_select_crc env e = ota_select_crc env e'"
    "ota_select_valid env e \<longleftrightarrow> ota_seq e \<noteq> 0xffffffff \<and> ota_state e \<noteq> 3 \<and> ota_state e \<noteq> 4 \<and> ota_crc e = ota_select_crc env e"
    "ota_select_valid env e \<Longrightarrow> \<not> ota_select_invalid env e"
    "get_active_otadata env two = Some i \<Longrightarrow> i < 2"
    "get_active_otadata env two = Some i \<Longrightarrow> ota_select_valid env (otadata_at two i)"
    "get_active_otadata env two = Some i \<Longrightarrow> j < 2 \<Longrightarrow> ota_select_valid env (otadata_at two j) \<Longrightarrow>
       ota_seq (otadata_at two j) \<le> ota_seq (otadata_at two i)"
    "get_active_otadata env two = None \<Longrightarrow> j < 2 \<Longrightarrow> \<not> ota_select_valid env (otadata_at two j)"
    "select_otadata env two (ota_select_valid env (fst two), ota_select_valid env (snd two)) True = get_active_otadata env two"
proof -
  note n1 = assms [unfolded boot_ok_def]
  note n2 = conjunct2 [OF n1] note n3 = conjunct2 [OF n2] note n4 = conjunct2 [OF n3] note n5 = conjunct2 [OF n4]
  note n6 = conjunct2 [OF n5] note n7 = conjunct2 [OF n6] note n8 = conjunct2 [OF n7] note n9 = conjunct2 [OF n8]
  note n10 = conjunct2 [OF n9]
  show "find_otadata env = Some od" by (rule conjunct1 [OF n1])
  show "8192 \<le> p_size od" by (rule conjunct1 [OF n2])
  show "length (seq_label (select_of env bs)) = 20" by (rule conjunct1 [OF n4, rule_format])
  show "ota_seq e = ota_seq e' \<Longrightarrow> ota_select_crc env e = ota_select_crc env e'" by (rule conjunct1 [OF n5, rule_format])
  show "ota_select_valid env e \<longleftrightarrow> ota_seq e \<noteq> 0xffffffff \<and> ota_state e \<noteq> 3 \<and> ota_state e \<noteq> 4 \<and> ota_crc e = ota_select_crc env e"
    using conjunct1 [OF n6, rule_format, of e] conjunct1 [OF n7, rule_format, of e] by blast
  show "ota_select_valid env e \<Longrightarrow> \<not> ota_select_invalid env e" using conjunct1 [OF n7, rule_format, of e] by blast
  note act = conjunct1 [OF n8, rule_format]
  show "get_active_otadata env two = Some i \<Longrightarrow> i < 2" "get_active_otadata env two = Some i \<Longrightarrow> ota_select_valid env (otadata_at two i)"
    "get_active_otadata env two = Some i \<Longrightarrow> j < 2 \<Longrightarrow> ota_select_valid env (otadata_at two j) \<Longrightarrow>
       ota_seq (otadata_at two j) \<le> ota_seq (otadata_at two i)"
    using act by blast+
  show "get_active_otadata env two = None \<Longrightarrow> j < 2 \<Longrightarrow> \<not> ota_select_valid env (otadata_at two j)"
    using conjunct1 [OF n9, rule_format] by blast
  show "select_otadata env two (ota_select_valid env (fst two), ota_select_valid env (snd two)) True = get_active_otadata env two"
    by (rule conjunct1 [OF n10, rule_format])
qed

text \<open>The two records as they are read.\<close>

definition records_of :: "'w ota_env \<Rightarrow> esp_partition \<Rightarrow> 'w \<Rightarrow> ota_select_entry \<times> ota_select_entry" where
  "records_of env od w = (case partition_mmap env od w of None \<Rightarrow> (entry_at env (\<lambda>i. 0) 0, entry_at env (\<lambda>i. 0) 0)
     | Some m \<Rightarrow> (entry_at env m 0, entry_at env m SPI_FLASH_SEC_SIZE))"

lemma read_otadata_ok: "boot_ok env fl od \<Longrightarrow> read_otadata env s = Some (od, records_of env od (ota_world s))"
proof -
  assume b: "boot_ok env fl od"
  then obtain m where "partition_mmap env od (ota_world s) = Some m" unfolding boot_ok_def by blast
  then show ?thesis using b by (simp add: read_otadata_def records_of_def boot_ok_def)
qed

lemma record_bytes:
  assumes "boot_ok env fl od" "i < 2"
  shows "otadata_at (records_of env od w) i =
    select_of env (map (\<lambda>k. case fl w od (i * 4096 + k) of None \<Rightarrow> 0xFF | Some b \<Rightarrow> b) [0..<32])"
proof -
  obtain m where m: "partition_mmap env od w = Some m" "\<forall>i < p_size od. m i = (case fl w od i of None \<Rightarrow> 0xFF | Some b \<Rightarrow> b)"
    using assms(1) unfolding boot_ok_def by blast
  have sz: "8192 \<le> p_size od" using assms(1) by (simp add: boot_ok_def)
  have "entry_at env m (i * 4096) = select_of env (map (\<lambda>k. m (i * 4096 + k)) [0..<32])"
    unfolding entry_at_def
    by (rule arg_cong [where f = "select_of env"]) (simp add: list_eq_iff_nth_eq)
  also have "map (\<lambda>k. m (i * 4096 + k)) [0..<32] =
      map (\<lambda>k. case fl w od (i * 4096 + k) of None \<Rightarrow> 0xFF | Some b \<Rightarrow> b) [0..<32]"
    using m(2) sz assms(2) by (intro map_cong) auto
  finally show ?thesis using assms(2) m(1) by (cases i) (simp_all add: records_of_def otadata_at_def)
qed

text \<open>Writing one record leaves the other one as it was, whatever happens; when it succeeds, the record is read back.\<close>

lemma rewrite_record:
  assumes "flash_ok env fl" "boot_ok env fl od" "rewrite_ota_seq env two seq i od s = (r, s')" "i < 2"
    and "length (seq_label (otadata_at two i)) = 20"
  defines "e \<equiv> (otadata_at two i)\<lparr>ota_seq := seq\<rparr>"
  shows "j < 2 \<Longrightarrow> j \<noteq> i \<Longrightarrow> otadata_at (records_of env od (ota_world s')) j = otadata_at (records_of env od (ota_world s)) j"
    "r = E_OK \<Longrightarrow> otadata_at (records_of env od (ota_world s')) i = e\<lparr>ota_crc := ota_select_crc env e\<rparr>"
    "q \<noteq> od \<Longrightarrow> fl (ota_world s') q = fl (ota_world s) q"
proof -
  let ?e = "e\<lparr>ota_crc := ota_select_crc env e\<rparr>" and ?b = "i * 4096"
  obtain r1 w1 where er: "partition_erase_range env od ?b 4096 (ota_world s) = (r1, w1)" by fastforce
  obtain r2 w2 where wr: "partition_write env od ?b (select_bytes env ?e) w1 = (r2, w2)" by fastforce
  have len: "length (select_bytes env ?e) = 32" "select_of env (select_bytes env ?e) = ?e"
    using assms(2,5) by (simp_all add: boot_ok_def e_def)
  have w': "(r, ota_world s') = (if r1 \<noteq> E_OK then (r1, w1) else (r2, w2))"
    using assms(3,4) er wr by (auto simp: rewrite_ota_seq_def Let_def e_def mult.commute split: if_splits)
  note o1 = flash_okD(1) [OF assms(1) er] and o2 = flash_okD(3) [OF assms(1) wr, unfolded len(1)]
  have keep: "fl (ota_world s') q k = fl (ota_world s) q k" if "q \<noteq> od \<or> k < ?b \<or> ?b + 4096 \<le> k" for q k
    using o1 o2 w' that by (auto simp: only_range_def split: if_splits)
  then show "q \<noteq> od \<Longrightarrow> fl (ota_world s') q = fl (ota_world s) q" by blast
  show "otadata_at (records_of env od (ota_world s')) j = otadata_at (records_of env od (ota_world s)) j" if "j < 2" "j \<noteq> i"
  proof -
    have "fl (ota_world s') od (j * 4096 + k) = fl (ota_world s) od (j * 4096 + k)" if "k < 32" for k
      using \<open>j < 2\<close> \<open>j \<noteq> i\<close> assms(4) that by (intro keep) (auto simp: less_2_cases_iff)
    then show ?thesis unfolding record_bytes [OF assms(2) that(1)]
      by (intro arg_cong [where f = "select_of env"] map_cong) auto
  qed
  show "otadata_at (records_of env od (ota_world s')) i = ?e" if "r = E_OK"
  proof -
    from that w' have ok: "r1 = E_OK" "r2 = E_OK" "ota_world s' = w2" by (auto split: if_splits)
    have "blank fl w1 od ?b (?b + 4096)" using flash_okD(2) [OF assms(1)] er ok(1) by blast
    then have "blank fl w1 od ?b (?b + length (select_bytes env ?e))" using len(1) by (auto simp: blank_def)
    then have "\<forall>k < 32. fl w2 od (?b + k) = Some (select_bytes env ?e ! k)"
      using flash_okD(5) [OF assms(1), of od ?b "select_bytes env ?e" w1 w2] wr ok(2) len(1) by simp
    with ok(3) have "map (\<lambda>k. case fl (ota_world s') od (?b + k) of None \<Rightarrow> 0xFF | Some b \<Rightarrow> b) [0..<32] = select_bytes env ?e"
      using len(1) by (intro nth_equalityI) auto
    then show ?thesis unfolding record_bytes [OF assms(2,4)] using len(2) by simp
  qed
qed

subsection \<open>The next sequence number\<close>

lemma next_seq_returns:
  fixes b c i :: nat
  assumes "0 < c" "c \<le> 16" "b < c" "unat seq < 2 ^ 31"
  shows "b + i * c < unat seq + c \<Longrightarrow>
    \<exists>v. next_seq seq (of_nat b) (of_nat c) (of_nat i) = Some v \<and> seq \<le> v \<and> unat v mod c = b \<and> unat v < unat seq + c"
proof (induction "unat seq + c - (b + i * c)" arbitrary: i rule: less_induct)
  case less
  have lt: "b + i * c < 2 ^ 32" using less.prems assms(2,4) by simp
  have w: "(of_nat b :: u32) + of_nat i * of_nat c = of_nat (b + i * c)" by simp
  have u: "unat (of_nat (b + i * c) :: u32) = b + i * c" using lt by (simp add: unat_of_nat del: of_nat_add of_nat_mult)
  show ?case
  proof (cases "b + i * c < unat seq")
    case True
    then have "b + Suc i * c < unat seq + c" by simp
    moreover have "unat seq + c - (b + Suc i * c) < unat seq + c - (b + i * c)" using True assms(1) by simp
    ultimately obtain v where "next_seq seq (of_nat b) (of_nat c) (of_nat (Suc i)) = Some v" "seq \<le> v" "unat v mod c = b" "unat v < unat seq + c"
      using less.hyps [of "Suc i"] by blast
    moreover have "next_seq seq (of_nat b) (of_nat c) (of_nat i) = next_seq seq (of_nat b) (of_nat c) (of_nat (Suc i))"
      using True u by (subst next_seq.simps) (simp add: w word_less_nat_alt add.commute del: of_nat_add of_nat_mult)
    ultimately show ?thesis by auto
  next
    case False
    then have "next_seq seq (of_nat b) (of_nat c) (of_nat i) = Some (of_nat (b + i * c))"
      using u by (subst next_seq.simps) (simp add: w word_less_nat_alt del: of_nat_add of_nat_mult)
    moreover have "seq \<le> of_nat (b + i * c)" using False u by (simp add: word_le_nat_alt del: of_nat_add of_nat_mult)
    ultimately show ?thesis using u assms(3) less.prems by (simp del: of_nat_add of_nat_mult)
  qed
qed

lemma slot_of_seq:
  assumes "sl < c" "unat v mod c = (sl + 1) mod c" "0 < unat v"
  shows "seq_slot v c = sl"
proof -
  have "unat (v - 1) = unat v - 1" using assms(3) by (simp add: unat_minus_one unat_gt_0)
  moreover have "(unat v - 1) mod c = sl"
  proof -
    have "((unat v - 1) + 1) mod c = (sl + 1) mod c" using assms(2,3) by simp
    then have "(unat v - 1) mod c = sl mod c" by (simp add: mod_Suc split: if_splits)
    then show ?thesis using assms(1) by simp
  qed
  ultimately show ?thesis by (simp add: seq_slot_def)
qed

subsection \<open>Setting the boot partition\<close>

lemma count_bound: "count_from env n k = Some c \<Longrightarrow> c \<le> n + k"
  by (induction k arbitrary: n) (fastforce split: if_splits)+

lemma record_label: "boot_ok env fl od \<Longrightarrow> j < 2 \<Longrightarrow> length (seq_label (otadata_at (records_of env od w) j)) = 20"
  by (simp add: record_bytes boot_okD(3))

lemma otadata_at_set [simp]: "i < 2 \<Longrightarrow> j < 2 \<Longrightarrow> otadata_at (set_otadata i e two) j = (if j = i then e else otadata_at two j)"
  by (auto simp: otadata_at_def set_otadata_def less_2_cases_iff)

text \<open>Once a valid record for slot \<open>sl\<close> has the largest number, its partition is booted.\<close>

lemma boots_slot:
  assumes "boot_ok env fl od" "get_ota_partition_count env = Some c" "sl < c"
    and "i < 2" "two = records_of env od (ota_world s)" "ota_select_valid env (otadata_at two i)" "seq_slot (ota_seq (otadata_at two i)) c = sl"
    and "\<And>j. j < 2 \<Longrightarrow> ota_select_valid env (otadata_at two j) \<Longrightarrow> ota_seq (otadata_at two j) \<le> ota_seq (otadata_at two i)"
  shows "esp_ota_get_boot_partition env s = Some (find_app env (0x10 + sl))"
proof -
  have act: "\<exists>a. get_active_otadata env two = Some a \<and> a < 2 \<and> ota_select_valid env (otadata_at two a)
      \<and> (\<forall>j < 2. ota_select_valid env (otadata_at two j) \<longrightarrow> ota_seq (otadata_at two j) \<le> ota_seq (otadata_at two a))"
    using boot_okD(7-10) [OF assms(1), where two = two] assms(4,6) by (cases "get_active_otadata env two") blast+
  then obtain a where a: "get_active_otadata env two = Some a" "a < 2" "ota_select_valid env (otadata_at two a)"
    "ota_seq (otadata_at two i) \<le> ota_seq (otadata_at two a)" using assms(4,6) by blast
  with assms(8) have "ota_seq (otadata_at two a) = ota_seq (otadata_at two i)" by (simp add: order_antisym)
  moreover have "\<not> (ota_select_invalid env (fst two) \<and> ota_select_invalid env (snd two))"
  proof -
    have "\<not> ota_select_invalid env (otadata_at two i)" by (rule boot_okD(6) [OF assms(1,6)])
    then show ?thesis by (auto simp: otadata_at_def split: if_splits)
  qed
  ultimately show ?thesis
    using read_otadata_ok [OF assms(1), of s] assms(2,3,5,7) a(1) by (auto simp: esp_ota_get_boot_partition_def)
qed

text \<open>Sequence numbers that are not about to wrap.\<close>

definition sound_seqs :: "'w ota_env \<Rightarrow> ota_select_entry \<times> ota_select_entry \<Rightarrow> bool" where
  "sound_seqs env two \<longleftrightarrow> (\<forall>j < 2. ota_select_valid env (otadata_at two j) \<longrightarrow>
     0 < unat (ota_seq (otadata_at two j)) \<and> unat (ota_seq (otadata_at two j)) < 2 ^ 31)"

text \<open>The record written for a slot, valid and with a number not below that of the record in force.\<close>

lemma select_slot:
  assumes "flash_ok env fl" "boot_ok env fl od" "get_ota_partition_count env = Some c" "sl < c"
    and "two = records_of env od (ota_world s)" "i < 2" "unat v mod c = (sl + 1) mod c" "0 < unat v" "unat v < 2 ^ 31 + 16"
    and "rewrite_ota_seq env (set_otadata i ((otadata_at two i)\<lparr>ota_state := set_new_state_otadata\<rparr>) two) v i od s = (E_OK, s')"
    and "\<And>j. j < 2 \<Longrightarrow> j \<noteq> i \<Longrightarrow> ota_select_valid env (otadata_at two j) \<Longrightarrow> ota_seq (otadata_at two j) \<le> v"
  shows "esp_ota_get_boot_partition env s' = Some (find_app env (0x10 + sl))"
proof -
  let ?two = "set_otadata i ((otadata_at two i)\<lparr>ota_state := set_new_state_otadata\<rparr>) two"
  define e where "e = (otadata_at ?two i)\<lparr>ota_seq := v\<rparr>"
  have lab: "length (seq_label (otadata_at ?two i)) = 20"
    using record_label [OF assms(2,6)] assms(5,6) by simp
  let ?two' = "records_of env od (ota_world s')"
  have new: "otadata_at ?two' i = e\<lparr>ota_crc := ota_select_crc env e\<rparr>"
    unfolding e_def by (rule rewrite_record(2) [OF assms(1,2,10,6) lab refl])
  have old: "otadata_at ?two' j = otadata_at two j" if "j < 2" "j \<noteq> i" for j
    using rewrite_record(1) [OF assms(1,2,10,6) lab that] assms(5) by simp
  have st: "ota_seq e = v" "ota_state e = 0xffffffff" using assms(6) by (simp_all add: e_def set_new_state_otadata_def)
  have "v \<noteq> 0xffffffff" using assms(9) by auto
  have val: "ota_select_valid env (otadata_at ?two' i)"
  proof -
    have "ota_select_crc env (e\<lparr>ota_crc := x\<rparr>) = ota_select_crc env e" for x by (rule boot_okD(4) [OF assms(2)]) simp
    then show ?thesis using st \<open>v \<noteq> 0xffffffff\<close> unfolding new boot_okD(5) [OF assms(2)] by simp
  qed
  have "ota_seq (otadata_at ?two' i) = v" using new st by simp
  moreover have "ota_seq (otadata_at ?two' j) \<le> v" if "j < 2" "ota_select_valid env (otadata_at ?two' j)" for j
    using that old [of j] assms(11) [of j] calculation by (cases "j = i") auto
  ultimately show ?thesis
    using boots_slot [OF assms(2-4,6) refl val] slot_of_seq [OF assms(4,7,8)] by simp
qed

lemma set_boot_core:
  assumes "flash_ok env fl" "boot_ok env fl od" "get_ota_partition_count env = Some c" "sound_seqs env (records_of env od (ota_world s))"
    and "is_ota_partition p" "find_app env (p_subtype p) = Some p" "image_verify env p (ota_world s)"
  shows "\<exists>r s'. esp_ota_set_boot_partition env (Some p) s = Some (r, s')
    \<and> (r = E_OK \<longrightarrow> esp_ota_get_boot_partition env s' = Some (Some p))
    \<and> (\<forall>a. get_active_otadata env (records_of env od (ota_world s)) = Some a \<longrightarrow>
         otadata_at (records_of env od (ota_world s')) a = otadata_at (records_of env od (ota_world s)) a)
    \<and> (\<forall>q. q \<noteq> od \<longrightarrow> fl (ota_world s') q = fl (ota_world s) q)"
proof -
  define sl where "sl = SUB_TYPE_ID (p_subtype p)"
  have sub: "p_subtype p = 0x10 + sl" "p_type p = 0" "p_subtype p \<noteq> 0"
    using assms(5) by (auto simp: sl_def SUB_TYPE_ID_def is_ota_partition_def mod_if)
  let ?two = "records_of env od (ota_world s)"
  have start: "esp_ota_set_boot_partition env (Some p) s = esp_rewrite_ota_data env (p_subtype p) s"
    using sub(2,3) assms(7) by (simp add: esp_ota_set_boot_partition_def image_validate_def)
  have c16: "c \<le> 16" using count_bound [of env 0 16 c] assms(3) by (simp add: get_ota_partition_count_def)
  note rd = read_otadata_ok [OF assms(2), of s]
  note lab = record_label [OF assms(2), where w = "ota_world s"]
  show ?thesis
  proof (cases "sl < c")
    case False
    then show ?thesis using start rd assms(3) by (simp add: esp_rewrite_ota_data_def sl_def)
  next
    case True
    show ?thesis
    proof (cases "get_active_otadata env ?two")
      case None
      let ?new = "set_otadata 0 ((otadata_at ?two 0)\<lparr>ota_state := set_new_state_otadata\<rparr>) ?two"
      obtain r s' where r: "rewrite_ota_seq env ?new (of_nat (sl + 1)) 0 od s = (r, s')" by fastforce
      have eq: "esp_ota_set_boot_partition env (Some p) s = Some (r, s')"
        using start rd assms(3) True None r by (simp add: esp_rewrite_ota_data_def sl_def)
      have u: "unat (of_nat (sl + 1) :: u32) = sl + 1" using True c16 by (simp add: unat_of_nat del: of_nat_add of_nat_Suc)
      have "\<not> ota_select_valid env (otadata_at ?two j)" if "j < 2" for j
        by (rule boot_okD(10) [OF assms(2) None that])
      then have "esp_ota_get_boot_partition env s' = Some (Some p)" if "r = E_OK"
        using select_slot [OF assms(1-3) True refl, of 0 "of_nat (sl + 1)" s s'] r that u assms(6) sub(1) True c16
        by (simp del: of_nat_add of_nat_Suc)
      moreover have "fl (ota_world s') q = fl (ota_world s) q" if "q \<noteq> od" for q
        using rewrite_record(3) [OF assms(1,2) r] lab that by simp
      ultimately show ?thesis using eq None by auto
    next
      case (Some a)
      have a: "a < 2" "ota_select_valid env (otadata_at ?two a)" using boot_okD(7,8) [OF assms(2) Some] by auto
      let ?seq = "ota_seq (otadata_at ?two a)"
      have sq: "0 < unat ?seq" "unat ?seq < 2 ^ 31" using assms(4) a by (auto simp: sound_seqs_def)
      have "(sl + 1) mod c < c" using True by simp
      then have "(sl + 1) mod c + 0 * c < unat ?seq + c" by simp
      then obtain v where v: "next_seq ?seq (of_nat ((sl + 1) mod c)) (of_nat c) 0 = Some v" "?seq \<le> v"
        "unat v mod c = (sl + 1) mod c" "unat v < unat ?seq + c"
        using next_seq_returns [of c "(sl + 1) mod c" ?seq 0] True c16 sq by auto
      let ?i = "1 - a"
      let ?new = "set_otadata ?i ((otadata_at ?two ?i)\<lparr>ota_state := set_new_state_otadata\<rparr>) ?two"
      have i: "?i < 2" "a \<noteq> ?i" "\<And>j. j < 2 \<Longrightarrow> j \<noteq> ?i \<Longrightarrow> j = a" using a(1) by (auto simp: less_2_cases_iff)
      obtain r s' where r: "rewrite_ota_seq env ?new v ?i od s = (r, s')" by fastforce
      have eq: "esp_ota_set_boot_partition env (Some p) s = Some (r, s')"
        using start rd assms(3) True Some v(1) r by (simp add: esp_rewrite_ota_data_def sl_def Let_def)
      have vb: "0 < unat v" "unat v < 2 ^ 31 + 16" using v(2,4) sq c16 by (auto simp: word_le_nat_alt)
      have "esp_ota_get_boot_partition env s' = Some (Some p)" if "r = E_OK"
        using select_slot [OF assms(1-3) True refl i(1) v(3) vb, of s s'] r that assms(6) sub(1) v(2) i(3) by auto
      moreover have l: "length (seq_label (otadata_at ?new ?i)) = 20" using lab i(1) by simp
      note rewrite_record(1) [OF assms(1,2) r i(1) l a(1) i(2)] rewrite_record(3) [OF assms(1,2) r i(1) l]
      ultimately show ?thesis using eq Some by auto
    qed
  qed
qed

text \<open>C36: Setting the boot partition works and is safe.  For a verified OTA partition of the table, with sound sequence numbers in the boot records,
  \<open>esp_ota_set_boot_partition\<close> returns (the search for the next sequence number ends), and when it reports success
  the partition booted next is the one asked for; the record that was in force is untouched in any case, and no
  partition but \<open>otadata\<close> is changed.\<close>

theorem set_boot_partition_boots:
  assumes "flash_ok env fl" "boot_ok env fl od" "get_ota_partition_count env = Some c" "sound_seqs env (records_of env od (ota_world s))"
    and "is_ota_partition p" "find_app env (p_subtype p) = Some p" "image_verify env p (ota_world s)"
  shows "\<exists>r s'. esp_ota_set_boot_partition env (Some p) s = Some (r, s')
    \<and> (r = E_OK \<longrightarrow> esp_ota_get_boot_partition env s' = Some (Some p))
    \<and> (\<forall>a. get_active_otadata env (records_of env od (ota_world s)) = Some a \<longrightarrow>
         otadata_at (records_of env od (ota_world s')) a = otadata_at (records_of env od (ota_world s)) a)
    \<and> (\<forall>q. q \<noteq> od \<longrightarrow> fl (ota_world s') q = fl (ota_world s) q)"
  by (rule set_boot_core [OF assms])

subsection \<open>Rollback\<close>

text \<open>The partition table gives what it is asked for.\<close>

definition table_ok :: "'w ota_env \<Rightarrow> bool" where
  "table_ok env \<longleftrightarrow> (\<forall>t sub p. partition_find_first env t sub = Some p \<longrightarrow> p_type p = t \<and> p_subtype p = sub)"

lemma find_app_ok: "table_ok env \<Longrightarrow> find_app env sub = Some p \<Longrightarrow> p_type p = 0 \<and> p_subtype p = sub"
  by (simp add: table_ok_def find_app_def)

text \<open>The verification of an image looks at its partition only.\<close>

definition verify_local :: "'w ota_env \<Rightarrow> 'w cells \<Rightarrow> bool" where
  "verify_local env fl \<longleftrightarrow> (\<forall>p w w'. fl w p = fl w' p \<longrightarrow> image_verify env p w = image_verify env p w')"

lemma default_is_factory: "find_app env 0 = Some p \<Longrightarrow> find_default_boot_partition env = Some p"
  by (simp add: find_default_boot_partition_def)

text \<open>What the check before a rollback finds: the image that will be booted once the active record is rejected.\<close>

lemma rollback_target:
  assumes "boot_ok env fl od" "get_ota_partition_count env = Some c" "esp_ota_check_rollback_is_possible env s = Some True"
    and "two = records_of env od (ota_world s)" "get_active_otadata env two = Some a"
  shows "\<exists>p. image_verify env p (ota_world s) \<and> c \<noteq> 0 \<and>
    (if ota_select_valid env (otadata_at two (1 - a)) then find_app env (0x10 + seq_slot (ota_seq (otadata_at two (1 - a))) c) = Some p
     else find_app env 0 = Some p)"
proof -
  have a: "a < 2" by (rule boot_okD(7) [OF assms(1,5)])
  have "(if 1 - a = 0 then ota_select_valid env (fst two) else ota_select_valid env (snd two)) = ota_select_valid env (otadata_at two (1 - a))"
    by (simp add: otadata_at_def)
  then show ?thesis
    using assms(2,3,5) boot_okD(11) [OF assms(1), of two] read_otadata_ok [OF assms(1), of s] assms(4)
    by (auto simp: esp_ota_check_rollback_is_possible_def image_validate_def Let_def split: if_splits option.splits)
qed

text \<open>C37: A rollback ends in a verified image.  When rejecting the running image makes the device restart, the partition
  it boots next holds an image that has been verified, namely the one selected by the other record, or the factory
  image when that record is not valid.\<close>

theorem rollback_boots_verified_image:
  assumes "flash_ok env fl" "boot_ok env fl od" "get_ota_partition_count env = Some c" "table_ok env" "verify_local env fl"
    and "find_otadata env = Some od"
    and "esp_ota_mark_app_invalid_rollback_and_reboot env s = Some (E_OK, True, s')"
  shows "\<exists>p. esp_ota_get_boot_partition env s' = Some (Some p) \<and> image_verify env p (ota_world s')"
proof -
  let ?two = "records_of env od (ota_world s)" and ?two' = "records_of env od (ota_world s')"
  note rd = read_otadata_ok [OF assms(2)]
  obtain a where a: "get_active_otadata env ?two = Some a" and pos: "esp_ota_check_rollback_is_possible env s = Some True"
    and rw: "rewrite_ota_seq env (set_otadata a ((otadata_at ?two a)\<lparr>ota_state := ESP_OTA_IMG_INVALID\<rparr>) ?two)
      (ota_seq (otadata_at ?two a)) a od s = (E_OK, s')"
    using assms(3,7) rd [of s]
    by (auto simp: esp_ota_mark_app_invalid_rollback_and_reboot_def esp_ota_current_ota_is_workable_def Let_def
        Option.bind_eq_Some_conv split: option.splits if_splits prod.splits)
  have a2: "a < 2" "1 - a < 2" "1 - a \<noteq> a" using boot_okD(7) [OF assms(2) a] by (auto simp: less_2_cases_iff)
  let ?e = "(otadata_at ?two a)\<lparr>ota_state := ESP_OTA_IMG_INVALID\<rparr>"
  have lab: "length (seq_label (otadata_at (set_otadata a ?e ?two) a)) = 20" using record_label [OF assms(2) a2(1)] a2(1) by simp
  note keep = rewrite_record(1) [OF assms(1,2) rw a2(1) lab a2(2,3)] and fl = rewrite_record(3) [OF assms(1,2) rw a2(1) lab]
  have "ota_state (otadata_at ?two' a) = 3" using rewrite_record(2) [OF assms(1,2) rw a2(1) lab] a2(1) by simp
  then have inv: "\<not> ota_select_valid env (otadata_at ?two' a)" by (simp add: boot_okD(5) [OF assms(2)])
  obtain p where p: "image_verify env p (ota_world s)" "c \<noteq> 0"
    "if ota_select_valid env (otadata_at ?two (1 - a)) then find_app env (0x10 + seq_slot (ota_seq (otadata_at ?two (1 - a))) c) = Some p
     else find_app env 0 = Some p"
    using rollback_target [OF assms(2,3) pos refl a] by blast
  have "p_type p = 0" using p(3) find_app_ok [OF assms(4)] by (auto split: if_splits)
  moreover have "p_type od = 1" using assms(4,6) by (simp add: table_ok_def find_otadata_def)
  ultimately have "p \<noteq> od" by auto
  then have ver: "image_verify env p (ota_world s')" using fl p(1) assms(5) unfolding verify_local_def by metis
  have two: "j = a \<or> j = 1 - a" if "j < 2" for j using that a2(1) by auto
  have "esp_ota_get_boot_partition env s' = Some (Some p)"
  proof (cases "ota_select_valid env (otadata_at ?two (1 - a))")
    case True
    have "seq_slot x c < c" for x using p(2) by (simp add: seq_slot_def)
    from boots_slot [OF assms(2,3) this a2(2) refl, of s' "ota_seq (otadata_at ?two (1 - a))"] show ?thesis
      using True keep p(3) two inv by force
  next
    case False
    then have none: "\<not> ota_select_valid env (otadata_at ?two' j)" if "j < 2" for j using two [OF that] keep inv by auto
    then have "get_active_otadata env ?two' = None" using boot_okD(7,8) [OF assms(2), of ?two'] by (cases "get_active_otadata env ?two'") auto
    then show ?thesis
      using False p(3) rd [of s'] assms(3) default_is_factory [of env p] by (simp add: esp_ota_get_boot_partition_def)
  qed
  then show ?thesis using ver by blast
qed

subsection \<open>The partition for the next update\<close>

fun slots :: "'w ota_env \<Rightarrow> nat list \<Rightarrow> esp_partition list" where
  "slots env [] = []"
| "slots env (t # ts) = (case find_app env t of None \<Rightarrow> slots env ts | Some p \<Rightarrow> p # slots env ts)"

definition ota_slots :: "'w ota_env \<Rightarrow> esp_partition list" where
  "ota_slots env = slots env [0x10..<0x20]"

lemma slots_in: "p \<in> set (slots env ts) \<longleftrightarrow> (\<exists>t \<in> set ts. find_app env t = Some p)"
  by (induction ts) (auto split: option.splits)

lemma slots_distinct: "table_ok env \<Longrightarrow> distinct ts \<Longrightarrow> distinct (slots env ts)"
  by (induction ts) (auto simp: slots_in dest: find_app_ok split: option.splits)

text \<open>The one behind \<open>start\<close> in a list, or its first one.\<close>

definition successor :: "esp_partition \<Rightarrow> esp_partition list \<Rightarrow> esp_partition option" where
  "successor start ps = (case dropWhile (\<lambda>p. p \<noteq> start) ps of _ # p # _ \<Rightarrow> Some p | _ \<Rightarrow> (case ps of [] \<Rightarrow> None | p # _ \<Rightarrow> Some p))"

lemma loop_after:
  "start \<notin> set (slots env ts) \<Longrightarrow> next_update_loop env start (Some d) True ts =
    (case slots env ts of [] \<Rightarrow> Some d | p # _ \<Rightarrow> Some p)"
  by (induction ts) (auto split: option.splits)

lemma loop_before:
  "distinct (slots env ts) \<Longrightarrow> next_update_loop env start (Some d) False ts =
    (case dropWhile (\<lambda>p. p \<noteq> start) (slots env ts) of _ # p # _ \<Rightarrow> Some p | _ \<Rightarrow> Some d)"
proof (induction ts)
  case (Cons t ts)
  show ?case
  proof (cases "find_app env t")
    case None
    then show ?thesis using Cons by simp
  next
    case (Some p)
    then show ?thesis using Cons loop_after [of start env ts d] by (cases "p = start") (simp_all split: list.split)
  qed
qed simp

lemma loop_start:
  "distinct (slots env ts) \<Longrightarrow> next_update_loop env start None False ts = successor start (slots env ts)"
proof (induction ts)
  case (Cons t ts)
  show ?case
  proof (cases "find_app env t")
    case None
    then show ?thesis using Cons by simp
  next
    case (Some p)
    show ?thesis
    proof (cases "p = start")
      case True
      then show ?thesis using Some Cons.prems loop_after [of start env ts p] by (simp add: successor_def split: list.split)
    next
      case False
      then have "successor start (slots env (t # ts)) =
          (case dropWhile (\<lambda>p. p \<noteq> start) (slots env ts) of _ # p' # _ \<Rightarrow> Some p' | _ \<Rightarrow> Some p)"
        using Some by (simp add: successor_def cong: list.case_cong)
      then show ?thesis using Some False Cons.prems loop_before [of env ts start p] by simp
    qed
  qed
qed (simp add: successor_def)

lemma successor_other:
  assumes "distinct ps" "\<exists>p \<in> set ps. p \<noteq> start"
  shows "\<exists>p. successor start ps = Some p \<and> p \<noteq> start \<and> p \<in> set ps"
proof (cases "start \<in> set ps")
  case True
  then obtain xs ys where ps: "ps = xs @ start # ys" "start \<notin> set xs" by (metis split_list_first)
  then have "dropWhile (\<lambda>p. p \<noteq> start) ps = start # ys" by (auto simp: dropWhile_append3 dropWhile_append)
  then show ?thesis using ps assms by (cases ys; cases xs) (auto simp: successor_def)
next
  case False
  then have "dropWhile (\<lambda>p. p \<noteq> start) ps = []" by (auto simp: dropWhile_eq_Nil_conv)
  then show ?thesis using assms(2) False by (cases ps) (auto simp: successor_def)
qed

text \<open>C38: An update goes to the next OTA partition behind the running one, in the order of the slots and from the last one
  back to the first, and never to the running one as long as there is another.\<close>

theorem next_update_partition_is_successor:
  assumes "table_ok env" "esp_ota_get_running_partition env s = Some (run, s')"
  shows "esp_ota_get_next_update_partition env None s = Some (successor run (ota_slots env), s')
    \<and> ((\<exists>p \<in> set (ota_slots env). p \<noteq> run) \<longrightarrow>
        (\<exists>p. successor run (ota_slots env) = Some p \<and> p \<noteq> run \<and> is_ota_partition p \<and> find_app env (p_subtype p) = Some p))"
proof -
  have d: "distinct (ota_slots env)" unfolding ota_slots_def by (rule slots_distinct [OF assms(1)]) simp
  then have "esp_ota_get_next_update_partition env None s = Some (successor run (ota_slots env), s')"
    using assms(2) loop_start [of env "[0x10..<0x20]" run] by (simp add: esp_ota_get_next_update_partition_def ota_slots_def)
  moreover have "is_ota_partition p \<and> find_app env (p_subtype p) = Some p" if "p \<in> set (ota_slots env)" for p
  proof -
    from that obtain t where "t \<in> set [0x10..<0x20]" "find_app env t = Some p" unfolding ota_slots_def slots_in by blast
    with find_app_ok [OF assms(1) this(2)] show ?thesis by (auto simp: is_ota_partition_def)
  qed
  ultimately show ?thesis using successor_other [OF d] by metis
qed

subsection \<open>On the concrete flash\<close>

lemma nor_select_layout:
  "length (seq_label e) = 20 \<Longrightarrow> length (nor_select_bytes e) = 32 \<and> nor_select_of (nor_select_bytes e) = e"
proof -
  assume l: "length (seq_label e) = 20"
  then have len: "length (nor_select_bytes e) = 32" by (simp add: nor_select_bytes_def length_le32)
  have "drop 4 (nor_select_bytes e) = seq_label e @ le32 (ota_state e) @ le32 (ota_crc e)"
    "drop 24 (nor_select_bytes e) = le32 (ota_state e) @ le32 (ota_crc e)" "drop 28 (nor_select_bytes e) = le32 (ota_crc e) @ []"
    using l by (simp_all add: nor_select_bytes_def length_le32)
  then show ?thesis
    using len l of_le32_append [of "ota_seq e"] by (simp add: nor_select_of_def of_le32_append of_le32_le32)
      (simp add: nor_select_bytes_def of_le32_append)
qed

lemma nor_boot_ok: "boot_ok (nor_env enc) nor_at otadata_part"
proof -
  have a: "length (seq_label (nor_select_of bs)) = 20" for bs by (simp add: nor_select_of_def)
  have b: "find_otadata (nor_env enc) = Some otadata_part"
    by (simp add: find_otadata_def nor_env_def part_table_def otadata_part_def)
  show ?thesis
    unfolding boot_ok_def
    using a b nor_select_layout
    by (intro conjI allI impI)
      (auto simp: nor_env_def otadata_part_def nor_crc_def nor_invalid_def nor_valid_def nor_select_def nor_view_def otadata_at_def
        less_2_cases_iff split: if_splits)
qed

lemma nor_table_ok: "table_ok (nor_env enc)"
  by (auto simp: table_ok_def nor_env_def find_Some_iff)

lemma nor_verify_local: "verify_local (nor_env enc) nor_at"
  by (auto simp: verify_local_def nor_env_def)

text \<open>A device with an image in both slots that has booted the first one, by record 0 with number 1.\<close>

definition nor_record :: "nat \<Rightarrow> u32 \<Rightarrow> nor_op" where
  "nor_record i n = Nor_Write otadata_part (i * 4096)
     (nor_select_bytes \<lparr>ota_seq = n, seq_label = replicate 20 0xFF, ota_state = 0xffffffff, ota_crc = 0x4321 XOR n\<rparr>)"

definition nor_two :: "nor_flash ota" where
  "nor_two = nor_start\<lparr>ota_world := nor_record 0 1 # Nor_Write ota_1 0 [0xE9] # ota_world nor_start\<rparr>"

lemma nor_two_facts:
  "get_ota_partition_count (nor_env False) = Some 2" "is_ota_partition ota_1" "find_app (nor_env False) (p_subtype ota_1) = Some ota_1"
  "image_verify (nor_env False) ota_1 (ota_world nor_two)"
  "ota_seq (otadata_at (records_of (nor_env False) otadata_part (ota_world nor_two)) 0) = 1"
  "ota_select_valid (nor_env False) (otadata_at (records_of (nor_env False) otadata_part (ota_world nor_two)) 1) = False"
  "map_option fst (esp_ota_set_boot_partition (nor_env False) (Some ota_1) nor_two) = Some E_OK"
  by code_simp+

theorem set_boot_partition_boots_witness:
  "\<exists>s'. esp_ota_set_boot_partition (nor_env False) (Some ota_1) nor_two = Some (E_OK, s')
    \<and> esp_ota_get_boot_partition (nor_env False) s' = Some (Some ota_1)"
proof -
  have "sound_seqs (nor_env False) (records_of (nor_env False) otadata_part (ota_world nor_two))"
    using nor_two_facts(5,6) by (auto simp: sound_seqs_def less_2_cases_iff)
  from set_boot_partition_boots [OF nor_flash_ok nor_boot_ok nor_two_facts(1) this nor_two_facts(2-4)]
  show ?thesis using nor_two_facts(7) by auto
qed

text \<open>The second image is booted, by record 1 with number 2, and rejected.\<close>

definition nor_second :: "nor_flash ota" where
  "nor_second = nor_two\<lparr>ota_world := nor_record 1 2 # ota_world nor_two\<rparr>"

theorem rollback_boots_verified_image_witness:
  "\<exists>s' p. esp_ota_mark_app_invalid_rollback_and_reboot (nor_env False) nor_second = Some (E_OK, True, s')
    \<and> esp_ota_get_boot_partition (nor_env False) s' = Some (Some p) \<and> image_verify (nor_env False) p (ota_world s')"
proof -
  have "map_option (\<lambda>(r, b, s). (r, b)) (esp_ota_mark_app_invalid_rollback_and_reboot (nor_env False) nor_second) = Some (E_OK, True)"
    "find_otadata (nor_env False) = Some otadata_part" by code_simp+
  then show ?thesis
    using rollback_boots_verified_image [OF nor_flash_ok nor_boot_ok nor_two_facts(1) nor_table_ok nor_verify_local] by auto
qed

theorem next_update_partition_is_successor_witness:
  "\<exists>s'. esp_ota_get_next_update_partition (nor_env False) None nor_start = Some (Some ota_1, s')"
proof -
  have "map_option fst (esp_ota_get_running_partition (nor_env False) nor_start) = Some ota_0"
    "successor ota_0 (ota_slots (nor_env False)) = Some ota_1" by code_simp+
  then show ?thesis using next_update_partition_is_successor [OF nor_table_ok, of False nor_start ota_0] by auto
qed

end
