(* ===== verification/Https_Ota_Props.thy ===== *)
theory Https_Ota_Props
  imports Https_Ota Http_Exchange Ota_Boot
begin

text \<open>
  The update as a whole: the bytes of the HTTP body are the bytes in the flash, the update returns, and the
  choice of the image to boot changes only when everything has been received, written and verified.
\<close>

subsection \<open>What the OTA operations leave alone\<close>

lemma begin_kept:
  assumes "flash_ok env fl" "esp_ota_begin env (Some p) sz s = Some (r, s')" "partition_verify env p = Some p"
  shows "others_kept fl p (ota_world s) (ota_world s')"
proof -
  have cal: "fl (snd (ota_calloc env w)) = fl w" for w using assms(1) by (simp add: flash_ok_def)
  have er: "partition_erase_range env p off n w = (ret, w') \<Longrightarrow> others_kept fl p w w'" for off n w ret w'
    by (rule only_range_others) (rule flash_okD(1) [OF assms(1)])
  show ?thesis
  proof (cases "is_ota_partition p")
    case False
    then show ?thesis using assms(2,3) by (auto simp: esp_ota_begin_def)
  next
    case True
    obtain run s0 where run: "esp_ota_get_running_partition env s = Some (run, s0)"
      using assms(2,3) True by (auto simp: esp_ota_begin_def bind_eq_Some_conv)
    define m where "m = (if sz = 0 \<or> sz = 0xffffffff then p_size p else aligned_erase_size sz)"
    obtain ret w1 where w1: "partition_erase_range env p 0 m (ota_world s0) = (ret, w1)" by fastforce
    obtain mem w2 where w2: "ota_calloc env w1 = (mem, w2)" by fastforce
    have "ota_world s' = ota_world s \<or> ota_world s' = w1 \<or> ota_world s' = w2"
      using assms(2,3) True run w1 w2 running_world [OF run] by (auto simp: esp_ota_begin_def Let_def m_def split: if_splits)
    moreover have "others_kept fl p (ota_world s) w1" using er [OF w1] running_world [OF run] by simp
    moreover have "others_kept fl p w1 w2" using cal [of w1] w2 by (simp add: others_kept_def)
    ultimately show ?thesis by (auto intro: others_kept_trans)
  qed
qed

text \<open>An entry found under a handle belongs to the partition.\<close>

definition owned :: "esp_partition \<Rightarrow> u32 \<Rightarrow> 'f ota \<Rightarrow> bool" where
  "owned p h s \<longleftrightarrow> (\<forall>it. find_entry h s = Some it \<longrightarrow> o_part it = p)"

lemma owned_world [simp]: "owned p h (s\<lparr>ota_world := w\<rparr>) = owned p h s" by (simp add: owned_def)

lemma owned_put: "find_entry h s = Some it0 \<Longrightarrow> o_handle it = h \<Longrightarrow> o_part it = p \<Longrightarrow> owned p h (put_entry it s)"
  by (simp add: owned_def find_put)

lemma flash_write_kept:
  assumes "flash_ok env fl" "flash_write env it d s = (r, s')" "find_entry h s = Some it0" "o_handle it = h" "o_part it = p"
  shows "others_kept fl p (ota_world s) (ota_world s') \<and> owned p h s'"
proof -
  obtain ret w where w: "partition_write env p (wrote_size it) d (ota_world s) = (ret, w)" by fastforce
  then have "ota_world s' = w" "owned p h s'" using assms(2-5) by (auto simp: flash_write_def Let_def intro!: owned_put)
  then show ?thesis using only_range_others [OF flash_okD(3) [OF assms(1) w]] by simp
qed

lemma write_encrypted_kept:
  assumes "flash_ok env fl" "write_encrypted env it d s = (r, s')" "find_entry h s = Some it" "o_part it = p"
  shows "others_kept fl p (ota_world s) (ota_world s') \<and> owned p h s'"
proof -
  have h: "o_handle it = h" by (rule find_entry_handle [OF assms(3)])
  have blocks: "others_kept fl p (ota_world t) (ota_world t') \<and> owned p h t'"
    if "write_blocks env jt e t = (q, t')" "find_entry h t = Some it0" "o_handle jt = h" "o_part jt = p" for jt e t t' q it0
  proof (rule flash_write_kept [OF assms(1) _ that(2)])
    show "flash_write env (fst (keep_tail jt e)) (snd (keep_tail jt e)) t = (q, t')" using that(1) by (simp add: write_blocks_def split_def Let_def)
    show "o_handle (fst (keep_tail jt e)) = h" "o_part (fst (keep_tail jt e)) = p" using that(3,4) by (simp_all add: keep_tail_def Let_def)
  qed
  show ?thesis
  proof (cases "partial_bytes it = 0")
    case True
    then show ?thesis using blocks [of it d s r s' it] assms(2-4) h by (simp add: write_encrypted_def)
  next
    case False
    define k where "k = min (16 - partial_bytes it) (length d)"
    define jt where "jt = it\<lparr>partial_data := mem_write (partial_bytes it) (take k d) (partial_data it), partial_bytes := partial_bytes it + k\<rparr>"
    have jt: "o_handle jt = h" "o_part jt = p" "wrote_size jt = wrote_size it" using h assms(4) by (simp_all add: jt_def)
    obtain ret w where w: "partition_write env p (wrote_size it) (partial_data jt) (ota_world s) = (ret, w)" by fastforce
    note k1 = only_range_others [OF flash_okD(3) [OF assms(1) w]]
    let ?nt = "jt\<lparr>partial_bytes := 0, partial_data := replicate 16 0xFF, wrote_size := wrote_size jt + 16\<rparr>"
    have eq: "(r, s') = (if partial_bytes jt \<noteq> 16 then (E_OK, put_entry jt s)
        else if ret \<noteq> E_OK then (ret, put_entry jt (s\<lparr>ota_world := w\<rparr>)) else write_blocks env ?nt (drop k d) (s\<lparr>ota_world := w\<rparr>))"
      using assms(2,4) False w unfolding jt_def k_def by (auto simp: write_encrypted_def Let_def)
    have o: "owned p h (put_entry jt t)" if "find_entry h t = Some it" for t by (rule owned_put [OF that jt(1,2)])
    consider "partial_bytes jt \<noteq> 16" | "partial_bytes jt = 16" "ret \<noteq> E_OK" | "partial_bytes jt = 16" "ret = E_OK" by blast
    then show ?thesis
    proof cases
      case 3
      then have "write_blocks env ?nt (drop k d) (s\<lparr>ota_world := w\<rparr>) = (r, s')" using eq by simp
      from blocks [OF this, of it] show ?thesis using assms(3) jt(1,2) k1 by (auto intro: others_kept_trans)
    qed (use eq o [of s] o [of "s\<lparr>ota_world := w\<rparr>"] assms(3) k1 in auto)
  qed
qed

lemma write_kept:
  assumes "flash_ok env fl" "esp_ota_write env h (Some d) s = Some (r, s')" "owned p h s"
  shows "others_kept fl p (ota_world s) (ota_world s') \<and> owned p h s'"
proof (cases "find_entry h s")
  case None
  then show ?thesis using assms(2,3) by (auto simp: esp_ota_write_def)
next
  case (Some it)
  have p: "o_part it = p" using assms(3) Some by (simp add: owned_def)
  have h: "o_handle it = h" by (rule find_entry_handle [OF Some])
  have "s' = s \<or> (r, s') = (if flash_encryption env then write_encrypted env it d s else flash_write env it d s)"
    using assms(2) Some by (auto simp: esp_ota_write_def split: if_splits)
  then show ?thesis
    using write_encrypted_kept [OF assms(1) _ Some p, of d r s'] flash_write_kept [OF assms(1) _ Some h p, of d r s'] assms(3)
    by (auto split: if_splits)
qed

lemma end_kept:
  assumes "flash_ok env fl" "esp_ota_end env h s = (r, s')" "owned p h s"
  shows "others_kept fl p (ota_world s) (ota_world s')"
proof (cases "find_entry h s")
  case None
  then show ?thesis using assms(2) by (simp add: esp_ota_end_def)
next
  case (Some it)
  have p: "o_part it = p" using assms(3) Some by (simp add: owned_def)
  obtain ret w where w: "partition_write env p (wrote_size it) (partial_data it) (ota_world s) = (ret, w)" by fastforce
  then have "ota_world s' = ota_world s \<or> ota_world s' = w"
    using assms(2) Some p by (auto simp: esp_ota_end_def Let_def split: if_splits)
  then show ?thesis using only_range_others [OF flash_okD(3) [OF assms(1) w]] by auto
qed

subsection \<open>The transfer\<close>

text \<open>The functions of the flash do not return the code that means an update in progress.\<close>

definition flash_codes :: "'f ota_env \<Rightarrow> bool" where
  "flash_codes env \<longleftrightarrow> (\<forall>p off n w. fst (partition_erase_range env p off n w) \<noteq> ESP_ERR_HTTPS_OTA_IN_PROGRESS)
    \<and> (\<forall>p off d w. fst (partition_write env p off d w) \<noteq> ESP_ERR_HTTPS_OTA_IN_PROGRESS)"

lemma begin_code:
  assumes "flash_codes env" "esp_ota_begin env part sz s = Some ((e, h), s')"
  shows "e \<noteq> ESP_ERR_HTTPS_OTA_IN_PROGRESS" "e = E_OK \<Longrightarrow> h \<noteq> None"
proof -
  have er: "partition_erase_range env p off n w \<noteq> (ESP_ERR_HTTPS_OTA_IN_PROGRESS, y)" for p off n w y
    using assms(1) unfolding flash_codes_def by (metis fst_conv)
  show "e \<noteq> ESP_ERR_HTTPS_OTA_IN_PROGRESS" "e = E_OK \<Longrightarrow> h \<noteq> None"
    using assms(2) er by (auto simp: esp_ota_begin_def bind_eq_Some_conv Let_def split: option.splits if_splits prod.splits)
qed

lemma write_code:
  assumes "flash_codes env" "esp_ota_write env h d s = Some (e, s')"
  shows "e \<noteq> ESP_ERR_HTTPS_OTA_IN_PROGRESS"
proof -
  have wr: "partition_write env p off d w \<noteq> (ESP_ERR_HTTPS_OTA_IN_PROGRESS, y)" for p off d w y
    using assms(1) unfolding flash_codes_def by (metis fst_conv)
  have fw: "flash_write env it d s \<noteq> (ESP_ERR_HTTPS_OTA_IN_PROGRESS, y)" for it d s y
    using wr by (auto simp: flash_write_def Let_def split: prod.splits)
  have wb: "write_blocks env it d s \<noteq> (ESP_ERR_HTTPS_OTA_IN_PROGRESS, y)" for it d s y
    using fw by (auto simp: write_blocks_def split: prod.splits)
  have we: "write_encrypted env it d s \<noteq> (ESP_ERR_HTTPS_OTA_IN_PROGRESS, y)" for it d s y
    using wr wb by (auto simp: write_encrypted_def Let_def split: if_splits prod.splits)
  show ?thesis using assms(2) fw we by (auto simp: esp_ota_write_def split: option.splits if_splits)
qed

text \<open>The state of the update: the bytes taken over by the OTA operations, those waiting in the client and those still to come
  make up the body; \<open>w0\<close> is the flash before the update.\<close>

definition transfer ::
  "'f ota_env \<Rightarrow> 'f cells \<Rightarrow> ('w \<Rightarrow> bytes) \<Rightarrow> ('p \<Rightarrow> nat \<Rightarrow> bool) \<Rightarrow> nat \<Rightarrow> esp_partition \<Rightarrow> 'f \<Rightarrow> bytes \<Rightarrow> ('p, 'w) https_ota \<Rightarrow> 'f ota \<Rightarrow> bool"
where
  "transfer env fl inp in_body n p w0 bd u s \<longleftrightarrow>
    update_partition u = Some p \<and> 0 < length (ota_upgrade_buf u) \<and> others_kept fl p w0 (ota_world s)
    \<and> (\<exists>raw rest. body_state inp in_body n raw rest (ota_client u) \<and>
        (if ho_state u = ESP_HTTPS_OTA_BEGIN
         then 0 \<le> binary_file_len u \<and> take (nat (binary_file_len u)) (ota_upgrade_buf u) @ raw @ rest = bd
           \<and> nat (binary_file_len u) \<le> length (ota_upgrade_buf u)
         else \<exists>it img. find_entry (update_handle u) s = Some it \<and> taken env fl (p_size p) p img it (ota_world s)
           \<and> img @ raw @ rest = bd \<and> (img \<noteq> [] \<longrightarrow> hd img = 0xE9) \<and> (ho_state u = ESP_HTTPS_OTA_SUCCESS \<longrightarrow> raw @ rest = [])))"

lemma transferD:
  assumes "transfer env fl inp in_body n p w0 bd u s" "ho_state u \<noteq> ESP_HTTPS_OTA_BEGIN"
  obtains raw rest it img where "update_partition u = Some p" "0 < length (ota_upgrade_buf u)" "others_kept fl p w0 (ota_world s)"
    "body_state inp in_body n raw rest (ota_client u)" "find_entry (update_handle u) s = Some it"
    "taken env fl (p_size p) p img it (ota_world s)" "img @ raw @ rest = bd" "img \<noteq> [] \<longrightarrow> hd img = 0xE9"
    "ho_state u = ESP_HTTPS_OTA_SUCCESS \<longrightarrow> raw @ rest = []"
  using assms(1) unfolding transfer_def if_not_P [OF assms(2)] by (elim conjE exE) (rule that, assumption+)

text \<open>What is left to be received, as a measure of the loop.\<close>

definition to_come :: "('w \<Rightarrow> bytes) \<Rightarrow> ('p, 'w) https_ota \<Rightarrow> nat" where
  "to_come inp u = nat (raw_len (h_res (ota_client u))) + length (inp (h_world (ota_client u)))"

lemma to_come_body: "body_state inp in_body n raw rest (ota_client u) \<Longrightarrow> to_come inp u = length (raw @ rest)"
  by (simp add: to_come_def body_stateD)

lemma to_come_simps [simp]:
  "to_come inp (u\<lparr>update_handle := h\<rparr>) = to_come inp u" "to_come inp (u\<lparr>ho_state := st\<rparr>) = to_come inp u"
  "to_come inp (u\<lparr>binary_file_len := l\<rparr>) = to_come inp u"
  by (simp_all add: to_come_def)

text \<open>Handing a piece to the OTA operations.\<close>

lemma ota_write_transfer:
  assumes "flash_ok (u_ota env) fl" "flash_codes (u_ota env)" "find_entry (update_handle u) s = Some it"
    and "taken (u_ota env) fl (p_size p) p img it (ota_world s)" "img \<noteq> [] \<longrightarrow> hd img = 0xE9"
  shows "\<exists>e u' s'. ota_write env d u s = Some (e, u', s') \<and> others_kept fl p (ota_world s) (ota_world s') \<and> owned p (update_handle u) s'
    \<and> e \<noteq> E_OK \<and> (\<exists>l. u' = u\<lparr>binary_file_len := l\<rparr>)
    \<and> (e = ESP_ERR_HTTPS_OTA_IN_PROGRESS \<longrightarrow> (\<exists>it'. find_entry (update_handle u) s' = Some it'
        \<and> taken (u_ota env) fl (p_size p) p (img @ d) it' (ota_world s') \<and> (img @ d \<noteq> [] \<longrightarrow> hd (img @ d) = 0xE9)))"
proof -
  have own: "owned p (update_handle u) s" using assms(3,4) by (simp add: owned_def taken_def)
  have "0 < erased_size it" using assms(4) by (simp add: taken_def)
  then obtain e s' where w: "esp_ota_write (u_ota env) (update_handle u) (Some d) s = Some (e, s')"
    using assms(3) by (cases "esp_ota_write (u_ota env) (update_handle u) (Some d) s") (auto simp: esp_ota_write_def split: if_splits)
  note k = write_kept [OF assms(1) w own] and c = write_code [OF assms(2) w]
  show ?thesis
  proof (cases "e = E_OK")
    case False
    then show ?thesis using w k c by (auto simp: ota_write_def intro!: exI [of _ "binary_file_len u"])
  next
    case True
    have f: "fits (p_size p) p (length img + length d)" by (simp add: fits_def)
    obtain it' where "find_entry (update_handle u) s' = Some it'" "taken (u_ota env) fl (p_size p) p (img @ d) it' (ota_world s')"
      "img = [] \<and> d \<noteq> [] \<longrightarrow> hd d = 0xE9"
      using esp_ota_write_taken [OF assms(1) w [unfolded True] assms(3,4) f] by blast
    then show ?thesis using w k True assms(5) by (auto simp: ota_write_def hd_append)
  qed
qed

text \<open>The outcome of a step: the other partitions are kept, success means that everything has arrived, and as long as the
  update is in progress the transfer goes on with less to come.\<close>

definition step_result ::
  "'f ota_env \<Rightarrow> 'f cells \<Rightarrow> ('w \<Rightarrow> bytes) \<Rightarrow> ('p \<Rightarrow> nat \<Rightarrow> bool) \<Rightarrow> nat \<Rightarrow> esp_partition \<Rightarrow> 'f \<Rightarrow> bytes \<Rightarrow> nat \<Rightarrow>
    esp_error \<Rightarrow> ('p, 'w) https_ota \<Rightarrow> 'f ota \<Rightarrow> bool" where
  "step_result env fl inp in_body n p w0 bd m e u s \<longleftrightarrow>
    others_kept fl p w0 (ota_world s) \<and> (ho_state u \<noteq> ESP_HTTPS_OTA_BEGIN \<longrightarrow> owned p (update_handle u) s)
    \<and> ho_state u \<noteq> ESP_HTTPS_OTA_INIT \<and> (ho_state u = ESP_HTTPS_OTA_SUCCESS \<longrightarrow> e = E_OK)
    \<and> (e = E_OK \<longrightarrow> transfer env fl inp in_body n p w0 bd u s \<and> ho_state u = ESP_HTTPS_OTA_SUCCESS)
    \<and> (e = ESP_ERR_HTTPS_OTA_IN_PROGRESS \<longrightarrow>
        transfer env fl inp in_body n p w0 bd u s \<and> ho_state u = ESP_HTTPS_OTA_IN_PROGRESS \<and> to_come inp u < m)"

lemma in_progress_data:
  "read_image env 0 (length (ota_upgrade_buf u)) u = Some (int k, v) \<Longrightarrow> 0 < k \<Longrightarrow>
    perform_in_progress env u s = ota_write env (take k (ota_upgrade_buf v)) v s"
  by (simp add: perform_in_progress_def)

lemma in_progress_step:
  assumes net: "delivers (u_net env) inp" "parses (u_net env) in_head in_body st n"
    and fls: "flash_ok (u_ota env) fl" "flash_codes (u_ota env)"
    and tr: "transfer (u_ota env) fl inp in_body n p w0 bd u s" "ho_state u = ESP_HTTPS_OTA_IN_PROGRESS"
  shows "\<exists>e u' s'. perform_in_progress env u s = Some (e, u', s') \<and> step_result (u_ota env) fl inp in_body n p w0 bd (to_come inp u) e u' s'"
proof -
  let ?len = "length (ota_upgrade_buf u)"
  obtain raw rest it img where t: "update_partition u = Some p" "0 < ?len" "others_kept fl p w0 (ota_world s)"
    "body_state inp in_body n raw rest (ota_client u)" "find_entry (update_handle u) s = Some it"
    "taken (u_ota env) fl (p_size p) p img it (ota_world s)" "img @ raw @ rest = bd" "img \<noteq> [] \<longrightarrow> hd img = 0xE9"
    using transferD [OF tr(1)] tr(2) by (metis https_ota_state.distinct(7))
  let ?k = "min ?len (length (raw @ rest))"
  obtain b c where r: "esp_http_client_read (u_net env) (ota_upgrade_buf u) ?len (ota_client u) = Some (int ?k, b, c)"
    "length b = ?len" "take ?k b = take ?len (raw @ rest)"
    "body_state inp in_body n (drop ?len raw) (drop (?len - length raw) rest) c"
    by (rule read_body [OF net t(4) order.refl])
  define v where "v = u\<lparr>ota_client := c, ota_upgrade_buf := b\<rparr>"
  have ri: "read_image env 0 ?len u = Some (int ?k, v)" using r(1) by (simp add: read_image_def v_def)
  have v: "update_partition v = Some p" "update_handle v = update_handle u" "ho_state v = ESP_HTTPS_OTA_IN_PROGRESS"
    "ota_client v = c" "ota_upgrade_buf v = b" using t(1) tr(2) by (simp_all add: v_def)
  have own: "owned p (update_handle u) s" using t(5,6) by (simp add: owned_def taken_def)
  show ?thesis
  proof (cases "raw @ rest = []")
    case True
    then have "esp_https_ota_is_complete_data_received v" using body_remain(2) [OF r(4)] v(4) by (simp add: esp_https_ota_is_complete_data_received_def)
    then have "perform_in_progress env u s = Some (E_OK, v\<lparr>ho_state := ESP_HTTPS_OTA_SUCCESS\<rparr>, s)"
      using ri True by (simp add: perform_in_progress_def)
    moreover have "transfer (u_ota env) fl inp in_body n p w0 bd (v\<lparr>ho_state := ESP_HTTPS_OTA_SUCCESS\<rparr>) s"
      using t v r(2,4) True unfolding transfer_def by auto
    ultimately show ?thesis using t(3) own v(2) by (auto simp: step_result_def)
  next
    case False
    then have k: "0 < ?k" using t(2) by simp
    let ?d = "take ?len (raw @ rest)"
    have p1: "perform_in_progress env u s = ota_write env ?d v s"
      using in_progress_data [OF ri k] unfolding v(5) r(3) .
    obtain e u' s' where w: "ota_write env ?d v s = Some (e, u', s')" "others_kept fl p (ota_world s) (ota_world s')" "owned p (update_handle v) s'"
      "e \<noteq> E_OK" "\<exists>l. u' = v\<lparr>binary_file_len := l\<rparr>"
      "e = ESP_ERR_HTTPS_OTA_IN_PROGRESS \<longrightarrow> (\<exists>it'. find_entry (update_handle v) s' = Some it'
        \<and> taken (u_ota env) fl (p_size p) p (img @ ?d) it' (ota_world s') \<and> (img @ ?d \<noteq> [] \<longrightarrow> hd (img @ ?d) = 0xE9))"
      using ota_write_transfer [OF fls, of v s it p img ?d] t(5,6,8) v(2) by auto
    have kept: "others_kept fl p w0 (ota_world s')" using t(3) w(2) by (rule others_kept_trans)
    have u': "ota_client u' = c" "ota_upgrade_buf u' = b" "update_handle u' = update_handle v" "update_partition u' = Some p"
      "ho_state u' = ESP_HTTPS_OTA_IN_PROGRESS" using w(5) v by auto
    have split: "?d @ drop ?len raw @ drop (?len - length raw) rest = raw @ rest" using append_take_drop_id [of ?len "raw @ rest"] by simp
    have "length raw - ?len + (length rest - (?len - length raw)) < length raw + length rest"
      using t(2) k unfolding length_append by arith
    then have tc: "to_come inp u' < to_come inp u"
      using to_come_body [OF t(4)] to_come_body [of inp in_body n "drop ?len raw" "drop (?len - length raw) rest" u'] r(4) u'(1)
      by (simp del: append_eq_conv_conj)
    have "transfer (u_ota env) fl inp in_body n p w0 bd u' s'" if e: "e = ESP_ERR_HTTPS_OTA_IN_PROGRESS"
    proof -
      obtain it' where it': "find_entry (update_handle u') s' = Some it'" "taken (u_ota env) fl (p_size p) p (img @ ?d) it' (ota_world s')"
        "img @ ?d \<noteq> [] \<longrightarrow> hd (img @ ?d) = 0xE9" using w(6) e u'(3) by auto
      have "(img @ ?d) @ drop ?len raw @ drop (?len - length raw) rest = bd" using split t(7) by simp
      then show ?thesis unfolding transfer_def using u' it' r(2,4) t(2) kept by (intro conjI exI) (auto simp del: append_assoc)
    qed
    then show ?thesis using p1 w(1,3,4) kept u' tc by (auto simp: step_result_def)
  qed
qed

lemma step_result_less: "step_result env fl inp in_body n p w0 bd m e u s \<Longrightarrow> m \<le> m' \<Longrightarrow> step_result env fl inp in_body n p w0 bd m' e u s"
  unfolding step_result_def by (meson less_le_trans)

text \<open>The first step also prepares the partition, and writes what was read before it.\<close>

lemma begin_step:
  assumes net: "delivers (u_net env) inp" "parses (u_net env) in_head in_body st n"
    and fls: "flash_ok (u_ota env) fl" "flash_codes (u_ota env)" "partition_verify (u_ota env) p = Some p" "0 < p_size p"
    and run: "esp_ota_get_running_partition (u_ota env) s \<noteq> None"
    and tr: "transfer (u_ota env) fl inp in_body n p w0 bd u s" "ho_state u = ESP_HTTPS_OTA_BEGIN"
  shows "\<exists>e u' s'. esp_https_ota_perform env u s = Some (e, u', s')
    \<and> step_result (u_ota env) fl inp in_body n p w0 bd (Suc (to_come inp u)) e u' s'"
proof -
  obtain raw rest where t: "update_partition u = Some p" "0 < length (ota_upgrade_buf u)" "others_kept fl p w0 (ota_world s)"
    "body_state inp in_body n raw rest (ota_client u)" "0 \<le> binary_file_len u"
    "take (nat (binary_file_len u)) (ota_upgrade_buf u) @ raw @ rest = bd" "nat (binary_file_len u) \<le> length (ota_upgrade_buf u)"
    using tr unfolding transfer_def by auto
  obtain e h s1 where b: "esp_ota_begin (u_ota env) (Some p) 0xffffffff s = Some ((e, h), s1)"
    using run fls(3) by (cases "esp_ota_begin (u_ota env) (Some p) 0xffffffff s") (auto simp: esp_ota_begin_def Let_def split: if_splits prod.splits)
  have kept: "others_kept fl p w0 (ota_world s1)" using t(3) begin_kept [OF fls(1) b fls(3)] by (rule others_kept_trans)
  note code = begin_code [OF fls(2) b]
  show ?thesis
  proof (cases "e = E_OK")
    case False
    then have "esp_https_ota_perform env u s = Some (e, u, s1)" using b tr(2) t(1) by (simp add: esp_https_ota_perform_def)
    then show ?thesis using False kept tr(2) code(1) by (auto simp: step_result_def)
  next
    case True
    then obtain k where k: "h = Some k" using code(2) by blast
    have b': "esp_ota_begin (u_ota env) (Some p) 0xffffffff s = Some ((E_OK, Some k), s1)" using b True k by simp
    obtain it where it: "find_entry k s1 = Some it" "taken (u_ota env) fl (p_size p) p [] it (ota_world s1)"
      using begin_taken [OF fls(1) b' fls(3,4)] by (auto simp: erased_area_def)
    define v where "v = u\<lparr>update_handle := k, ho_state := ESP_HTTPS_OTA_IN_PROGRESS\<rparr>"
    have v: "update_partition v = Some p" "ota_client v = ota_client u" "ota_upgrade_buf v = ota_upgrade_buf u"
      "ho_state v = ESP_HTTPS_OTA_IN_PROGRESS" "update_handle v = k" "binary_file_len v = binary_file_len u" "to_come inp v = to_come inp u"
      using t(1) by (simp_all add: v_def)
    show ?thesis
    proof (cases "binary_file_len u = 0")
      case bf: True
      have "transfer (u_ota env) fl inp in_body n p w0 bd v s1"
        using t v it kept bf unfolding transfer_def by (intro conjI exI) auto
      from in_progress_step [OF net fls(1,2) this v(4)] obtain e' u' s' where
        "perform_in_progress env v s1 = Some (e', u', s')" "step_result (u_ota env) fl inp in_body n p w0 bd (to_come inp v) e' u' s'" by blast
      then show ?thesis using b True k bf tr(2) t(1) v(7) step_result_less
        by (fastforce simp: esp_https_ota_perform_def v_def)
    next
      case bf: False
      let ?d = "take (nat (binary_file_len u)) (ota_upgrade_buf u)"
      obtain e' u' s' where w: "ota_write env ?d v s1 = Some (e', u', s')" "others_kept fl p (ota_world s1) (ota_world s')" "owned p k s'"
        "e' \<noteq> E_OK" "\<exists>l. u' = v\<lparr>binary_file_len := l\<rparr>"
        "e' = ESP_ERR_HTTPS_OTA_IN_PROGRESS \<longrightarrow> (\<exists>it'. find_entry k s' = Some it'
          \<and> taken (u_ota env) fl (p_size p) p ?d it' (ota_world s') \<and> (?d \<noteq> [] \<longrightarrow> hd ?d = 0xE9))"
        using ota_write_transfer [OF fls(1,2), of v s1 it p "[]" ?d] it v(5) by auto
      have p1: "esp_https_ota_perform env u s = Some (e', u', s')"
        using b True k bf tr(2) t(1) w(1) by (simp add: esp_https_ota_perform_def v_def)
      have u': "ota_client u' = ota_client u" "ota_upgrade_buf u' = ota_upgrade_buf u" "update_handle u' = k" "update_partition u' = Some p"
        "ho_state u' = ESP_HTTPS_OTA_IN_PROGRESS" "to_come inp u' = to_come inp u" using w(5) v by auto
      have kept': "others_kept fl p w0 (ota_world s')" using kept w(2) by (rule others_kept_trans)
      have "transfer (u_ota env) fl inp in_body n p w0 bd u' s'" if "e' = ESP_ERR_HTTPS_OTA_IN_PROGRESS"
        using t u' w(6) that kept' unfolding transfer_def by (intro conjI exI) auto
      then show ?thesis using p1 w(3,4) kept' u' by (auto simp: step_result_def)
    qed
  qed
qed

subsection \<open>The whole update\<close>

lemma update_loop_progress:
  assumes net: "delivers (u_net env) inp" "parses (u_net env) in_head in_body st n"
    and fls: "flash_ok (u_ota env) fl" "flash_codes (u_ota env)"
    and tr: "transfer (u_ota env) fl inp in_body n p w0 bd u s" "ho_state u = ESP_HTTPS_OTA_IN_PROGRESS"
  shows "\<exists>e u' s'. update_loop env u s = Some (e, u', s') \<and> e \<noteq> ESP_ERR_HTTPS_OTA_IN_PROGRESS
    \<and> step_result (u_ota env) fl inp in_body n p w0 bd 0 e u' s'"
  using tr
proof (induction "to_come inp u" arbitrary: u s rule: less_induct)
  case less
  obtain e u1 s1 where r: "perform_in_progress env u s = Some (e, u1, s1)"
    "step_result (u_ota env) fl inp in_body n p w0 bd (to_come inp u) e u1 s1"
    using in_progress_step [OF net fls less.prems] by blast
  then have p: "esp_https_ota_perform env u s = Some (e, u1, s1)" using less.prems(2) by (simp add: esp_https_ota_perform_def)
  show ?case
  proof (cases "e = ESP_ERR_HTTPS_OTA_IN_PROGRESS")
    case True
    then have "update_loop env u s = update_loop env u1 s1" using p by (subst update_loop.simps) simp
    then show ?thesis using less.hyps [of u1 s1] r(2) True by (simp add: step_result_def)
  next
    case False
    then have "update_loop env u s = Some (e, u1, s1)" using p by (subst update_loop.simps) simp
    then show ?thesis using r(2) False by (auto simp: step_result_def)
  qed
qed

lemma update_loop_returns:
  assumes net: "delivers (u_net env) inp" "parses (u_net env) in_head in_body st n"
    and fls: "flash_ok (u_ota env) fl" "flash_codes (u_ota env)" "partition_verify (u_ota env) p = Some p" "0 < p_size p"
    and run: "esp_ota_get_running_partition (u_ota env) s \<noteq> None"
    and tr: "transfer (u_ota env) fl inp in_body n p w0 bd u s" "ho_state u = ESP_HTTPS_OTA_BEGIN"
  obtains e u' s' where "update_loop env u s = Some (e, u', s')" "e \<noteq> ESP_ERR_HTTPS_OTA_IN_PROGRESS"
    "step_result (u_ota env) fl inp in_body n p w0 bd 0 e u' s'"
proof -
  obtain e u1 s1 where r: "esp_https_ota_perform env u s = Some (e, u1, s1)"
    "step_result (u_ota env) fl inp in_body n p w0 bd (Suc (to_come inp u)) e u1 s1"
    using begin_step [OF net fls run tr] by blast
  show ?thesis
  proof (cases "e = ESP_ERR_HTTPS_OTA_IN_PROGRESS")
    case True
    then have "update_loop env u s = update_loop env u1 s1" using r(1) by (subst update_loop.simps) simp
    then show ?thesis
      using update_loop_progress [OF net fls(1,2), of p w0 bd u1 s1] r(2) True that by (auto simp: step_result_def)
  next
    case False
    then have "update_loop env u s = Some (e, u1, s1)" using r(1) by (subst update_loop.simps) simp
    then show ?thesis using that r(2) False by (auto simp: step_result_def)
  qed
qed

text \<open>The partition \<open>otadata\<close> takes every write.\<close>

definition od_writable :: "'f ota_env \<Rightarrow> esp_partition \<Rightarrow> bool" where
  "od_writable env od \<longleftrightarrow> (\<forall>off n w. fst (partition_erase_range env od off n w) = E_OK)
    \<and> (\<forall>off d w. fst (partition_write env od off d w) = E_OK)"

lemma rewrite_ok: "od_writable env od \<Longrightarrow> rewrite_ota_seq env two seq i od s = (r, s') \<Longrightarrow> i < 2 \<Longrightarrow> r = E_OK"
  unfolding od_writable_def by (auto simp: rewrite_ota_seq_def Let_def split_def)

lemma set_boot_ok:
  assumes "boot_ok env fl od" "get_ota_partition_count env = Some c" "SUB_TYPE_ID (p_subtype p) < c" "od_writable env od"
    and "is_ota_partition p" "image_verify env p (ota_world s)" "esp_ota_set_boot_partition env (Some p) s = Some (r, s')"
  shows "r = E_OK"
proof -
  have "p_type p = 0" "p_subtype p \<noteq> 0" using assms(5) by (auto simp: is_ota_partition_def)
  then have "esp_rewrite_ota_data env (p_subtype p) s = Some (r, s')"
    using assms(6,7) by (simp add: esp_ota_set_boot_partition_def image_validate_def)
  then show ?thesis
    using read_otadata_ok [OF assms(1), of s] assms(2,3)
    by (auto simp: esp_rewrite_ota_data_def Let_def bind_eq_Some_conv split: option.splits dest!: rewrite_ok [OF assms(4)])
qed

lemma records_kept:
  assumes "boot_ok env fl od" "fl w' od = fl w od"
  shows "records_of env od w' = records_of env od w"
proof -
  have "otadata_at (records_of env od w') i = otadata_at (records_of env od w) i" if "i < 2" for i
    using record_bytes [OF assms(1) that] assms(2) by simp
  from this [of 0] this [of 1] show ?thesis by (auto simp: otadata_at_def prod_eq_iff)
qed

text \<open>What is known when an update has succeeded.\<close>

definition updated ::
  "'f ota_env \<Rightarrow> 'f cells \<Rightarrow> esp_partition \<Rightarrow> esp_partition \<Rightarrow> 'f \<Rightarrow> bytes \<Rightarrow> 'f ota \<Rightarrow> bool" where
  "updated env fl od p w0 bd s \<longleftrightarrow> holds fl (ota_world s) p bd \<and> hd bd = 0xE9 \<and> image_verify env p (ota_world s)
    \<and> (\<forall>q. q \<noteq> p \<and> q \<noteq> od \<longrightarrow> fl (ota_world s) q = fl w0 q)
    \<and> (\<forall>a. get_active_otadata env (records_of env od w0) = Some a \<longrightarrow>
         otadata_at (records_of env od (ota_world s)) a = otadata_at (records_of env od w0) a)
    \<and> (od_writable env od \<longrightarrow> esp_ota_get_boot_partition env s = Some (Some p))"

lemma finish_success:
  assumes fls: "flash_ok (u_ota env) fl" "boot_ok (u_ota env) fl od" "verify_local (u_ota env) fl" "table_ok (u_ota env)"
    and cnt: "get_ota_partition_count (u_ota env) = Some c" "SUB_TYPE_ID (p_subtype p) < c" "sound_seqs (u_ota env) (records_of (u_ota env) od w0)"
    and p: "is_ota_partition p" "find_app (u_ota env) (p_subtype p) = Some p"
    and tr: "transfer (u_ota env) fl inp in_body n p w0 bd u s" "ho_state u = ESP_HTTPS_OTA_SUCCESS"
  obtains f s' where "esp_https_ota_finish env (Some u) s = Some (f, s')" "f = E_OK \<longrightarrow> updated (u_ota env) fl od p w0 bd s'"
    "f \<noteq> E_OK \<longrightarrow> others_kept fl p w0 (ota_world s')"
proof -
  have ns: "ho_state u \<noteq> ESP_HTTPS_OTA_BEGIN" using tr(2) by simp
  obtain raw rest it img where t0: "update_partition u = Some p" "0 < length (ota_upgrade_buf u)" "others_kept fl p w0 (ota_world s)"
    "body_state inp in_body n raw rest (ota_client u)" "find_entry (update_handle u) s = Some it"
    "taken (u_ota env) fl (p_size p) p img it (ota_world s)" "img @ raw @ rest = bd" "img \<noteq> [] \<longrightarrow> hd img = 0xE9"
    "ho_state u = ESP_HTTPS_OTA_SUCCESS \<longrightarrow> raw @ rest = []" by (rule transferD [OF tr(1) ns])
  have img: "img = bd" using t0(7,9) tr(2) by simp
  note t = t0(1,3,5,6,7,8) [unfolded img]
  have own: "owned p (update_handle u) s" using t(3,4) by (simp add: owned_def taken_def)
  obtain e s1 where e: "esp_ota_end (u_ota env) (update_handle u) s = (e, s1)" by fastforce
  have k1: "others_kept fl p w0 (ota_world s1)" using t(2) end_kept [OF fls(1) e own] by (rule others_kept_trans)
  show ?thesis
  proof (cases "e = E_OK")
    case False
    then have "esp_https_ota_finish env (Some u) s = Some (e, s1)" using e tr(2) by (simp add: esp_https_ota_finish_def)
    then show ?thesis using that False k1 by blast
  next
    case True
    have f: "fits (p_size p) p (length bd)" by (simp add: fits_def)
    note et = end_taken [OF fls(1) e [unfolded True] t(3,4) f]
    have "p_type od = 1" using fls(2,4) boot_okD(1) [OF fls(2)] by (auto simp: table_ok_def find_otadata_def)
    then have od: "p \<noteq> od" using p(1) by (auto simp: is_ota_partition_def)
    then have "fl (ota_world s1) od = fl w0 od" using k1 by (simp add: others_kept_def)
    then have rec: "records_of (u_ota env) od (ota_world s1) = records_of (u_ota env) od w0" by (rule records_kept [OF fls(2)])
    obtain r s2 where b: "esp_ota_set_boot_partition (u_ota env) (Some p) s1 = Some (r, s2)"
      "r = E_OK \<longrightarrow> esp_ota_get_boot_partition (u_ota env) s2 = Some (Some p)"
      "\<forall>a. get_active_otadata (u_ota env) (records_of (u_ota env) od w0) = Some a \<longrightarrow>
         otadata_at (records_of (u_ota env) od (ota_world s2)) a = otadata_at (records_of (u_ota env) od w0) a"
      "\<forall>q. q \<noteq> od \<longrightarrow> fl (ota_world s2) q = fl (ota_world s1) q"
      using set_boot_core [OF fls(1,2) cnt(1) _ p et(3), unfolded rec, OF cnt(3)] by blast
    have fin: "esp_https_ota_finish env (Some u) s = Some (E_OK, s2)"
      using e tr(2) True t(1) b(1) by (simp add: esp_https_ota_finish_def)
    have same: "fl (ota_world s2) p = fl (ota_world s1) p" using b(4) od by blast
    have "updated (u_ota env) fl od p w0 bd s2"
      unfolding updated_def
    proof (intro conjI)
      show "holds fl (ota_world s2) p bd" using et(1) same by (simp add: holds_def)
      show "hd bd = 0xE9" using et(4) t(6) by blast
      show "image_verify (u_ota env) p (ota_world s2)" using et(3) fls(3) same unfolding verify_local_def by metis
      show "\<forall>q. q \<noteq> p \<and> q \<noteq> od \<longrightarrow> fl (ota_world s2) q = fl w0 q" using b(4) k1 by (simp add: others_kept_def)
      show "od_writable (u_ota env) od \<longrightarrow> esp_ota_get_boot_partition (u_ota env) s2 = Some (Some p)"
        using set_boot_ok [OF fls(2) cnt(1,2) _ p(1) et(3) b(1)] b(2) by blast
    qed (rule b(3))
    then show ?thesis using that fin by blast
  qed
qed

text \<open>C3: An update over HTTP is all or nothing.  From the moment the connection stands and the headers are read, the rest of
  \<open>esp_https_ota\<close> (receiving, writing, finishing) returns, for every way the transport cuts the body into reads and with or without
  flash encryption.  When it reports success, the partition holds exactly the body of the response, which begins with the magic byte and has
  been verified, no other partition but \<open>otadata\<close> has changed, the boot record that was in force is untouched, and the
  new image is booted next if \<open>otadata\<close> could be written.  When it reports an error, nothing but the partition of the update has changed, so that the
  device boots what it booted before.\<close>

theorem https_update_all_or_nothing:
  assumes "delivers (u_net env) inp" "parses (u_net env) in_head in_body st n"
    and "flash_ok (u_ota env) fl" "flash_codes (u_ota env)" "boot_ok (u_ota env) fl od" "verify_local (u_ota env) fl" "table_ok (u_ota env)"
    and "get_ota_partition_count (u_ota env) = Some c" "SUB_TYPE_ID (p_subtype p) < c"
    and "sound_seqs (u_ota env) (records_of (u_ota env) od (ota_world s))"
    and "is_ota_partition p" "find_app (u_ota env) (p_subtype p) = Some p" "partition_verify (u_ota env) p = Some p" "0 < p_size p"
    and "esp_ota_get_running_partition (u_ota env) s \<noteq> None"
    and "body_state inp in_body n raw rest (ota_client u)" "update_partition u = Some p" "0 < length (ota_upgrade_buf u)"
    and "ho_state u = ESP_HTTPS_OTA_BEGIN" "binary_file_len u = 0"
  shows "\<exists>e s'. finish_update env u s = Some (e, s')
    \<and> (e = E_OK \<longrightarrow> updated (u_ota env) fl od p (ota_world s) (raw @ rest) s')
    \<and> (e \<noteq> E_OK \<longrightarrow> (\<forall>q. q \<noteq> p \<longrightarrow> fl (ota_world s') q = fl (ota_world s) q))"
proof -
  let ?w = "ota_world s"
  have tr: "transfer (u_ota env) fl inp in_body n p ?w (raw @ rest) u s"
    using assms(16-20) unfolding transfer_def by auto
  obtain e u1 s1 where l: "update_loop env u s = Some (e, u1, s1)" "e \<noteq> ESP_ERR_HTTPS_OTA_IN_PROGRESS"
    "step_result (u_ota env) fl inp in_body n p ?w (raw @ rest) 0 e u1 s1"
    by (rule update_loop_returns [OF assms(1-4,13-15) tr assms(19)])
  show ?thesis
  proof (cases "e = E_OK")
    case True
    then have t: "transfer (u_ota env) fl inp in_body n p ?w (raw @ rest) u1 s1" "ho_state u1 = ESP_HTTPS_OTA_SUCCESS"
      using l(3) by (simp_all add: step_result_def)
    obtain f s' where "esp_https_ota_finish env (Some u1) s1 = Some (f, s')"
      "f = E_OK \<longrightarrow> updated (u_ota env) fl od p ?w (raw @ rest) s'" "f \<noteq> E_OK \<longrightarrow> others_kept fl p ?w (ota_world s')"
      by (rule finish_success [OF assms(3,5-12) t])
    then show ?thesis using l(1) True by (simp add: finish_update_def others_kept_def)
  next
    case False
    have st: "ho_state u1 = ESP_HTTPS_OTA_BEGIN \<or> ho_state u1 = ESP_HTTPS_OTA_IN_PROGRESS"
      using l(3) False by (cases "ho_state u1") (auto simp: step_result_def)
    obtain f s' where f: "esp_ota_end (u_ota env) (update_handle u1) s1 = (f, s')" by fastforce
    have "others_kept fl p ?w (ota_world s')" if "ho_state u1 \<noteq> ESP_HTTPS_OTA_BEGIN"
      using l(3) that end_kept [OF assms(3) f] by (auto simp: step_result_def intro: others_kept_trans)
    then show ?thesis
      using l(1,3) False st f by (auto simp: finish_update_def esp_https_ota_finish_def step_result_def others_kept_def)
  qed
qed

subsection \<open>On the concrete transport and flash\<close>

definition mini_image :: bytes where
  "mini_image = 0xE9 # replicate 11 7"

definition demo_update :: "(mini_parser, bytes, nor_flash) update_env" where
  "demo_update = \<lparr>u_net = mini_net, u_ota = nor_env False, u_ready = True, u_malloc = (\<lambda>n. Some (replicate (nat n) 0)), u_calloc = True\<rparr>"

definition mini_answer :: "(mini_parser, bytes) http" where
  "mini_answer = snd (the (esp_http_client_fetch_headers mini_net (mini_client HTTP_STATE_REQ_COMPLETE_DATA (mini_head @ mini_image))))"

definition demo_handle :: "(mini_parser, bytes) https_ota" where
  "demo_handle = \<lparr>update_handle = 0, update_partition = Some ota_1, ota_client = mini_answer, ota_upgrade_buf = replicate 8 0,
     binary_file_len = 0, ho_state = ESP_HTTPS_OTA_BEGIN\<rparr>"

lemma nor_flash_codes: "flash_codes (nor_env enc)"
  by (simp add: flash_codes_def nor_env_def nor_erase_def nor_write_def)

lemma mini_answer_body:
  obtains raw rest where "body_state id (\<lambda>p k. p = Mini_body k) 12 raw rest mini_answer" "raw @ rest = mini_image"
proof -
  have h: "is_head mini_head" "head_status mini_head = 200" "head_length mini_head = 12" "mini_head \<noteq> []" by code_simp+
  have l: "length mini_image = 12" by (simp add: mini_image_def)
  have m: "\<forall>k. string_mem mini_net k" by (simp add: mini_net_def)
  have st: "h_state (mini_client HTTP_STATE_REQ_COMPLETE_DATA w) = HTTP_STATE_REQ_COMPLETE_DATA" for w
    by (simp add: mini_client_def mini_request_def)
  obtain d c1 where f: "esp_http_client_fetch_headers mini_net (mini_client HTTP_STATE_REQ_COMPLETE_DATA (mini_head @ mini_image)) = Some (int 12, c1)"
    "body_state id (\<lambda>p k. p = Mini_body k) 12 d (drop (length d) mini_image) c1" "d = take (length d) mini_image"
    by (rule fetch_headers_body [OF mini_delivers mini_parses [OF h(1-3)] m l _ _ mini_head_state [OF h(4)]])
      (use st in auto)
  then have "d @ drop (length d) mini_image = mini_image" by (metis append_take_drop_id)
  moreover have "c1 = mini_answer" using f(1) by (simp add: mini_answer_def)
  ultimately show ?thesis using that f(2) by blast
qed

lemma demo_update_facts:
  "SUB_TYPE_ID (p_subtype ota_1) < 2" "partition_verify (nor_env False) ota_1 = Some ota_1" "0 < p_size ota_1"
  "esp_ota_get_running_partition (nor_env False) nor_two \<noteq> None"
  "map_option fst (finish_update demo_update demo_handle nor_two) = Some E_OK"
  by code_simp+

theorem https_update_all_or_nothing_witness:
  "\<exists>s'. finish_update demo_update demo_handle nor_two = Some (E_OK, s') \<and> holds nor_at (ota_world s') ota_1 mini_image"
proof -
  obtain raw rest where b: "body_state id (\<lambda>p k. p = Mini_body k) 12 raw rest mini_answer" "raw @ rest = mini_image"
    by (rule mini_answer_body)
  have h: "is_head mini_head" "head_status mini_head = 200" "head_length mini_head = 12" by code_simp+
  have seqs: "sound_seqs (nor_env False) (records_of (nor_env False) otadata_part (ota_world nor_two))"
    using nor_two_facts(5,6) by (auto simp: sound_seqs_def less_2_cases_iff)
  have env: "u_net demo_update = mini_net" "u_ota demo_update = nor_env False" by (simp_all add: demo_update_def)
  have "\<exists>e s'. finish_update demo_update demo_handle nor_two = Some (e, s')
    \<and> (e = E_OK \<longrightarrow> updated (nor_env False) nor_at otadata_part ota_1 (ota_world nor_two) (raw @ rest) s')
    \<and> (e \<noteq> E_OK \<longrightarrow> (\<forall>q. q \<noteq> ota_1 \<longrightarrow> nor_at (ota_world s') q = nor_at (ota_world nor_two) q))"
    using https_update_all_or_nothing [where env = demo_update and u = demo_handle, unfolded env, OF mini_delivers mini_parses [OF h] nor_flash_ok
        nor_flash_codes nor_boot_ok nor_verify_local nor_table_ok nor_two_facts(1) demo_update_facts(1) seqs nor_two_facts(2,3) demo_update_facts(2-4)]
      b(1) by (simp add: demo_handle_def)
  then show ?thesis using demo_update_facts(5) b(2) by (auto simp: updated_def)
qed

end
