(* ===== verification/Https_Ota_Safe.thy ===== *)
theory Https_Ota_Safe
  imports Https_Ota_Props
begin

text \<open>
  An update over a network about which nothing is assumed: the transport may fail or stop at any point and the parser
  may report anything.  The other partitions, and with them the choice of the image to boot, change only after the whole response has
  arrived and the image in the flash has been verified.
\<close>

subsection \<open>An invariant of the handle\<close>

definition sane_update :: "'f cells \<Rightarrow> esp_partition \<Rightarrow> 'f \<Rightarrow> ('p, 'w) https_ota \<Rightarrow> 'f ota \<Rightarrow> bool" where
  "sane_update fl p w0 u s \<longleftrightarrow> update_partition u = Some p \<and> others_kept fl p w0 (ota_world s)
    \<and> ho_state u \<noteq> ESP_HTTPS_OTA_INIT \<and> (ho_state u \<noteq> ESP_HTTPS_OTA_BEGIN \<longrightarrow> owned p (update_handle u) s)"

text \<open>What a step may end with.\<close>

definition sane_result :: "'f cells \<Rightarrow> esp_partition \<Rightarrow> 'f \<Rightarrow> esp_error \<Rightarrow> ('p, 'w) https_ota \<Rightarrow> 'f ota \<Rightarrow> bool" where
  "sane_result fl p w0 e u s \<longleftrightarrow> sane_update fl p w0 u s \<and> (ho_state u = ESP_HTTPS_OTA_SUCCESS \<longleftrightarrow> e = E_OK)
    \<and> (e = E_OK \<longrightarrow> esp_https_ota_is_complete_data_received u)"

lemma read_image_keeps:
  "read_image env pos len u = Some (n, v) \<Longrightarrow>
    update_partition v = update_partition u \<and> ho_state v = ho_state u \<and> update_handle v = update_handle u"
  by (auto simp: read_image_def bind_eq_Some_conv)

lemma ota_write_sane:
  assumes "flash_ok (u_ota env) fl" "sane_update fl p w0 u s" "ho_state u = ESP_HTTPS_OTA_IN_PROGRESS" "ota_write env d u s = Some (e, u', s')"
  shows "sane_result fl p w0 e u' s'"
proof -
  obtain r where r: "esp_ota_write (u_ota env) (update_handle u) (Some d) s = Some (r, s')"
    "(e, u') = (if r \<noteq> E_OK then (r, u) else (ESP_ERR_HTTPS_OTA_IN_PROGRESS, u\<lparr>binary_file_len := binary_file_len u + int (length d)\<rparr>))"
    using assms(4) by (auto simp: ota_write_def bind_eq_Some_conv split: if_splits)
  then have w: "e \<noteq> E_OK" "u' = u\<lparr>binary_file_len := binary_file_len u'\<rparr>" by (auto split: if_splits)
  have "owned p (update_handle u) s" "others_kept fl p w0 (ota_world s)" using assms(2,3) by (simp_all add: sane_update_def)
  with write_kept [OF assms(1) r(1)] have "others_kept fl p w0 (ota_world s')" "owned p (update_handle u) s'"
    by (auto intro: others_kept_trans)
  moreover have "ho_state u' = ho_state u" "update_handle u' = update_handle u" "update_partition u' = update_partition u"
    using w(2) by (metis https_ota.select_convs(1,2,6) https_ota.surjective https_ota.update_convs(5))+
  ultimately show ?thesis using w(1) assms(2,3) by (simp add: sane_result_def sane_update_def)
qed

lemma in_progress_sane:
  assumes "flash_ok (u_ota env) fl" "sane_update fl p w0 u s" "ho_state u = ESP_HTTPS_OTA_IN_PROGRESS"
    and "perform_in_progress env u s = Some (e, u', s')"
  shows "sane_result fl p w0 e u' s'"
proof -
  obtain n v where r: "read_image env 0 (length (ota_upgrade_buf u)) u = Some (n, v)"
    using assms(4) by (auto simp: perform_in_progress_def bind_eq_Some_conv)
  have v: "sane_update fl p w0 v s" "ho_state v = ESP_HTTPS_OTA_IN_PROGRESS"
    using read_image_keeps [OF r] assms(2,3) by (simp_all add: sane_update_def)
  consider "n = 0" | "n > 0" | "n < 0" by linarith
  then show ?thesis
  proof cases
    case 2
    then show ?thesis using ota_write_sane [OF assms(1) v] assms(4) r by (simp add: perform_in_progress_def)
  qed (use v assms(4) r in \<open>auto simp: perform_in_progress_def sane_result_def sane_update_def
      esp_https_ota_is_complete_data_received_def split: if_splits\<close>)
qed

lemma perform_sane:
  assumes "flash_ok (u_ota env) fl" "partition_verify (u_ota env) p = Some p" "0 < p_size p" "flash_codes (u_ota env)"
    and "sane_update fl p w0 u s" "ho_state u \<noteq> ESP_HTTPS_OTA_SUCCESS" "esp_https_ota_perform env u s = Some (e, u', s')"
  shows "sane_result fl p w0 e u' s'"
proof (cases "ho_state u = ESP_HTTPS_OTA_BEGIN")
  case False
  then have "ho_state u = ESP_HTTPS_OTA_IN_PROGRESS" using assms(5,6) by (cases "ho_state u") (auto simp: sane_update_def)
  then show ?thesis using in_progress_sane [OF assms(1,5)] assms(7) by (simp add: esp_https_ota_perform_def)
next
  case True
  have up: "update_partition u = Some p" "others_kept fl p w0 (ota_world s)" using assms(5) by (simp_all add: sane_update_def)
  obtain r h s1 where b: "esp_ota_begin (u_ota env) (Some p) OTA_SIZE_UNKNOWN s = Some ((r, h), s1)"
    using assms(7) True up(1) by (auto simp: esp_https_ota_perform_def bind_eq_Some_conv)
  have kept: "others_kept fl p w0 (ota_world s1)" using up(2) begin_kept [OF assms(1) b assms(2)] by (rule others_kept_trans)
  show ?thesis
  proof (cases "r = E_OK")
    case False
    then show ?thesis using assms(7) True up(1) b kept by (auto simp: esp_https_ota_perform_def sane_result_def sane_update_def)
  next
    case ok: True
    then obtain k where k: "h = Some k" using begin_code(2) [OF assms(4) b] by blast
    define v where "v = u\<lparr>update_handle := k, ho_state := ESP_HTTPS_OTA_IN_PROGRESS\<rparr>"
    obtain it where "find_entry k s1 = Some it" "o_part it = p"
      using begin_taken [OF assms(1) b [unfolded ok k] assms(2,3)] by (auto simp: taken_def)
    then have v: "sane_update fl p w0 v s1" "ho_state v = ESP_HTTPS_OTA_IN_PROGRESS"
      using up(1) kept by (simp_all add: sane_update_def v_def owned_def)
    have "ota_write env (take (nat (binary_file_len v)) (ota_upgrade_buf v)) v s1 = Some (e, u', s')
      \<or> perform_in_progress env v s1 = Some (e, u', s')"
      using assms(7) True up(1) b ok k by (auto simp: esp_https_ota_perform_def v_def Let_def split: if_splits)
    then show ?thesis using ota_write_sane [OF assms(1) v] in_progress_sane [OF assms(1) v] by blast
  qed
qed

subsection \<open>The loop\<close>

lemma update_loop_sane:
  assumes "flash_ok (u_ota env) fl" "partition_verify (u_ota env) p = Some p" "0 < p_size p" "flash_codes (u_ota env)"
    and "update_loop env u s = Some (e, u', s')" "sane_update fl p w0 u s" "ho_state u \<noteq> ESP_HTTPS_OTA_SUCCESS"
  shows "sane_result fl p w0 e u' s'"
proof -
  have "flash_ok (u_ota env) fl \<and> partition_verify (u_ota env) p = Some p \<and> 0 < p_size p \<and> flash_codes (u_ota env)
    \<and> sane_update fl p w0 u s \<and> ho_state u \<noteq> ESP_HTTPS_OTA_SUCCESS \<longrightarrow> (case (e, u', s') of (e, u', s') \<Rightarrow> sane_result fl p w0 e u' s')"
    using assms(5)
  proof (rule update_loop.raw_induct [rotated])
    fix loop env u s y
    assume IH: "\<And>env u s y. loop env u s = Some y \<Longrightarrow> flash_ok (u_ota env) fl \<and> partition_verify (u_ota env) p = Some p \<and> 0 < p_size p
        \<and> flash_codes (u_ota env) \<and> sane_update fl p w0 u s \<and> ho_state u \<noteq> ESP_HTTPS_OTA_SUCCESS \<longrightarrow>
        (case y of (e, u', s') \<Rightarrow> sane_result fl p w0 e u' s')"
      and eq: "do { (err, hdl, s) \<leftarrow> esp_https_ota_perform env u s;
         if err = ESP_ERR_HTTPS_OTA_IN_PROGRESS then loop env hdl s else Some (err, hdl, s) } = Some y"
    show "flash_ok (u_ota env) fl \<and> partition_verify (u_ota env) p = Some p \<and> 0 < p_size p \<and> flash_codes (u_ota env)
        \<and> sane_update fl p w0 u s \<and> ho_state u \<noteq> ESP_HTTPS_OTA_SUCCESS \<longrightarrow> (case y of (e, u', s') \<Rightarrow> sane_result fl p w0 e u' s')"
    proof
      assume a: "flash_ok (u_ota env) fl \<and> partition_verify (u_ota env) p = Some p \<and> 0 < p_size p \<and> flash_codes (u_ota env)
        \<and> sane_update fl p w0 u s \<and> ho_state u \<noteq> ESP_HTTPS_OTA_SUCCESS"
      obtain e1 u1 s1 where p1: "esp_https_ota_perform env u s = Some (e1, u1, s1)" using eq by (auto simp: bind_eq_Some_conv)
      have sr: "sane_result fl p w0 e1 u1 s1" using a by (intro perform_sane [OF _ _ _ _ _ _ p1]) auto
      show "case y of (e, u', s') \<Rightarrow> sane_result fl p w0 e u' s'"
      proof (cases "e1 = ESP_ERR_HTTPS_OTA_IN_PROGRESS")
        case False
        then show ?thesis using eq p1 sr by auto
      next
        case True
        then have "loop env u1 s1 = Some y" using eq p1 by simp
        from IH [OF this] show ?thesis using a sr True by (auto simp: sane_result_def)
      qed
    qed
  qed
  then show ?thesis using assms by simp
qed

lemma end_verified:
  assumes "esp_ota_end env h s = (E_OK, s')" "owned p h s"
  shows "image_verify env p (ota_world s')"
proof -
  obtain it where it: "find_entry h s = Some it" "o_part it = p" using assms by (auto simp: esp_ota_end_def owned_def split: option.splits)
  then show ?thesis using assms(1) by (auto simp: esp_ota_end_def Let_def split: if_splits prod.splits)
qed

text \<open>C4: Whatever the network does (connections that break, reads that give nothing, any answers of the response parser), the partitions other
  than the one of the update, and with them the choice of the image to boot, are as they were, unless the response has been received completely and
  the image in the partition has been verified; then the update reports success.  Nothing is assumed of the transport and of the parser.\<close>

theorem interrupted_update_harmless:
  assumes "flash_ok (u_ota env) fl" "flash_codes (u_ota env)" "partition_verify (u_ota env) p = Some p" "0 < p_size p"
    and "update_partition u = Some p" "ho_state u = ESP_HTTPS_OTA_BEGIN" "finish_update env u s = Some (e, s')"
  shows "(\<forall>q. q \<noteq> p \<longrightarrow> fl (ota_world s') q = fl (ota_world s) q)
    \<or> e = E_OK \<and> (\<exists>u1 s1 s2. update_loop env u s = Some (E_OK, u1, s1) \<and> esp_https_ota_is_complete_data_received u1
        \<and> esp_ota_end (u_ota env) (update_handle u1) s1 = (E_OK, s2) \<and> image_verify (u_ota env) p (ota_world s2)
        \<and> (\<forall>q. q \<noteq> p \<longrightarrow> fl (ota_world s2) q = fl (ota_world s) q))"
proof -
  obtain e1 u1 s1 f where l: "update_loop env u s = Some (e1, u1, s1)" "esp_https_ota_finish env (Some u1) s1 = Some (f, s')"
    "e = (if e1 \<noteq> E_OK then e1 else f)"
    using assms(7) by (auto simp: finish_update_def bind_eq_Some_conv)
  have "sane_update fl p (ota_world s) u s" using assms(5,6) by (simp add: sane_update_def)
  then have r: "sane_result fl p (ota_world s) e1 u1 s1" using assms(6) by (intro update_loop_sane [OF assms(1,3,4,2) l(1)]) auto
  obtain g s2 where g: "esp_ota_end (u_ota env) (update_handle u1) s1 = (g, s2)" by fastforce
  have k2: "others_kept fl p (ota_world s) (ota_world s2)" "owned p (update_handle u1) s1" if "ho_state u1 \<noteq> ESP_HTTPS_OTA_BEGIN"
    using r that end_kept [OF assms(1) g] by (auto simp: sane_result_def sane_update_def intro: others_kept_trans)
  show ?thesis
  proof (cases "ho_state u1 = ESP_HTTPS_OTA_SUCCESS \<and> g = E_OK")
    case True
    then have "f = E_OK" using l(2) g by (auto simp: esp_https_ota_finish_def bind_eq_Some_conv)
    then show ?thesis using True r l(1,3) g k2 end_verified [of "u_ota env" "update_handle u1" s1 s2 p]
      by (auto simp: sane_result_def others_kept_def)
  next
    case False
    then have "s' = (if ho_state u1 = ESP_HTTPS_OTA_BEGIN then s1 else s2)"
      using l(2) g r by (auto simp: esp_https_ota_finish_def sane_result_def sane_update_def split: if_splits)
    then show ?thesis using r k2 by (auto simp: sane_result_def sane_update_def others_kept_def)
  qed
qed

subsection \<open>A connection that breaks\<close>

text \<open>The transport of \<open>mini_net\<close> that reports a closed connection after its bytes; the response lacks its last seven bytes.\<close>

definition breaking_net :: "(mini_parser, bytes) http_net" where
  "breaking_net = mini_net\<lparr>transport_read := (\<lambda>t n w. if w = [] then (- 1, [], Some ENOTCONN, w) else piece_read t n w)\<rparr>"

definition broken_handle :: "(mini_parser, bytes) https_ota" where
  "broken_handle = demo_handle\<lparr>ota_client := snd (the (esp_http_client_fetch_headers breaking_net
     (mini_client HTTP_STATE_REQ_COMPLETE_DATA (mini_head @ take 5 mini_image))))\<rparr>"

lemma broken_update_fails:
  "map_option fst (finish_update (demo_update\<lparr>u_net := breaking_net\<rparr>) broken_handle nor_two) = Some E_FAIL"
  by code_simp

theorem interrupted_update_harmless_witness:
  "\<exists>s'. finish_update (demo_update\<lparr>u_net := breaking_net\<rparr>) broken_handle nor_two = Some (E_FAIL, s')
    \<and> nor_at (ota_world s') otadata_part = nor_at (ota_world nor_two) otadata_part"
proof -
  let ?env = "demo_update\<lparr>u_net := breaking_net\<rparr>"
  obtain s' where f: "finish_update ?env broken_handle nor_two = Some (E_FAIL, s')" using broken_update_fails by auto
  have env: "u_ota ?env = nor_env False" by (simp add: demo_update_def)
  have h: "update_partition broken_handle = Some ota_1" "ho_state broken_handle = ESP_HTTPS_OTA_BEGIN"
    by (simp_all add: broken_handle_def demo_handle_def)
  have "\<forall>q. q \<noteq> ota_1 \<longrightarrow> nor_at (ota_world s') q = nor_at (ota_world nor_two) q"
    using interrupted_update_harmless [where env = ?env, unfolded env, OF nor_flash_ok nor_flash_codes demo_update_facts(2,3) h f] by simp
  moreover have "otadata_part \<noteq> ota_1" by code_simp
  ultimately show ?thesis using f by blast
qed

end
