(* ===== verification/Otadrive_Props.thy ===== *)
theory Otadrive_Props
  imports Otadrive Https_Ota_Safe
begin

text \<open>
  The task that keeps the firmware up to date: however many checks and failed downloads there are, it restarts the device only with a
  verified image, and up to then nothing but the passive partition changes.
\<close>

subsection \<open>The running partition stays the same\<close>

definition running :: "'f ota_env \<Rightarrow> 'f ota \<Rightarrow> esp_partition option" where
  "running env s = map_option fst (esp_ota_get_running_partition env s)"

lemma running_cong: "curr_partition s' = curr_partition s \<Longrightarrow> running env s' = running env s"
  by (simp add: running_def esp_ota_get_running_partition_def option.map_comp comp_def split: option.splits)

lemma running_world_update [simp]: "running env (s\<lparr>ota_world := w\<rparr>) = running env s" by (rule running_cong) simp

lemma running_get: "esp_ota_get_running_partition env s = Some (r, s') \<Longrightarrow> running env s' = running env s"
  by (auto simp: running_def esp_ota_get_running_partition_def split: option.splits)

lemma running_same: "esp_ota_get_running_partition env s = Some (r, s') \<Longrightarrow> running env s' = running env s \<and> ota_world s' = ota_world s"
  using running_get running_world by blast

lemma curr_put [simp]: "curr_partition (put_entry it s) = curr_partition s" by (simp add: put_entry_def)

lemma begin_running:
  assumes "esp_ota_begin env part sz s = Some (r, s')"
  shows "running env s' = running env s"
proof -
  have "s' = s \<or> (\<exists>q s1. esp_ota_get_running_partition env s = Some (q, s1) \<and> curr_partition s' = curr_partition s1)"
    using assms by (auto simp: esp_ota_begin_def bind_eq_Some_conv Let_def split: option.splits if_splits prod.splits)
  then show ?thesis using running_get running_cong by metis
qed

lemma write_running:
  assumes "esp_ota_write env h d s = Some (r, s')"
  shows "running env s' = running env s"
proof -
  have fw: "flash_write env it e t = (q, t') \<Longrightarrow> curr_partition t' = curr_partition t" for it e t q t'
    by (auto simp: flash_write_def Let_def split: prod.splits)
  have wb: "write_blocks env it e t = (q, t') \<Longrightarrow> curr_partition t' = curr_partition t" for it e t q t'
    by (auto simp: write_blocks_def split: prod.splits dest: fw)
  have we: "write_encrypted env it e t = (q, t') \<Longrightarrow> curr_partition t' = curr_partition t" for it e t q t'
    by (auto simp: write_encrypted_def Let_def split: prod.splits if_splits dest: wb)
  show ?thesis
    using assms by (intro running_cong) (auto simp: esp_ota_write_def split: option.splits if_splits dest: fw we)
qed

lemma end_running: "esp_ota_end env h s = (r, s') \<Longrightarrow> running env s' = running env s"
  by (rule running_cong) (auto simp: esp_ota_end_def Let_def split: option.splits if_splits prod.splits)

lemma next_update_same:
  assumes "esp_ota_get_next_update_partition env None s = Some (part, s')"
  shows "running env s' = running env s \<and> ota_world s' = ota_world s"
  using assms by (auto simp: esp_ota_get_next_update_partition_def bind_eq_Some_conv dest: running_same)

text \<open>The partition of the next update is determined by the running one.\<close>

lemma next_update_stable:
  assumes "running env s' = running env s" "esp_ota_get_next_update_partition env None s = Some (part, s1)"
    and "esp_ota_get_next_update_partition env None s' = Some (part', s2)"
  shows "part' = part"
  using assms by (auto simp: running_def esp_ota_get_next_update_partition_def bind_eq_Some_conv)

subsection \<open>The steps of the update\<close>

lemma ota_write_running: "ota_write env b u s = Some (e, u', s') \<Longrightarrow> running (u_ota env) s' = running (u_ota env) s"
  by (auto simp: ota_write_def bind_eq_Some_conv split: if_splits dest: write_running)

lemma perform_running:
  assumes "esp_https_ota_perform env u s = Some (e, u', s')"
  shows "running (u_ota env) s' = running (u_ota env) s"
proof -
  have ip: "perform_in_progress env v t = Some (e, u', s') \<Longrightarrow> running (u_ota env) s' = running (u_ota env) t" for v t
    by (auto simp: perform_in_progress_def bind_eq_Some_conv split: if_splits dest: ota_write_running)
  show ?thesis
    using assms by (auto simp: esp_https_ota_perform_def bind_eq_Some_conv Let_def split: https_ota_state.splits if_splits
        dest!: begin_running ip ota_write_running)
qed

text \<open>Reading the description of the image touches the client and the buffer only.\<close>

lemma desc_loop_keeps:
  assumes "desc_loop env m k u = Some (m', k', u')"
  shows "update_partition u' = update_partition u \<and> ho_state u' = ho_state u \<and> update_handle u' = update_handle u"
proof -
  have "case (m', k', u') of (m', k', u') \<Rightarrow>
      update_partition u' = update_partition u \<and> ho_state u' = ho_state u \<and> update_handle u' = update_handle u"
    using assms
  proof (rule desc_loop.raw_induct [rotated])
    fix loop env m k u y
    assume IH: "\<And>env m k u y. loop env m k u = Some y \<Longrightarrow> (case y of (m', k', u') \<Rightarrow>
        update_partition u' = update_partition u \<and> ho_state u' = ho_state u \<and> update_handle u' = update_handle u)"
      and eq: "(if m > 0 \<and> \<not> esp_https_ota_is_complete_data_received u then
       do { (data_read, hdl) \<leftarrow> read_image env (nat k) (nat m) u;
            if conn_closed (ota_client hdl) \<or> data_read < 0 then Some (m, k, hdl)
            else loop env (m - data_read) (k + data_read) hdl }
     else Some (m, k, u)) = Some y"
    show "case y of (m', k', u') \<Rightarrow> update_partition u' = update_partition u \<and> ho_state u' = ho_state u \<and> update_handle u' = update_handle u"
    proof (cases "m > 0 \<and> \<not> esp_https_ota_is_complete_data_received u")
      case True
      then obtain n v where r: "read_image env (nat k) (nat m) u = Some (n, v)" using eq by (auto simp: bind_eq_Some_conv)
      have "y = (m, k, v) \<or> loop env (m - n) (k + n) v = Some y" using eq r True by (auto split: if_splits)
      then show ?thesis using IH [of env "m - n" "k + n" v y] read_image_keeps [OF r] by auto
    qed (use eq in auto)
  qed
  then show ?thesis by simp
qed

lemma img_desc_keeps:
  "esp_https_ota_get_img_desc env u = Some (e, b, u') \<Longrightarrow>
    update_partition u' = update_partition u \<and> ho_state u' = ho_state u \<and> update_handle u' = update_handle u"
  by (auto simp: esp_https_ota_get_img_desc_def bind_eq_Some_conv split: if_splits dest: desc_loop_keeps)

lemma validate_same:
  assumes "validate_image_header env s = Some (e, s')"
  shows "running env s' = running env s \<and> ota_world s' = ota_world s"
  using assms by (auto simp: validate_image_header_def bind_eq_Some_conv split: if_splits dest!: running_same next_update_same)

lemma https_begin_same:
  assumes "esp_https_ota_begin env cfg w s = Some ((e, h), s')"
  shows "running (u_ota env) s' = running (u_ota env) s \<and> ota_world s' = ota_world s"
  using assms by (auto simp: esp_https_ota_begin_def bind_eq_Some_conv split: option.splits if_splits dest!: next_update_same)

lemma https_begin_handle:
  assumes "esp_https_ota_begin env cfg w s = Some ((E_OK, Some u), s')"
  shows "ho_state u = ESP_HTTPS_OTA_BEGIN \<and> (\<exists>p. update_partition u = Some p \<and>
    (\<exists>s1. esp_ota_get_next_update_partition (u_ota env) None s = Some (Some p, s1)))"
  using assms by (auto simp: esp_https_ota_begin_def bind_eq_Some_conv split: option.splits if_splits)

subsection \<open>The loop\<close>

lemma lock_simps [simp]:
  "otadrv_lock (handle_events k c d) = otadrv_lock d" "otadrv_lock (snd (read_timer env d)) = otadrv_lock d"
  "otadrv_lock (give_lock d) = Some False"
  by (simp_all add: handle_events_def read_timer_def give_lock_def)

lemma post_lock: "post_event env ev x d = Some d' \<Longrightarrow> otadrv_lock d' = otadrv_lock d"
  by (auto simp: post_event_def split: if_splits)

lemma ask_size_lock: "ask_size env d = Some d' \<Longrightarrow> otadrv_lock d' = otadrv_lock d"
  by (auto simp: ask_size_def bind_eq_Some_conv split: option.splits if_splits)

lemma after_step_lock:
  assumes "after_step env dl t l q k d = Some (r, d')"
  shows "otadrv_lock d' = otadrv_lock d"
  using assms by (auto simp: after_step_def bind_eq_Some_conv Let_def read_timer_def split: if_splits dest!: ask_size_lock post_lock)

text \<open>What the loop keeps, and what it ends with.\<close>

definition loop_result ::
  "'f ota_env \<Rightarrow> 'f cells \<Rightarrow> esp_partition \<Rightarrow> 'f \<Rightarrow> ('p, 'w) otadrive \<Rightarrow> 'f ota
    \<Rightarrow> esp_error option \<times> ('p, 'w) https_ota \<times> ('p, 'w) otadrive \<times> 'f ota \<Rightarrow> bool" where
  "loop_result env fl p w0 d s y \<longleftrightarrow> (case y of (r, u', d', s') \<Rightarrow>
    sane_update fl p w0 u' s' \<and> (\<forall>e. r = Some e \<longrightarrow> sane_result fl p w0 e u' s') \<and> running env s' = running env s
    \<and> otadrv_lock d' = otadrv_lock d)"

definition loop_start :: "('p, 'w, 'f) otadrive_env \<Rightarrow> 'f cells \<Rightarrow> esp_partition \<Rightarrow> 'f \<Rightarrow> ('p, 'w) https_ota \<Rightarrow> 'f ota \<Rightarrow> bool" where
  "loop_start env fl p w0 u s \<longleftrightarrow> flash_ok (u_ota (o_update env)) fl \<and> partition_verify (u_ota (o_update env)) p = Some p \<and> 0 < p_size p
    \<and> flash_codes (u_ota (o_update env)) \<and> sane_update fl p w0 u s \<and> ho_state u \<noteq> ESP_HTTPS_OTA_SUCCESS"

lemma download_loop_result:
  assumes "download_loop env t l q k u d s = Some y" "loop_start env fl p w0 u s"
  shows "loop_result (u_ota (o_update env)) fl p w0 d s y"
proof -
  have "loop_start env fl p w0 u s \<longrightarrow> loop_result (u_ota (o_update env)) fl p w0 d s y"
    using assms(1)
  proof (rule download_loop.raw_induct [rotated])
    fix loop env t l q k u d s y
    assume IH: "\<And>env t l q k u d s y. loop env t l q k u d s = Some y \<Longrightarrow>
        loop_start env fl p w0 u s \<longrightarrow> loop_result (u_ota (o_update env)) fl p w0 d s y"
      and eq: "(let (now, d) = read_timer env d in
         if now > t then Some (None, u, d, s)
         else
           do { (err, hdl, s) \<leftarrow> esp_https_ota_perform (o_update env) u s;
                if err \<noteq> ESP_ERR_HTTPS_OTA_IN_PROGRESS then Some (Some err, hdl, d, s)
                else
                  let dl = esp_https_ota_get_image_len_read (Some hdl) in
                  do { (next, d) \<leftarrow> after_step env dl t l q k d;
                       case next of
                         None \<Rightarrow> Some (None, hdl, d, s)
                       | Some (t_break, progress, fail_count) \<Rightarrow> loop env t_break dl progress fail_count hdl d s } }) = Some y"
    let ?o = "o_update env"
    define d0 where "d0 = snd (read_timer env d)"
    have l0: "otadrv_lock d0 = otadrv_lock d" by (simp add: d0_def)
    have rt: "read_timer env d = (esp_timer_get_time env (od_readings d), d0)" by (simp add: d0_def read_timer_def)
    show "loop_start env fl p w0 u s \<longrightarrow> loop_result (u_ota ?o) fl p w0 d s y"
    proof
      assume st: "loop_start env fl p w0 u s"
      show "loop_result (u_ota ?o) fl p w0 d s y"
      proof (cases "esp_timer_get_time env (od_readings d) > t")
        case True
        then show ?thesis using eq rt st l0 by (auto simp: loop_result_def loop_start_def)
      next
        case False
        obtain e1 u1 s1 where p1: "esp_https_ota_perform ?o u s = Some (e1, u1, s1)" using eq rt False by (auto simp: bind_eq_Some_conv)
        have sr: "sane_result fl p w0 e1 u1 s1"
          using st by (intro perform_sane [OF _ _ _ _ _ _ p1]) (auto simp: loop_start_def)
        note run = perform_running [OF p1]
        show ?thesis
        proof (cases "e1 = ESP_ERR_HTTPS_OTA_IN_PROGRESS")
          case no: False
          then show ?thesis using eq rt False p1 sr run l0 by (auto simp: loop_result_def sane_result_def)
        next
          case True
          let ?dl = "esp_https_ota_get_image_len_read (Some u1)"
          obtain nx d2 where a: "after_step env ?dl t l q k d0 = Some (nx, d2)" using eq rt False p1 True by (auto simp: bind_eq_Some_conv Let_def)
          note l2 = after_step_lock [OF a]
          have s1: "loop_start env fl p w0 u1 s1" using st sr True by (auto simp: loop_start_def sane_result_def)
          show ?thesis
          proof (cases nx)
            case None
            then show ?thesis using eq rt False p1 True a sr run l0 l2 by (auto simp: loop_result_def sane_result_def)
          next
            case (Some z)
            obtain t2 q2 k2 where z: "z = (t2, q2, k2)" by (cases z)
            have "loop env t2 ?dl q2 k2 u1 d2 s1 = Some y" using eq rt False p1 True a Some z by simp
            from IH [OF this] show ?thesis using s1 run l0 l2 by (auto simp: loop_result_def)
          qed
        qed
      qed
    qed
  qed
  then show ?thesis using assms(2) by simp
qed

subsection \<open>One update\<close>

text \<open>The outcome: nothing but the partition of the update has changed and the mutex is free, or the image in the partition has been
  verified and is what the boot selection was set to before the restart.\<close>

definition safe_outcome ::
  "'f ota_env \<Rightarrow> 'f cells \<Rightarrow> esp_partition \<Rightarrow> 'f \<Rightarrow> esp_partition option \<Rightarrow> bool \<Rightarrow> ('p, 'w) otadrive \<Rightarrow> 'f ota \<Rightarrow> bool" where
  "safe_outcome env fl p w0 run restarted d s \<longleftrightarrow>
    (if restarted
     then \<exists>t r. image_verify env p (ota_world t) \<and> others_kept fl p w0 (ota_world t) \<and> esp_ota_set_boot_partition env (Some p) t = Some (r, s)
     else others_kept fl p w0 (ota_world s) \<and> running env s = run \<and> otadrv_lock d = Some False)"

lemma failed_outcome:
  "ota_failed env d s = Some (re, r, d', s') \<Longrightarrow> others_kept fl p w0 (ota_world s) \<Longrightarrow> running oe s = run \<Longrightarrow> safe_outcome oe fl p w0 run re d' s'"
  by (auto simp: ota_failed_def bind_eq_Some_conv safe_outcome_def)

lemma conclude_outcome:
  assumes "flash_ok (u_ota (o_update env)) fl" "sane_result fl p w0 e u s" "running (u_ota (o_update env)) s = run"
    and "conclude env e u d s = Some (re, r, d', s')"
  shows "safe_outcome (u_ota (o_update env)) fl p w0 run re d' s'"
proof -
  let ?o = "u_ota (o_update env)"
  have su: "sane_update fl p w0 u s" "ho_state u = ESP_HTTPS_OTA_SUCCESS \<longleftrightarrow> e = E_OK" using assms(2) by (auto simp: sane_result_def)
  have kept: "others_kept fl p w0 (ota_world s)" "update_partition u = Some p" "ho_state u \<noteq> ESP_HTTPS_OTA_INIT"
    "ho_state u \<noteq> ESP_HTTPS_OTA_BEGIN \<longrightarrow> owned p (update_handle u) s" using su(1) by (auto simp: sane_update_def)
  show ?thesis
  proof (cases "esp_https_ota_is_complete_data_received u")
    case False
    then show ?thesis using assms(3,4) kept(1) by (auto simp: conclude_def intro: failed_outcome)
  next
    case True
    obtain g s2 where g: "esp_ota_end ?o (update_handle u) s = (g, s2)" by fastforce
    have k2: "others_kept fl p w0 (ota_world s2)" "running ?o s2 = run" if "ho_state u \<noteq> ESP_HTTPS_OTA_BEGIN"
      using that kept(1,4) end_kept [OF assms(1) g] end_running [OF g] assms(3) by (auto intro: others_kept_trans)
    obtain f s3 where f: "esp_https_ota_finish (o_update env) (Some u) s = Some (f, s3)"
      using assms(4) True by (auto simp: conclude_def bind_eq_Some_conv)
    show ?thesis
    proof (cases "ho_state u = ESP_HTTPS_OTA_SUCCESS \<and> g = E_OK")
      case ok: True
      then obtain x where b: "esp_ota_set_boot_partition ?o (Some p) s2 = Some (x, s3)" "f = E_OK"
        using f g kept(2) by (auto simp: esp_https_ota_finish_def bind_eq_Some_conv)
      have v: "image_verify ?o p (ota_world s2)" using end_verified [of ?o "update_handle u" s s2 p] g ok kept(4) by auto
      have re: "re" "s' = s3" using assms(4) True f b(2) ok su(2) by (auto simp: conclude_def bind_eq_Some_conv)
      have "image_verify ?o p (ota_world s2) \<and> others_kept fl p w0 (ota_world s2) \<and> esp_ota_set_boot_partition ?o (Some p) s2 = Some (x, s')"
        using v k2(1) ok b(1) re(2) by simp
      then show ?thesis unfolding safe_outcome_def using re(1) by auto
    next
      case no: False
      then have "s3 = (if ho_state u = ESP_HTTPS_OTA_BEGIN then s else s2)" "e = E_OK \<longrightarrow> f \<noteq> E_OK"
        using f g su(2) kept(3) by (auto simp: esp_https_ota_finish_def split: if_splits)
      then show ?thesis using assms(3,4) True f kept(1) k2 by (auto simp: conclude_def intro!: failed_outcome split: if_splits)
    qed
  qed
qed

lemma update_outcome:
  assumes fls: "flash_ok (u_ota (o_update env)) fl" "flash_codes (u_ota (o_update env))" "partition_verify (u_ota (o_update env)) p = Some p" "0 < p_size p"
    and nx: "\<And>part t. esp_ota_get_next_update_partition (u_ota (o_update env)) None s = Some (part, t) \<Longrightarrow> part = Some p"
    and st: "others_kept fl p w0 (ota_world s)" "running (u_ota (o_update env)) s = run" "otadrv_lock d = Some False"
    and upd: "otadrive_updateFirmware env d s = Some (re, r, d', s')"
  shows "safe_outcome (u_ota (o_update env)) fl p w0 run re d' s'"
proof -
  let ?o = "u_ota (o_update env)"
  define d1 where "d1 = (snd (read_timer env d))\<lparr>otadrv_lock := Some True, od_conns := od_conns d + 1\<rparr>"
  obtain e h s1 where b: "esp_https_ota_begin (o_update env) (Some (firmware_config (session d))) (o_world env (od_conns d)) s = Some ((e, h), s1)"
    using upd st(3) by (auto simp: otadrive_updateFirmware_def read_timer_def take_lock_def Let_def bind_eq_Some_conv)
  have s1: "others_kept fl p w0 (ota_world s1)" "running ?o s1 = run" using https_begin_same [OF b] st(1,2) by simp_all
  note unf = otadrive_updateFirmware_def read_timer_def take_lock_def Let_def d1_def
  show ?thesis
  proof (cases "e = E_OK")
    case False
    then have "ota_failed env d1 s1 = Some (re, r, d', s')" using upd b st(3) by (simp add: unf)
    then show ?thesis using s1 by (rule failed_outcome)
  next
    case True
    obtain u e2 bs u2 where u: "h = Some u" "esp_https_ota_get_img_desc (o_update env) u = Some (e2, bs, u2)"
      using upd b st(3) True by (auto simp: unf bind_eq_Some_conv)
    have hu: "ho_state u2 = ESP_HTTPS_OTA_BEGIN" "update_partition u2 = Some p"
      using https_begin_handle [OF b [unfolded True u(1)]] img_desc_keeps [OF u(2)] nx by auto
    show ?thesis
    proof (cases "e2 = E_OK")
      case False
      then have "ota_failed env d1 s1 = Some (re, r, d', s')" using upd b st(3) True u by (simp add: unf)
      then show ?thesis using s1 by (rule failed_outcome)
    next
      case ok: True
      obtain e3 s2 where v: "validate_image_header ?o s1 = Some (e3, s2)" using upd b st(3) True u ok by (auto simp: unf bind_eq_Some_conv)
      have s2: "others_kept fl p w0 (ota_world s2)" "running ?o s2 = run" using validate_same [OF v] s1 by simp_all
      have e3: "e3 = E_OK" using v by (auto simp: validate_image_header_def bind_eq_Some_conv split: if_splits)
      obtain x u3 d3 s3 where l: "download_loop env (esp_timer_get_time env (od_readings d) + 1000 * 1000 * 30) (- 1) (- 1) 0 u2 d1 s2 = Some (x, u3, d3, s3)"
        "(case x of None \<Rightarrow> ota_failed env d3 s3 | Some err \<Rightarrow> conclude env err u3 d3 s3) = Some (re, r, d', s')"
        using upd b st(3) True u ok v e3 by (auto simp: unf bind_eq_Some_conv)
      have "loop_start env fl p w0 u2 s2" using fls hu s2 by (simp add: loop_start_def sane_update_def)
      from download_loop_result [OF l(1) this] have lr: "others_kept fl p w0 (ota_world s3)" "running ?o s3 = run"
        "\<forall>err. x = Some err \<longrightarrow> sane_result fl p w0 err u3 s3" using s2(2) by (auto simp: loop_result_def sane_update_def)
      show ?thesis
      proof (cases x)
        case None
        then show ?thesis using l(2) lr by (auto intro: failed_outcome)
      next
        case (Some err)
        then show ?thesis using l(2) lr by (auto intro: conclude_outcome [OF fls(1)])
      qed
    qed
  qed
qed

lemma info_lock: "otadrive_updateFirmwareInfo env d = Some (r, d') \<Longrightarrow> otadrv_lock d = Some False \<Longrightarrow> otadrv_lock d' = Some False"
  by (auto simp: otadrive_updateFirmwareInfo_def take_lock_def bind_eq_Some_conv Let_def)

lemma setInfo_lock: "otadrive_setInfo env key ver d = Some d' \<Longrightarrow> otadrv_lock d = None \<Longrightarrow> otadrv_lock d' = Some False"
  by (cases "o_mutex env") (auto simp: otadrive_setInfo_def take_lock_def Let_def give_lock_def split: if_splits)

text \<open>What a restart means: the image of \<open>p\<close> is verified, only \<open>p\<close> and the partition \<open>od\<close> of the boot records have changed, the
  record that was in force is as it was, and \<open>p\<close> is booted next if the records can be written.\<close>

definition ready_to_boot :: "'f ota_env \<Rightarrow> 'f cells \<Rightarrow> esp_partition \<Rightarrow> esp_partition \<Rightarrow> 'f \<Rightarrow> 'f ota \<Rightarrow> bool" where
  "ready_to_boot env fl od p w0 s \<longleftrightarrow> image_verify env p (ota_world s)
    \<and> (\<forall>q. q \<noteq> p \<and> q \<noteq> od \<longrightarrow> fl (ota_world s) q = fl w0 q)
    \<and> (\<forall>a. get_active_otadata env (records_of env od w0) = Some a \<longrightarrow>
         otadata_at (records_of env od (ota_world s)) a = otadata_at (records_of env od w0) a)
    \<and> (od_writable env od \<longrightarrow> esp_ota_get_boot_partition env s = Some (Some p))"

lemma set_boot_ready:
  assumes "flash_ok env fl" "boot_ok env fl od" "verify_local env fl" "table_ok env" "get_ota_partition_count env = Some c"
    and "SUB_TYPE_ID (p_subtype p) < c" "sound_seqs env (records_of env od w0)" "is_ota_partition p" "find_app env (p_subtype p) = Some p"
    and "image_verify env p (ota_world t)" "others_kept fl p w0 (ota_world t)" "esp_ota_set_boot_partition env (Some p) t = Some (r, s)"
  shows "ready_to_boot env fl od p w0 s"
proof -
  have "p_type od = 1" using assms(4) boot_okD(1) [OF assms(2)] by (auto simp: table_ok_def find_otadata_def)
  then have od: "p \<noteq> od" using assms(8) by (auto simp: is_ota_partition_def)
  then have "fl (ota_world t) od = fl w0 od" using assms(11) by (simp add: others_kept_def)
  then have rec: "records_of env od (ota_world t) = records_of env od w0" by (rule records_kept [OF assms(2)])
  have b: "r = E_OK \<longrightarrow> esp_ota_get_boot_partition env s = Some (Some p)"
    "\<forall>a. get_active_otadata env (records_of env od w0) = Some a \<longrightarrow>
       otadata_at (records_of env od (ota_world s)) a = otadata_at (records_of env od w0) a"
    "\<forall>q. q \<noteq> od \<longrightarrow> fl (ota_world s) q = fl (ota_world t) q"
    using set_boot_core [OF assms(1,2,5) _ assms(8-10), unfolded rec, OF assms(7)] assms(12) by auto
  have "image_verify env p (ota_world s)" using assms(3,10) b(3) od unfolding verify_local_def by metis
  moreover have "od_writable env od \<longrightarrow> esp_ota_get_boot_partition env s = Some (Some p)"
    using set_boot_ok [OF assms(2,5,6) _ assms(8,10,12)] b(1) by blast
  ultimately show ?thesis using b(2,3) assms(11) by (simp add: ready_to_boot_def others_kept_def)
qed

text \<open>The result of the boot selection is dropped (\<open>esp_https_ota_finish\<close>): once the image was taken and verified, the device restarts
  whatever \<open>esp_ota_set_boot_partition\<close> returned, so with boot records that cannot be written it starts the old firmware again.\<close>

lemma restart_drops_selection:
  assumes "ho_state u = ESP_HTTPS_OTA_SUCCESS" "esp_https_ota_is_complete_data_received u"
    and "esp_ota_end (u_ota (o_update env)) (update_handle u) s = (E_OK, s1)"
    and "esp_ota_set_boot_partition (u_ota (o_update env)) (update_partition u) s1 = Some (E_FAIL, s2)"
    and "conclude env E_OK u d s = Some (restarted, r, d', s')"
  shows "restarted \<and> s' = s2"
  using assms by (cases "update_partition u") (auto simp: conclude_def esp_https_ota_finish_def bind_eq_Some_conv)

text \<open>C5: The update task of the device, through any number of checks for a new version and of downloads, over any network: as long as it
  has not restarted the device, nothing but the passive partition has changed since the start of the task, so that the firmware in use and the
  boot selection are intact, and the mutex of the module is free.  When it restarts the device, the image in the passive partition is
  verified, no partition but this one and that of the boot records has changed, the record that was in force is as it was, and the new image is booted next
  if the boot records can be written.  If they cannot, the device restarts all the same, with the boot selection it had (the code drops
  the result of the selection).\<close>

theorem ota_task_restarts_verified_image:
  assumes "flash_ok (u_ota (o_update env)) fl" "flash_codes (u_ota (o_update env))"
    and "esp_ota_get_next_update_partition (u_ota (o_update env)) None s = Some (Some p, s0)"
    and "partition_verify (u_ota (o_update env)) p = Some p" "0 < p_size p"
    and "boot_ok (u_ota (o_update env)) fl od" "verify_local (u_ota (o_update env)) fl" "table_ok (u_ota (o_update env))"
    and "get_ota_partition_count (u_ota (o_update env)) = Some c" "SUB_TYPE_ID (p_subtype p) < c"
    and "sound_seqs (u_ota (o_update env)) (records_of (u_ota (o_update env)) od (ota_world s))"
    and "is_ota_partition p" "find_app (u_ota (o_update env)) (p_subtype p) = Some p"
    and "otadrv_lock d = None" "otadrive_test env d s restarted d' s'"
  shows "if restarted then ready_to_boot (u_ota (o_update env)) fl od p (ota_world s) s'
    else (\<forall>q. q \<noteq> p \<longrightarrow> fl (ota_world s') q = fl (ota_world s) q) \<and> otadrv_lock d' = Some False"
proof -
  let ?o = "u_ota (o_update env)"
  have nx: "part = Some p" if "running ?o t = running ?o s" "esp_ota_get_next_update_partition ?o None t = Some (part, t')" for t part t'
    by (rule next_update_stable [OF that(1) assms(3) that(2)])
  have "safe_outcome ?o fl p (ota_world s) (running ?o s) restarted d' s'"
    using assms(15)
  proof (induction rule: otadrive_test.induct)
    case (start d')
    then show ?case using assms(14) setInfo_lock by (simp add: safe_outcome_def)
  next
    case (pass d1 s1 restarted d2 s2)
    then have k: "others_kept fl p (ota_world s) (ota_world s1)" "running ?o s1 = running ?o s" "otadrv_lock d1 = Some False"
      by (simp_all add: safe_outcome_def)
    obtain r da where i: "otadrive_updateFirmwareInfo env d1 = Some (r, da)"
      using pass.hyps(2) by (auto simp: otadrive_pass_def bind_eq_Some_conv)
    note la = info_lock [OF i k(3)]
    show ?case
    proof (cases "r_code r = 200")
      case False
      then show ?thesis using pass.hyps(2) i k la by (auto simp: otadrive_pass_def safe_outcome_def)
    next
      case True
      then obtain x where "otadrive_updateFirmware env da s1 = Some (restarted, x, d2, s2)"
        using pass.hyps(2) i by (auto simp: otadrive_pass_def bind_eq_Some_conv)
      then show ?thesis using nx k la by (intro update_outcome [OF assms(1,2,4,5)]) auto
    qed
  qed
  then show ?thesis
    using set_boot_ready [OF assms(1,6-13)] by (auto simp: safe_outcome_def others_kept_def split: if_splits)
qed

subsection \<open>On a concrete network and flash\<close>

text \<open>The host cannot be reached.\<close>

definition down_net :: "(mini_parser, bytes) http_net" where
  "down_net = mini_net\<lparr>transport_connect := (\<lambda>h p t w. (- 1, w)),
     http_parser_parse_url := (\<lambda>u. Some \<lparr>uf_schema = (0, 5), uf_host = (8, 12), uf_port = (0, 0), uf_path = (0, 0), uf_query = (0, 0),
       uf_userinfo = (0, 0)\<rparr>)\<rparr>"

definition down_update :: "(mini_parser, bytes, nor_flash) update_env" where
  "down_update = demo_update\<lparr>u_net := down_net, u_malloc := (\<lambda>n. Some (replicate 16 0))\<rparr>"

definition down_env :: "(mini_parser, bytes, nor_flash) otadrive_env" where
  "down_env = \<lparr>o_update = down_update, esp_timer_get_time = int, o_mutex = True, o_mac = 0, o_post = (\<lambda>k. True), o_world = (\<lambda>k. [])\<rparr>"

definition blank_otadrive :: "(mini_parser, bytes) otadrive" where
  "blank_otadrive = \<lparr>session = new_session 0 [] [], od_client = None, size_unknown = True, fw_size = 0, otadrv_lock = None,
     od_events = [], od_readings = 0, od_conns = 0\<rparr>"

definition service_session :: otadrive_session where
  "service_session = new_session 0 OTADRIVE_APIKEY APP_VERSION"

text \<open>The certificate is handed to the transport and has no effect on the client.\<close>

lemma set_config_cert: "set_config net (cfg\<lparr>cfg_cert_pem := x\<rparr>) c = set_config net cfg c"
proof -
  have p: "plain_settings (cfg\<lparr>cfg_cert_pem := x\<rparr>) c = plain_settings cfg c" by (simp add: plain_settings_def)
  have sel: "cfg_path (cfg\<lparr>cfg_cert_pem := x\<rparr>) = cfg_path cfg" "cfg_host (cfg\<lparr>cfg_cert_pem := x\<rparr>) = cfg_host cfg"
    "cfg_query (cfg\<lparr>cfg_cert_pem := x\<rparr>) = cfg_query cfg" "cfg_username (cfg\<lparr>cfg_cert_pem := x\<rparr>) = cfg_username cfg"
    "cfg_password (cfg\<lparr>cfg_cert_pem := x\<rparr>) = cfg_password cfg" "cfg_is_async (cfg\<lparr>cfg_cert_pem := x\<rparr>) = cfg_is_async cfg"
    "cfg_transport_ssl (cfg\<lparr>cfg_cert_pem := x\<rparr>) = cfg_transport_ssl cfg" by simp_all
  have c: "copied_settings net (cfg\<lparr>cfg_cert_pem := x\<rparr>) d = copied_settings net cfg d" for d unfolding copied_settings_def sel ..
  show ?thesis unfolding set_config_def p c sel ..
qed

lemma init_cert: "esp_http_client_init net ready malloc (cfg\<lparr>cfg_cert_pem := x\<rparr>) w = esp_http_client_init net ready malloc cfg w"
  proof -
  have sel: "cfg_path (cfg\<lparr>cfg_cert_pem := x\<rparr>) = cfg_path cfg" "cfg_host (cfg\<lparr>cfg_cert_pem := x\<rparr>) = cfg_host cfg"
    "cfg_url (cfg\<lparr>cfg_cert_pem := x\<rparr>) = cfg_url cfg" "cfg_user_agent (cfg\<lparr>cfg_cert_pem := x\<rparr>) = cfg_user_agent cfg" by simp_all
  show ?thesis unfolding esp_http_client_init_def set_config_cert sel ..
qed

definition bare_config :: http_config where
  "bare_config = (plain_config (update_url service_session) None)\<lparr>cfg_method := HTTP_METHOD_HEAD, cfg_event_handler := True\<rparr>"

lemma info_config_bare: "info_config service_session = bare_config\<lparr>cfg_cert_pem := Some OTADRIVE_CERT\<rparr>"
  by (simp add: info_config_def bare_config_def plain_config_def)

definition down_client :: "(mini_parser, bytes) http" where
  "down_client = the (the (esp_http_client_init down_net True (u_malloc down_update)
     bare_config []))"

lemma down_init:
  "esp_http_client_init down_net True (u_malloc down_update) (info_config service_session) [] = Some (Some down_client)"
  "\<exists>c. esp_http_client_perform down_net down_client = Some (0x7002, c)"
proof -
  have i: "map_option (map_option h_state) (esp_http_client_init down_net True (u_malloc down_update)
     bare_config []) = Some (Some HTTP_STATE_INIT)"
    by code_simp
  then show "esp_http_client_init down_net True (u_malloc down_update) (info_config service_session) [] = Some (Some down_client)"
    unfolding down_client_def info_config_bare init_cert by auto
  have "map_option fst (esp_http_client_perform down_net down_client) = Some 0x7002"
    by code_simp
  then show "\<exists>c. esp_http_client_perform down_net down_client = Some (0x7002, c)" by auto
qed

lemma down_run: "\<exists>d. otadrive_test down_env blank_otadrive nor_two False d nor_two"
proof -
  let ?d = "blank_otadrive\<lparr>otadrv_lock := Some False, session := service_session\<rparr>"
  have len: "length OTADRIVE_APIKEY < 40" "length APP_VERSION < 24" by code_simp+
  have "otadrive_setInfo down_env OTADRIVE_APIKEY APP_VERSION blank_otadrive = Some ?d"
    using len by (simp add: otadrive_setInfo_def blank_otadrive_def down_env_def take_lock_def give_lock_def service_session_def)
  then have s: "otadrive_test down_env blank_otadrive nor_two False ?d nor_two" by (rule otadrive_test.start)
  obtain c where c: "esp_http_client_perform down_net down_client = Some (0x7002, c)" using down_init(2) by blast
  have "\<exists>d. otadrive_updateFirmwareInfo down_env ?d = Some (zero_result, d)"
    using down_init(1) c by (simp add: otadrive_updateFirmwareInfo_def take_lock_def post_event_def down_env_def blank_otadrive_def
        down_update_def demo_update_def Let_def)
  then have "\<exists>d. otadrive_pass down_env ?d nor_two = Some (False, d, nor_two)" by (auto simp: otadrive_pass_def zero_result_def)
  then show ?thesis using otadrive_test.pass [OF s] by blast
qed

theorem ota_task_restarts_verified_image_witness:
  "\<exists>d. otadrive_test down_env blank_otadrive nor_two False d nor_two \<and> otadrv_lock d = Some False"
proof -
  obtain d where d: "otadrive_test down_env blank_otadrive nor_two False d nor_two" using down_run by blast
  have o: "u_ota (o_update down_env) = nor_env False" by (simp add: down_env_def down_update_def demo_update_def)
  have "map_option fst (esp_ota_get_next_update_partition (nor_env False) None nor_two) = Some (Some ota_1)" by code_simp
  then obtain s0 where n: "esp_ota_get_next_update_partition (nor_env False) None nor_two = Some (Some ota_1, s0)" by auto
  have seqs: "sound_seqs (nor_env False) (records_of (nor_env False) otadata_part (ota_world nor_two))"
    using nor_two_facts(5,6) by (auto simp: sound_seqs_def less_2_cases_iff)
  have l: "otadrv_lock blank_otadrive = None" by (simp add: blank_otadrive_def)
  have "otadrv_lock d = Some False"
    using ota_task_restarts_verified_image [where env = down_env, unfolded o, OF nor_flash_ok nor_flash_codes n demo_update_facts(2,3)
        nor_boot_ok nor_verify_local nor_table_ok nor_two_facts(1) demo_update_facts(1) seqs nor_two_facts(2,3) l d] by simp
  then show ?thesis using d by blast
qed

end
