(* ===== verification/App_Ota.thy ===== *)
theory App_Ota
  imports Otadrive
begin

text \<open>
  The older updater (\<^verbatim>\<open>common/app_ota/app_ota.c\<close>).  It asks for the size of the image over a second HTTP client and runs the steps of the
  update over HTTPS.  Its handler of HTTP events only writes to the log.  \<open>w1\<close> and \<open>w2\<close> are the worlds of the two
  connections.  Results are inside \<open>option\<close>: \<open>None\<close> when the device stops, here by a division by zero, or when a loop does not end.
\<close>

text \<open>The progress is printed, which divides by the length; \<open>tem\<close> is only printed.\<close>

partial_function (option) progress_loop ::
  "('p, 'w, 'f) update_env \<Rightarrow> int \<Rightarrow> ('p, 'w) https_ota \<Rightarrow> 'f ota \<Rightarrow> (esp_error \<times> ('p, 'w) https_ota \<times> 'f ota) option" where
  [code]: "progress_loop env length_image_firmware hdl s =
    do { (err, hdl, s) \<leftarrow> esp_https_ota_perform env hdl s;
         if err \<noteq> ESP_ERR_HTTPS_OTA_IN_PROGRESS then Some (err, hdl, s)
         else
           do { duty \<leftarrow> progress_of (esp_https_ota_get_image_len_read (Some hdl)) length_image_firmware;
                progress_loop env length_image_firmware hdl s } }"

definition esp_https_ota_1 ::
  "('p, 'w, 'f) update_env \<Rightarrow> http_config option \<Rightarrow> 'w \<Rightarrow> 'w \<Rightarrow> 'f ota \<Rightarrow> (esp_error \<times> 'f ota) option" where
  "esp_https_ota_1 env config w1 w2 s =
    (case config of
       None \<Rightarrow> Some (ESP_ERR_INVALID_ARG, s)
     | Some cfg \<Rightarrow>
       do { ((_, handle), s) \<leftarrow> esp_https_ota_begin env config w1 s;
            case handle of
              None \<Rightarrow> Some (E_FAIL, s)
            | Some hdl \<Rightarrow>
              do { client \<leftarrow> esp_http_client_init (u_net env) (u_ready env) (u_malloc env) cfg w2;
                   case client of
                     None \<Rightarrow> Some (E_FAIL, s)
                   | Some c \<Rightarrow>
                     do { (err, c) \<leftarrow> esp_http_client_open (u_net env) 0 c;
                          if err \<noteq> 0 then Some (E_FAIL, s)
                          else
                            do { (len, c) \<leftarrow> esp_http_client_fetch_headers (u_net env) c;
                                 (err, hdl, s) \<leftarrow> progress_loop env len hdl s;
                                 (finish_err, s) \<leftarrow> esp_https_ota_finish env (Some hdl) s;
                                 Some (if err \<noteq> E_OK then err else finish_err, s) } } } })"

text \<open>The configuration of \<open>app_ota_start\<close>: no certificate.\<close>

definition my_config :: "bytes \<Rightarrow> http_config" where
  "my_config url_link = (plain_config url_link None)\<lparr>cfg_event_handler := True\<rparr>"

text \<open>The result tells whether the device restarts.\<close>

definition app_ota_start :: "('p, 'w, 'f) update_env \<Rightarrow> bytes \<Rightarrow> 'w \<Rightarrow> 'w \<Rightarrow> 'f ota \<Rightarrow> (bool \<times> 'f ota) option" where
  "app_ota_start env url_link w1 w2 s =
    map_option (\<lambda>(ret, s). (ret = E_OK, s)) (esp_https_ota_1 env (Some (my_config url_link)) w1 w2 s)"

text \<open>Since plain HTTP is not enabled in the build, an update without a certificate is refused: this updater never does anything.\<close>

lemma app_ota_never_updates: "app_ota_start env url_link w1 w2 s = Some (False, s)"
  by (simp add: app_ota_start_def esp_https_ota_1_def my_config_def plain_config_def esp_https_ota_begin_def)

end
