(* ===== verification/Dht.thy ===== *)
theory Dht
  imports Prelude
begin

text \<open>
  The humidity and temperature sensor (\<^verbatim>\<open>common/dht_iot/dht_iot.c\<close>).  The sensor's pin is a parameter: the
  level the \<open>k\<close>-th call of \<open>gpio_get_level\<close> returns.  The state of the bus counts those calls, logs the
  driver calls and counts how many critical sections are open.
\<close>

subsection \<open>The driver\<close>

datatype sensor_type = DHT_TYPE_DHT11 | DHT_TYPE_AM2301 | DHT_TYPE_SI7021
datatype dht_err = DHT_OK | DHT_TIMEOUT | DHT_INVALID_CRC | DHT_INVALID_ARG
datatype pin_op = Pad_Select | Direction_Input | Direction_Output_OD | Level int | Delay_us nat

abbreviation (input) DHT_TIMER_INTERVAL :: nat where "DHT_TIMER_INTERVAL \<equiv> 2"
abbreviation (input) DHT_DATA_BITS :: nat where "DHT_DATA_BITS \<equiv> 40"
abbreviation (input) DHT_DATA_BYTES :: nat where "DHT_DATA_BYTES \<equiv> 5"

record bus =
  reads :: nat
  pin_log :: "pin_op list"
  critical :: int

definition drive :: "pin_op list \<Rightarrow> bus \<Rightarrow> bus" where
  "drive ops b = b\<lparr>pin_log := pin_log b @ ops\<rparr>"

text \<open>The loop of \<open>dht_await_pin_state\<close> from \<open>i\<close> on: the value of \<open>i\<close> at which the pin had the expected state.
  The timeouts are below 100, so \<open>i\<close> does not wrap.\<close>

function await_loop :: "(nat \<Rightarrow> int) \<Rightarrow> nat \<Rightarrow> int \<Rightarrow> nat \<Rightarrow> bus \<Rightarrow> nat option \<times> bus" where
  "await_loop level timeout expected i b =
    (if i < timeout then
       let b = drive [Delay_us DHT_TIMER_INTERVAL] b; v = level (reads b); b = b\<lparr>reads := reads b + 1\<rparr> in
       if v = expected then (Some i, b)
       else await_loop level timeout expected (i + DHT_TIMER_INTERVAL) b
     else (None, b))"
  by pat_completeness auto
termination by (relation "measure (\<lambda>(level, timeout, expected, i, b). timeout - i)") auto

declare await_loop.simps [simp del]

definition dht_await_pin_state :: "(nat \<Rightarrow> int) \<Rightarrow> nat \<Rightarrow> int \<Rightarrow> bus \<Rightarrow> nat option \<times> bus" where
  "dht_await_pin_state level timeout expected b =
    await_loop level timeout expected 0 (drive [Pad_Select, Direction_Input] b)"

text \<open>\<open>CHECK_LOGE\<close>: on an error the critical section is left and the caller returns the error.\<close>

definition check_loge :: "nat option \<times> bus \<Rightarrow> (nat \<Rightarrow> bus \<Rightarrow> dht_err \<times> bytes \<times> bus) \<Rightarrow> bytes \<Rightarrow> dht_err \<times> bytes \<times> bus" where
  "check_loge r cont data =
    (case r of (None, b) \<Rightarrow> (DHT_TIMEOUT, data, b\<lparr>critical := critical b - 1\<rparr>) | (Some d, b) \<Rightarrow> cont d b)"

text \<open>\<open>data [b] |= (high_duration > low_duration) << (7 - m)\<close>, after the byte is cleared at its first bit.\<close>

definition put_bit :: "nat \<Rightarrow> bool \<Rightarrow> bytes \<Rightarrow> bytes" where
  "put_bit i v data =
    (let k = i div 8; m = i mod 8; old = (if m = 0 then 0 else data ! k) in
     data[k := old OR push_bit (7 - m) (of_bool v)])"

function read_bits :: "(nat \<Rightarrow> int) \<Rightarrow> nat \<Rightarrow> bytes \<Rightarrow> bus \<Rightarrow> dht_err \<times> bytes \<times> bus" where
  "read_bits level i data b =
    (if i < DHT_DATA_BITS then
       check_loge (dht_await_pin_state level 65 1 b) (\<lambda>low_duration b.
       check_loge (dht_await_pin_state level 75 0 b) (\<lambda>high_duration b.
         read_bits level (i + 1) (put_bit i (high_duration > low_duration) data) b) data) data
     else (DHT_OK, data, b))"
  by pat_completeness auto
termination by (relation "measure (\<lambda>(level, i, data, b). DHT_DATA_BITS - i)") auto

declare read_bits.simps [simp del]

definition dht_fetch_data :: "(nat \<Rightarrow> int) \<Rightarrow> sensor_type \<Rightarrow> bytes \<Rightarrow> bus \<Rightarrow> dht_err \<times> bytes \<times> bus" where
  "dht_fetch_data level ty data b =
    (let b = drive [Pad_Select, Direction_Output_OD, Level 0,
                    Delay_us (if ty = DHT_TYPE_SI7021 then 500 else 20000), Level 1] b in
     check_loge (dht_await_pin_state level 40 0 b) (\<lambda>_ b.
     check_loge (dht_await_pin_state level 88 1 b) (\<lambda>_ b.
     check_loge (dht_await_pin_state level 88 0 b) (\<lambda>_ b.
       read_bits level 0 data b) data) data) data)"

definition dht_convert_data :: "sensor_type \<Rightarrow> u8 \<Rightarrow> u8 \<Rightarrow> u16" where
  "dht_convert_data ty msb lsb =
    (if ty = DHT_TYPE_DHT11 then ucast msb * 10
     else let data = push_bit 8 (ucast (msb AND 0x7F)) OR ucast lsb in
       if bit msb 7 then - data else data)"

text \<open>\<open>dht_read_data\<close>: the error and the values stored through the pointers that are not null.\<close>

definition dht_read_data ::
  "(nat \<Rightarrow> int) \<Rightarrow> sensor_type \<Rightarrow> bool \<Rightarrow> bool \<Rightarrow> bus \<Rightarrow> dht_err \<times> u16 option \<times> u16 option \<times> bus" where
  "dht_read_data level ty humidity temperature b =
    (if \<not> (humidity \<or> temperature) then (DHT_INVALID_ARG, None, None, b)
     else
       let b = drive [Pad_Select, Direction_Output_OD, Level 1] b;
           b = b\<lparr>critical := critical b + 1\<rparr>;
           (result, data, b) = dht_fetch_data level ty (replicate DHT_DATA_BYTES 0) b;
           b = (if result = DHT_OK then b\<lparr>critical := critical b - 1\<rparr> else b);
           b = drive [Pad_Select, Direction_Output_OD, Level 1] b in
       if result \<noteq> DHT_OK then (result, None, None, b)
       else if data ! 4 \<noteq> data ! 0 + data ! 1 + data ! 2 + data ! 3 then (DHT_INVALID_CRC, None, None, b)
       else (DHT_OK, if humidity then Some (dht_convert_data ty (data ! 0) (data ! 1)) else None,
                     if temperature then Some (dht_convert_data ty (data ! 2) (data ! 3)) else None, b))"

text \<open>\<open>dht_read_float_data\<close>; \<open>div10\<close> is the floating-point division by ten.\<close>

definition dht_read_float_data ::
  "(int \<Rightarrow> 'f) \<Rightarrow> (nat \<Rightarrow> int) \<Rightarrow> sensor_type \<Rightarrow> bool \<Rightarrow> bool \<Rightarrow> bus \<Rightarrow> dht_err \<times> 'f option \<times> 'f option \<times> bus" where
  "dht_read_float_data div10 level ty humidity temperature b =
    (if \<not> (humidity \<or> temperature) then (DHT_INVALID_ARG, None, None, b)
     else
       case dht_read_data level ty humidity temperature b of (res, h, t, b) \<Rightarrow>
         if res \<noteq> DHT_OK then (res, None, None, b)
         else (DHT_OK, map_option (\<lambda>v. div10 (sint v)) h, map_option (\<lambda>v. div10 (sint v)) t, b))"

end
