(* ===== verification/Dht_Props.thy ===== *)
theory Dht_Props
  imports Dht
begin

text \<open>
  What the sensor driver computes: the values encoded in the sensor's waveform, and that it leaves the
  critical section it runs in on every path.
\<close>

subsection \<open>Waiting for the pin\<close>

text \<open>The pin's levels from the \<open>n\<close>-th reading on start with \<open>w\<close>.\<close>

definition shows_levels :: "(nat \<Rightarrow> int) \<Rightarrow> nat \<Rightarrow> int list \<Rightarrow> bool" where
  "shows_levels level n w \<longleftrightarrow> (\<forall>k < length w. level (n + k) = w ! k)"

lemma shows_levels_append:
  "shows_levels level n (u @ w) \<longleftrightarrow> shows_levels level n u \<and> shows_levels level (n + length u) w"
  unfolding shows_levels_def
proof safe
  fix k assume a: "\<forall>k < length (u @ w). level (n + k) = (u @ w) ! k"
  show "level (n + k) = u ! k" if "k < length u" using a [rule_format, of k] that by (simp add: nth_append)
  show "level (n + length u + k) = w ! k" if "k < length w" using a [rule_format, of "length u + k"] that by (simp add: add.assoc)
next
  fix k assume a: "\<forall>k < length u. level (n + k) = u ! k" "\<forall>k < length w. level (n + length u + k) = w ! k" "k < length (u @ w)"
  show "level (n + k) = (u @ w) ! k"
  proof (cases "k < length u")
    case True
    then show ?thesis using a(1) by (simp add: nth_append)
  next
    case False
    then show ?thesis using a(2) [rule_format, of "k - length u"] a(3) by (simp add: nth_append)
  qed
qed

lemma shows_levels_Cons:
  "shows_levels level n (x # w) \<longleftrightarrow> level n = x \<and> shows_levels level (Suc n) w"
  using shows_levels_append [of level n "[x]" w] by (simp add: shows_levels_def)

lemma shows_levels_Nil: "shows_levels level n []"
  by (simp add: shows_levels_def)

lemmas levels = shows_levels_append shows_levels_Cons shows_levels_Nil

lemma drive_reads [simp]: "reads (drive ops b) = reads b" "critical (drive ops b) = critical b"
  by (simp_all add: drive_def)

lemma await_loop_waits:
  assumes "shows_levels level (reads b) (replicate n v @ [e])" "v \<noteq> e" "i + 2 * n < timeout"
  obtains b' where "await_loop level timeout e i b = (Some (i + 2 * n), b')"
    "reads b' = reads b + n + 1" "critical b' = critical b"
  using assms
proof (induction n arbitrary: i b thesis)
  case 0
  then show ?case by (subst (asm) await_loop.simps) (auto simp: shows_levels_def Let_def)
next
  case (Suc n)
  let ?b = "(drive [Delay_us DHT_TIMER_INTERVAL] b)\<lparr>reads := reads b + 1\<rparr>"
  have l: "level (reads b) = v" "shows_levels level (reads ?b) (replicate n v @ [e])"
    using Suc.prems(2) shows_levels_append [of level "reads b" "[v]" "replicate n v @ [e]"]
    by (auto simp: shows_levels_def)
  obtain b' where b': "await_loop level timeout e (i + 2) ?b = (Some (i + 2 + 2 * n), b')"
    "reads b' = reads ?b + n + 1" "critical b' = critical ?b"
    using Suc.IH [OF _ l(2), of "i + 2"] Suc.prems(3,4) by force
  have "await_loop level timeout e i b = await_loop level timeout e (i + 2) ?b"
    using l(1) Suc.prems(3,4) by (subst await_loop.simps) (simp add: Let_def)
  then show ?case using Suc.prems(1) [of b'] b' by simp
qed

lemma await_waits:
  assumes "shows_levels level (reads b) (replicate n v @ [e])" "v \<noteq> e" "2 * n < timeout"
  shows "\<exists>b'. dht_await_pin_state level timeout e b = (Some (2 * n), b')
    \<and> reads b' = reads b + n + 1 \<and> critical b' = critical b"
  using await_loop_waits [of level "drive [Pad_Select, Direction_Input] b" n v e 0 timeout] assms
  by (auto simp: dht_await_pin_state_def)

subsection \<open>Bits and bytes\<close>

definition byte_bits :: "u8 \<Rightarrow> bool list" where
  "byte_bits x = map (\<lambda>m. bit x (7 - m)) [0..<8]"

text \<open>The bytes received after the first \<open>i\<close> bits of \<open>bs\<close>.\<close>

definition received :: "u8 list \<Rightarrow> nat \<Rightarrow> u8 list \<Rightarrow> bool" where
  "received bs i data \<longleftrightarrow> length data = length bs
     \<and> (\<forall>k < length bs. \<forall>n < 8. 8 * k + (7 - n) < i \<longrightarrow> bit (data ! k) n = bit (bs ! k) n)
     \<and> (\<forall>n < 8. i mod 8 \<noteq> 0 \<and> i div 8 < length bs \<and> 7 - n \<ge> i mod 8 \<longrightarrow> \<not> bit (data ! (i div 8)) n)"

lemma received_put_bit:
  assumes "received bs i data" "i < 8 * length bs"
  shows "received bs (i + 1) (put_bit i (bit (bs ! (i div 8)) (7 - i mod 8)) data)"
proof -
  define k m where "k = i div 8" and "m = i mod 8"
  have i: "i = 8 * k + m" "m < 8" "k < length bs" "k < length data" using assms by (auto simp: k_def m_def received_def)
  define v where "v = bit (bs ! k) (7 - m)"
  define x where "x = (if m = 0 then 0 else data ! k) OR push_bit (7 - m) (of_bool v)"
  have put: "put_bit i v data = data[k := x]" by (simp add: put_bit_def k_def m_def x_def Let_def)
  have bx: "bit x n = (if 7 - n < m then bit (bs ! k) n else 7 - n = m \<and> v)" if "n < 8" for n
  proof -
    have "bit (push_bit (7 - m) (of_bool v :: u8)) n \<longleftrightarrow> n = 7 - m \<and> v" using that i(2) by (auto simp: bit_simps)
    moreover have "bit (if m = 0 then 0 else data ! k) n = (7 - n < m \<and> bit (bs ! k) n)"
    proof -
      have "7 - n < m \<Longrightarrow> bit (data ! k) n = bit (bs ! k) n"
        using assms(1) i(1,3) that unfolding received_def by simp
      moreover have "m \<noteq> 0 \<Longrightarrow> 7 - n \<ge> m \<Longrightarrow> \<not> bit (data ! k) n"
        using assms(1) i(3) that unfolding received_def k_def [symmetric] m_def [symmetric] by simp
      ultimately show ?thesis by (cases "7 - n < m") auto
    qed
    ultimately show ?thesis using that i(2) by (auto simp: x_def bit_or_iff)
  qed
  have "received bs (i + 1) (data[k := x])"
    unfolding received_def
  proof (intro conjI allI impI)
    show "length (data[k := x]) = length bs" using assms(1) by (simp add: received_def)
  next
    fix k' n assume a: "k' < length bs" "n < (8 :: nat)" "8 * k' + (7 - n) < i + 1"
    show "bit (data[k := x] ! k') n = bit (bs ! k') n"
    proof (cases "k' = k")
      case True
      then have "7 - n < m \<or> 7 - n = m" using a(3) i(1) by auto
      then show ?thesis using True bx [OF a(2)] i(4) a(2) by (auto simp: v_def)
    next
      case False
      then have "8 * k' + (7 - n) < i" using a(2,3) i by auto
      then show ?thesis using assms(1) a False by (simp add: received_def)
    qed
  next
    fix n assume a: "n < (8 :: nat)" "(i + 1) mod 8 \<noteq> 0 \<and> (i + 1) div 8 < length bs \<and> 7 - n \<ge> (i + 1) mod 8"
    then have "(i + 1) mod 8 = m + 1" "(i + 1) div 8 = k" using i by (auto simp: mod_Suc div_Suc)
    then show "\<not> bit (data[k := x] ! ((i + 1) div 8)) n" using a bx [OF a(1)] i(4) by auto
  qed
  then show ?thesis using put by (simp add: v_def k_def m_def)
qed

lemma received_all:
  assumes "received bs (8 * length bs) data"
  shows "data = bs"
proof (rule nth_equalityI)
  show "length data = length bs" using assms by (simp add: received_def)
  fix k assume "k < length data"
  then have k: "k < length bs" using assms by (simp add: received_def)
  show "data ! k = bs ! k"
  proof (rule bit_eqI)
    fix n assume "possible_bit TYPE(8 word) n"
    then have "n < 8" by (simp add: possible_bit_def)
    then show "bit (data ! k) n = bit (bs ! k) n" using assms k by (simp add: received_def)
  qed
qed

lemma nth_byte_bits:
  "i < 8 * length bs \<Longrightarrow> concat (map byte_bits bs) ! i = bit (bs ! (i div 8)) (7 - i mod 8)"
proof (induction bs arbitrary: i)
  case (Cons x bs)
  have len: "length (byte_bits x) = 8" by (simp add: byte_bits_def)
  show ?case
  proof (cases "i < 8")
    case True
    then show ?thesis by (simp add: nth_append len) (simp add: byte_bits_def)
  next
    case False
    then obtain j where j: "i = j + 8" by (metis le_iff_add add.commute not_less)
    then have "i div 8 = Suc (j div 8)" by simp
    with j show ?thesis using Cons by (simp add: nth_append len)
  qed
qed simp

subsection \<open>The waveform of a measurement\<close>

text \<open>A bit is a low phase of \<open>l\<close> and a high phase of \<open>h\<close> further samples; it is a one if the high phase is the
  longer one.  In front of the bits the sensor answers the start signal.\<close>

definition bit_wave :: "nat \<times> nat \<Rightarrow> int list" where
  "bit_wave w = (replicate (fst w) 0 @ [1]) @ (replicate (snd w) 1 @ [0])"

definition answer_wave :: "nat \<Rightarrow> nat \<Rightarrow> nat \<Rightarrow> int list" where
  "answer_wave nb nc nd = (replicate nb 1 @ [0]) @ (replicate nc 0 @ [1]) @ (replicate nd 1 @ [0])"

lemma read_bits_wave:
  assumes "shows_levels level (reads b) (concat (map bit_wave ws))" "length ws = 40 - i" "i \<le> 40"
    and "\<forall>w \<in> set ws. fst w \<le> 32 \<and> snd w \<le> 37" "length bs = 5" "received bs i data"
    and "map (\<lambda>(l, h). h > l) ws = drop i (concat (map byte_bits bs))"
  shows "\<exists>b'. read_bits level i data b = (DHT_OK, bs, b') \<and> critical b' = critical b"
  using assms
proof (induction ws arbitrary: i data b)
  case Nil
  then have "i = 40" by simp
  then show ?case using received_all [of bs data] Nil.prems(5,6) by (subst read_bits.simps) simp
next
  case (Cons w ws)
  obtain l h where w: "w = (l, h)" by fastforce
  have lev: "shows_levels level (reads b) (replicate l 0 @ [1])"
    "shows_levels level (reads b + l + 1) (replicate h 1 @ [0])"
    "shows_levels level (reads b + l + 1 + h + 1) (concat (map bit_wave ws))"
    using Cons.prems(1) by (simp_all add: w bit_wave_def [of "(l, h)"] levels add.assoc)
  obtain b1 where b1: "dht_await_pin_state level 65 1 b = (Some (2 * l), b1)" "reads b1 = reads b + l + 1" "critical b1 = critical b"
    using lev(1) Cons.prems(4) w await_waits [of level b l 0 1 65] by auto
  obtain b2 where b2: "dht_await_pin_state level 75 0 b1 = (Some (2 * h), b2)" "reads b2 = reads b + l + 1 + h + 1" "critical b2 = critical b"
    using lev(2) Cons.prems(4) w b1 await_waits [of level b1 h 1 0 75] by auto
  have i: "i < 40" using Cons.prems(2) by simp
  have d: "drop i (concat (map byte_bits bs)) = (h > l) # map (\<lambda>(l, h). h > l) ws" using Cons.prems(7) w by simp
  have "(h > l) = concat (map byte_bits bs) ! i" using d by (metis drop_eq_Nil hd_drop_conv_nth leI list.distinct(1) list.sel(1))
  then have bitv: "(h > l) = bit (bs ! (i div 8)) (7 - i mod 8)" using nth_byte_bits [of i bs] i Cons.prems(5) by simp
  have step: "read_bits level i data b = read_bits level (i + 1) (put_bit i (h > l) data) b2"
    using i b1 b2 by (subst read_bits.simps) (simp add: check_loge_def)
  have "\<exists>b'. read_bits level (i + 1) (put_bit i (h > l) data) b2 = (DHT_OK, bs, b') \<and> critical b' = critical b2"
  proof (rule Cons.IH)
    show "received bs (i + 1) (put_bit i (h > l) data)"
      unfolding bitv using received_put_bit [OF Cons.prems(6)] i Cons.prems(5) by simp
    show "map (\<lambda>(l, h). h > l) ws = drop (i + 1) (concat (map byte_bits bs))"
      using d by (metis drop_Suc list.sel(3) tl_drop Suc_eq_plus1)
  qed (use lev(3) b2(2) Cons.prems i in auto)
  then show ?case using step b2(3) by simp
qed

lemma fetch_wave:
  assumes "shows_levels level (reads b) (answer_wave nb nc nd @ concat (map bit_wave ws))" "length ws = 40"
    and "2 * nb < 40" "2 * nc < 88" "2 * nd < 88" "\<forall>w \<in> set ws. fst w \<le> 32 \<and> snd w \<le> 37"
    and "length bs = 5" "length data = 5" "map (\<lambda>(l, h). h > l) ws = concat (map byte_bits bs)"
  shows "\<exists>b'. dht_fetch_data level ty data b = (DHT_OK, bs, b') \<and> critical b' = critical b"
proof -
  let ?b = "drive [Pad_Select, Direction_Output_OD, Level 0,
      Delay_us (if ty = DHT_TYPE_SI7021 then 500 else 20000), Level 1] b"
  have lev: "shows_levels level (reads ?b) (replicate nb 1 @ [0])"
    "shows_levels level (reads b + nb + 1) (replicate nc 0 @ [1])"
    "shows_levels level (reads b + nb + 1 + nc + 1) (replicate nd 1 @ [0])"
    "shows_levels level (reads b + nb + 1 + nc + 1 + nd + 1) (concat (map bit_wave ws))"
    using assms(1) by (simp_all add: answer_wave_def levels add.assoc)
  obtain b1 where b1: "dht_await_pin_state level 40 0 ?b = (Some (2 * nb), b1)" "reads b1 = reads b + nb + 1" "critical b1 = critical b"
    using lev(1) assms(3) await_waits [of level ?b nb 1 0 40] by auto
  obtain b2 where b2: "dht_await_pin_state level 88 1 b1 = (Some (2 * nc), b2)" "reads b2 = reads b + nb + 1 + nc + 1" "critical b2 = critical b"
    using lev(2) assms(4) b1 await_waits [of level b1 nc 0 1 88] by auto
  obtain b3 where b3: "dht_await_pin_state level 88 0 b2 = (Some (2 * nd), b3)" "reads b3 = reads b + nb + 1 + nc + 1 + nd + 1" "critical b3 = critical b"
    using lev(3) assms(5) b2 await_waits [of level b2 nd 1 0 88] by auto
  have "received bs 0 data" using assms(7,8) by (simp add: received_def)
  then have "\<exists>b'. read_bits level 0 data b3 = (DHT_OK, bs, b') \<and> critical b' = critical b3"
    using read_bits_wave [of level b3 ws 0 bs data] lev(4) b3(2) assms by simp
  then show ?thesis using b1 b2 b3 by (simp add: dht_fetch_data_def check_loge_def)
qed

text \<open>The physical value a pair of bytes stands for, in tenths.\<close>

definition sensor_value :: "sensor_type \<Rightarrow> u8 \<Rightarrow> u8 \<Rightarrow> int" where
  "sensor_value ty msb lsb =
    (if ty = DHT_TYPE_DHT11 then 10 * uint msb
     else (if uint msb \<ge> 128 then - 1 else 1) * (256 * (uint msb mod 128) + uint lsb))"

lemma sint_u16:
  assumes "x < 2 ^ 15"
  shows "sint (word_of_int (int x) :: u16) = int x" "sint (word_of_int (- int x) :: u16) = - int x"
proof -
  have k: "sint (word_of_int k :: u16) = k" if "- (2 ^ 15) \<le> k" "k < 2 ^ 15" for k
    using signed_take_bit_int_eq_self [OF that] by (simp add: signed_of_int)
  show "sint (word_of_int (int x) :: u16) = int x" "sint (word_of_int (- int x) :: u16) = - int x"
    by (rule k; use assms in simp)+
qed

lemma convert_value: "sint (dht_convert_data ty msb lsb) = sensor_value ty msb lsb"
proof (cases "ty = DHT_TYPE_DHT11")
  case True
  have m: "unat msb < 256" using unsigned_less [of msb] by simp
  have "dht_convert_data ty msb lsb = word_of_int (int (unat msb * 10))"
    using True by (simp add: dht_convert_data_def)
  then show ?thesis using True sint_u16(1) [of "unat msb * 10"] m
    by (simp add: sensor_value_def)
next
  case False
  define x where "x = 256 * (unat msb mod 128) + unat lsb"
  define d where "d = (push_bit 8 (ucast (msb AND 0x7F)) OR ucast lsb :: u16)"
  have x: "x < 2 ^ 15" using unsigned_less [of lsb, where ?'a = nat] by (simp add: x_def)
  have "d = shl8_or (shl8_or 0 (msb AND 0x7F)) lsb" by (simp add: d_def shl8_or_def)
  then have "unat d = x" by (simp add: unat_shl8_or_twice and_7f x_def)
  then have "d = word_of_int (int x)" "- d = word_of_int (- int x)" by auto
  moreover have "int (unat msb) = uint msb" by simp
  then have "bit msb 7 \<longleftrightarrow> 128 \<le> uint msb" using bit7_iff [of msb] by linarith
  ultimately show ?thesis
    using False sint_u16 [OF x]
    by (auto simp: dht_convert_data_def Let_def d_def [symmetric] sensor_value_def x_def zmod_int)
qed

text \<open>C29: The driver decodes the sensor's signal: for every waveform in which the sensor answers the start signal
  in time and then encodes five bytes, most significant bit first, by the lengths of its phases, reading
  both values returns the physical humidity and temperature those bytes stand for when their checksum
  is right, and the checksum error otherwise.\<close>

theorem dht_decodes_waveform:
  assumes "shows_levels level (reads b) (answer_wave nb nc nd @ concat (map bit_wave ws))"
    and "2 * nb < 40" "2 * nc < 88" "2 * nd < 88" "\<forall>w \<in> set ws. fst w \<le> 32 \<and> snd w \<le> 37"
    and "map (\<lambda>(l, h). h > l) ws = concat (map byte_bits [h1, h0, t1, t0, crc])"
    and "dht_read_data level ty True True b = (err, hum, temp, b')"
  shows "if uint crc = (uint h1 + uint h0 + uint t1 + uint t0) mod 256
    then err = DHT_OK \<and> map_option sint hum = Some (sensor_value ty h1 h0) \<and> map_option sint temp = Some (sensor_value ty t1 t0)
    else err = DHT_INVALID_CRC \<and> hum = None \<and> temp = None"
proof -
  let ?bs = "[h1, h0, t1, t0, crc]"
  let ?b = "(drive [Pad_Select, Direction_Output_OD, Level 1] b)\<lparr>critical := critical b + 1\<rparr>"
  have "length ws = 40" using arg_cong [OF assms(6), of length] by (simp add: byte_bits_def)
  then obtain b'' where f: "dht_fetch_data level ty (replicate 5 0) ?b = (DHT_OK, ?bs, b'')"
    using fetch_wave [of level ?b nb nc nd ws ?bs "replicate 5 0" ty] assms(1-6) by auto
  have "crc = h1 + h0 + t1 + t0 \<longleftrightarrow> uint crc = (uint h1 + uint h0 + uint t1 + uint t0) mod 256"
    by (simp add: word_uint_eq_iff uint_word_ariths mod_simps)
  then show ?thesis
    using assms(7) f by (auto simp: dht_read_data_def Let_def convert_value)
qed

definition demo_waves :: "(nat \<times> nat) list" where
  "demo_waves = map (\<lambda>v. (25, if v then 35 else 13)) (concat (map byte_bits [2, 113, 128, 101, 88]))"

theorem dht_decodes_waveform_witness:
  "\<exists>b' hum temp. dht_read_data (\<lambda>k. (answer_wave 10 40 40 @ concat (map bit_wave demo_waves)) ! k) DHT_TYPE_AM2301 True True
      \<lparr>reads = 0, pin_log = [], critical = 0\<rparr> = (DHT_OK, Some hum, Some temp, b') \<and> sint hum = 625 \<and> sint temp = - 101"
proof -
  let ?w = "answer_wave 10 40 40 @ concat (map bit_wave demo_waves)" and ?b = "\<lparr>reads = 0, pin_log = [], critical = 0\<rparr>"
  have "map (\<lambda>(l, h). h > l) demo_waves = concat (map byte_bits [2, 113, 128, 101, 88])" by code_simp
  moreover have "\<forall>w \<in> set demo_waves. fst w \<le> 32 \<and> snd w \<le> 37" by code_simp
  moreover have "shows_levels (\<lambda>k. ?w ! k) (reads ?b) ?w" by (simp add: shows_levels_def)
  moreover obtain err hum temp b' where "dht_read_data (\<lambda>k. ?w ! k) DHT_TYPE_AM2301 True True ?b = (err, hum, temp, b')"
    by (metis prod.exhaust)
  ultimately show ?thesis
    using dht_decodes_waveform [of "\<lambda>k. ?w ! k" ?b 10 40 40 demo_waves 2 113 128 101 88 DHT_TYPE_AM2301 err hum temp b']
    by (simp add: sensor_value_def) blast
qed

subsection \<open>The critical section\<close>

lemma await_loop_critical: "critical (snd (await_loop level timeout e i b)) = critical b"
proof (induction level timeout e i b rule: await_loop.induct)
  case (1 level timeout e i b)
  then show ?case by (subst await_loop.simps) (auto simp: Let_def)
qed

lemma check_loge_critical:
  assumes "critical (snd r) = c" "\<And>d b. critical b = c \<Longrightarrow> critical (snd (snd (cont d b))) = (if fst (cont d b) = DHT_OK then c else c - 1)"
  shows "critical (snd (snd (check_loge r cont data))) = (if fst (check_loge r cont data) = DHT_OK then c else c - 1)"
  using assms by (auto simp: check_loge_def split: prod.splits option.splits)

lemma await_critical: "critical b = c \<Longrightarrow> critical (snd (dht_await_pin_state level timeout e b)) = c"
  by (simp add: dht_await_pin_state_def await_loop_critical)

lemma read_bits_critical:
  "critical b = c \<Longrightarrow> critical (snd (snd (read_bits level i data b))) = (if fst (read_bits level i data b) = DHT_OK then c else c - 1)"
proof (induction level i data b rule: read_bits.induct)
  case (1 level i data b)
  show ?case
  proof (cases "i < 40")
    case True
    have "critical (snd (snd (check_loge (dht_await_pin_state level 65 1 b) (\<lambda>low b.
        check_loge (dht_await_pin_state level 75 0 b) (\<lambda>high b. read_bits level (i + 1) (put_bit i (high > low) data) b) data) data)))
      = (if fst (check_loge (dht_await_pin_state level 65 1 b) (\<lambda>low b.
        check_loge (dht_await_pin_state level 75 0 b) (\<lambda>high b. read_bits level (i + 1) (put_bit i (high > low) data) b) data) data) = DHT_OK
        then c else c - 1)"
      by (intro check_loge_critical await_critical 1 True)
    then show ?thesis using True by (subst (1 2) read_bits.simps) simp
  qed (use 1(2) in \<open>simp add: read_bits.simps\<close>)
qed

text \<open>C30: Whatever the sensor does, \<open>dht_read_data\<close> and \<open>dht_read_float_data\<close> return, and they have left the
  critical section they entered, on success, on every timeout and on a checksum error.\<close>

theorem dht_leaves_critical_section:
  "critical (snd (snd (snd (dht_read_data level ty h t b)))) = critical b
    \<and> critical (snd (snd (snd (dht_read_float_data div10 level ty h t b)))) = critical b"
proof -
  have f: "critical (snd (snd (dht_fetch_data level ty data b))) = (if fst (dht_fetch_data level ty data b) = DHT_OK then c else c - 1)"
    if "critical b = c" for data b c
    unfolding dht_fetch_data_def Let_def using that
    by (intro check_loge_critical await_critical read_bits_critical) simp_all
  have "critical (snd (snd (snd (dht_read_data level ty h t b)))) = critical b"
  proof -
    let ?b = "(drive [Pad_Select, Direction_Output_OD, Level 1] b)\<lparr>critical := critical b + 1\<rparr>"
    obtain r data b' where e: "dht_fetch_data level ty (replicate 5 0) ?b = (r, data, b')" by (metis prod.exhaust)
    then have "critical b' = (if r = DHT_OK then critical b + 1 else critical b)"
      using f [of ?b "critical b + 1" "replicate 5 0"] by simp
    with e show ?thesis by (simp add: dht_read_data_def Let_def)
  qed
  then show ?thesis by (auto simp: dht_read_float_data_def split: prod.splits)
qed

end
