(* ===== verification/Led_Strip.thy ===== *)
theory Led_Strip
  imports Prelude
begin

text \<open>
  The WS2812 LED strip: its driver on the RMT peripheral
  (\<^verbatim>\<open>common/led_strip/src/led_strip_rmt_ws2812.c\<close>) and the module \<^verbatim>\<open>common/ws2812b/ws2812b.c\<close> on top of it.
  Parameters are the RMT driver's results and the floating-point conversions.
\<close>

subsection \<open>Data\<close>

text \<open>\<open>rmt_item32_t\<close>: two phases with a duration of 15 bits and a level each.\<close>

record rmt_item =
  duration0 :: "15 word"
  level0 :: bool
  duration1 :: "15 word"
  level1 :: bool

record ticks =
  ws2812_t0h_ticks :: u32
  ws2812_t1h_ticks :: u32
  ws2812_t0l_ticks :: u32
  ws2812_t1l_ticks :: u32

record ws2812 =
  rmt_channel :: nat
  strip_len :: u32
  led_buffer :: bytes

datatype strip_err = STRIP_OK | STRIP_INVALID_ARG | STRIP_FAIL | STRIP_TIMEOUT

text \<open>The RMT driver: the counter clock of a channel (if it is configured), whether it accepts samples, the
  result of waiting for the end of the transmission, and \<open>(uint32_t) (ratio * ns)\<close> for the ratio of the clock.\<close>

record rmt_env =
  rmt_get_counter_clock :: "nat \<Rightarrow> u32 option"
  rmt_write_sample :: "nat \<Rightarrow> bytes \<Rightarrow> bool"
  rmt_wait_tx_done :: "nat \<Rightarrow> u32 \<Rightarrow> strip_err"
  ns_to_ticks :: "u32 \<Rightarrow> nat \<Rightarrow> u32"
  configTICK_RATE_HZ :: u32
  strip_calloc :: bool

abbreviation (input) WS2812_T0H_NS :: nat where "WS2812_T0H_NS \<equiv> 350"
abbreviation (input) WS2812_T0L_NS :: nat where "WS2812_T0L_NS \<equiv> 1000"
abbreviation (input) WS2812_T1H_NS :: nat where "WS2812_T1H_NS \<equiv> 1000"
abbreviation (input) WS2812_T1L_NS :: nat where "WS2812_T1L_NS \<equiv> 350"

text \<open>\<open>sizeof (ws2812_t)\<close>: four function pointers, the channel and the length.\<close>

abbreviation (input) WS2812_SIZEOF :: u32 where "WS2812_SIZEOF \<equiv> 24"

subsection \<open>The translator\<close>

definition bit0_item :: "ticks \<Rightarrow> rmt_item" where
  "bit0_item t = \<lparr>duration0 = ucast (ws2812_t0h_ticks t), level0 = True, duration1 = ucast (ws2812_t0l_ticks t), level1 = False\<rparr>"

definition bit1_item :: "ticks \<Rightarrow> rmt_item" where
  "bit1_item t = \<lparr>duration0 = ucast (ws2812_t1h_ticks t), level0 = True, duration1 = ucast (ws2812_t1l_ticks t), level1 = False\<rparr>"

text \<open>The inner loop of \<open>ws2812_rmt_adapter\<close>, the most significant bit first.\<close>

definition byte_items :: "ticks \<Rightarrow> u8 \<Rightarrow> rmt_item list" where
  "byte_items t x = map (\<lambda>i. if x AND push_bit (7 - i) 1 \<noteq> 0 then bit1_item t else bit0_item t) [0..<8]"

text \<open>The outer loop: \<open>src\<close> are the source bytes from position \<open>sz\<close> on.\<close>

fun adapter_loop :: "ticks \<Rightarrow> bytes \<Rightarrow> nat \<Rightarrow> nat \<Rightarrow> nat \<Rightarrow> nat \<Rightarrow> rmt_item list \<Rightarrow> rmt_item list \<times> nat \<times> nat" where
  "adapter_loop t [] src_size wanted_num sz num dest = (dest, sz, num)"
| "adapter_loop t (x # src) src_size wanted_num sz num dest =
    (if sz < src_size \<and> num < wanted_num
     then adapter_loop t src src_size wanted_num (sz + 1) (num + 8) (mem_write num (byte_items t x) dest)
     else (dest, sz, num))"

text \<open>The destination, \<open>*translated_size\<close> and \<open>*item_num\<close>; a null pointer for the source or the destination is
  \<open>None\<close>.\<close>

definition ws2812_rmt_adapter ::
  "ticks \<Rightarrow> bytes option \<Rightarrow> rmt_item list option \<Rightarrow> nat \<Rightarrow> nat \<Rightarrow> rmt_item list option \<times> nat \<times> nat" where
  "ws2812_rmt_adapter t src dest src_size wanted_num =
    (case (src, dest) of
       (Some s, Some d) \<Rightarrow> (case adapter_loop t s src_size wanted_num 0 0 d of (d, sz, num) \<Rightarrow> (Some d, sz, num))
     | _ \<Rightarrow> (dest, 0, 0))"

subsection \<open>The strip\<close>

definition ws2812_set_pixel :: "ws2812 \<Rightarrow> u32 \<Rightarrow> u32 \<Rightarrow> u32 \<Rightarrow> u32 \<Rightarrow> strip_err \<times> ws2812" where
  "ws2812_set_pixel s index red green blue =
    (if \<not> index < strip_len s then (STRIP_INVALID_ARG, s)
     else
       let start = index * 3 in
       (STRIP_OK, s\<lparr>led_buffer := (led_buffer s)
          [unat start := ucast (green AND 0xFF), unat (start + 1) := ucast (red AND 0xFF),
           unat (start + 2) := ucast (blue AND 0xFF)]\<rparr>))"

definition pdMS_TO_TICKS :: "rmt_env \<Rightarrow> u32 \<Rightarrow> u32" where
  "pdMS_TO_TICKS env ms = ms * configTICK_RATE_HZ env div 1000"

definition ws2812_refresh :: "rmt_env \<Rightarrow> ws2812 \<Rightarrow> u32 \<Rightarrow> strip_err" where
  "ws2812_refresh env s timeout_ms =
    (if rmt_write_sample env (rmt_channel s) (take (unat (strip_len s * 3)) (led_buffer s))
     then rmt_wait_tx_done env (rmt_channel s) (pdMS_TO_TICKS env timeout_ms)
     else STRIP_FAIL)"

definition ws2812_clear :: "rmt_env \<Rightarrow> ws2812 \<Rightarrow> u32 \<Rightarrow> strip_err \<times> ws2812" where
  "ws2812_clear env s timeout_ms =
    (let s = s\<lparr>led_buffer := mem_write 0 (replicate (unat (strip_len s * 3)) 0) (led_buffer s)\<rparr>
     in (ws2812_refresh env s timeout_ms, s))"

text \<open>\<open>ws2812_del\<close> frees the strip: none is left.\<close>

definition ws2812_del :: "ws2812 \<Rightarrow> strip_err \<times> ws2812 option" where
  "ws2812_del s = (STRIP_OK, None)"

text \<open>\<open>led_strip_new_rmt_ws2812\<close>: the strip with the tick counts it stores in the static variables.  The last
  component says whether memory was allocated.\<close>

definition led_strip_new_rmt_ws2812 :: "rmt_env \<Rightarrow> (u32 \<times> nat) option \<Rightarrow> (ws2812 \<times> ticks) option \<times> bool" where
  "led_strip_new_rmt_ws2812 env config =
    (case config of
       None \<Rightarrow> (None, False)
     | Some (max_leds, dev) \<Rightarrow>
        if \<not> strip_calloc env then (None, False)
        else
          case rmt_get_counter_clock env dev of
            None \<Rightarrow> (None, True)
          | Some clk \<Rightarrow>
             (Some (\<lparr>rmt_channel = dev, strip_len = max_leds,
                     led_buffer = replicate (unat (WS2812_SIZEOF + max_leds * 3) - unat WS2812_SIZEOF) 0\<rparr>,
                    \<lparr>ws2812_t0h_ticks = ns_to_ticks env clk WS2812_T0H_NS, ws2812_t1h_ticks = ns_to_ticks env clk WS2812_T1H_NS,
                     ws2812_t0l_ticks = ns_to_ticks env clk WS2812_T0L_NS, ws2812_t1l_ticks = ns_to_ticks env clk WS2812_T1L_NS\<rparr>), True))"

subsection \<open>Colours and the module's interface\<close>

text \<open>\<open>fmax v\<close> is \<open>(uint32_t) (v * 2.55f)\<close> and \<open>fdiv100 x\<close> is \<open>(uint32_t) (x / 100.0f)\<close>.\<close>

definition led_strip_hsv2rgb :: "(u32 \<Rightarrow> u32) \<Rightarrow> (u32 \<Rightarrow> u32) \<Rightarrow> u32 \<Rightarrow> u32 \<Rightarrow> u32 \<Rightarrow> u32 \<times> u32 \<times> u32" where
  "led_strip_hsv2rgb fmax fdiv100 h s v =
    (let h = h mod 360;
         rgb_max = fmax v;
         rgb_min = fdiv100 (rgb_max * (100 - s));
         i = h div 60;
         diff = h mod 60;
         rgb_adj = (rgb_max - rgb_min) * diff div 60 in
     if i = 0 then (rgb_max, rgb_min + rgb_adj, rgb_min)
     else if i = 1 then (rgb_max - rgb_adj, rgb_max, rgb_min)
     else if i = 2 then (rgb_min, rgb_max, rgb_min + rgb_adj)
     else if i = 3 then (rgb_min, rgb_max - rgb_adj, rgb_max)
     else if i = 4 then (rgb_min + rgb_adj, rgb_min, rgb_max)
     else (rgb_max, rgb_min, rgb_max - rgb_adj))"

text \<open>The static variable \<open>strip\<close> is \<open>None\<close> while it is null.  A failed \<open>ESP_ERROR_CHECK\<close> and a call through the
  null pointer end the program: the result \<open>None\<close>.\<close>

definition ws2812b_init :: "rmt_env \<Rightarrow> bool \<Rightarrow> u32 \<Rightarrow> (ws2812 \<times> ticks) option" where
  "ws2812b_init env config_ok number_led =
    (if \<not> config_ok then None
     else case fst (led_strip_new_rmt_ws2812 env (Some (number_led, 0))) of
       None \<Rightarrow> None
     | Some (s, t) \<Rightarrow> (case ws2812_clear env s 100 of (err, s) \<Rightarrow> if err = STRIP_OK then Some (s, t) else None))"

definition set_color_ws :: "ws2812 option \<Rightarrow> int \<Rightarrow> int \<Rightarrow> int \<Rightarrow> int \<Rightarrow> ws2812 option" where
  "set_color_ws strip index r g b =
    (case strip of None \<Rightarrow> None | Some s \<Rightarrow>
       (case ws2812_set_pixel s (word_of_int index) (word_of_int r) (word_of_int g) (word_of_int b) of
          (err, s) \<Rightarrow> if err = STRIP_OK then Some s else None))"

definition update_color_ws :: "rmt_env \<Rightarrow> ws2812 option \<Rightarrow> ws2812 option" where
  "update_color_ws env strip =
    (case strip of None \<Rightarrow> None | Some s \<Rightarrow> if ws2812_refresh env s 100 = STRIP_OK then Some s else None)"

definition clear_color_ws :: "rmt_env \<Rightarrow> ws2812 option \<Rightarrow> ws2812 option" where
  "clear_color_ws env strip =
    (case strip of None \<Rightarrow> None | Some s \<Rightarrow>
       (case ws2812_clear env s 50 of (err, s) \<Rightarrow> if err = STRIP_OK then Some s else None))"

end
