(* ===== verification/Led_Strip_Props.thy ===== *)
theory Led_Strip_Props
  imports Led_Strip
begin

text \<open>
  The colours of the pixels reach the wire: the pixel buffer, translated in whatever portions the RMT driver
  asks for, gives for each LED the 24 pulses of its green, red and blue components.
\<close>

text \<open>What belongs on the wire: for each byte its eight binary digits, the highest first, as the items of a one or a zero.\<close>

definition wire_byte :: "ticks \<Rightarrow> u8 \<Rightarrow> rmt_item list" where
  "wire_byte t x = map (\<lambda>i. if unat x div 2 ^ i mod 2 = 1 then bit1_item t else bit0_item t) [7, 6, 5, 4, 3, 2, 1, 0]"

definition frame_items :: "ticks \<Rightarrow> bytes \<Rightarrow> rmt_item list" where
  "frame_items t bs = concat (map (wire_byte t) bs)"

lemma mask_bit: "(x :: u8) AND push_bit n 1 \<noteq> 0 \<longleftrightarrow> unat x div 2 ^ n mod 2 = 1"
proof -
  have "x AND push_bit n 1 \<noteq> 0 \<longleftrightarrow> bit x n" using and_exp_eq_0_iff_not_bit [of x n] by (simp add: push_bit_eq_mult)
  also have "\<dots> \<longleftrightarrow> bit (unat x) n" by (simp add: bit_unsigned_iff)
  also have "\<dots> \<longleftrightarrow> unat x div 2 ^ n mod 2 = 1" by (simp add: bit_iff_odd odd_iff_mod_2_eq_one)
  finally show ?thesis .
qed

lemma byte_items_wire [simp]: "byte_items t x = wire_byte t x"
proof -
  have "[0..<8] = [0, 1, 2, 3, 4, 5, 6, 7 :: nat]" by code_simp
  then show ?thesis unfolding byte_items_def wire_byte_def mask_bit by simp
qed

lemma length_wire_byte [simp]: "length (wire_byte t x) = 8"
  by (simp add: wire_byte_def)

lemma length_frame_items [simp]: "length (frame_items t bs) = 8 * length bs"
  by (induction bs) (simp_all add: frame_items_def)

lemma frame_items_append: "frame_items t (xs @ ys) = frame_items t xs @ frame_items t ys"
  by (simp add: frame_items_def)

subsection \<open>One call of the translator\<close>

lemma adapter_loop_items:
  assumes "8 dvd wanted" "8 dvd num" "wanted \<le> length dest" "src_size = sz + length src" "num \<le> wanted"
    and "adapter_loop t src src_size wanted sz num dest = (dest', sz', num')"
  shows "\<exists>k \<le> length src. sz' = sz + k \<and> num' = num + 8 * k \<and> (k < length src \<longrightarrow> num' = wanted) \<and> num' \<le> wanted
    \<and> dest' = mem_write num (frame_items t (take k src)) dest"
  using assms
proof (induction src arbitrary: sz num dest)
  case Nil
  then show ?case by (simp add: frame_items_def)
next
  case (Cons x src)
  show ?case
  proof (cases "num < wanted")
    case False
    then show ?thesis using Cons.prems(5,6) by (intro exI [of _ 0]) (simp add: frame_items_def)
  next
    case True
    let ?d = "mem_write num (wire_byte t x) dest"
    have le: "num + 8 \<le> wanted" using Cons.prems(1,2) True by (auto elim!: dvdE)
    have "adapter_loop t src src_size wanted (sz + 1) (num + 8) ?d = (dest', sz', num')"
      using Cons.prems(4,6) True by simp
    then obtain k where k: "k \<le> length src" "sz' = sz + 1 + k" "num' = num + 8 + 8 * k" "k < length src \<longrightarrow> num' = wanted"
      "num' \<le> wanted" "dest' = mem_write (num + 8) (frame_items t (take k src)) ?d"
      using Cons.IH [of "num + 8" ?d "sz + 1"] Cons.prems(1-4) le by fastforce
    have "dest' = mem_write num (frame_items t (take (Suc k) (x # src))) dest"
      using k(6) le Cons.prems(3) by (simp add: mem_write_def frame_items_def ac_simps)
    then show ?thesis using k True by (intro exI [of _ "Suc k"]) auto
  qed
qed

text \<open>The RMT driver's use of the translator: it asks for \<open>w\<close> items into a block of its memory, sends the items
  it got, and goes on behind the bytes that were translated.\<close>

fun portions :: "ticks \<Rightarrow> bytes \<Rightarrow> (nat \<times> rmt_item list) list \<Rightarrow> rmt_item list" where
  "portions t src [] = []"
| "portions t src ((w, block) # blocks) =
    (case ws2812_rmt_adapter t (Some src) (Some block) (length src) w of
       (d, n, num) \<Rightarrow> take num (the d) @ portions t (drop n src) blocks)"

lemma portions_items:
  assumes "\<forall>(w, block) \<in> set blocks. 0 < w \<and> 8 dvd w \<and> w \<le> length block" "8 * length src \<le> sum_list (map fst blocks)"
  shows "portions t src blocks = frame_items t src"
  using assms
proof (induction blocks arbitrary: src)
  case Nil
  then show ?case by (simp add: frame_items_def)
next
  case (Cons wb blocks)
  obtain w block where wb: "wb = (w, block)" by fastforce
  obtain d n num where r: "adapter_loop t src (length src) w 0 0 block = (d, n, num)" by (metis prod.exhaust)
  obtain k where k: "k \<le> length src" "n = k" "num = 8 * k" "k < length src \<longrightarrow> num = w" "num \<le> w"
    "d = mem_write 0 (frame_items t (take k src)) block"
    using adapter_loop_items [OF _ _ _ _ _ r] Cons.prems(1) wb by auto
  have "take num d = frame_items t (take k src)" using k by (simp add: mem_write_0)
  moreover have "portions t (drop k src) blocks = frame_items t (drop k src)"
  proof (rule Cons.IH)
    show "8 * length (drop k src) \<le> sum_list (map fst blocks)" using Cons.prems(2) wb k by (cases "k < length src") auto
  qed (use Cons.prems(1) in simp)
  ultimately show ?case
    using r k(2) wb by (simp add: ws2812_rmt_adapter_def frame_items_append [symmetric])
qed

subsection \<open>Pixels\<close>

definition strip_wf :: "ws2812 \<Rightarrow> bool" where
  "strip_wf s \<longleftrightarrow> 3 * unat (strip_len s) < 2 ^ 32 \<and> length (led_buffer s) = 3 * unat (strip_len s)"

lemma unat_pixel:
  assumes "strip_wf s" "index < strip_len s"
  shows "unat (index * 3) = 3 * unat index" "unat (index * 3 + 1) = 3 * unat index + 1"
    "unat (index * 3 + 2) = 3 * unat index + 2" "3 * unat index + 2 < length (led_buffer s)"
proof -
  have i: "unat index < unat (strip_len s)" using assms(2) by (simp add: word_less_nat_alt)
  then show "3 * unat index + 2 < length (led_buffer s)" using assms(1) by (simp add: strip_wf_def)
  have "3 * unat index + 2 < 2 ^ 32" using i assms(1) by (simp add: strip_wf_def)
  then show "unat (index * 3) = 3 * unat index" "unat (index * 3 + 1) = 3 * unat index + 1"
    "unat (index * 3 + 2) = 3 * unat index + 2"
    by (simp_all add: unat_word_ariths)
qed

lemma update3_mem_write:
  "i + 2 < length xs \<Longrightarrow> xs[i := a, i + 1 := b, i + 2 := c] = mem_write i [a, b, c] xs"
  by (rule nth_equalityI) (auto simp: nth_mem_write nth_list_update nth_Cons split: nat.splits)

lemma frame_items_mem_write:
  assumes "i + length ys \<le> length xs"
  shows "frame_items t (mem_write i ys xs) = mem_write (8 * i) (frame_items t ys) (frame_items t xs)"
proof -
  have "frame_items t (take n xs) = take (8 * n) (frame_items t xs)" "frame_items t (drop n xs) = drop (8 * n) (frame_items t xs)" for n
  proof (induction n arbitrary: xs)
    case (Suc n)
    case 1 show ?case using Suc(1) by (cases xs) (simp_all add: frame_items_def)
    case 2 show ?case using Suc(2) by (cases xs) (simp_all add: frame_items_def)
  qed (simp_all add: frame_items_def)
  then show ?thesis by (simp add: mem_write_def frame_items_append algebra_simps)
qed

lemma ucast_and_ff: "ucast (x AND 0xFF :: u32) = (ucast x :: u8)"
proof (rule bit_eqI)
  fix n assume "possible_bit TYPE(8 word) n"
  then have n: "n < 8" by (simp add: possible_bit_def)
  have "bit (0xFF :: u32) n" using n by (auto simp: less_Suc_eq numeral_eq_Suc)
  with n show "bit (ucast (x AND 0xFF) :: u8) n = bit (ucast x :: u8) n" by (simp add: bit_simps)
qed

text \<open>C31: A pixel that is set is shown: on a strip whose buffer has three bytes for each LED, \<open>ws2812_set_pixel\<close>
  refuses an index behind the end and otherwise changes the transmitted frame in exactly the 24 pulses of
  that LED, to those of the low bytes of green, red and blue; and the frame the RMT driver gets does not
  depend on the portions it asks for, as long as they are whole bytes that fit its memory blocks and
  together the length of the frame.\<close>

theorem ws2812_pixel_on_wire:
  assumes "strip_wf s" "ws2812_set_pixel s index r g b = (err, s')"
    and "\<forall>(w, block) \<in> set blocks. 0 < w \<and> 8 dvd w \<and> w \<le> length block"
    and "24 * unat (strip_len s) \<le> sum_list (map fst blocks)"
  shows "strip_wf s' \<and> portions t (led_buffer s) blocks = frame_items t (led_buffer s) \<and>
    (if index < strip_len s
     then err = STRIP_OK \<and> portions t (led_buffer s') blocks =
       mem_write (24 * unat index) (frame_items t [ucast g, ucast r, ucast b]) (portions t (led_buffer s) blocks)
     else err = STRIP_INVALID_ARG \<and> s' = s)"
proof (cases "index < strip_len s")
  case False
  then show ?thesis using assms portions_items [OF assms(3), of "led_buffer s"]
    by (simp add: ws2812_set_pixel_def strip_wf_def)
next
  case True
  note p = unat_pixel [OF assms(1) True]
  have e: "err = STRIP_OK" and s': "s' = s\<lparr>led_buffer := mem_write (3 * unat index) [ucast g, ucast r, ucast b] (led_buffer s)\<rparr>"
    using assms(2) True update3_mem_write [OF p(4)]
    by (auto simp: ws2812_set_pixel_def Let_def p(1-3) ucast_and_ff)
  have wf: "strip_wf s'" using assms(1) p(4) by (simp add: s' strip_wf_def)
  have "portions t bs blocks = frame_items t bs" if "length bs = length (led_buffer s)" for bs
    using portions_items [OF assms(3)] assms(1,4) that by (simp add: strip_wf_def)
  moreover have "length (led_buffer s') = length (led_buffer s)" using wf assms(1) s' by (simp add: strip_wf_def)
  ultimately show ?thesis
    using True e wf frame_items_mem_write [of "3 * unat index" "[ucast g, ucast r, ucast b]" "led_buffer s" t] p(4) s' by simp
qed

theorem ws2812_pixel_on_wire_witness:
  "portions \<lparr>ws2812_t0h_ticks = 14, ws2812_t1h_ticks = 40, ws2812_t0l_ticks = 40, ws2812_t1l_ticks = 14\<rparr>
     (led_buffer (snd (ws2812_set_pixel \<lparr>rmt_channel = 0, strip_len = 2, led_buffer = replicate 6 0\<rparr> 1 0x1FF 2 3)))
     (replicate 6 (8, replicate 8 (bit0_item undefined)))
   = frame_items \<lparr>ws2812_t0h_ticks = 14, ws2812_t1h_ticks = 40, ws2812_t0l_ticks = 40, ws2812_t1l_ticks = 14\<rparr> [0, 0, 0, 2, 255, 3]"
proof -
  let ?s = "\<lparr>rmt_channel = 0, strip_len = 2, led_buffer = replicate 6 0\<rparr> :: ws2812"
  let ?t = "\<lparr>ws2812_t0h_ticks = 14, ws2812_t1h_ticks = 40, ws2812_t0l_ticks = 40, ws2812_t1l_ticks = 14\<rparr>"
  let ?blocks = "replicate 6 (8, replicate 8 (bit0_item undefined))"
  have "strip_wf ?s" by (simp add: strip_wf_def)
  from this have "portions ?t (led_buffer (snd (ws2812_set_pixel ?s 1 0x1FF 2 3))) ?blocks =
      mem_write (24 * unat (1 :: u32)) (frame_items ?t [ucast (2 :: u32), ucast (0x1FF :: u32), ucast (3 :: u32)])
        (frame_items ?t (led_buffer ?s))"
    using ws2812_pixel_on_wire [of ?s 1 "0x1FF" 2 3 "fst (ws2812_set_pixel ?s 1 0x1FF 2 3)"
        "snd (ws2812_set_pixel ?s 1 0x1FF 2 3)" ?blocks ?t]
    by (simp add: sum_list_replicate)
  also have "\<dots> = frame_items ?t [0, 0, 0, 2, 255, 3]" by code_simp
  finally show ?thesis .
qed

subsection \<open>Colours\<close>

text \<open>The three components of a colour stay between the smallest and the largest one: the unsigned arithmetic
  does not wrap when the conversion of the brightness is at most 255.\<close>

lemma hsv2rgb_range:
  assumes "fdiv100 (fmax v * (100 - s)) \<le> fmax v" "fmax v \<le> 255"
    and "led_strip_hsv2rgb fmax fdiv100 h s v = (r, g, b)"
  shows "\<forall>x \<in> {r, g, b}. fdiv100 (fmax v * (100 - s)) \<le> x \<and> x \<le> fmax v"
proof -
  define mx mn where "mx = unat (fmax v)" and "mn = unat (fdiv100 (fmax v * (100 - s)))"
  define d where "d = unat (h mod 360 mod 60)"
  define adj where "adj = (fmax v - fdiv100 (fmax v * (100 - s))) * (h mod 360 mod 60) div 60"
  have mx: "mx \<le> 255" "mn \<le> mx" using assms(1,2) by (simp_all add: mx_def mn_def word_le_nat_alt)
  have d_eq: "d = unat h mod 360 mod 60" by (simp add: d_def unat_mod)
  then have d: "d < 60" by simp
  have "unat (fmax v - fdiv100 (fmax v * (100 - s))) = mx - mn"
    using assms(1) by (simp add: mx_def mn_def unat_sub)
  moreover have "(mx - mn) * d \<le> 255 * 60" using mx d by (intro mult_le_mono) auto
  ultimately have "unat adj = (mx - mn) * d div 60"
    using d by (simp add: adj_def unat_div unat_word_ariths unat_mod d_eq [symmetric])
  also have "\<dots> \<le> mx - mn" using d by (simp add: div_le_mono [of "(mx - mn) * d" "(mx - mn) * 60" 60, simplified])
  finally have adj: "unat adj \<le> mx - mn" .
  then have "unat (fdiv100 (fmax v * (100 - s)) + adj) = mn + unat adj" "unat (fmax v - adj) = mx - unat adj"
    using mx by (simp_all add: unat_word_ariths mx_def mn_def unat_sub word_le_nat_alt)
  then show ?thesis
    using assms(3) adj mx unfolding led_strip_hsv2rgb_def Let_def adj_def [symmetric]
    by (auto simp: word_le_nat_alt mx_def [symmetric] mn_def [symmetric] split: if_splits)
qed

end
