(* ===== verification/Wifi_Props.thy ===== *)
theory Wifi_Props
  imports Wifi_App
begin

text \<open>
  What the provisioning state machine achieves: a connection attempt behaves like a simple abstract one with a
  number of retries, and a device with a willing network gets onto it.
\<close>

subsection \<open>A connection attempt\<close>

text \<open>The abstract attempt with \<open>k\<close> retries left: the outcome and the events not yet seen, or \<open>None\<close> while it is
  undecided.\<close>

fun attempt :: "nat \<Rightarrow> wifi_event list \<Rightarrow> (bool \<times> wifi_event list) option" where
  "attempt k [] = None"
| "attempt k (GOT_IP # evs) = Some (True, evs)"
| "attempt k (STA_DISCONNECTED # evs) = (if k = 0 then Some (False, evs) else attempt (k - 1) evs)"
| "attempt k (ev # evs) = attempt k evs"

text \<open>The parts of the state an attempt leaves alone.\<close>

definition same_config :: "app \<Rightarrow> app \<Rightarrow> bool" where
  "same_config a a' \<longleftrightarrow> sta_mem a' = sta_mem a \<and> status_connect a' = status_connect a \<and> provision_type a' = provision_type a
     \<and> sta a' = sta a \<and> block_init a' = block_init a \<and> (\<exists>cs. calls a' = calls a @ cs)"

lemma same_config_refl [simp]: "same_config a a"
  by (simp add: same_config_def)

lemma same_config_trans [trans]: "same_config a b \<Longrightarrow> same_config b c \<Longrightarrow> same_config a c"
  by (fastforce simp: same_config_def)

lemma event_handler_same: "same_config a (event_handler ev a)"
  by (auto simp: same_config_def event_handler_def call_def split: wifi_event.splits)

lemma wait_bits_skip:
  "\<not> connected_bit a \<Longrightarrow> \<not> fail_bit a \<Longrightarrow> \<not> handled ev \<Longrightarrow> wait_bits (ev # evs) a = wait_bits evs a"
  by (subst wait_bits.simps) simp

lemma wait_bits_attempt:
  assumes "\<not> connected_bit a" "\<not> fail_bit a" "unat (s_retry_num a) + k = unat (time_err a)"
  shows "case attempt k evs of
      None \<Rightarrow> wait_bits evs a = Blocked
    | Some (ok, rest) \<Rightarrow> \<exists>a'. wait_bits evs a = Done a' \<and> connected_bit a' = ok \<and> events a' = rest
        \<and> s_retry_num a' = (if ok then 0 else time_err a) \<and> my_apt a' = my_apt a \<and> time_err a' = time_err a \<and> same_config a a'"
  using assms
proof (induction k evs arbitrary: a rule: attempt.induct [case_names none got_ip disconnected start])
  case (none k)
  then show ?case by (simp add: wait_bits.simps)
next
  case (got_ip k evs)
  then show ?case
    by (simp add: wait_bits.simps [of "GOT_IP # evs"] wait_bits.simps [of evs] event_handler_def same_config_def)
next
  case (disconnected k evs)
  show ?case
  proof (cases "k = 0")
    case True
    then have "s_retry_num a = time_err a" using disconnected(4) by (simp add: word_unat_eq_iff)
    then show ?thesis
      using True disconnected(2,3) by (simp add: wait_bits.simps [of "STA_DISCONNECTED # evs"] wait_bits.simps [of evs]
          event_handler_def same_config_def)
  next
    case False
    let ?a = "event_handler STA_DISCONNECTED a"
    have lt: "s_retry_num a < time_err a" using False disconnected(4) by (simp add: word_less_nat_alt)
    then have a: "?a = (call [Wifi_Connect] a)\<lparr>s_retry_num := s_retry_num a + 1\<rparr>" by (simp add: event_handler_def)
    have "unat (s_retry_num a + 1) = unat (s_retry_num a) + 1"
      using lt unsigned_less [of "time_err a", where ?'a = nat] by (simp add: unat_word_ariths word_less_nat_alt)
    then have "unat (s_retry_num ?a) + (k - 1) = unat (time_err ?a)" using disconnected(4) False by (simp add: a call_def)
    moreover have "wait_bits (STA_DISCONNECTED # evs) a = wait_bits evs ?a"
      using disconnected(2,3) by (simp add: wait_bits.simps [of "STA_DISCONNECTED # evs"])
    ultimately show ?thesis
      using disconnected(1) [OF False, of ?a] disconnected(2,3) False same_config_trans [OF event_handler_same [of a STA_DISCONNECTED]]
      by (auto simp: a call_def split: option.splits)
  qed
next
  case (start k evs)
  let ?a = "event_handler STA_START a"
  have "wait_bits (STA_START # evs) a = wait_bits evs ?a"
    using start(2,3) by (simp add: wait_bits.simps [of "STA_START # evs"])
  then show ?case
    using start(1) [of ?a] start(2-4) same_config_trans [OF event_handler_same [of a STA_START]]
    by (auto simp: event_handler_def call_def split: option.splits)
qed (auto simp: wait_bits_skip split: option.splits)

definition idf_ok :: "idf \<Rightarrow> bool" where
  "idf_ok env \<longleftrightarrow> esp_netif_init_ok env \<and> nvs_flash_init_ok env \<and> esp_wifi_init_ok env \<and> wifi_calls_ok env \<and> event_post_ok env"

lemma wifi_connect_attempt:
  assumes "idf_ok env" "s_retry_num a \<le> t"
  shows "case attempt (unat t - unat (s_retry_num a)) (events a) of
      None \<Rightarrow> wifi_connect_iot env t a = Blocked
    | Some (ok, rest) \<Rightarrow> \<exists>a'. wifi_connect_iot env t a = Done (ok, a') \<and> events a' = rest
        \<and> s_retry_num a' = (if ok then 0 else t) \<and> same_config a a'"
proof -
  let ?a = "a\<lparr>my_apt := True, time_err := t, connected_bit := False, fail_bit := False\<rparr>"
  let ?b = "call [Wifi_Restart (sta_mem a)] ?a"
  have w: "wifi_connect_iot env t a = bind_outcome (wait_bits (events a) ?b) (\<lambda>a. Done (connected_bit a, a))"
    using assms(1) by (cases a) (auto simp: wifi_connect_iot_def idf_ok_def esp_error_check_def call_def)
  have "same_config a ?b" by (simp add: same_config_def call_def)
  moreover have "unat (s_retry_num ?b) + (unat t - unat (s_retry_num a)) = unat (time_err ?b)"
    using assms(2) by (simp add: call_def word_le_nat_alt)
  note wait_bits_attempt [OF _ _ this, of "events a"]
  ultimately show ?thesis
    using same_config_trans by (fastforce simp: w call_def split: option.splits)
qed

text \<open>C33: A connection attempt implements the abstract one: it gives up at the first disconnection after its retries
  are used up, succeeds at the first address before that, and waits as long as neither has happened.  An
  attempt that fails leaves the retry counter at its limit, so the next attempt has no retry at all.\<close>

theorem connection_attempt_refines:
  assumes "idf_ok env" "s_retry_num a \<le> t"
  shows "(case attempt (unat t - unat (s_retry_num a)) (events a) of
      None \<Rightarrow> wifi_connect_iot env t a = Blocked
    | Some (ok, rest) \<Rightarrow> \<exists>a'. wifi_connect_iot env t a = Done (ok, a') \<and> events a' = rest \<and> sta_mem a' = sta_mem a
        \<and> (\<not> ok \<longrightarrow> (\<forall>evs. \<exists>b. wifi_connect_iot env t (a'\<lparr>events := STA_DISCONNECTED # evs\<rparr>) = Done (False, b))))"
proof (cases "attempt (unat t - unat (s_retry_num a)) (events a)")
  case None
  then show ?thesis using wifi_connect_attempt [OF assms] by simp
next
  case (Some r)
  obtain ok rest where r: "r = (ok, rest)" by fastforce
  then obtain a' where a': "wifi_connect_iot env t a = Done (ok, a')" "events a' = rest"
    "s_retry_num a' = (if ok then 0 else t)" "same_config a a'"
    using wifi_connect_attempt [OF assms] Some by auto
  have "\<exists>b. wifi_connect_iot env t (a'\<lparr>events := STA_DISCONNECTED # evs\<rparr>) = Done (False, b)" if "\<not> ok" for evs
    using wifi_connect_attempt [OF assms(1), of "a'\<lparr>events := STA_DISCONNECTED # evs\<rparr>" t] a'(3) that by auto
  then show ?thesis using a' r Some by (simp add: same_config_def)
qed

subsection \<open>Provisioning\<close>

definition unprovisioned :: "bytes \<Rightarrow> bool" where
  "unprovisioned m \<longleftrightarrow> byte_at m 0 = 0 \<or> c_str m = sample_err"

definition credentials :: "bytes \<Rightarrow> bytes \<Rightarrow> bytes" where
  "credentials s p = take 32 (s @ replicate 32 0) @ take 64 (p @ replicate 64 0)"

fun provisions :: "wifi_event \<Rightarrow> bool" where
  "provisions (SC_GOT_SSID_PSWD s p) = True"
| "provisions SC_SEND_ACK_DONE = True"
| "provisions ev = False"

lemma smart_wait_gets:
  assumes "wifi_calls_ok env" "info_wifi_smart a" "\<forall>ev \<in> set pre. \<not> provisions ev"
  shows "\<exists>cs. smart_wait env (pre @ SC_GOT_SSID_PSWD s p # evs) a =
    Done (a\<lparr>sta_mem := credentials s p, events := evs, calls := calls a @ cs\<rparr>)"
  using assms(2,3)
proof (induction pre arbitrary: a)
  case Nil
  then show ?case by (intro exI [of _ "[]"]) (simp add: smart_event_handler_def credentials_def)
next
  case (Cons ev pre)
  have ih: "\<exists>cs. smart_wait env (pre @ SC_GOT_SSID_PSWD s p # evs) b =
      Done (b\<lparr>sta_mem := credentials s p, events := evs, calls := calls b @ cs\<rparr>)" if "info_wifi_smart b" for b
    using Cons.IH [OF that] Cons.prems(2) by simp
  show ?case
    using ih [of a] ih [of "call [Smartconfig_Start] a"] Cons.prems
    by (cases ev) (auto simp: smart_event_handler_def call_def esp_error_check_def assms(1))
qed

lemma select_pass_known:
  assumes "status_connect a = SELECTTION_MODE_CONNECT" "block_init a \<noteq> 1" "\<not> unprovisioned (sta_mem a)"
  shows "handle_connect_wifi env a = Done (a\<lparr>provisioned := 0, status_connect := CONNECT_WIFI\<rparr>)"
  using assms by (simp add: handle_connect_wifi_def app_config_def is_provisioned_def unprovisioned_def ssid_def)

lemma select_pass_new:
  assumes "idf_ok env" "status_connect a = SELECTTION_MODE_CONNECT" "block_init a \<noteq> 1" "unprovisioned (sta_mem a)"
    and "provision_type a = PROVISITION_SMARTCONFIG" "sta a = 1"
    and "events a = pre @ SC_GOT_SSID_PSWD s p # evs" "\<forall>ev \<in> set pre. \<not> provisions ev"
  shows "\<exists>cs. handle_connect_wifi env a = Done (a\<lparr>provisioned := 1, sta := 0, info_wifi_smart := True,
    sta_mem := credentials s p, events := evs, calls := calls a @ cs\<rparr>)"
proof -
  let ?a = "a\<lparr>provisioned := 1, sta := 0, info_wifi_smart := True\<rparr>"
  obtain cs where cs: "smart_wait env (events ?a) ?a = Done (?a\<lparr>sta_mem := credentials s p, events := evs, calls := calls ?a @ cs\<rparr>)"
    using smart_wait_gets [of env ?a pre s p evs] assms(1,7,8) by (auto simp: idf_ok_def)
  have "handle_connect_wifi env a = smart_config_connect env ?a"
    using assms by (simp add: handle_connect_wifi_def app_config_def is_provisioned_def unprovisioned_def ssid_def
        set_callback_infowifi_smart_def)
  also have "\<dots> = Done (?a\<lparr>sta_mem := credentials s p, events := evs, calls := calls a @ cs @ [Smartconfig_Stop]\<rparr>)"
    using cs assms(1) by (simp add: smart_config_connect_def esp_error_check_def idf_ok_def call_def)
  finally show ?thesis by auto
qed

lemma connect_pass:
  assumes "idf_ok env" "status_connect a = CONNECT_WIFI" "s_retry_num a = 0" "attempt 3 (events a) = Some (True, rest)"
  shows "\<exists>a'. handle_connect_wifi env a = Done a' \<and> status_connect a' = NORMAL \<and> sta_mem a' = sta_mem a
    \<and> Post_Wifi_Connected \<in> set (calls a') \<and> events a' = rest"
proof -
  obtain b where "wifi_connect_iot env 3 a = Done (True, b)" "events b = rest" "same_config a b"
    using wifi_connect_attempt [OF assms(1), of a 3] assms(3,4) by auto
  then show ?thesis
    using assms(1,2) by (auto simp: handle_connect_wifi_def connect_wifi_def esp_error_check_def idf_ok_def call_def same_config_def)
qed

text \<open>The first pass reads the flash.\<close>

lemma first_pass:
  assumes "idf_ok env"
  shows "handle_connect_wifi env (app_config_init a) =
    handle_connect_wifi env ((app_config_init a)\<lparr>block_init := 0, sta_mem := flash_config env, sta := 1\<rparr>)"
  using assms by (simp add: handle_connect_wifi_def app_config_def is_provisioned_def app_config_init_def wifi_init_def
      esp_error_check_def idf_ok_def)

lemma normal_stays: "status_connect a = NORMAL \<Longrightarrow> handler_task env n a = Done a"
  by (induction n) (simp_all add: handle_connect_wifi_def)

text \<open>C32: A device gets onto its network: started with credentials in flash, when the access point gives it an
  address before a fourth disconnection, the handler task has connected after two passes; started without,
  when SmartConfig delivers credentials and the access point accepts them, after three.  It then has posted
  the event that starts the services, keeps the credentials and does nothing more: the task takes no notice of what happens to
  the link afterwards.\<close>

theorem provisioning_reaches_network:
  assumes "idf_ok env" "s_retry_num a = 0"
    and "\<not> unprovisioned (flash_config env) \<Longrightarrow> creds = flash_config env \<and> attempt 3 (events a) = Some (True, rest)"
    and "unprovisioned (flash_config env) \<Longrightarrow> creds = credentials s p \<and> \<not> unprovisioned creds
      \<and> events a = pre @ SC_GOT_SSID_PSWD s p # evs \<and> (\<forall>ev \<in> set pre. \<not> provisions ev) \<and> attempt 3 evs = Some (True, rest)"
  shows "\<exists>a'. handler_task env (if unprovisioned (flash_config env) then 3 else 2) (app_config_init a) = Done a'
    \<and> status_connect a' = NORMAL \<and> Post_Wifi_Connected \<in> set (calls a') \<and> sta_mem a' = creds
    \<and> (\<forall>n. handler_task env n a' = Done a')"
proof -
  let ?a = "(app_config_init a)\<lparr>block_init := 0, sta_mem := flash_config env, sta := 1\<rparr>"
  note pass = first_pass [OF assms(1)]
  have final: "\<exists>a'. handler_task env 2 b = Done a' \<and> status_connect a' = NORMAL \<and> Post_Wifi_Connected \<in> set (calls a') \<and> sta_mem a' = creds"
    if "status_connect b = SELECTTION_MODE_CONNECT" "block_init b = 0" "sta_mem b = creds" "\<not> unprovisioned creds"
      "s_retry_num b = 0" "attempt 3 (events b) = Some (True, rest)" for b
    using select_pass_known [of b env] that
      connect_pass [OF assms(1), of "b\<lparr>provisioned := 0, status_connect := CONNECT_WIFI\<rparr>" rest]
    by (auto simp: numeral_2_eq_2)
  show ?thesis
  proof (cases "unprovisioned (flash_config env)")
    case False
    have "handler_task env 2 (app_config_init a) = handler_task env 2 ?a" using pass by (simp add: numeral_2_eq_2)
    then show ?thesis using final [of ?a] assms(2,3) False normal_stays by (auto simp: app_config_init_def)
  next
    case True
    note h = assms(4) [OF True]
    obtain cs where cs: "handle_connect_wifi env ?a = Done (?a\<lparr>provisioned := 1, sta := 0, info_wifi_smart := True,
        sta_mem := credentials s p, events := evs, calls := calls ?a @ cs\<rparr>)"
      using select_pass_new [OF assms(1), of ?a pre s p evs] h True by (auto simp: app_config_init_def)
    let ?b = "?a\<lparr>provisioned := 1, sta := 0, info_wifi_smart := True, sta_mem := credentials s p, events := evs, calls := calls ?a @ cs\<rparr>"
    have "handler_task env 3 (app_config_init a) = handler_task env 2 ?b" using pass cs by (simp add: numeral_3_eq_3 numeral_2_eq_2)
    then show ?thesis using final [of ?b] assms(2) h True normal_stays by (auto simp: app_config_init_def)
  qed
qed

definition demo_idf :: idf where
  "demo_idf = \<lparr>esp_netif_init_ok = True, nvs_flash_init_ok = True, esp_wifi_init_ok = True, flash_config = replicate 96 0,
     wifi_calls_ok = True, event_post_ok = True, httpd_start_ok = True\<rparr>"

definition demo_app :: "wifi_event list \<Rightarrow> app" where
  "demo_app evs = \<lparr>sta_mem = replicate 96 0, status_connect = NORMAL, provision_type = PROVISITION_SMARTCONFIG, sta = 0,
     block_init = 0, provisioned = 0, s_retry_num = 0, time_err = 0, connected_bit = False, fail_bit = False, my_apt = False,
     my_spt = False, info_wifi_smart = False, get_infowifi_callback = False, httpd_server = False, events = evs, calls = []\<rparr>"

lemma demo_idf_ok [simp]: "idf_ok demo_idf"
  by (simp add: idf_ok_def demo_idf_def)

theorem provisioning_reaches_network_witness:
  "\<exists>a'. handler_task demo_idf 3 (app_config_init (demo_app
      [STA_START, SC_FOUND_CHANNEL, SC_GOT_SSID_PSWD (cstr ''home'') (cstr ''secret''), STA_START, STA_DISCONNECTED, GOT_IP])) = Done a'
    \<and> status_connect a' = NORMAL \<and> sta_mem a' = credentials (cstr ''home'') (cstr ''secret'')"
proof -
  let ?evs = "[STA_START, STA_DISCONNECTED, GOT_IP]"
  let ?a = "demo_app ([STA_START, SC_FOUND_CHANNEL] @ SC_GOT_SSID_PSWD (cstr ''home'') (cstr ''secret'') # ?evs)"
  have u: "unprovisioned (flash_config demo_idf)" "\<not> unprovisioned (credentials (cstr ''home'') (cstr ''secret''))" by code_simp+
  have "s_retry_num ?a = 0" "events ?a = [STA_START, SC_FOUND_CHANNEL] @ SC_GOT_SSID_PSWD (cstr ''home'') (cstr ''secret'') # ?evs"
    by (simp_all add: demo_app_def)
  moreover have "attempt 3 ?evs = Some (True, [])" by simp
  ultimately show ?thesis
    using provisioning_reaches_network [of demo_idf ?a "credentials (cstr ''home'') (cstr ''secret'')" "[]" "cstr ''home''" "cstr ''secret''"
        "[STA_START, SC_FOUND_CHANNEL]" ?evs] u by auto
qed

theorem connection_attempt_refines_witness:
  "\<exists>a'. wifi_connect_iot demo_idf 3 (demo_app (replicate 4 STA_DISCONNECTED)) = Done (False, a')
     \<and> (\<exists>b. wifi_connect_iot demo_idf 3 (a'\<lparr>events := [STA_DISCONNECTED, GOT_IP]\<rparr>) = Done (False, b))"
proof -
  have "attempt (unat (3 :: u8) - unat (s_retry_num (demo_app (replicate 4 STA_DISCONNECTED)))) (events (demo_app (replicate 4 STA_DISCONNECTED)))
      = Some (False, [])" by code_simp
  then show ?thesis
    using connection_attempt_refines [of demo_idf "demo_app (replicate 4 STA_DISCONNECTED)" 3] by (auto simp: demo_app_def)
qed

subsection \<open>The web form\<close>

text \<open>A name submitted in the form after a failed attempt keeps the tail of the name stored before it, because
  the copy writes no terminator.\<close>

lemma wifiinfo_keeps_tail:
  assumes "sta_mem a = sample_err @ 0 # rest"
  shows "ssid (set_callback_wifiinfo (cstr ''abc'') [] a) = cstr ''abcderr''"
proof -
  have "sta_mem (set_callback_wifiinfo (cstr ''abc'') [] a) = cstr ''abcderr'' @ 0 # rest"
    by (simp add: set_callback_wifiinfo_def assms sample_err_def cstr_def mem_write_0)
  moreover have "is_cstr (cstr ''abcderr'')" by code_simp
  ultimately show ?thesis by (simp add: ssid_def)
qed

end
