(* ===== verification/App_Main_Props.thy ===== *)
theory App_Main_Props
  imports App_Main
begin

text \<open>
  The application as a whole: a value sent to the device's topic reaches the output pin.
\<close>

definition is_digit :: "u8 \<Rightarrow> bool" where
  "is_digit c \<longleftrightarrow> 48 \<le> c \<and> c \<le> 57"

lemma digits_value_append:
  "\<forall>c \<in> set xs. is_digit c \<Longrightarrow> digits_value acc (xs @ ys) = digits_value (digits_value acc xs) ys"
  by (induction xs arbitrary: acc) (auto simp: is_digit_def)

lemma digits_value_stop: "s = [] \<or> \<not> is_digit (hd s) \<Longrightarrow> digits_value acc s = acc"
  by (cases s) (auto simp: is_digit_def)

lemma digit_byte:
  assumes "n < 10"
  shows "is_digit (word_of_nat (48 + n))" "uint (word_of_nat (48 + n) :: u8) = int (48 + n)"
proof -
  have "unat (word_of_nat (48 + n) :: u8) = 48 + n" by (simp only: unat_of_nat) (use assms in simp)
  then show "is_digit (word_of_nat (48 + n))" "uint (word_of_nat (48 + n) :: u8) = int (48 + n)"
    using assms by (simp_all add: is_digit_def word_le_nat_alt uint_nat)
qed

lemma dec_nat_digits: "dec_nat n \<noteq> [] \<and> (\<forall>c \<in> set (dec_nat n). is_digit c) \<and> digits_value 0 (dec_nat n) = int n"
proof (induction n rule: dec_nat.induct)
  case (1 n)
  show ?case
  proof (cases "n < 10")
    case True
    then have "dec_nat n = [word_of_nat (48 + n)]" by (simp add: dec_nat.simps)
    then show ?thesis using digit_byte [OF True] by (simp add: is_digit_def)
  next
    case False
    note ih = 1 [OF False]
    let ?d = "word_of_nat (48 + n mod 10) :: u8"
    have e: "dec_nat n = dec_nat (n div 10) @ [?d]" using False by (subst dec_nat.simps) simp
    have d: "is_digit ?d" "uint ?d = int (48 + n mod 10)" using digit_byte [of "n mod 10"] by simp_all
    then have "digits_value 0 (dec_nat n) = 10 * int (n div 10) + int (n mod 10)"
      using ih by (simp add: e digits_value_append is_digit_def)
    also have "\<dots> = int n" by presburger
    finally show ?thesis using e d ih by simp
  qed
qed

lemma digit_not_special: "is_digit c \<Longrightarrow> c \<noteq> 32 \<and> \<not> (9 \<le> c \<and> c \<le> 13) \<and> c \<noteq> 45 \<and> c \<noteq> 43"
  by (auto simp: is_digit_def word_le_nat_alt)

lemma sint_clamp: "sint (word_of_int (clamp_int v) :: i32) = clamp_int v"
proof -
  have "- (2 ^ 31) \<le> clamp_int v" "clamp_int v < 2 ^ 31" by (simp_all add: clamp_int_def)
  then show ?thesis by (simp add: signed_of_int signed_take_bit_int_eq_self)
qed

lemma atoi_dec_int:
  assumes "s = [] \<or> \<not> is_digit (hd s)"
  shows "sint (atoi (dec_int n @ s)) = clamp_int n"
proof -
  have v: "digits_value 0 (dec_nat m @ s) = int m" for m
    using dec_nat_digits [of m] digits_value_append [of "dec_nat m" 0 s] digits_value_stop [OF assms] by simp
  have "atoi (dec_int n @ s) = word_of_int (clamp_int n)"
  proof (cases "n < 0")
    case True
    then have "dec_int n = 45 # dec_nat (nat (- n))" by (simp add: dec_int_def)
    then show ?thesis using v [of "nat (- n)"] True by (simp add: atoi_def)
  next
    case False
    obtain c r where c: "dec_nat (nat n) = c # r" "is_digit c"
      using dec_nat_digits [of "nat n"] by (cases "dec_nat (nat n)") auto
    then have "dec_int n @ s = c # r @ s" using False by (simp add: dec_int_def)
    moreover have "digits_value 0 (c # r @ s) = n" using v [of "nat n"] c(1) False by simp
    ultimately show ?thesis using digit_not_special [OF c(2)] by (auto simp: atoi_def Let_def)
  qed
  then show ?thesis by (simp add: sint_clamp)
qed

text \<open>The comparison of \<open>url_data\<close> is over the length of the received topic: it accepts every prefix of the name.\<close>

lemma topic_prefix:
  assumes "is_cstr (take n t)" "n \<le> length t" "is_cstr vw"
  shows "strncmp_eq n t vw \<longleftrightarrow> (\<exists>r. vw = take n t @ r)"
proof -
  have "take k (c_str s) = c_str (take k s)" for k s
  proof (induction s arbitrary: k)
    case (Cons x s)
    then show ?case by (cases k) (auto simp: c_str_Cons c_str_def)
  qed (simp add: c_str_def)
  then have "strncmp_eq n t vw \<longleftrightarrow> take n t = take n vw" using assms by (simp add: strncmp_eq_c_str)
  also have "\<dots> \<longleftrightarrow> (\<exists>r. vw = take n t @ r)"
  proof
    assume "take n t = take n vw"
    then have "vw = take n t @ drop n vw" by simp
    then show "\<exists>r. vw = take n t @ r" by blast
  qed (use assms(2) in auto)
  finally show ?thesis .
qed

text \<open>C34: A value sent to the device drives its output: after \<open>app_main\<close>, the connection of the MQTT client
  makes the event loop subscribe to the device's two topics, and a message whose topic is a prefix of the name
  \<open>downlink/ds/vw\<close> (the name itself, but also \<open>down\<close> or the empty topic) sets pin 2, while a message on any other topic changes no
  pin.  When the text of the message is a number, with no digit behind it in the receive buffer, the level set is that number,
  or the nearest bound of a 32-bit \<open>int\<close>.\<close>

theorem message_drives_output:
  assumes "app_main True b0 = Done b" "posted b = []" "e_id ev = MQTT_EVENT_DATA" "e_topic_len ev \<le> length (e_topic ev)"
    and "is_cstr (take (e_topic_len ev) (e_topic ev))"
  shows "(\<exists>b1. mqtt_event_handler \<lparr>e_id = MQTT_EVENT_CONNECTED, e_topic = [], e_topic_len = 0, e_data = [], e_data_len = 0\<rparr> b = Done b1
      \<and> subscriptions (dispatch_dev b1) = subscriptions b @ [(cstr ''downlink/ds/VP_ADC'', 1), (cstr ''downlink/ds/vw'', 1)])
    \<and> (\<exists>b2 v. mqtt_event_handler ev b = Done b2
      \<and> levels b2 = (if \<exists>r. cstr ''downlink/ds/vw'' = take (e_topic_len ev) (e_topic ev) @ r then levels b @ [(2, v)] else levels b)
      \<and> (\<forall>n rest. e_data ev = dec_int n @ rest \<and> (rest = [] \<or> \<not> is_digit (hd rest))
           \<longrightarrow> sint v = max (- (2 ^ 31)) (min (2 ^ 31 - 1) n)))"
proof -
  let ?n = "e_topic_len ev" and ?t = "e_topic ev" and ?vw = "cstr ''downlink/ds/vw''"
  have cb: "data_callback b" "dev_handler b"
    using assms(1) by (auto simp: app_main_def mqtt_data_set_callback_def Let_def)
  have "is_cstr ?vw" by code_simp
  note cmp = topic_prefix [OF assms(5,4) this]
  let ?b2 = "url_data ?n ?t (e_data_len ev) (e_data ev) (b\<lparr>posted := [MQTT_DEV_EVENT_DATA]\<rparr>)"
  have b2: "mqtt_event_handler ev b = Done ?b2" using assms(2,3) cb by (simp add: mqtt_event_handler_def)
  have l: "levels ?b2 = (if \<exists>r. ?vw = take ?n ?t @ r then levels b @ [(2, atoi (e_data ev))] else levels b)"
    by (simp add: url_data_def cmp output_io_set_level_def)
  have v: "\<forall>n rest. e_data ev = dec_int n @ rest \<and> (rest = [] \<or> \<not> is_digit (hd rest))
      \<longrightarrow> sint (atoi (e_data ev)) = max (- (2 ^ 31)) (min (2 ^ 31 - 1) n)"
    using atoi_dec_int [unfolded clamp_int_def] by metis
  show ?thesis
  proof (rule conjI)
    show "\<exists>b1. mqtt_event_handler \<lparr>e_id = MQTT_EVENT_CONNECTED, e_topic = [], e_topic_len = 0, e_data = [], e_data_len = 0\<rparr> b = Done b1
      \<and> subscriptions (dispatch_dev b1) = subscriptions b @ [(cstr ''downlink/ds/VP_ADC'', 1), (cstr ''downlink/ds/vw'', 1)]"
      using cb assms(2) by (simp add: mqtt_event_handler_def dispatch_dev_def mqtt_even_def app_mqtt_subscribe_def)
  qed (use b2 l v in blast)
qed

text \<open>The value is read beyond the end of the message: a \<open>0\<close> behind which the receive buffer still holds the digit
  \<open>5\<close> of an earlier message switches the output on.\<close>

lemma stale_digit_read:
  "levels (url_data 14 (cstr ''downlink/ds/vw'') 1 (cstr ''05'' @ [0]) b) = levels b @ [(2, 5)]"
proof -
  have "strncmp_eq 14 (cstr ''downlink/ds/vw'') (cstr ''downlink/ds/vw'')" "atoi (cstr ''05'' @ [0]) = 5" by code_simp+
  then show ?thesis by (simp add: url_data_def output_io_set_level_def)
qed

definition demo_board :: board where
  "demo_board = \<lparr>levels = [], outputs = [], posted = [], subscriptions = [], publications = [], tasks = [], mqtt_started = False,
     data_callback = False, ota_handler = False, dev_handler = False,
     wifi = \<lparr>sta_mem = [], status_connect = NORMAL, provision_type = PROVISITION_SMARTCONFIG, sta = 0,
       block_init = 0, provisioned = 0, s_retry_num = 0, time_err = 0, connected_bit = False, fail_bit = False, my_apt = False,
       my_spt = False, info_wifi_smart = False, get_infowifi_callback = False, httpd_server = False, events = [], calls = []\<rparr>\<rparr>"

theorem message_drives_output_witness:
  "\<exists>b b2 v. app_main True demo_board = Done b
    \<and> mqtt_event_handler \<lparr>e_id = MQTT_EVENT_DATA, e_topic = cstr ''downlink/ds/vw1'', e_topic_len = 14, e_data = cstr ''1'' @ [13], e_data_len = 1\<rparr> b = Done b2
    \<and> levels b2 = [(2, v)] \<and> sint v = 1"
proof -
  let ?ev = "\<lparr>e_id = MQTT_EVENT_DATA, e_topic = cstr ''downlink/ds/vw1'', e_topic_len = 14, e_data = cstr ''1'' @ [13], e_data_len = 1\<rparr>"
  obtain b where b: "app_main True demo_board = Done b" "posted b = []" "levels b = []"
    by (simp add: app_main_def demo_board_def mqtt_data_set_callback_def output_io_creat_def Let_def)
  have e: "cstr ''downlink/ds/vw'' = take 14 (cstr ''downlink/ds/vw1'') @ []" "cstr ''1'' @ [13] = dec_int 1 @ [13]" "\<not> is_digit 13"
    "14 \<le> length (cstr ''downlink/ds/vw1'')" "is_cstr (take 14 (cstr ''downlink/ds/vw1''))" by code_simp+
  obtain b2 v where h: "mqtt_event_handler ?ev b = Done b2
      \<and> levels b2 = (if \<exists>r. cstr ''downlink/ds/vw'' = take 14 (cstr ''downlink/ds/vw1'') @ r then levels b @ [(2, v)] else levels b)
      \<and> (\<forall>n rest. cstr ''1'' @ [13] = dec_int n @ rest \<and> (rest = [] \<or> \<not> is_digit (hd rest))
           \<longrightarrow> sint v = max (- (2 ^ 31)) (min (2 ^ 31 - 1) n))"
    using message_drives_output [OF b(1,2), of ?ev, unfolded mqtt_event.select_convs, OF refl e(4,5), THEN conjunct2]
    by (elim exE)
  have "\<exists>r. cstr ''downlink/ds/vw'' = take 14 (cstr ''downlink/ds/vw1'') @ r" using e(1) by (rule exI)
  then have "levels b2 = [(2, v)]" using h [THEN conjunct2, THEN conjunct1] b(3) by (simp only: if_True append_Nil)
  moreover have "sint v = 1"
    using h [THEN conjunct2, THEN conjunct2, THEN spec, THEN spec, of 1 "[13]"] e(2,3) by simp
  ultimately show ?thesis using b(1) h [THEN conjunct1] by blast
qed

end
