(* ===== verification/Spec2Isabelle.thy ===== *)
theory Spec2Isabelle
  imports Blynk_Api Blynk_Sockets Mqtt_Deliver Http_Wire Otadrive_Props App_Ota Dht_Props Led_Strip_Props Wifi_Props App_Main_Props
begin

text \<open>
  \<^bold>\<open>A verification library for the control_fan firmware.\<close>

  The program is an ESP32 firmware.  \<^verbatim>\<open>main/blynk.c\<close> starts the device: it gets the device onto a Wi-Fi network
  (with stored credentials, or by provisioning through SmartConfig or through a web form on a soft access
  point), connects to an MQTT broker, and drives outputs, a LED strip and the like from the messages it
  receives.  A Blynk client, an HTTP client, the over-the-air update of the firmware, a sensor driver and a LED
  strip driver are libraries of the same tree.

  \<^bold>\<open>The theories and what they model\<close> (paths under \<^verbatim>\<open>src/\<close>).

  \<^item> \<^verbatim>\<open>Prelude\<close>: machine integers, byte buffers, the functions of the C library the code calls (\<^verbatim>\<open>strlen\<close>,
    \<^verbatim>\<open>strncmp\<close>, \<^verbatim>\<open>strlcpy\<close>, \<^verbatim>\<open>atoi\<close>, \<^verbatim>\<open>memcpy\<close> into an array, decimal printing).  \<^verbatim>\<open>Interfaces\<close>: the contracts
    as locales (\<open>key_table\<close>, \<open>framed_stream\<close>, \<open>fifo_queue\<close>).

  \<^item> \<^verbatim>\<open>Blynk_Types\<close>, \<^verbatim>\<open>Blynk_Parse\<close>, \<^verbatim>\<open>Blynk_Client\<close>, \<^verbatim>\<open>Blynk_Loop\<close>: \<^verbatim>\<open>common/blynk/blynk_iot.c\<close> and \<^verbatim>\<open>.h\<close>.  The
    record \<open>blynk_client\<close> is the struct of the same name with its private part; FreeRTOS queues and ticks,
    lwIP sockets and the application's callbacks are the fields of the record \<open>blynk_os\<close>, which act on a
    world carried in the client.  The byte parser is \<open>parse_byte\<close> with the four state functions,
    \<open>handle_message\<close> dispatches a complete message, \<open>handle_timers\<close> serves the deadlines.  \<open>loop_step\<close> is one
    pass of the loop in \<^verbatim>\<open>blynk_loop\<close>, and the inductive relation \<open>task_step\<close> is \<^verbatim>\<open>blynk_task\<close>: connecting,
    running, reconnecting, deleted.
    \<^verbatim>\<open>Blynk_Table\<close>, \<^verbatim>\<open>Blynk_Stream\<close>, \<^verbatim>\<open>Blynk_Dispatch\<close>, \<^verbatim>\<open>Blynk_Ids\<close>, \<^verbatim>\<open>Blynk_Timers\<close>, \<^verbatim>\<open>Blynk_Inv\<close>,
    \<^verbatim>\<open>Blynk_Task\<close>, \<^verbatim>\<open>Blynk_Sockets\<close>, \<^verbatim>\<open>Blynk_Api\<close> hold the properties; \<^verbatim>\<open>Blynk_Env\<close> is a concrete environment in
    which the hypotheses on \<open>blynk_os\<close> hold and the witnesses run.

  \<^item> \<^verbatim>\<open>Mqtt_Msg\<close>: \<^verbatim>\<open>common/mqtt/esp-mqtt/lib/mqtt_msg.c\<close>, the builders on the buffer of an
    \<open>mqtt_connection\<close> and the parsers on received bytes; \<^verbatim>\<open>Mqtt_Len\<close>, \<^verbatim>\<open>Mqtt_Build\<close> and \<^verbatim>\<open>Mqtt_Props\<close> its lemmas.
    \<^verbatim>\<open>Mqtt_Outbox\<close>: \<^verbatim>\<open>lib/mqtt_outbox.c\<close>, the tail queue with the set of live heap blocks in the state;
    \<^verbatim>\<open>Mqtt_Outbox_Props\<close> its properties.  \<^verbatim>\<open>Mqtt_Client\<close> and \<^verbatim>\<open>Mqtt_Task\<close>: \<^verbatim>\<open>mqtt_client.c\<close> on top of both.  The record
    \<open>esp_mqtt_client\<close> is the struct with its part \<open>mqtt_state\<close>; \<open>mqtt_message_receive\<close> reads a message in stages,
    \<open>mqtt_process_receive\<close> delivers and answers it, \<open>esp_mqtt_client_publish\<close> sends in fragments, \<open>task_pass\<close> is one turn of the
    loop in \<^verbatim>\<open>esp_mqtt_task\<close>, and the inductive relation \<open>mqtt_step\<close> interleaves the task with the application's calls.
    \<^verbatim>\<open>Mqtt_Client_Inv\<close>, \<^verbatim>\<open>Mqtt_Receive\<close>, \<^verbatim>\<open>Mqtt_Publish\<close> and \<^verbatim>\<open>Mqtt_Deliver\<close> hold the properties, \<^verbatim>\<open>Mqtt_Env\<close> a concrete
    environment for the witnesses.

  \<^item> \<^verbatim>\<open>Http_Header\<close>: \<^verbatim>\<open>common/esp_http_client/lib/http_header.c\<close> and \<^verbatim>\<open>http_utils.c\<close>; \<^verbatim>\<open>Http_Table\<close> shows that the
    list is a \<open>key_table\<close>.  \<^verbatim>\<open>Http_Request\<close>: the sending half of \<^verbatim>\<open>esp_http_client.c\<close>; \<^verbatim>\<open>Http_Wire\<close> its bytes on
    the wire.  \<^verbatim>\<open>Http_Response\<close>: the receiving half.  The record \<open>http\<close> is \<^verbatim>\<open>struct esp_http_client\<close>; a run of the response parser is the list
    of the callbacks it makes, and \<open>http_on_body\<close> and its siblings are those callbacks; \<open>esp_http_client_read\<close> and
    \<open>esp_http_client_fetch_headers\<close> loop over reads of the transport.  \<^verbatim>\<open>Http_Perform\<close>: \<^verbatim>\<open>http_auth.c\<close>, URLs, redirections, and the state machine of
    \<^verbatim>\<open>esp_http_client_perform\<close>, one definition per case of its \<^verbatim>\<open>switch\<close>.  \<^verbatim>\<open>Http_Init\<close>: creating, configuring and releasing a client.
    \<^verbatim>\<open>Http_Read\<close> and \<^verbatim>\<open>Http_Exchange\<close> hold the properties, \<^verbatim>\<open>Http_Env\<close> a concrete parser and transport.

  \<^item> \<^verbatim>\<open>Ota_Ops\<close>: \<^verbatim>\<open>common/app_update/esp_ota_ops.c\<close>.  The record \<open>ota\<close> holds the list of updates in progress and the cached
    running partition; \<open>esp_ota_begin\<close>, \<open>esp_ota_write\<close>, \<open>esp_ota_end\<close> store an image, \<open>esp_ota_set_boot_partition\<close> and the
    rollback functions rewrite the two records of the partition \<open>otadata\<close>.  \<^verbatim>\<open>Ota_Image\<close> and \<^verbatim>\<open>Ota_Boot\<close> hold the
    properties, \<^verbatim>\<open>Ota_Env\<close> a concrete flash memory for the witnesses.  \<^verbatim>\<open>Https_Ota\<close>: \<^verbatim>\<open>common/esp_https_ota/src/esp_https_ota.c\<close>, which joins
    the HTTP client and the OTA operations: the record \<open>https_ota\<close> is its handle, \<open>esp_https_ota_perform\<close> one step of its state machine.
    \<^verbatim>\<open>Https_Ota_Props\<close> and \<^verbatim>\<open>Https_Ota_Safe\<close> hold the properties of the whole chain.  \<^verbatim>\<open>Otadrive\<close>: \<^verbatim>\<open>common/ota_driver/otadrive_esp.c\<close>, the client of the
    update service, and the task \<open>otadrive_test\<close> of \<^verbatim>\<open>main/blynk.c\<close> as an inductive relation over its passes; \<^verbatim>\<open>Otadrive_Props\<close> its property.
    \<^verbatim>\<open>App_Ota\<close>: \<^verbatim>\<open>common/app_ota/app_ota.c\<close>.

  \<^item> \<^verbatim>\<open>Dht\<close>, \<^verbatim>\<open>Dht_Props\<close>: \<^verbatim>\<open>common/dht_iot/dht_iot.c\<close>.  \<^verbatim>\<open>Led_Strip\<close>, \<^verbatim>\<open>Led_Strip_Props\<close>:
    \<^verbatim>\<open>common/led_strip/src/led_strip_rmt_ws2812.c\<close> and \<^verbatim>\<open>common/ws2812b/ws2812b.c\<close>.

  \<^item> \<^verbatim>\<open>Wifi_App\<close>, \<^verbatim>\<open>Wifi_Props\<close>: \<^verbatim>\<open>common/app_config/app_config.c\<close> with \<^verbatim>\<open>connec_wifi\<close>, \<^verbatim>\<open>smart_config\<close>,
    \<^verbatim>\<open>init_sofap\<close> and \<^verbatim>\<open>http_sever_sta\<close>.  \<^verbatim>\<open>App_Main\<close>, \<^verbatim>\<open>App_Main_Props\<close>: \<^verbatim>\<open>main/blynk.c\<close>, \<^verbatim>\<open>mqtt_app\<close>, \<^verbatim>\<open>output_iot\<close> and
    \<^verbatim>\<open>input_iot\<close>.

  \<^bold>\<open>What is shown.\<close>

  \<^item> Blynk client: a stream of frames, however it is cut into reads, is delivered message by message and in
    order (the interpretation \<open>blynk_stream\<close> of \<open>framed_stream\<close>); what is serialised is parsed back; a
    hardware command reaches the handler registered for it with the arguments sent; a response reaches the
    request that awaits it; identifiers are fresh until they wrap; \<^verbatim>\<open>select\<close> sleeps exactly until the first
    deadline, also across the wrap-around of the tick counter; an invariant of the client is kept by every
    step of its task, from \<^verbatim>\<open>blynk_start\<close> on, whatever the environment answers; a task that reconnects
    leaks no socket.
  \<^item> MQTT: builders and parsers are inverse to each other, fragments announce the whole length, nothing is
    written outside the buffer and every message lies inside it, the loop that draws identifiers ends when the generator gives a number other
    than 0, the outbox is a \<open>fifo_queue\<close> that leaks no block.  The client keeps its invariant
    through every interleaving of its task with the application's calls; a publication is one packet on the wire
    however small the output buffer; a message that arrives is delivered whole however small the input buffer; an
    acknowledgement completes the message it is for.
  \<^item> HTTP: the header list is a \<open>key_table\<close> with case-insensitive names and trimmed values.  When the transmit buffer holds the
    request line and each header line, the bytes sent are a reference request, for every way the transport splits the writes;
    when it does not, bytes are lost and success is reported, which is shown as well.  A response of announced length is
    read completely and in order however the transport cuts it, whether the caller reads it in portions or \<^verbatim>\<open>esp_http_client_perform\<close> reports it to the event handler.
  \<^item> Firmware update: a successful update stores the image byte for byte and verified, in pieces of any size, with or
    without flash encryption; selecting a partition makes the boot loader's choice that partition and never touches
    the record in force; a rollback ends in a verified image; the next update goes to the successor of the running
    partition.  The update over HTTPS composes the two: it returns, the flash holds exactly the body of the response, and the choice of
    the image to boot changes only when everything has been received, written and verified, whatever the network does.  The update task, through
    any number of checks and failed downloads, restarts the device only with a verified image; that image is booted next if the boot records can be written, and if they cannot the
    device restarts all the same with the choice it had.
  \<^item> Devices: the waveform of the sensor decodes to the values it carries and the driver leaves its critical
    section on every path; the colours of the pixels are the pulses on the wire, in whatever portions the
    RMT driver asks for them.
  \<^item> Application: a connection attempt refines an abstract one with a budget of retries, an unprovisioned
    device with a willing network ends up connected (what happens to the link later is not looked at), and a number published to
    the device's topic, or to a prefix of its name, is the level of the output pin, within the range of a C \<open>int\<close>.

  \<^bold>\<open>Writes outside an array.\<close>  The copies into buffers (\<open>mem_write\<close>) and the assignments at a computed index of the received
  payload, the arguments, the table of awaited responses, the MQTT messages and the transmit buffer (\<open>poke\<close>) lengthen the list when they
  go past its end, so that the properties which fix the length of an array say that no write leaves it.

  \<^bold>\<open>Loops, bounds and fuel.\<close>  Loops over arrays are structural recursion; the others (waiting for the pin,
  sending the rest of a buffer, parsing the form, the outbox clean-up) are total functions with a measure
  taken from the code's own counters, so that returning is part of their definition.  The loops whose end
  depends on outside code (the drawing of identifiers, the pieces of a long message, the fragments of a
  publication, the wait for the broker's answer, the search of the next boot sequence number, the reads of an HTTP response, the
  requests after redirections, the steps of an update) are \<open>partial_function\<close>s whose result is \<open>None\<close> when they
  do not return; the properties that rest on them show that they return, except for the wait for the broker's answer and for the chain of
  redirections, whose end is up to the other side.  Endless tasks are step relations.  There is no fuel.

  \<^bold>\<open>Parameters.\<close>  Code outside the tree appears as an argument: \<open>blynk_os\<close> (FreeRTOS, lwIP, callbacks), \<open>mqtt_env\<close>
  (random numbers, the build switch for identifiers), \<open>mqtt_os\<close> (transport, clock, heap and the application's
  event handler), the allocation oracles of the outbox and of the HTTP
  list, \<open>http_env\<close> and \<open>http_net\<close> (transports, the parsers of responses and of URLs, MD5, base64), \<open>update_env\<close> (those and the allocations of the
  update), \<open>otadrive_env\<close> (clock, mutex, event loop and connections of the update task), \<open>ota_env\<close> (flash, partition table, boot loader library), \<open>idf\<close> (results of ESP-IDF calls, while the events of the Wi-Fi
  driver are a list in the state), \<open>rmt_env\<close>, the levels of the sensor's pin over time, and the conversions
  to floating point.

  \<^bold>\<open>Not modelled.\<close>  The configuration of the MQTT client (the first third of \<^verbatim>\<open>mqtt_client.c\<close>: copies of the user's settings, and certificates
  for the TLS transport) and the vendored cJSON.  Left out for good: log and trace output (nothing depends on it, except for
  the \<^verbatim>\<open>%n\<close> directives in \<^verbatim>\<open>blynk_iot.c\<close>, which are modelled), \<^verbatim>\<open>app_nvs\<close> over the C++ library \<^verbatim>\<open>nvs_flash\<close>, the
  modules that only configure a peripheral (\<^verbatim>\<open>uart_iot\<close>, \<^verbatim>\<open>ledc_app\<close>, \<^verbatim>\<open>touch_pad_app\<close>, \<^verbatim>\<open>timer_tick\<close>), the vendored
  \<^verbatim>\<open>wpa_supplicant\<close>, build outputs and tests.
\<close>

end
